(* ===== verification/Lua_Strings.thy ===== *)
theory Lua_Strings
  imports Prelude
begin

text \<open>
  String literals of the generated Lua. \<open>esc\<close> is the escaping that the rule blocks use
  inside double quotes (\<open>pkg/web/static/js/blockly-rules.js\<close>), \<open>lua_quote\<close> the single-quote
  form of the bundled Lua generator. \<open>lua_read\<close> is the scanner of the language for short
  literals: it reads a literal up to its closing quote and gives the value and the rest of the
  input. The lemmas show that what a user types in a block field can neither end the literal
  early nor change in it.
\<close>

section \<open>Escaping\<close>

definition esc :: "string \<Rightarrow> string" where
  "esc s = replace_char DQ [BSL, DQ] (replace_char BSL [BSL, BSL] s)"

definition lua_quote :: "string \<Rightarrow> string" where
  "lua_quote a = (let a = replace_char BSL [BSL, BSL] a;
                   a = replace_char NL [BSL, NL] a;
                   a = replace_char (CHR 0x27) [BSL, CHR 0x27] a
               in CHR 0x27 # a @ [CHR 0x27])"

section \<open>The scanner\<close>

text \<open>
  Lua 5.3, section 3.1: a raw line break or the end of the input inside the literal is an error.
  Escapes: the one-letter ones, a quote, a backslash, a line break, and up to three decimal
  digits. The escapes with \<open>x\<close>, \<open>z\<close> and \<open>u\<close>, which no generated text contains,
  are refused.
\<close>

definition simple_escape :: "char \<Rightarrow> char option" where
  "simple_escape e =
     (if e \<in> {BSL, DQ, CHR 0x27, NL} then Some e
      else if e = CHR ''a'' then Some (CHR 0x07)
      else if e = CHR ''b'' then Some (CHR 0x08)
      else if e = CHR ''f'' then Some (CHR 0x0C)
      else if e = CHR ''n'' then Some NL
      else if e = CHR ''r'' then Some CR
      else if e = CHR ''t'' then Some (CHR 0x09)
      else if e = CHR ''v'' then Some (CHR 0x0B)
      else None)"

definition decimal_escape :: "string \<Rightarrow> (char \<times> string) option" where
  "decimal_escape s =
     (let ds = takeWhile is_digit (take 3 s)
      in if ds = [] \<or> 255 < read_nat ds then None
         else Some (char_of (read_nat ds), drop (length ds) s))"

lemma decimal_escape_shorter: "decimal_escape s = Some (c, t) \<Longrightarrow> length t < length s"
  by (auto simp: decimal_escape_def Let_def split: if_splits)
     (metis diff_less length_greater_0_conv list.size(3) not_less_zero takeWhile.simps(1)
       take_eq_Nil gr_zeroI)

definition emit :: "string \<Rightarrow> (string \<times> string) option \<Rightarrow> (string \<times> string) option" where
  \<comment> \<open>characters read in front of a further reading\<close>
  "emit v r = (case r of None \<Rightarrow> None | Some (w, t) \<Rightarrow> Some (v @ w, t))"

lemma emit_simps [simp]:
  "emit v None = None" "emit v (Some (w, t)) = Some (v @ w, t)"
  "emit [] r = r" "emit v (emit w r) = emit (v @ w) r"
  by (auto simp: emit_def split: option.splits)

lemma emit_Some_iff:
  "emit v r = Some (w, t) \<longleftrightarrow> (\<exists>w'. r = Some (w', t) \<and> w = v @ w')"
  by (cases r) auto

function lua_read :: "char \<Rightarrow> string \<Rightarrow> (string \<times> string) option" where
  "lua_read q [] = None"
| "lua_read q (c # s) =
     (if c = q then Some ([], s)
      else if c = NL \<or> c = CR then None
      else if c \<noteq> BSL then emit [c] (lua_read q s)
      else (case s of
              [] \<Rightarrow> None
            | e # s' \<Rightarrow>
                (case simple_escape e of
                   Some x \<Rightarrow> emit [x] (lua_read q s')
                 | None \<Rightarrow>
                     (case decimal_escape s of
                        None \<Rightarrow> None
                      | Some (x, t) \<Rightarrow> emit [x] (lua_read q t)))))"
  by pat_completeness auto
termination
  by (relation "measure (\<lambda>(q, s). length s)") (auto dest: decimal_escape_shorter)

definition lua_literal :: "string \<Rightarrow> (string \<times> string) option" where
  \<comment> \<open>a short literal: either quote opens it and the same one closes it\<close>
  "lua_literal s =
     (case s of
        [] \<Rightarrow> None
      | q # t \<Rightarrow> if q = DQ \<or> q = CHR 0x27 then lua_read q t else None)"

declare lua_read.simps [simp del]

section \<open>What the scanner reads back\<close>

definition one_line :: "string \<Rightarrow> bool" where
  "one_line s \<longleftrightarrow> NL \<notin> set s \<and> CR \<notin> set s"

lemma one_line_simps [simp]:
  "one_line []" "one_line (c # s) \<longleftrightarrow> c \<noteq> NL \<and> c \<noteq> CR \<and> one_line s"
  "one_line (s @ t) \<longleftrightarrow> one_line s \<and> one_line t"
  by (auto simp: one_line_def)

lemma esc_simps [simp, text_simps]:
  "esc [] = []"
  "esc (c # s) = (if c = BSL then [BSL, BSL] else if c = DQ then [BSL, DQ] else [c]) @ esc s"
  "esc (s @ t) = esc s @ esc t"
  by (auto simp: esc_def)

lemma esc_one_line: "one_line (esc s) \<longleftrightarrow> one_line s"
  by (induction s) auto

lemma lua_read_plain:
  "c \<noteq> q \<Longrightarrow> c \<noteq> NL \<Longrightarrow> c \<noteq> CR \<Longrightarrow> c \<noteq> BSL \<Longrightarrow> lua_read q (c # s) = emit [c] (lua_read q s)"
  by (simp add: lua_read.simps)

lemma lua_read_simple_escape:
  "q \<noteq> BSL \<Longrightarrow> simple_escape e = Some x \<Longrightarrow> lua_read q (BSL # e # s) = emit [x] (lua_read q s)"
  by (auto simp: lua_read.simps)

lemma lua_read_end [simp]: "lua_read q (q # t) = Some ([], t)"
  by (simp add: lua_read.simps)

lemma simple_escape_self [simp]:
  "simple_escape BSL = Some BSL" "simple_escape DQ = Some DQ" "simple_escape NL = Some NL"
  "simple_escape (CHR 0x27) = Some (CHR 0x27)"
  by (simp_all add: simple_escape_def)

text \<open>
  Escaped text in front of anything that the scanner accepts: the text is read unchanged and the
  scanner goes on behind it. Used for every literal that the templates build from a field.
\<close>

lemma lua_read_esc:
  "one_line s \<Longrightarrow> lua_read DQ (esc s @ t) = emit s (lua_read DQ t)"
proof (induction s)
  case Nil
  show ?case by simp
next
  case (Cons c s)
  then have IH: "lua_read DQ (esc s @ t) = emit s (lua_read DQ t)" and c: "c \<noteq> NL" "c \<noteq> CR"
    by simp_all
  have "lua_read DQ (esc (c # s) @ t) = emit [c] (lua_read DQ (esc s @ t))"
    using c by (auto simp: lua_read_simple_escape lua_read_plain)
  then show ?case by (simp add: IH)
qed

lemma lua_read_raw:
  \<comment> \<open>text with no quote, backslash or line break is read as it is\<close>
  "\<forall>c \<in> set s. c \<noteq> q \<and> c \<noteq> NL \<and> c \<noteq> CR \<and> c \<noteq> BSL \<Longrightarrow>
   lua_read q (s @ t) = emit s (lua_read q t)"
  by (induction s) (simp_all add: lua_read_plain)

lemma lua_read_esc_newline:
  \<comment> \<open>a line break that a field brings in is not escaped and ends the literal in an error\<close>
  assumes "one_line s" and "c = NL \<or> c = CR"
  shows "lua_read DQ (esc (s @ c # s') @ t) = None"
proof -
  have "lua_read DQ (esc (s @ c # s') @ t) = emit s (lua_read DQ (c # esc s' @ t))"
    using assms lua_read_esc [of s "c # esc s' @ t"] by auto
  also have "lua_read DQ (c # esc s' @ t) = None"
    using assms(2) by (auto simp: lua_read.simps)
  finally show ?thesis by simp
qed

lemma lua_read_quoted:
  "CR \<notin> set s \<Longrightarrow>
   lua_read (CHR 0x27)
     (replace_char (CHR 0x27) [BSL, CHR 0x27] (replace_char NL [BSL, NL]
        (replace_char BSL [BSL, BSL] s)) @ t)
   = emit s (lua_read (CHR 0x27) t)"
  by (induction s) (auto simp: lua_read_simple_escape lua_read_plain)

lemma lua_literal_quote:
  "CR \<notin> set s \<Longrightarrow> lua_literal (lua_quote s @ t) = Some (s, t)"
  using lua_read_quoted [of s "CHR 0x27 # t"]
  by (simp add: lua_literal_def lua_quote_def Let_def)

end
