(* ===== verification/Blockly_Core.thy ===== *)
theory Blockly_Core
  imports Lua_Strings
begin

text \<open>
  The part of the bundled Blockly 10.4.3 that the rules editor relies on
  (\<open>pkg/web/static/js/blockly/blockly_compressed.js\<close> and the generator class at the end of
  \<open>lua_compressed.js\<close>): blocks as trees of fields, inputs and a next block; the shape of a
  block type with the type checks of its connections; the connection checker; and the code
  generator's traversal (\<open>blockToCode\<close>, \<open>valueToCode\<close>, \<open>statementToCode\<close>,
  \<open>prefixLines\<close>, \<open>scrub_\<close>). The generator functions of the block types are a table
  that the traversal takes as an argument, as \<open>forBlock\<close> is a table in the code.

  Statement prefix, suffix and loop trap of the generator are null in this program (nothing sets
  them), so the branches that insert them are absent. Insertion markers (the transient preview
  blocks of a drag) and shadow blocks (the toolbox declares none) are not modelled.
\<close>

section \<open>Blocks\<close>

datatype fval =
    FText string
  | FNum int  \<comment> \<open>a JavaScript number with at most one decimal: \<open>FNum k\<close> is \<open>k / 10\<close>\<close>

datatype input_type = VALUE | STATEMENT

datatype block =
  Block (btype: string) (bid: string) (enabled: bool) (comment: "string option")
    (fields: "(string \<times> fval) list") (inputs: "binput list") (next_block: "block option")
and binput = Input (iname: string) (itype: input_type) (itarget: "block option")

definition getFieldValue :: "(string \<times> fval) list \<Rightarrow> string \<Rightarrow> fval option" where
  "getFieldValue fs n = map_of fs n"

definition show_tenths :: "int \<Rightarrow> string" where
  \<comment> \<open>\<open>String(k / 10)\<close>\<close>
  "show_tenths k =
     (let a = nat \<bar>k\<bar>
      in (if k < 0 then ''-'' else '''') @ show_nat (a div 10)
         @ (if a mod 10 = 0 then '''' else CHR ''.'' # [digit (a mod 10)]))"

fun js_String :: "fval option \<Rightarrow> string" where
  \<comment> \<open>\<open>String(v)\<close>; a field that the block does not have reads as null\<close>
  "js_String None = ''null''"
| "js_String (Some (FText s)) = s"
| "js_String (Some (FNum k)) = show_tenths k"

section \<open>Shapes and the connection checker\<close>

type_synonym check = "string list option"  \<comment> \<open>\<open>null\<close> fits everything\<close>

datatype field_class =
    FieldDropdown "string list"
  | FieldTextInput
  | FieldNumber int int int  \<comment> \<open>minimum, maximum and precision, in tenths\<close>

record shape =
  sh_output :: "check option"  \<comment> \<open>\<open>None\<close>: the block has no such connection\<close>
  sh_previous :: "check option"
  sh_next :: "check option"
  sh_inputs :: "(string \<times> input_type \<times> check) list"
  sh_fields :: "(string \<times> field_class \<times> fval) list"  \<comment> \<open>with the initial value\<close>

definition doTypeChecks :: "check \<Rightarrow> check \<Rightarrow> bool" where
  "doTypeChecks a b =
     (case (a, b) of
        (Some xs, Some ys) \<Rightarrow> list_ex (\<lambda>x. x \<in> set ys) xs
      | _ \<Rightarrow> True)"

definition field_ok :: "field_class \<Rightarrow> fval \<Rightarrow> bool" where
  \<comment> \<open>the values that a field of this class can hold\<close>
  "field_ok c v =
     (case (c, v) of
        (FieldDropdown opts, FText s) \<Rightarrow> s \<in> set opts
      | (FieldTextInput, FText s) \<Rightarrow> True
      | (FieldNumber mn mx prec, FNum k) \<Rightarrow> mn \<le> k \<and> k \<le> mx \<and> prec dvd k
      | _ \<Rightarrow> False)"

definition decimal_tenths :: "string \<Rightarrow> int option" where
  \<comment> \<open>\<open>Number(s)\<close> in tenths, for texts of digits with an optional sign and at most one decimal; other texts that
    \<open>Number\<close> reads (blanks, more decimals, exponents, hexadecimal digits) are treated like NaN here\<close>
  "decimal_tenths s =
     (let (sg, d) = (case s of c # cs \<Rightarrow> if c = CHR ''-'' then (- 1, cs) else (1, s) | [] \<Rightarrow> (1, s));
          whole = takeWhile is_digit d; rest = dropWhile is_digit d
      in if whole = [] then None
         else if rest = [] then Some (sg * 10 * int (read_nat whole))
         else if length rest = 2 \<and> hd rest = CHR ''.'' \<and> is_digit (rest ! 1)
           then Some (sg * (10 * int (read_nat whole) + int (digit_val (rest ! 1))))
         else None)"

definition number_value :: "fval \<Rightarrow> int option" where
  "number_value v = (case v of FNum k \<Rightarrow> Some k | FText s \<Rightarrow> decimal_tenths s)"

definition doClassValidation :: "field_class \<Rightarrow> fval \<Rightarrow> fval option" where
  \<comment> \<open>\<open>None\<close> is null: the new value is refused\<close>
  "doClassValidation c v =
     (case (c, v) of
        (FieldDropdown opts, FText s) \<Rightarrow> if s \<in> set opts then Some (FText s) else None
      | (FieldTextInput, FText s) \<Rightarrow> Some (FText s)
      | (FieldTextInput, FNum k) \<Rightarrow> Some (FText (show_tenths k))
      | (FieldNumber mn mx prec, v) \<Rightarrow>
          (case number_value v of
             None \<Rightarrow> None
           | Some k \<Rightarrow>
               (let a = min (max k mn) mx
                in Some (FNum (if prec = 0 then a else (2 * a + prec) div (2 * prec) * prec))))
      | _ \<Rightarrow> None)"

definition setValue :: "field_class \<Rightarrow> fval \<Rightarrow> fval \<Rightarrow> fval" where
  "setValue c old v = (case doClassValidation c v of None \<Rightarrow> old | Some w \<Rightarrow> w)"

section \<open>The code generator\<close>

datatype code =
    CStr string
  | CTuple string nat  \<comment> \<open>the code of a value block and its operator order\<close>

type_synonym input_code = "string \<times> input_type \<times> code result option"
type_synonym generator = "(string \<times> fval) list \<Rightarrow> input_code list \<Rightarrow> code result"

record lua_generator =
  forBlock :: "string \<Rightarrow> generator option"
  has_output :: "string \<Rightarrow> bool"
  wrap_text :: "string \<Rightarrow> string"  \<comment> \<open>\<open>utils.string.wrap\<close> at the comment width\<close>

abbreviation INDENT :: string where "INDENT \<equiv> ''  ''"

fun indent_newlines :: "string \<Rightarrow> string \<Rightarrow> string" where
  \<comment> \<open>every line break but one that ends the text\<close>
  "indent_newlines p [] = []"
| "indent_newlines p [c] = [c]"
| "indent_newlines p (c # d # s) = (if c = NL then NL # p else [c]) @ indent_newlines p (d # s)"

definition prefixLines :: "string \<Rightarrow> string \<Rightarrow> string" where
  "prefixLines a b = b @ indent_newlines b a"

definition getInputTarget :: "input_code list \<Rightarrow> string \<Rightarrow> code result option" where
  "getInputTarget ins n = (case map_of ins n of Some (t, c) \<Rightarrow> c | None \<Rightarrow> None)"

definition hasInput :: "input_code list \<Rightarrow> string \<Rightarrow> bool" where
  "hasInput ins n \<longleftrightarrow> n \<in> fst ` set ins"

definition needs_parens :: "nat \<Rightarrow> nat \<Rightarrow> bool" where
  \<comment> \<open>Lua's table of order overrides is empty\<close>
  "needs_parens outer inner \<longleftrightarrow> outer \<le> inner \<and> (outer \<noteq> inner \<or> (outer \<noteq> 0 \<and> outer \<noteq> 99))"

definition valueToCode :: "input_code list \<Rightarrow> string \<Rightarrow> nat \<Rightarrow> string result" where
  "valueToCode ins n outer =
     (case getInputTarget ins n of
        None \<Rightarrow> Inr ''''
      | Some (Inl e) \<Rightarrow> Inl e
      | Some (Inr (CStr s)) \<Rightarrow>
          if s = '''' then Inr '''' else Inl (TypeError ''Expecting tuple from value block'')
      | Some (Inr (CTuple s inner)) \<Rightarrow>
          if s = '''' then Inr ''''
          else Inr (if needs_parens outer inner then ''('' @ s @ '')'' else s))"

definition statementToCode :: "input_code list \<Rightarrow> string \<Rightarrow> string result" where
  "statementToCode ins n =
     (case getInputTarget ins n of
        None \<Rightarrow> Inr ''''
      | Some (Inl e) \<Rightarrow> Inl e
      | Some (Inr (CTuple s inner)) \<Rightarrow> Inl (TypeError ''Expecting code from statement block'')
      | Some (Inr (CStr s)) \<Rightarrow> Inr (if s = '''' then '''' else prefixLines s INDENT))"

fun code_text :: "code \<Rightarrow> string" where
  \<comment> \<open>the value of \<open>blockToCode\<close> in a string concatenation\<close>
  "code_text (CStr s) = s"
| "code_text (CTuple s n) = s @ '','' @ show_nat n"

fun nested_comments :: "block \<Rightarrow> string list" and input_comments :: "binput \<Rightarrow> string list" where
  \<comment> \<open>the comments of \<open>getDescendants(true)\<close>: the block, its inputs in order, its next block\<close>
  "nested_comments (Block ty i en cm fs ins nx) =
     (case cm of Some c \<Rightarrow> if c = '''' then [] else [c] | None \<Rightarrow> [])
     @ concat (map input_comments ins)
     @ (case nx of Some b \<Rightarrow> nested_comments b | None \<Rightarrow> [])"
| "input_comments (Input n t None) = []"
| "input_comments (Input n t (Some b)) = nested_comments b"

definition allNestedComments :: "block \<Rightarrow> string" where
  "allNestedComments b =
     (let cs = nested_comments b in if cs = [] then '''' else js_join [NL] (cs @ ['''']))"

definition comment_code :: "(string \<Rightarrow> string) \<Rightarrow> string option \<Rightarrow> binput list \<Rightarrow> string" where
  "comment_code wrap cm ins =
     (case cm of
        Some c \<Rightarrow> if c = '''' then '''' else prefixLines (wrap c) ''-- '' @ [NL]
      | None \<Rightarrow> '''')
     @ concat (map (\<lambda>i. case i of
           Input n VALUE (Some b) \<Rightarrow>
             (let e = allNestedComments b in if e = '''' then '''' else prefixLines e ''-- '')
         | _ \<Rightarrow> '''') ins)"

fun blockToCode :: "lua_generator \<Rightarrow> block \<Rightarrow> code result"
  and inputToCode :: "lua_generator \<Rightarrow> binput \<Rightarrow> input_code" where
  "blockToCode G (Block ty i en cm fs ins nx) =
     (let rest = (case nx of None \<Rightarrow> Inr (CStr '''') | Some b \<Rightarrow> blockToCode G b)
      in if \<not> en then rest
         else (case forBlock G ty of
             None \<Rightarrow> Inl (PlainError (''Lua generator does not know how to generate code for block type '' @ ty))
           | Some g \<Rightarrow>
               bind_result (g fs (map (inputToCode G) ins)) (\<lambda>c.
                 case c of
                   CTuple s n \<Rightarrow>
                     if has_output G ty
                     then bind_result rest (\<lambda>r. Inr (CTuple (s @ code_text r) n))
                     else Inl (TypeError (''Expecting string from statement block: '' @ ty))
                 | CStr s \<Rightarrow>
                     bind_result rest (\<lambda>r.
                       Inr (CStr ((if has_output G ty then '''' else comment_code (wrap_text G) cm ins)
                                  @ s @ code_text r))))))"
| "inputToCode G (Input n t None) = (n, t, None)"
| "inputToCode G (Input n t (Some b)) = (n, t, Some (blockToCode G b))"

section \<open>Well-formed blocks\<close>

text \<open>
  A shape table gives the shape of a block type; it also sees the names of the inputs, since a
  mutator (\<open>controls_if\<close>) adds inputs to a block. A block is well-formed when its fields hold
  values of their classes, its inputs are those of the shape and every connection passes the
  connection checker: what newBlock, the field editors and \<open>connect\<close> produce.
\<close>

type_synonym shapes = "string \<Rightarrow> string list \<Rightarrow> shape option"

definition block_shape :: "shapes \<Rightarrow> block \<Rightarrow> shape option" where
  "block_shape Sh b = Sh (btype b) (map iname (inputs b))"

definition fits :: "shapes \<Rightarrow> input_type \<Rightarrow> check \<Rightarrow> block \<Rightarrow> bool" where
  \<comment> \<open>the child's upper connection exists and \<open>canConnect\<close> accepts the pair\<close>
  "fits Sh t c b =
     (case block_shape Sh b of
        None \<Rightarrow> False
      | Some sh \<Rightarrow>
          (case (if t = VALUE then sh_output sh else sh_previous sh) of
             None \<Rightarrow> False
           | Some c' \<Rightarrow> doTypeChecks c c'))"

definition wf_fields :: "(string \<times> fval) list \<Rightarrow> (string \<times> field_class \<times> fval) list \<Rightarrow> bool" where
  "wf_fields fs cs \<longleftrightarrow> list_all2 (\<lambda>(n, v) (m, c, d). n = m \<and> field_ok c v) fs cs"

fun wf_block :: "shapes \<Rightarrow> block \<Rightarrow> bool"
  and wf_inputs :: "shapes \<Rightarrow> binput list \<Rightarrow> (string \<times> input_type \<times> check) list \<Rightarrow> bool" where
  "wf_block Sh (Block ty i en cm fs ins nx) =
     (case Sh ty (map iname ins) of
        None \<Rightarrow> False
      | Some sh \<Rightarrow>
          wf_fields fs (sh_fields sh) \<and> wf_inputs Sh ins (sh_inputs sh) \<and>
          (case nx of
             None \<Rightarrow> True
           | Some b \<Rightarrow>
               (case sh_next sh of
                  None \<Rightarrow> False
                | Some c \<Rightarrow> fits Sh STATEMENT c b \<and> wf_block Sh b)))"
| "wf_inputs Sh [] [] = True"
| "wf_inputs Sh (Input n t tgt # ins) ((m, u, c) # cs) =
     (n = m \<and> t = u \<and>
      (case tgt of None \<Rightarrow> True | Some b \<Rightarrow> fits Sh t c b \<and> wf_block Sh b) \<and>
      wf_inputs Sh ins cs)"
| "wf_inputs Sh _ _ = False"

lemma wf_fieldsD:
  assumes "wf_fields fs cs" and "map_of cs n = Some (c, d)"
  shows "\<exists>v. getFieldValue fs n = Some v \<and> field_ok c v"
  using assms unfolding wf_fields_def getFieldValue_def
  by (induction fs cs rule: list_all2_induct) (auto split: if_splits)

lemma field_ok_cases:
  "field_ok (FieldDropdown opts) v \<longleftrightarrow> (\<exists>s \<in> set opts. v = FText s)"
  "field_ok FieldTextInput v \<longleftrightarrow> (\<exists>s. v = FText s)"
  "field_ok (FieldNumber mn mx prec) v \<longleftrightarrow> (\<exists>k. v = FNum k \<and> mn \<le> k \<and> k \<le> mx \<and> prec dvd k)"
  by (auto simp: field_ok_def split: fval.splits)

lemma doClassValidation_ok:
  \<comment> \<open>what a field accepts is again a value of the field\<close>
  assumes "doClassValidation c v = Some w"
    and "\<And>mn mx prec. c = FieldNumber mn mx prec \<Longrightarrow>
           0 < prec \<and> prec dvd mn \<and> prec dvd mx \<and> mn \<le> mx"
  shows "field_ok c w"
proof (cases c)
  case (FieldNumber mn mx prec)
  with assms obtain k where w: "w = FNum ((2 * min (max k mn) mx + prec) div (2 * prec) * prec)"
    by (auto simp: doClassValidation_def Let_def split: option.splits if_splits)
  from assms(2) [OF FieldNumber] obtain m n where mn: "mn = prec * m" and mx: "mx = prec * n"
    and p: "0 < prec" and le: "m \<le> n"
    by (auto simp: dvd_def)
  define a where "a = min (max k mn) mx"
  have a: "prec * m \<le> a" "a \<le> prec * n"
    using le p by (auto simp: a_def mn mx mult_left_mono)
  have "m = (2 * prec * m) div (2 * prec)" using p by simp
  also have "\<dots> \<le> (2 * a + prec) div (2 * prec)"
    using a(1) p by (intro zdiv_mono1) auto
  finally have lo: "m \<le> (2 * a + prec) div (2 * prec)" .
  have "(2 * a + prec) div (2 * prec) \<le> (prec + n * (2 * prec)) div (2 * prec)"
    using a(2) p by (intro zdiv_mono1) (auto simp: algebra_simps)
  also have "\<dots> = n + prec div (2 * prec)"
    using p by (intro div_mult_self1) auto
  also have "prec div (2 * prec) = 0"
    using p by (intro div_pos_pos_trivial) auto
  finally have hi: "(2 * a + prec) div (2 * prec) \<le> n" by simp
  have "prec * m \<le> prec * ((2 * a + prec) div (2 * prec))"
    and "prec * ((2 * a + prec) div (2 * prec)) \<le> prec * n"
    using p lo hi by (simp_all add: mult_left_mono)
  moreover have "w = FNum (prec * ((2 * a + prec) div (2 * prec)))"
    using w by (simp add: a_def mult.commute)
  ultimately show ?thesis by (simp add: FieldNumber field_ok_cases mn mx)
qed (use assms in \<open>auto simp: doClassValidation_def field_ok_cases split: fval.splits if_splits\<close>)

section \<open>Interface: a language of blocks\<close>

definition codes_ok :: "input_code list \<Rightarrow> (string \<times> input_type \<times> check) list \<Rightarrow> bool" where
  \<comment> \<open>what the traversal hands to a generator: the inputs of the shape, each empty or with code of
    its kind; a disabled value block gives the empty text\<close>
  "codes_ok ics cs \<longleftrightarrow>
     list_all2 (\<lambda>(n, t, r) (m, u, c). n = m \<and> t = u \<and>
       (r = None \<or> (t = STATEMENT \<and> (\<exists>s. r = Some (Inr (CStr s)))) \<or>
        (t = VALUE \<and> (r = Some (Inr (CStr '''')) \<or> (\<exists>s k. r = Some (Inr (CTuple s k))))))) ics cs"

definition gen_ok :: "shapes \<Rightarrow> lua_generator \<Rightarrow> block \<Rightarrow> bool" where
  \<comment> \<open>generation succeeds, with a text for a statement block and a tuple for a value block\<close>
  "gen_ok Sh G b \<longleftrightarrow>
     (\<forall>sh. block_shape Sh b = Some sh \<longrightarrow>
        (if sh_output sh = None then \<exists>s. blockToCode G b = Inr (CStr s)
         else blockToCode G b = Inr (CStr '''') \<or> (\<exists>s k. blockToCode G b = Inr (CTuple s k))))"

locale block_language =
  fixes Sh :: shapes and G :: lua_generator
  assumes one_side: "Sh ty ns = Some sh \<Longrightarrow> sh_output sh = None \<or> sh_next sh = None \<and> sh_previous sh = None"
    and output_known: "Sh ty ns = Some sh \<Longrightarrow> has_output G ty \<longleftrightarrow> sh_output sh \<noteq> None"
    and statement_gen:
      "Sh ty (map fst ics) = Some sh \<Longrightarrow> sh_output sh = None \<Longrightarrow> wf_fields fs (sh_fields sh) \<Longrightarrow>
       codes_ok ics (sh_inputs sh) \<Longrightarrow> \<exists>g s. forBlock G ty = Some g \<and> g fs ics = Inr (CStr s)"
    and value_gen:
      "Sh ty (map fst ics) = Some sh \<Longrightarrow> sh_output sh \<noteq> None \<Longrightarrow> wf_fields fs (sh_fields sh) \<Longrightarrow>
       codes_ok ics (sh_inputs sh) \<Longrightarrow> \<exists>g s k. forBlock G ty = Some g \<and> g fs ics = Inr (CTuple s k)"
begin

lemma fst_inputToCode: "fst \<circ> inputToCode G = iname"
proof
  show "(fst \<circ> inputToCode G) i = iname i" for i
    by (cases "(G, i)" rule: inputToCode.cases) auto
qed

lemma codes_ok_inputs:
  "wf_inputs Sh ins cs \<Longrightarrow>
   (\<And>i b. i \<in> set ins \<Longrightarrow> itarget i = Some b \<Longrightarrow> wf_block Sh b \<Longrightarrow> gen_ok Sh G b) \<Longrightarrow>
   codes_ok (map (inputToCode G) ins) cs"
proof (induction ins arbitrary: cs)
  case Nil
  then show ?case by (cases cs) (auto simp: codes_ok_def)
next
  case (Cons i ins)
  from Cons.prems(1) obtain n t tgt c cs' where i: "i = Input n t tgt" and cs: "cs = (n, t, c) # cs'"
    and wf: "wf_inputs Sh ins cs'"
    and tgt: "case tgt of None \<Rightarrow> True | Some b \<Rightarrow> fits Sh t c b \<and> wf_block Sh b"
    by (cases i; cases cs) auto
  have rest: "codes_ok (map (inputToCode G) ins) cs'"
    by (rule Cons.IH [OF wf]) (use Cons.prems(2) in auto)
  show ?case
  proof (cases tgt)
    case None
    with i cs rest show ?thesis by (simp add: codes_ok_def)
  next
    case (Some b)
    with tgt have "gen_ok Sh G b" and f: "fits Sh t c b"
      using Cons.prems(2) [of i b] i by simp_all
    from f obtain sh where sh: "block_shape Sh b = Some sh"
      and conn: "(if t = VALUE then sh_output sh else sh_previous sh) \<noteq> None"
      by (auto simp: fits_def split: option.splits)
    have "t = STATEMENT \<Longrightarrow> sh_output sh = None"
      using one_side [of "btype b" "map iname (inputs b)" sh] sh conn by (auto simp: block_shape_def)
    with \<open>gen_ok Sh G b\<close> sh conn rest show ?thesis
      by (cases t) (auto simp: gen_ok_def codes_ok_def i cs Some)
  qed
qed

text \<open>Generation is total on well-formed blocks: no branch that throws is reached.\<close>

lemma gen_ok_Block:
  assumes wf: "wf_block Sh (Block ty i en cm fs ins nx)"
    and ins: "\<And>i b. i \<in> set ins \<Longrightarrow> itarget i = Some b \<Longrightarrow> wf_block Sh b \<Longrightarrow> gen_ok Sh G b"
    and nx: "\<And>b. nx = Some b \<Longrightarrow> wf_block Sh b \<Longrightarrow> gen_ok Sh G b"
  shows "gen_ok Sh G (Block ty i en cm fs ins nx)"
proof -
  from wf obtain sh where sh: "Sh ty (map iname ins) = Some sh" and fs: "wf_fields fs (sh_fields sh)"
    and wi: "wf_inputs Sh ins (sh_inputs sh)"
    and next': "case nx of None \<Rightarrow> True | Some b \<Rightarrow>
       (case sh_next sh of None \<Rightarrow> False | Some c \<Rightarrow> fits Sh STATEMENT c b \<and> wf_block Sh b)"
    by (auto split: option.splits)
  have codes: "codes_ok (map (inputToCode G) ins) (sh_inputs sh)"
    using wi ins by (rule codes_ok_inputs)
  have shape: "block_shape Sh (Block ty i en cm fs ins nx) = Some sh"
    by (simp add: block_shape_def sh)
  obtain r where r: "(case nx of None \<Rightarrow> Inr (CStr '''') | Some b \<Rightarrow> blockToCode G b) = Inr (CStr r)"
    and r_empty: "sh_output sh \<noteq> None \<Longrightarrow> r = ''''"
  proof (cases nx)
    case None
    then show ?thesis by (auto intro: that)
  next
    case (Some b)
    with next' obtain c sh' where "sh_next sh = Some c" and wf': "wf_block Sh b"
      and b: "block_shape Sh b = Some sh'" "sh_previous sh' \<noteq> None"
      by (auto simp: fits_def split: option.splits)
    then have "sh_output sh' = None" and "sh_output sh = None"
      using one_side [of "btype b" "map iname (inputs b)" sh'] one_side [OF sh]
      by (auto simp: block_shape_def)
    with nx [OF Some wf'] b Some show ?thesis by (auto simp: gen_ok_def intro: that)
  qed
  note out = output_known [OF sh]
  show ?thesis
  proof (cases "sh_output sh = None")
    case True
    from statement_gen [of ty "map (inputToCode G) ins" sh fs] sh True fs codes
    obtain g s where "forBlock G ty = Some g" "g fs (map (inputToCode G) ins) = Inr (CStr s)"
      by (auto simp: fst_inputToCode)
    with True out r shape show ?thesis by (simp add: gen_ok_def Let_def)
  next
    case False
    from value_gen [of ty "map (inputToCode G) ins" sh fs] sh False fs codes
    obtain g s k where "forBlock G ty = Some g" "g fs (map (inputToCode G) ins) = Inr (CTuple s k)"
      by (auto simp: fst_inputToCode)
    with False out r r_empty shape show ?thesis by (simp add: gen_ok_def Let_def)
  qed
qed

lemma blockToCode_total: "wf_block Sh b \<Longrightarrow> gen_ok Sh G b"
proof (induction b rule: block.induct
    [where ?P2.0 = "\<lambda>i. \<forall>b. itarget i = Some b \<longrightarrow> wf_block Sh b \<longrightarrow> gen_ok Sh G b"])
  case (Block ty i en cm fs ins nx)
  then show ?case by (intro gen_ok_Block) auto
next
  case (Input n t tgt)
  then show ?case by auto
qed

end

end
