(* ===== verification/Logic_Blocks.thy ===== *)
theory Logic_Blocks
  imports Blockly_Core
begin

text \<open>
  The standard blocks that the toolbox of the rules page offers beside the rule blocks:
  \<open>controls_if\<close>, \<open>logic_compare\<close>, \<open>logic_operation\<close>, \<open>logic_negate\<close> and
  \<open>text\<close>. Shapes from \<open>blocks_compressed.js\<close>, generators from \<open>lua_compressed.js\<close>.
\<close>

section \<open>Operator orders of Lua\<close>

abbreviation (input) ORDER_ATOMIC :: nat where "ORDER_ATOMIC \<equiv> 0"
abbreviation (input) ORDER_UNARY :: nat where "ORDER_UNARY \<equiv> 3"
abbreviation (input) ORDER_RELATIONAL :: nat where "ORDER_RELATIONAL \<equiv> 7"
abbreviation (input) ORDER_AND :: nat where "ORDER_AND \<equiv> 8"
abbreviation (input) ORDER_OR :: nat where "ORDER_OR \<equiv> 9"
abbreviation (input) ORDER_NONE :: nat where "ORDER_NONE \<equiv> 99"

definition or_else :: "string \<Rightarrow> string \<Rightarrow> string" where
  \<comment> \<open>\<open>s || d\<close> for a string \<open>s\<close>\<close>
  "or_else s d = (if s = '''' then d else s)"

section \<open>Shapes\<close>

definition empty_shape :: shape where
  "empty_shape = \<lparr>sh_output = None, sh_previous = None, sh_next = None, sh_inputs = [], sh_fields = []\<rparr>"

definition IFn :: "nat \<Rightarrow> string" where "IFn c = ''IF'' @ show_nat c"
definition DOn :: "nat \<Rightarrow> string" where "DOn c = ''DO'' @ show_nat c"

definition controls_if_names :: "nat \<Rightarrow> bool \<Rightarrow> string list" where
  \<comment> \<open>\<open>updateShape_\<close>: one pair of inputs, one more per \<open>elseif\<close>, then \<open>ELSE\<close>\<close>
  "controls_if_names elseifCount has_else =
     concat (map (\<lambda>k. [IFn k, DOn k]) [0 ..< Suc elseifCount]) @ (if has_else then [''ELSE''] else [])"

definition if_input :: "string \<Rightarrow> string \<times> input_type \<times> check" where
  "if_input m = (if take 2 m = ''IF'' then (m, VALUE, Some [''Boolean'']) else (m, STATEMENT, None))"

definition controls_if_shape :: "string list \<Rightarrow> shape option" where
  "controls_if_shape names =
     (let n = length names div 2
      in if 0 < n \<and> names = controls_if_names (n - 1) (odd (length names))
         then Some (empty_shape\<lparr>sh_previous := Some None, sh_next := Some None,
                sh_inputs := map if_input names\<rparr>)
         else None)"

definition logic_compare_shape :: shape where
  "logic_compare_shape = empty_shape\<lparr>sh_output := Some (Some [''Boolean'']),
     sh_inputs := [(''A'', VALUE, None), (''B'', VALUE, None)],
     sh_fields := [(''OP'', FieldDropdown [''EQ'', ''NEQ'', ''LT'', ''LTE'', ''GT'', ''GTE''], FText ''EQ'')]\<rparr>"

definition logic_operation_shape :: shape where
  "logic_operation_shape = empty_shape\<lparr>sh_output := Some (Some [''Boolean'']),
     sh_inputs := [(''A'', VALUE, Some [''Boolean'']), (''B'', VALUE, Some [''Boolean''])],
     sh_fields := [(''OP'', FieldDropdown [''AND'', ''OR''], FText ''AND'')]\<rparr>"

definition logic_negate_shape :: shape where
  "logic_negate_shape = empty_shape\<lparr>sh_output := Some (Some [''Boolean'']),
     sh_inputs := [(''BOOL'', VALUE, Some [''Boolean''])]\<rparr>"

definition text_shape :: shape where
  "text_shape = empty_shape\<lparr>sh_output := Some (Some [''String'']),
     sh_fields := [(''TEXT'', FieldTextInput, FText '''')]\<rparr>"

section \<open>Generators\<close>

lemma finite_if_inputs: "finite {k. c < k \<and> hasInput ins (IFn k)}"
proof -
  have "IFn ` {k. c < k \<and> hasInput ins (IFn k)} \<subseteq> fst ` set ins"
    by (auto simp: hasInput_def)
  then have "finite (IFn ` {k. c < k \<and> hasInput ins (IFn k)})"
    by (rule finite_subset) simp
  then show ?thesis by (rule finite_imageD) (auto simp: inj_on_def IFn_def)
qed

function if_chain :: "input_code list \<Rightarrow> nat \<Rightarrow> string \<Rightarrow> string result" where
  \<comment> \<open>the loop over \<open>IF0\<close>, \<open>IF1\<close>, and so on, with the text so far\<close>
  "if_chain ins c d =
     bind_result (valueToCode ins (IFn c) ORDER_NONE) (\<lambda>e.
     bind_result (statementToCode ins (DOn c)) (\<lambda>f.
       let d' = d @ (if 0 < c then ''else'' else '''') @ ''if '' @ or_else e ''false'' @ '' then'' @ [NL] @ f
       in if hasInput ins (IFn (Suc c)) then if_chain ins (Suc c) d' else Inr d'))"
  by pat_completeness auto
termination
proof (relation "measure (\<lambda>(ins, c, d). card {k. c < k \<and> hasInput ins (IFn k)})")
  fix ins :: "input_code list" and c :: nat and d d' :: string
  assume "hasInput ins (IFn (Suc c))"
  then have "{k. Suc c < k \<and> hasInput ins (IFn k)} \<subset> {k. c < k \<and> hasInput ins (IFn k)}" by auto
  then show "((ins, Suc c, d'), ins, c, d) \<in> measure (\<lambda>(ins, c, d). card {k. c < k \<and> hasInput ins (IFn k)})"
    by (simp add: psubset_card_mono finite_if_inputs)
qed simp

declare if_chain.simps [simp del]

definition controls_if :: generator where
  "controls_if fs ins =
     bind_result (if_chain ins 0 '''') (\<lambda>d.
       if hasInput ins ''ELSE''
       then bind_result (statementToCode ins ''ELSE'') (\<lambda>c.
              Inr (CStr (d @ ''else'' @ [NL] @ c @ ''end'' @ [NL])))
       else Inr (CStr (d @ ''end'' @ [NL])))"

definition compare_op :: "string \<Rightarrow> string" where
  "compare_op s = (case map_of [(''EQ'', ''==''), (''NEQ'', ''~=''), (''LT'', ''<''), (''LTE'', ''<=''),
                                (''GT'', ''>''), (''GTE'', ''>='')] s of
                     Some t \<Rightarrow> t | None \<Rightarrow> ''undefined'')"

definition logic_compare :: generator where
  "logic_compare fs ins =
     (let c = compare_op (js_String (getFieldValue fs ''OP''))
      in bind_result (valueToCode ins ''A'' ORDER_RELATIONAL) (\<lambda>d.
         bind_result (valueToCode ins ''B'' ORDER_RELATIONAL) (\<lambda>a.
           Inr (CTuple (or_else d ''0'' @ '' '' @ c @ '' '' @ or_else a ''0'') ORDER_RELATIONAL))))"

definition logic_operation :: generator where
  "logic_operation fs ins =
     (let c = (if getFieldValue fs ''OP'' = Some (FText ''AND'') then ''and'' else ''or'');
          d = (if c = ''and'' then ORDER_AND else ORDER_OR)
      in bind_result (valueToCode ins ''A'' d) (\<lambda>e.
         bind_result (valueToCode ins ''B'' d) (\<lambda>a.
           let b = (if c = ''and'' then ''true'' else ''false'');
               e' = (if e = '''' \<and> a = '''' then ''false'' else or_else e b);
               a' = (if e = '''' \<and> a = '''' then ''false'' else or_else a b)
           in Inr (CTuple (e' @ '' '' @ c @ '' '' @ a') d))))"

definition logic_negate :: generator where
  "logic_negate fs ins =
     bind_result (valueToCode ins ''BOOL'' ORDER_UNARY) (\<lambda>b.
       Inr (CTuple (''not '' @ or_else b ''true'') ORDER_UNARY))"

definition text_generator :: generator where
  "text_generator fs ins = Inr (CTuple (lua_quote (js_String (getFieldValue fs ''TEXT''))) ORDER_ATOMIC)"

section \<open>Generators do not throw on checked inputs\<close>

lemma codes_okD:
  assumes "codes_ok ics cs" and "getInputTarget ics n = Some r"
  shows "\<exists>t c. map_of cs n = Some (t, c) \<and>
    ((t = STATEMENT \<and> (\<exists>s. r = Inr (CStr s))) \<or>
     (t = VALUE \<and> (r = Inr (CStr '''') \<or> (\<exists>s k. r = Inr (CTuple s k)))))"
  using assms unfolding codes_ok_def
  by (induction ics cs rule: list_all2_induct) (auto simp: getInputTarget_def split: if_splits)

lemma valueToCode_total:
  assumes "codes_ok ics cs" and "\<And>t c. map_of cs n = Some (t, c) \<Longrightarrow> t = VALUE"
  shows "\<exists>s. valueToCode ics n k = Inr s"
proof (cases "getInputTarget ics n")
  case None
  then show ?thesis by (simp add: valueToCode_def)
next
  case (Some r)
  with codes_okD [OF assms(1) Some] assms(2) show ?thesis
    by (auto simp: valueToCode_def)
qed

lemma statementToCode_total:
  assumes "codes_ok ics cs" and "\<And>t c. map_of cs n = Some (t, c) \<Longrightarrow> t = STATEMENT"
  shows "\<exists>s. statementToCode ics n = Inr s"
proof (cases "getInputTarget ics n")
  case None
  then show ?thesis by (simp add: statementToCode_def)
next
  case (Some r)
  with codes_okD [OF assms(1) Some] assms(2) show ?thesis
    by (auto simp: statementToCode_def)
qed

lemma map_of_if_inputs:
  "map_of (map if_input ns) n
   = (if n \<in> set ns then Some (if take 2 n = ''IF'' then (VALUE, Some [''Boolean'']) else (STATEMENT, None))
      else None)"
  by (induction ns) (auto simp: if_input_def)

lemma if_chain_total:
  assumes "\<And>c. \<exists>s. valueToCode ins (IFn c) ORDER_NONE = Inr s"
    and "\<And>c. \<exists>s. statementToCode ins (DOn c) = Inr s"
  shows "\<exists>s. if_chain ins c d = Inr s"
  using assms
proof (induction ins c d rule: if_chain.induct)
  case (1 ins c d)
  from "1.prems" obtain e f where e: "valueToCode ins (IFn c) ORDER_NONE = Inr e"
    and f: "statementToCode ins (DOn c) = Inr f" by blast
  with 1 show ?case by (subst if_chain.simps) (auto simp: Let_def)
qed

lemma controls_if_total:
  assumes "controls_if_shape (map fst ics) = Some sh" and "codes_ok ics (sh_inputs sh)"
  shows "\<exists>s. controls_if fs ics = Inr (CStr s)"
proof -
  have ins: "sh_inputs sh = map if_input (map fst ics)"
    using assms(1) by (auto simp: controls_if_shape_def Let_def split: if_splits simp del: map_map)
  have v: "\<exists>s. valueToCode ics (IFn c) ORDER_NONE = Inr s" for c
    by (rule valueToCode_total [OF assms(2)])
      (auto simp: ins map_of_if_inputs IFn_def split: if_splits simp del: map_map)
  have st: "\<exists>s. statementToCode ics (DOn c) = Inr s" for c
    by (rule statementToCode_total [OF assms(2)])
      (auto simp: ins map_of_if_inputs DOn_def split: if_splits simp del: map_map)
  have "\<exists>s. statementToCode ics ''ELSE'' = Inr s"
    by (rule statementToCode_total [OF assms(2)])
      (auto simp: ins map_of_if_inputs split: if_splits simp del: map_map)
  then show ?thesis
    using if_chain_total [OF v st, of 0 "''''"] by (auto simp: controls_if_def)
qed

end
