(* ===== verification/Rules_Blocks.thy ===== *)
theory Rules_Blocks
  imports Logic_Blocks
begin

text \<open>
  The rule blocks of \<open>pkg/web/static/js/blockly-rules.js\<close>: their shapes (\<open>Blockly.Blocks\<close>),
  their Lua generators (\<open>Blockly.Lua\<close>), the starter workspace and \<open>generateLua\<close>. The file
  also fixes the language of the rules page, the rule blocks with the logic blocks of the
  toolbox, and interprets the interface \<open>block_language\<close> on it.
\<close>

section \<open>The preamble of every generated file\<close>

definition PREAMBLE_lines :: "string list" where
  \<open>PREAMBLE_lines =
    [
     ''-- generated by thesada visual rules editor'',
     ''-- SPDX-License-Identifier: GPL-3.0-only'',
     '''',
     ''Log.info("rules.lua loaded")'',
     '''',
     ''local prefix = Config.get("mqtt.topic_prefix") or "thesada/node"'',
     ''local unit   = Config.get("temperature.unit") or "C"'',
     '''',
     ''local sustain = {}'',
     ''local cooldown = {}'',
     ''local COOLDOWN_MS = 900000'',
     ''local TEMP_SUSTAIN = 5'',
     ''local TEMP_SUSTAIN_MS = 300000'',
     ''local PUMP_SUSTAIN = 5'',
     '''',
     ''local function can_alert(key)'',
     ''  local now = Node.uptime()'',
     ''  if cooldown[key] and (now - cooldown[key]) < COOLDOWN_MS then'',
     ''    return false'',
     ''  end'',
     ''  return true'',
     ''end'',
     '''',
     ''local function set_cooldown(key)'',
     ''  cooldown[key] = Node.uptime()'',
     ''end'',
     '''',
     ''-- Method calls only: string, table and math are not tables in the device Lua.'',
     ''-- 255 B fits the device MQTT offline queue slot.'',
     ''local ALERT_MAX = 255'',
     ''local CODE_MAX = 64'',
     '''',
     ''-- JSON string body of s in at most max bytes, whole characters. NUL is dropped.'',
     ''local function json_body(s, max)'',
     ''  local used, full = 0, false'',
     ''  return (tostring(s):gsub(".['' @ [BSL] @ ''128-'' @ [BSL] @ ''191]*", function(ch)'',
     ''    local b, e = ch:byte(), ch'',
     ''    if b == 0 then e = ch:sub(2)'',
     ''    elseif b == 34 or b == 92 then e = "'' @ [BSL] @ [BSL] @ ''" .. ch'',
     ''    elseif b < 32 or b == 127 then e = ([['' @ [BSL] @ ''u%04x]]):format(b) .. ch:sub(2) end'',
     ''    if full or used + #e > max then full = true return "" end'',
     ''    used = used + #e'',
     ''    return e'',
     ''  end))'',
     ''end'',
     '''',
     ''local function alert_json(key, msg)'',
     ''  local fmt = [[{"severity":"warn","code":"%s","message":"%s"}]]'',
     ''  local code = json_body(key, CODE_MAX)'',
     ''  local room = ALERT_MAX - #(fmt:format(code, ""))'',
     ''  return fmt:format(code, json_body(msg, room))'',
     ''end'',
     '''',
     ''local function notify(msg, key)'',
     ''  Log.warn(msg)'',
     ''  local ok = true'',
     ''  if Telegram and Telegram.broadcast then'',
     ''    ok = Telegram.broadcast(msg)'',
     ''  end'',
     ''  MQTT.publish(prefix .. "/alert", alert_json(key, msg))'',
     ''  if ok then set_cooldown(key) end'',
     ''end'',
     '''',
     ''local temp_sustain_start = {}'',
     '''',
     ''local function temp_sustained(key)'',
     ''  local now = Node.uptime()'',
     ''  sustain[key] = (sustain[key] or 0) + 1'',
     ''  if not temp_sustain_start[key] then temp_sustain_start[key] = now end'',
     ''  local elapsed = now - temp_sustain_start[key]'',
     ''  if sustain[key] >= TEMP_SUSTAIN or elapsed >= TEMP_SUSTAIN_MS then'',
     ''    sustain[key] = 0'',
     ''    temp_sustain_start[key] = nil'',
     ''    return can_alert(key)'',
     ''  end'',
     ''  return false'',
     ''end'',
     '''',
     ''local function temp_clear(key)'',
     ''  sustain[key] = 0'',
     ''  temp_sustain_start[key] = nil'',
     ''end'',
     '''',
     ''-- One reading of a sustained rule. Below threshold or stale ends the streak,'',
     ''-- and so does a silent gap past 5 min or 3 of the shortest gaps seen.'',
     ''local temp_seen, temp_gap = {}, {}'',
     ''local function temp_streak(key, over)'',
     ''  local now, last = Node.uptime(), temp_seen[key]'',
     ''  if last then'',
     ''    local g, limit = now - last, TEMP_SUSTAIN_MS'',
     ''    if temp_gap[key] and 3 * temp_gap[key] > limit then limit = 3 * temp_gap[key] end'',
     ''    if g > limit then temp_clear(key) end'',
     ''    if not temp_gap[key] or g < temp_gap[key] then temp_gap[key] = g end'',
     ''  end'',
     ''  temp_seen[key] = now'',
     ''  if over then return temp_sustained(key) end'',
     ''  temp_clear(key)'',
     ''  return false'',
     ''end'',
     '''']\<close>

definition PREAMBLE :: string where
  "PREAMBLE = js_join [NL] PREAMBLE_lines"

section \<open>Shapes\<close>

definition thesada_rules_root_shape :: shape where
  "thesada_rules_root_shape = empty_shape\<lparr>sh_inputs := [(''BODY'', STATEMENT, Some [''ThesadaEvent''])]\<rparr>"

definition thesada_on_sensor_shape :: shape where
  "thesada_on_sensor_shape = empty_shape\<lparr>
     sh_previous := Some (Some [''ThesadaEvent'']), sh_next := Some (Some [''ThesadaEvent'']),
     sh_inputs := [(''DO'', STATEMENT, Some [''ThesadaCondition''])],
     sh_fields := [(''EVENT'', FieldDropdown [''temperature'', ''current'', ''battery''], FText ''temperature'')]\<rparr>"

definition thesada_if_temp_shape :: shape where
  "thesada_if_temp_shape = empty_shape\<lparr>
     sh_previous := Some (Some [''ThesadaCondition'']), sh_next := Some (Some [''ThesadaCondition'']),
     sh_inputs := [(''DO'', STATEMENT, Some [''ThesadaTempAction'', ''ThesadaAction''])],
     sh_fields := [(''SENSOR'', FieldTextInput, FText ''supply''),
                   (''OP'', FieldDropdown [''>='', ''<=''], FText ''>=''),
                   (''THRESH'', FieldNumber (-1000) 5000 1, FNum 850),
                   (''SUSTAIN'', FieldDropdown [''YES'', ''NO''], FText ''YES'')]\<rparr>"

definition thesada_if_current_shape :: shape where
  "thesada_if_current_shape = empty_shape\<lparr>
     sh_previous := Some (Some [''ThesadaCondition'']), sh_next := Some (Some [''ThesadaCondition'']),
     sh_inputs := [(''DO'', STATEMENT, Some [''ThesadaAction''])],
     sh_fields := [(''CHANNEL'', FieldTextInput, FText ''pump''),
                   (''OP'', FieldDropdown [''<='', ''>=''], FText ''<=''),
                   (''THRESH'', FieldNumber 0 1000 1, FNum 5),
                   (''COUNT'', FieldNumber 10 600 10, FNum 50)]\<rparr>"

definition thesada_if_battery_shape :: shape where
  "thesada_if_battery_shape = empty_shape\<lparr>
     sh_previous := Some (Some [''ThesadaCondition'']), sh_next := Some (Some [''ThesadaCondition'']),
     sh_inputs := [(''DO'', STATEMENT, Some [''ThesadaAction''])],
     sh_fields := [(''PCT'', FieldNumber 0 1000 10, FNum 200)]\<rparr>"

definition thesada_notify_shape :: shape where
  "thesada_notify_shape = empty_shape\<lparr>
     sh_previous := Some (Some [''ThesadaAction'']), sh_next := Some (Some [''ThesadaAction'']),
     sh_fields := [(''MSG'', FieldTextInput, FText ''alert'')]\<rparr>"

definition thesada_notify_temp_shape :: shape where
  "thesada_notify_temp_shape = empty_shape\<lparr>
     sh_previous := Some (Some [''ThesadaTempAction'']),
     sh_next := Some (Some [''ThesadaTempAction'', ''ThesadaAction'']),
     sh_fields := [(''SUFFIX'', FieldTextInput, FText ''Overheat!'')]\<rparr>"

definition rules_shapes :: shapes where
  \<comment> \<open>\<open>thesada_if_above\<close> is the former name of \<open>thesada_if_temp\<close> in saved workspaces\<close>
  "rules_shapes ty names =
     (if ty = ''controls_if'' then controls_if_shape names
      else map_of
        [(''thesada_rules_root'', thesada_rules_root_shape), (''thesada_on_sensor'', thesada_on_sensor_shape),
         (''thesada_if_temp'', thesada_if_temp_shape), (''thesada_if_current'', thesada_if_current_shape),
         (''thesada_if_battery'', thesada_if_battery_shape), (''thesada_notify'', thesada_notify_shape),
         (''thesada_notify_temp'', thesada_notify_temp_shape), (''thesada_if_above'', thesada_if_temp_shape),
         (''logic_compare'', logic_compare_shape), (''logic_operation'', logic_operation_shape),
         (''logic_negate'', logic_negate_shape), (''text'', text_shape)] ty)"

section \<open>Generators\<close>

fun js_Number :: "fval option \<Rightarrow> int option" where
  \<comment> \<open>\<open>Number(v)\<close> in tenths, \<open>None\<close> for NaN; a number field always holds a number, and of texts
    only plain digits are read\<close>
  "js_Number None = Some 0"
| "js_Number (Some (FNum k)) = Some k"
| "js_Number (Some (FText s)) =
     (if s \<noteq> '''' \<and> list_all is_digit s then Some (10 * int (read_nat s)) else None)"

definition js_number_text :: "int option \<Rightarrow> string" where
  "js_number_text n = (case n of None \<Rightarrow> ''NaN'' | Some k \<Rightarrow> show_tenths k)"

definition js_or_number :: "int option \<Rightarrow> int \<Rightarrow> int option" where
  \<comment> \<open>\<open>n || d\<close>: zero and NaN give the default\<close>
  "js_or_number n d = (if n = None \<or> n = Some 0 then Some d else n)"

definition line :: "string \<Rightarrow> string" where
  "line s = s @ [NL]"

definition thesada_rules_root :: generator where
  "thesada_rules_root fs ins = bind_result (statementToCode ins ''BODY'') (\<lambda>s. Inr (CStr (or_else s '''')))"

definition thesada_on_sensor :: generator where
  \<open>thesada_on_sensor fs ins =
     (let event = js_String (getFieldValue fs ''EVENT'')
      in bind_result (statementToCode ins ''DO'') (\<lambda>branch.
           let guard = (if event = ''temperature'' then line ''  if not data.sensors then return end''
                        else if event = ''current'' then line ''  if not data.channels then return end''
                        else line ''  if not data.present then return end'')
           in Inr (CStr (''EventBus.subscribe("'' @ event @ line ''", function(data)''
                         @ guard @ branch @ line ''end)''))))\<close>

definition temp_key_lit :: "string \<Rightarrow> string \<Rightarrow> string \<Rightarrow> string" where
  "temp_key_lit sensor op thresh = ''temp:'' @ sensor @ '':'' @ op @ thresh"

definition thesada_if_temp :: generator where
  \<open>thesada_if_temp fs ins =
     (let sensor = esc (js_String (getFieldValue fs ''SENSOR''));
          op = js_String (getFieldValue fs ''OP'');
          thresh = js_number_text (js_Number (getFieldValue fs ''THRESH''));
          sustain = (getFieldValue fs ''SUSTAIN'' = Some (FText ''YES''))
      in bind_result (statementToCode ins ''DO'') (\<lambda>branch.
           let keyLit = temp_key_lit sensor op thresh
           in Inr (CStr (
             if sustain then
               line ''for _, s in ipairs(data.sensors) do''
               @ ''  if s.name == "'' @ sensor @ line ''" then''
               @ ''    local key = "'' @ keyLit @ line ''"''
               @ ''    if temp_streak(key, s.temp_c ~= nil and s.temp_c '' @ op @ '' '' @ thresh @ line '') then''
               @ branch
               @ line ''    end''
               @ line ''  end''
               @ line ''end''
             else
               line ''for _, s in ipairs(data.sensors) do''
               @ ''  if s.name == "'' @ sensor @ ''" and s.temp_c ~= nil and s.temp_c '' @ op @ '' '' @ thresh @ line '' then''
               @ ''    local key = "'' @ keyLit @ line ''"''
               @ line ''    if can_alert(key) then''
               @ branch
               @ line ''    end''
               @ line ''  end''
               @ line ''end''))))\<close>

definition current_key_lit :: "string \<Rightarrow> string \<Rightarrow> string \<Rightarrow> string \<Rightarrow> string" where
  "current_key_lit ch op thresh count = ''current:'' @ ch @ '':'' @ op @ thresh @ '':'' @ count"

definition thesada_if_current :: generator where
  \<open>thesada_if_current fs ins =
     (let ch = esc (js_String (getFieldValue fs ''CHANNEL''));
          op = js_String (getFieldValue fs ''OP'');
          thresh = js_number_text (js_Number (getFieldValue fs ''THRESH''));
          count = js_number_text (js_or_number (js_Number (getFieldValue fs ''COUNT'')) 50)
      in bind_result (statementToCode ins ''DO'') (\<lambda>branch.
           let keyLit = current_key_lit ch op thresh count
           in Inr (CStr (
               line ''for _, ch in ipairs(data.channels) do''
               @ ''  if ch.name == "'' @ ch @ line ''" then''
               @ ''    local key = "'' @ keyLit @ line ''"''
               @ ''    if ch.current_a ~= nil and ch.current_a '' @ op @ '' '' @ thresh @ line '' then''
               @ line ''      sustain[key] = (sustain[key] or 0) + 1''
               @ ''      if sustain[key] >= '' @ count @ line '' and can_alert(key) then''
               @ branch
               @ line ''        sustain[key] = 0''
               @ line ''      end''
               @ line ''    else''
               @ line ''      sustain[key] = 0''
               @ line ''    end''
               @ line ''  end''
               @ line ''end''))))\<close>

definition thesada_if_battery :: generator where
  \<open>thesada_if_battery fs ins =
     (let pct = js_number_text (js_Number (getFieldValue fs ''PCT''))
      in bind_result (statementToCode ins ''DO'') (\<lambda>branch.
           Inr (CStr (
               line ''do''
               @ line ''  local pct = data.percent or -1''
               @ ''  if pct >= 0 and pct <= '' @ pct @ line '' and not data.charging then''
               @ line ''    local key = "battery_low"''
               @ line ''    if can_alert(key) then''
               @ branch
               @ line ''    end''
               @ line ''  end''
               @ line ''end''))))\<close>

definition thesada_notify :: generator where
  \<open>thesada_notify fs ins =
     Inr (CStr (''notify("'' @ esc (js_String (getFieldValue fs ''MSG'')) @ line ''", key)''))\<close>

definition thesada_notify_temp :: generator where
  \<open>thesada_notify_temp fs ins =
     (let suffix = esc (js_String (getFieldValue fs ''SUFFIX''))
      in Inr (CStr (
           line ''local t = (unit == "F") and (s.temp_c * 9 / 5 + 32) or s.temp_c''
           @ ''notify(s.name .. ": " .. t .. unit .. " - '' @ suffix @ line ''", key)'')))\<close>

definition rules_generators :: "string \<Rightarrow> generator option" where
  "rules_generators ty = map_of
     [(''thesada_rules_root'', thesada_rules_root), (''thesada_on_sensor'', thesada_on_sensor),
      (''thesada_if_temp'', thesada_if_temp), (''thesada_if_current'', thesada_if_current),
      (''thesada_if_battery'', thesada_if_battery), (''thesada_notify'', thesada_notify),
      (''thesada_notify_temp'', thesada_notify_temp), (''thesada_if_above'', thesada_if_temp),
      (''controls_if'', controls_if), (''logic_compare'', logic_compare),
      (''logic_operation'', logic_operation), (''logic_negate'', logic_negate),
      (''text'', text_generator)] ty"

definition rules_lua :: "(string \<Rightarrow> string) \<Rightarrow> lua_generator" where
  \<comment> \<open>\<open>Blockly.Lua\<close> on the blocks of the rules page\<close>
  "rules_lua wrap = \<lparr>forBlock = rules_generators,
     has_output = (\<lambda>ty. ty \<in> {''logic_compare'', ''logic_operation'', ''logic_negate'', ''text''}),
     wrap_text = wrap\<rparr>"

section \<open>Workspaces and the generated file\<close>

record top_block =
  tblock :: block
  top_x :: rat
  top_y :: rat

type_synonym workspace = "top_block list"

definition getTopBlocks :: "rat \<Rightarrow> workspace \<Rightarrow> block list" where
  \<comment> \<open>ordered by position; \<open>sc\<close> is the sine of the scan angle\<close>
  "getTopBlocks sc ws = map tblock (sort_key (\<lambda>t. top_y t + sc * top_x t) ws)"

definition one_final_newline :: "string \<Rightarrow> string" where
  \<comment> \<open>\<open>s.replace(/\n+$/, newline)\<close>\<close>
  "one_final_newline s =
     (let body = rev (dropWhile (\<lambda>c. c = NL) (rev s))
      in if body = s then s else body @ [NL])"

fun root_codes :: "lua_generator \<Rightarrow> block list \<Rightarrow> string list result" where
  "root_codes G [] = Inr []"
| "root_codes G (b # bs) =
     (if btype b \<noteq> ''thesada_rules_root'' then root_codes G bs
      else bind_result (blockToCode G b) (\<lambda>c.
             let code = (case c of CTuple s k \<Rightarrow> s | CStr s \<Rightarrow> s)
             in bind_result (root_codes G bs) (\<lambda>out.
                  Inr (if code = '''' then out else code # out))))"

definition generateLua :: "lua_generator \<Rightarrow> rat \<Rightarrow> workspace \<Rightarrow> string result" where
  "generateLua G sc ws =
     bind_result (root_codes G (getTopBlocks sc ws)) (\<lambda>out.
       Inr (one_final_newline (PREAMBLE @ js_join [NL] out)))"

section \<open>The starter workspace\<close>

definition newBlock :: "shapes \<Rightarrow> string \<Rightarrow> string \<Rightarrow> string list \<Rightarrow> block" where
  \<comment> \<open>a fresh block of the type with its initial field values and empty inputs\<close>
  "newBlock Sh ty i names =
     (case Sh ty names of
        Some sh \<Rightarrow> Block ty i True None (map (\<lambda>(n, c, d). (n, d)) (sh_fields sh))
                    (map (\<lambda>(n, t, c). Input n t None) (sh_inputs sh)) None
      | None \<Rightarrow> Block ty i True None [] [] None)"

definition setFieldValue :: "shapes \<Rightarrow> fval \<Rightarrow> string \<Rightarrow> block \<Rightarrow> block" where
  "setFieldValue Sh v n b =
     (case block_shape Sh b of
        None \<Rightarrow> b
      | Some sh \<Rightarrow>
          (case b of Block ty i en cm fs ins nx \<Rightarrow>
             Block ty i en cm
               (map (\<lambda>(m, w). (m, case map_of (sh_fields sh) m of
                                    Some (c, d) \<Rightarrow> if m = n then setValue c w v else w
                                  | None \<Rightarrow> w)) fs) ins nx))"

fun connectInput :: "shapes \<Rightarrow> string \<Rightarrow> block \<Rightarrow> block \<Rightarrow> block" where
  \<comment> \<open>\<open>parent.getInput(n).connection.connect(child.previousConnection)\<close>: nothing happens when the
    checker refuses\<close>
  "connectInput Sh n child (Block ty i en cm fs ins nx) =
     Block ty i en cm fs
       (map (\<lambda>x. case x of Input m t tgt \<Rightarrow>
               (case Sh ty (map iname ins) of
                  None \<Rightarrow> x
                | Some sh \<Rightarrow>
                    (case map_of (sh_inputs sh) m of
                       Some (u, c) \<Rightarrow> if m = n \<and> fits Sh t c child then Input m t (Some child) else x
                     | None \<Rightarrow> x))) ins) nx"

fun connectNext :: "shapes \<Rightarrow> block \<Rightarrow> block \<Rightarrow> block" where
  \<comment> \<open>\<open>b.nextConnection.connect(child.previousConnection)\<close>\<close>
  "connectNext Sh child (Block ty i en cm fs ins nx) =
     Block ty i en cm fs ins
       (case Sh ty (map iname ins) of
          None \<Rightarrow> nx
        | Some sh \<Rightarrow>
            (case sh_next sh of
               Some c \<Rightarrow> if fits Sh STATEMENT c child then Some child else nx
             | None \<Rightarrow> nx))"

definition number_text :: "string \<Rightarrow> fval" where
  \<comment> \<open>\<open>Number(s)\<close> of plain digits\<close>
  "number_text s = FNum (10 * int (read_nat s))"

definition seedWorkspace :: workspace where
  \<comment> \<open>the blocks carry the ids \<open>a\<close> to \<open>f\<close> in creation order for the random ones; a connected block
    is a value inside its parent, so the connections are made from the leaves up\<close>
  "seedWorkspace =
     (let new = newBlock rules_shapes; set = setFieldValue rules_shapes;
          root = new ''thesada_rules_root'' ''a'' [''BODY''];
          onTemp = set (FText ''temperature'') ''EVENT'' (new ''thesada_on_sensor'' ''b'' [''DO'']);
          ifHot = set (FText ''YES'') ''SUSTAIN'' (set (number_text ''85'') ''THRESH''
                    (set (FText ''>='') ''OP'' (set (FText ''supply'') ''SENSOR''
                      (new ''thesada_if_temp'' ''c'' [''DO'']))));
          nHot = set (FText ''Overheat!'') ''SUFFIX'' (new ''thesada_notify_temp'' ''d'' []);
          onBatt = set (FText ''battery'') ''EVENT'' (new ''thesada_on_sensor'' ''e'' [''DO'']);
          ifBatt = set (number_text ''20'') ''PCT'' (new ''thesada_if_battery'' ''f'' [''DO'']);
          nBatt = set (FText ''Battery low'') ''MSG'' (new ''thesada_notify'' ''g'' []);
          ifBatt = connectInput rules_shapes ''DO'' nBatt ifBatt;
          onBatt = connectInput rules_shapes ''DO'' ifBatt onBatt;
          ifHot = connectInput rules_shapes ''DO'' nHot ifHot;
          onTemp = connectNext rules_shapes onBatt (connectInput rules_shapes ''DO'' ifHot onTemp);
          root = connectInput rules_shapes ''BODY'' onTemp root
      in [\<lparr>tblock = root, top_x = 24, top_y = 24\<rparr>])"

section \<open>The language of the rules page\<close>

lemmas shape_defs =
  thesada_rules_root_shape_def thesada_on_sensor_shape_def thesada_if_temp_shape_def
  thesada_if_current_shape_def thesada_if_battery_shape_def thesada_notify_shape_def
  thesada_notify_temp_shape_def logic_compare_shape_def logic_operation_shape_def
  logic_negate_shape_def text_shape_def empty_shape_def

lemmas statement_generator_defs =
  thesada_rules_root_def thesada_on_sensor_def thesada_if_temp_def thesada_if_current_def
  thesada_if_battery_def thesada_notify_def thesada_notify_temp_def

lemmas value_generator_defs =
  logic_compare_def logic_operation_def logic_negate_def text_generator_def

definition value_types :: "string set" where
  "value_types = {''logic_compare'', ''logic_operation'', ''logic_negate'', ''text''}"

lemma controls_if_shape_conns:
  "controls_if_shape ns = Some sh \<Longrightarrow>
   sh_output sh = None \<and> sh_previous sh = Some None \<and> sh_next sh = Some None \<and> sh_fields sh = []"
  by (auto simp: controls_if_shape_def empty_shape_def Let_def split: if_splits)

lemma rules_shapes_simps [simp]:
  "rules_shapes ''thesada_rules_root'' ns = Some thesada_rules_root_shape"
  "rules_shapes ''thesada_on_sensor'' ns = Some thesada_on_sensor_shape"
  "rules_shapes ''thesada_if_temp'' ns = Some thesada_if_temp_shape"
  "rules_shapes ''thesada_if_above'' ns = Some thesada_if_temp_shape"
  "rules_shapes ''thesada_if_current'' ns = Some thesada_if_current_shape"
  "rules_shapes ''thesada_if_battery'' ns = Some thesada_if_battery_shape"
  "rules_shapes ''thesada_notify'' ns = Some thesada_notify_shape"
  "rules_shapes ''thesada_notify_temp'' ns = Some thesada_notify_temp_shape"
  "rules_shapes ''logic_compare'' ns = Some logic_compare_shape"
  "rules_shapes ''logic_operation'' ns = Some logic_operation_shape"
  "rules_shapes ''logic_negate'' ns = Some logic_negate_shape"
  "rules_shapes ''text'' ns = Some text_shape"
  "rules_shapes ''controls_if'' ns = controls_if_shape ns"
  by (simp_all add: rules_shapes_def)

definition rule_types :: "string set" where
  "rule_types = {''thesada_rules_root'', ''thesada_on_sensor'', ''thesada_if_temp'', ''thesada_if_current'',
     ''thesada_if_battery'', ''thesada_notify'', ''thesada_notify_temp'', ''thesada_if_above''}"

lemma rules_shapes_types:
  assumes "rules_shapes ty ns = Some sh"
  shows "ty \<in> rule_types \<or> ty \<in> value_types \<or> ty = ''controls_if''"
proof (rule ccontr)
  assume "\<not> ?thesis"
  then have "rules_shapes ty ns = None"
    by (simp add: rules_shapes_def rule_types_def value_types_def)
  with assms show False by simp
qed

lemma rule_type_sides:
  "rules_shapes ty ns = Some sh \<Longrightarrow> ty \<in> rule_types \<Longrightarrow> ty \<notin> value_types \<and> sh_output sh = None"
  unfolding rule_types_def by (elim insertE emptyE) (auto simp: shape_defs value_types_def)

lemma value_type_sides:
  "rules_shapes ty ns = Some sh \<Longrightarrow> ty \<in> value_types \<Longrightarrow>
   sh_output sh \<noteq> None \<and> sh_next sh = None \<and> sh_previous sh = None"
  unfolding value_types_def by (elim insertE emptyE) (auto simp: shape_defs)

lemma rules_shapes_sides:
  assumes "rules_shapes ty ns = Some sh"
  shows "if ty \<in> value_types then sh_output sh \<noteq> None \<and> sh_next sh = None \<and> sh_previous sh = None
         else sh_output sh = None"
  using rules_shapes_types [OF assms] rule_type_sides [OF assms] value_type_sides [OF assms]
    controls_if_shape_conns [of ns sh] assms
  by auto

lemma input_statement_total:
  assumes "codes_ok ics cs" and "\<forall>(m, t, c) \<in> set cs. t = STATEMENT"
  shows "\<exists>s. statementToCode ics n = Inr s"
  by (rule statementToCode_total [OF assms(1)]) (use assms(2) in \<open>auto dest: map_of_SomeD\<close>)

lemma input_value_total:
  assumes "codes_ok ics cs" and "\<forall>(m, t, c) \<in> set cs. t = VALUE"
  shows "\<exists>s. valueToCode ics n k = Inr s"
  by (rule valueToCode_total [OF assms(1)]) (use assms(2) in \<open>auto dest: map_of_SomeD\<close>)

lemma rule_type_gen:
  assumes "ty \<in> rule_types" and "\<forall>n. statementToCode ics n = Inr (v n)"
  shows "\<exists>g s. rules_generators ty = Some g \<and> g fs ics = Inr (CStr s)"
  using assms(1) unfolding rule_types_def
  by (elim insertE emptyE)
    (simp_all add: rules_generators_def statement_generator_defs assms(2) Let_def)

lemma rule_statement_gen:
  assumes "rules_shapes ty (map fst ics) = Some sh" and "ty \<notin> value_types"
    and "codes_ok ics (sh_inputs sh)"
  shows "\<exists>g s. rules_generators ty = Some g \<and> g fs ics = Inr (CStr s)"
proof (cases "ty = ''controls_if''")
  case True
  with assms controls_if_total [of ics sh fs] show ?thesis
    by (simp add: rules_shapes_def rules_generators_def)
next
  case False
  with assms rules_shapes_types have ty: "ty \<in> rule_types" by blast
  then have "\<forall>(m, t, c) \<in> set (sh_inputs sh). t = STATEMENT"
    using assms(1) unfolding rule_types_def
    by (elim insertE emptyE) (simp_all add: shape_defs, auto)
  then have "\<exists>s. statementToCode ics n = Inr s" for n
    using input_statement_total [OF assms(3)] by blast
  then have "\<exists>v. \<forall>n. statementToCode ics n = Inr (v n)" by metis
  with rule_type_gen [OF ty] show ?thesis by blast
qed

lemma value_type_gen:
  assumes "ty \<in> value_types" and "\<forall>n k. valueToCode ics n k = Inr (v n k)"
  shows "\<exists>g s k. rules_generators ty = Some g \<and> g fs ics = Inr (CTuple s k)"
  using assms(1) unfolding value_types_def
  by (elim insertE emptyE)
    (simp_all add: rules_generators_def value_generator_defs assms(2) Let_def)

lemma rule_value_gen:
  assumes "rules_shapes ty (map fst ics) = Some sh" and "ty \<in> value_types"
    and "codes_ok ics (sh_inputs sh)"
  shows "\<exists>g s k. rules_generators ty = Some g \<and> g fs ics = Inr (CTuple s k)"
proof -
  have "\<forall>(m, t, c) \<in> set (sh_inputs sh). t = VALUE"
    using assms(2,1) unfolding value_types_def
    by (elim insertE emptyE) (simp_all add: shape_defs, auto)
  then have "\<exists>s. valueToCode ics n k = Inr s" for n k
    using input_value_total [OF assms(3)] by blast
  then have "\<exists>v. \<forall>n k. valueToCode ics n k = Inr (v n k)" by metis
  with value_type_gen [OF assms(2)] show ?thesis by blast
qed

interpretation rules: block_language rules_shapes "rules_lua wrap" for wrap
proof
  fix ty ns sh assume "rules_shapes ty ns = Some sh"
  then show "sh_output sh = None \<or> sh_next sh = None \<and> sh_previous sh = None"
    and "has_output (rules_lua wrap) ty \<longleftrightarrow> sh_output sh \<noteq> None"
    using rules_shapes_sides [of ty ns sh] by (auto simp: rules_lua_def value_types_def split: if_splits)
next
  fix ty and ics :: "input_code list" and sh :: shape and fs
  assume sh: "rules_shapes ty (map fst ics) = Some sh" and ok: "codes_ok ics (sh_inputs sh)"
  {
    assume "sh_output sh = None"
    with rules_shapes_sides [OF sh] have "ty \<notin> value_types" by (auto split: if_splits)
    then show "\<exists>g s. forBlock (rules_lua wrap) ty = Some g \<and> g fs ics = Inr (CStr s)"
      using rule_statement_gen [OF sh _ ok] by (simp add: rules_lua_def)
  next
    assume "sh_output sh \<noteq> None"
    with rules_shapes_sides [OF sh] have "ty \<in> value_types" by (auto split: if_splits)
    then show "\<exists>g s k. forBlock (rules_lua wrap) ty = Some g \<and> g fs ics = Inr (CTuple s k)"
      using rule_value_gen [OF sh _ ok] by (simp add: rules_lua_def)
  }
qed

section \<open>The generated file\<close>

lemma PREAMBLE_end: "\<exists>p. PREAMBLE = p @ ''end'' @ [NL]"
proof -
  let ?n = "length PREAMBLE_lines - 2"
  have "PREAMBLE_lines = take ?n PREAMBLE_lines @ drop ?n PREAMBLE_lines" by simp
  moreover have "drop ?n PREAMBLE_lines = [''end'', '''']" and "take ?n PREAMBLE_lines \<noteq> []"
    by (simp_all add: PREAMBLE_lines_def)
  ultimately have "PREAMBLE = js_join [NL] (take ?n PREAMBLE_lines) @ [NL] @ ''end'' @ [NL]"
    unfolding PREAMBLE_def by (metis js_join_append js_join.simps(2,3) append_Nil2 list.distinct(1))
  then show ?thesis by (metis append_assoc)
qed

lemma dropWhile_append_single:
  "\<not> P x \<Longrightarrow> dropWhile P (xs @ x # ys) = dropWhile P xs @ x # ys"
  by (induction xs) auto

lemma one_final_newline_keeps:
  assumes "c \<noteq> NL"
  shows "\<exists>y. one_final_newline (p @ [c, NL] @ x) = p @ [c, NL] @ y"
proof -
  define d where "d = dropWhile (\<lambda>c. c = NL) (rev x)"
  have "dropWhile (\<lambda>c. c = NL) (rev (p @ [c, NL] @ x)) =
      (if d = [] then c # rev p else d @ NL # c # rev p)"
    using assms by (simp add: d_def dropWhile_append)
  then show ?thesis
    by (auto simp: one_final_newline_def Let_def)
qed

lemma no_double_newline: "\<not> suffix [NL, NL] (one_final_newline s)"
proof -
  define body where "body = rev (dropWhile (\<lambda>c. c = NL) (rev s))"
  have last: "body \<noteq> [] \<Longrightarrow> last body \<noteq> NL"
    using hd_dropWhile [of "\<lambda>c. c = NL" "rev s"] by (auto simp: body_def last_rev)
  show ?thesis
  proof (cases "body = s")
    case True
    then have "one_final_newline s = body" by (simp add: one_final_newline_def body_def Let_def)
    with last show ?thesis by (auto simp: suffix_def)
  next
    case False
    then have "one_final_newline s = body @ [NL]"
      by (simp add: one_final_newline_def body_def Let_def)
    moreover have "\<not> suffix [NL, NL] (body @ [NL])"
    proof
      assume "suffix [NL, NL] (body @ [NL])"
      then obtain z where "body @ [NL] = (z @ [NL]) @ [NL]" by (auto simp: suffix_def)
      then have "body = z @ [NL]" by blast
      with last show False by simp
    qed
    ultimately show ?thesis by simp
  qed
qed

lemma root_codes_total:
  "\<forall>b \<in> set bs. wf_block rules_shapes b \<Longrightarrow> \<exists>out. root_codes (rules_lua wrap) bs = Inr out"
proof (induction bs)
  case Nil
  show ?case by simp
next
  case (Cons b bs)
  then obtain out where out: "root_codes (rules_lua wrap) bs = Inr out" by auto
  show ?case
  proof (cases "btype b = ''thesada_rules_root''")
    case True
    from Cons.prems have "gen_ok rules_shapes (rules_lua wrap) b"
      by (intro rules.blockToCode_total) simp
    with True obtain s where "blockToCode (rules_lua wrap) b = Inr (CStr s)"
      by (auto simp: gen_ok_def block_shape_def shape_defs)
    with True out show ?thesis by simp
  qed (use out in simp)
qed

definition seed_root :: block where
  "seed_root = tblock (hd seedWorkspace)"

lemma seed_root_eq:
  "seed_root = Block ''thesada_rules_root'' ''a'' True None [] [Input ''BODY'' STATEMENT (Some
     (Block ''thesada_on_sensor'' ''b'' True None [(''EVENT'', FText ''temperature'')] [Input ''DO'' STATEMENT (Some
       (Block ''thesada_if_temp'' ''c'' True None [(''SENSOR'', FText ''supply''), (''OP'', FText ''>=''),
          (''THRESH'', FNum 850), (''SUSTAIN'', FText ''YES'')] [Input ''DO'' STATEMENT (Some
         (Block ''thesada_notify_temp'' ''d'' True None [(''SUFFIX'', FText ''Overheat!'')] [] None))] None))]
       (Some (Block ''thesada_on_sensor'' ''e'' True None [(''EVENT'', FText ''battery'')] [Input ''DO'' STATEMENT (Some
         (Block ''thesada_if_battery'' ''f'' True None [(''PCT'', FNum 200)] [Input ''DO'' STATEMENT (Some
           (Block ''thesada_notify'' ''g'' True None [(''MSG'', FText ''Battery low'')] [] None))] None))] None))))] None"
  by (simp add: seed_root_def seedWorkspace_def Let_def newBlock_def setFieldValue_def block_shape_def
      shape_defs setValue_def doClassValidation_def number_value_def number_text_def read_nat_def digit_val_def fits_def
      doTypeChecks_def)

lemma seed_root_wf: "wf_block rules_shapes seed_root"
  by (simp add: seed_root_eq shape_defs fits_def block_shape_def doTypeChecks_def wf_fields_def field_ok_def)

lemma seedWorkspace_top: "seedWorkspace = [\<lparr>tblock = seed_root, top_x = 24, top_y = 24\<rparr>]"
  by (simp add: seed_root_def seedWorkspace_def Let_def)

text \<open>
  C1. Generating the Lua file of a workspace never throws: whatever blocks of the toolbox are on
  the canvas, connected as the connection checker allows and with the values that the field
  editors let through, \<open>generateLua\<close> returns a text. The text starts with the whole preamble,
  so the runtime functions are defined before the first rule, and does not end in an empty line.
\<close>

theorem generateLua_total:
  assumes "\<forall>t \<in> set ws. wf_block rules_shapes (tblock t)"
  shows "\<exists>lua. generateLua (rules_lua wrap) sc ws = Inr lua \<and> prefix PREAMBLE lua \<and> \<not> suffix [NL, NL] lua"
proof -
  have "\<forall>b \<in> set (getTopBlocks sc ws). wf_block rules_shapes b"
    using assms by (auto simp: getTopBlocks_def)
  then obtain out where out: "root_codes (rules_lua wrap) (getTopBlocks sc ws) = Inr out"
    using root_codes_total by blast
  obtain p where p: "PREAMBLE = p @ ''en'' @ [CHR ''d'', NL]"
    using PREAMBLE_end by auto
  have "\<exists>y. one_final_newline (PREAMBLE @ js_join [NL] out) = PREAMBLE @ y"
    using one_final_newline_keeps [of "CHR ''d''" "p @ ''en''" "js_join [NL] out"] by (simp add: p)
  then obtain y where "one_final_newline (PREAMBLE @ js_join [NL] out) = PREAMBLE @ y" ..
  with out no_double_newline [of "PREAMBLE @ js_join [NL] out"] show ?thesis
    by (simp add: generateLua_def prefix_def)
qed

theorem generateLua_total_witness:
  "list_all (\<lambda>t. wf_block rules_shapes (tblock t)) seedWorkspace \<and>
   (\<exists>lua. generateLua (rules_lua id) (1/20) seedWorkspace = Inr lua \<and> prefix PREAMBLE lua \<and>
      \<not> suffix [NL, NL] lua)"
proof -
  have "\<forall>t \<in> set seedWorkspace. wf_block rules_shapes (tblock t)"
    by (simp add: seedWorkspace_top seed_root_wf)
  then show ?thesis using generateLua_total by (auto simp: list_all_iff)
qed

end
