(* ===== verification/Rules_Static.thy ===== *)
theory Rules_Static
  imports Rules_Blocks
begin

text \<open>
  What can be said about the generated Lua without running it: the texts that users type reach
  the file as string literals with exactly that value, and the ambient variables that an action
  uses (\<open>key\<close>, and \<open>s\<close> for a sensor reading) are bound wherever the rule blocks put it.
\<close>

section \<open>Literals\<close>

lemma lua_literal_DQ [simp]: "lua_literal (DQ # t) = lua_read DQ t"
  by (simp add: lua_literal_def)

definition plain :: "string \<Rightarrow> bool" where
  \<comment> \<open>characters that a double-quoted literal holds as they are\<close>
  "plain s \<longleftrightarrow> (\<forall>c \<in> set s. c \<noteq> DQ \<and> c \<noteq> NL \<and> c \<noteq> CR \<and> c \<noteq> BSL)"

lemma plain_simps [simp]:
  "plain []" "plain (c # s) \<longleftrightarrow> c \<noteq> DQ \<and> c \<noteq> NL \<and> c \<noteq> CR \<and> c \<noteq> BSL \<and> plain s"
  "plain (s @ t) \<longleftrightarrow> plain s \<and> plain t"
  by (auto simp: plain_def)

lemma lua_read_plain_text: "plain s \<Longrightarrow> lua_read DQ (s @ t) = emit s (lua_read DQ t)"
  by (simp add: lua_read_raw plain_def)

lemma plain_show_nat [simp]: "plain (show_nat n)"
  using show_nat_digits [of n] by (auto simp: plain_def dest: is_digit_neq)

lemma plain_show_tenths [simp]: "plain (show_tenths k)"
proof -
  have "plain [digit (nat \<bar>k\<bar> mod 10)]"
    using is_digit_neq [OF is_digit_digit, of "nat \<bar>k\<bar> mod 10"] by simp
  then show ?thesis by (simp add: show_tenths_def Let_def)
qed

definition temp_key :: "string \<Rightarrow> string \<Rightarrow> int \<Rightarrow> string" where
  \<comment> \<open>the value of \<open>key\<close> in a temperature condition\<close>
  "temp_key sensor op thresh = temp_key_lit sensor op (show_tenths thresh)"

definition current_key :: "string \<Rightarrow> string \<Rightarrow> int \<Rightarrow> int \<Rightarrow> string" where
  "current_key ch op thresh count = current_key_lit ch op (show_tenths thresh) (show_tenths count)"

lemma temp_key_literal:
  assumes "one_line sensor" and "plain op"
  shows "lua_read DQ (temp_key_lit (esc sensor) op (show_tenths k) @ DQ # t) = Some (temp_key sensor op k, t)"
  using assms by (simp add: temp_key_lit_def temp_key_def lua_read_plain lua_read_esc
      lua_read_plain_text)

lemma current_key_literal:
  assumes "one_line ch" and "plain op"
  shows "lua_read DQ (current_key_lit (esc ch) op (show_tenths k) (show_tenths n) @ DQ # t) =
    Some (current_key ch op k n, t)"
  using assms by (simp add: current_key_lit_def current_key_def lua_read_plain lua_read_esc
      lua_read_plain_text)

lemma line_append [simp]: "line s @ t = s @ NL # t"
  by (simp add: line_def)

text \<open>
  C2. A notification text cannot break out of its literal: the code of a notify block is a call
  of \<open>notify\<close> whose first argument is a string literal with exactly the typed text as its value,
  for every text of one line, quotes and backslashes included; the scanner goes on with the
  template's \<open>, key)\<close>.
\<close>

theorem notify_literal:
  assumes "getFieldValue fs ''MSG'' = Some (FText msg)" and "one_line msg"
  shows "\<exists>t. thesada_notify fs ins = Inr (CStr (''notify('' @ t)) \<and>
             lua_literal t = Some (msg, '', key)'' @ [NL])"
  using assms by (simp add: thesada_notify_def lua_read_esc line_def)

theorem notify_literal_witness:
  \<open>getFieldValue [(''MSG'', FText ''a"b'')] ''MSG'' = Some (FText ''a"b'') \<and> one_line ''a"b'' \<and>
   (\<exists>t. thesada_notify [(''MSG'', FText ''a"b'')] [] = Inr (CStr (''notify('' @ t)) \<and>
        lua_literal t = Some (''a"b'', '', key)'' @ [NL]))\<close>
proof -
  have f: \<open>getFieldValue [(''MSG'', FText ''a"b'')] ''MSG'' = Some (FText ''a"b'')\<close>
    and o: \<open>one_line ''a"b''\<close>
    by (simp_all add: getFieldValue_def)
  show ?thesis using f o notify_literal [OF f o] by blast
qed

text \<open>
  In a temperature condition the sensor name appears twice, as the literal that readings are
  compared with and inside the literal of the cooldown key. Both literals have the intended
  value: the typed name, and the key made of the name, the operator and the threshold.
\<close>

theorem if_temp_literals:
  assumes "getFieldValue fs ''SENSOR'' = Some (FText sensor)" and "one_line sensor"
    and "getFieldValue fs ''OP'' = Some (FText op)" and "op = ''>='' \<or> op = ''<=''"
    and "getFieldValue fs ''THRESH'' = Some (FNum k)"
    and "statementToCode ins ''DO'' = Inr branch"
    and "between = (if getFieldValue fs ''SUSTAIN'' = Some (FText ''YES'') then '' then''
           else '' and s.temp_c ~= nil and s.temp_c '' @ op @ '' '' @ show_tenths k @ '' then'') @ [NL]"
  shows "\<exists>u v rest.
     thesada_if_temp fs ins =
       Inr (CStr (''for _, s in ipairs(data.sensors) do'' @ [NL] @ ''  if s.name == '' @ u)) \<and>
     lua_literal u = Some (sensor, between @ ''    local key = '' @ v) \<and>
     lua_literal v = Some (temp_key sensor op k, [NL] @ rest)"
proof -
  have op: "plain op" using assms(4) by auto
  show ?thesis
  proof (cases "getFieldValue fs ''SUSTAIN'' = Some (FText ''YES'')")
    case True
    let ?rest = "''    if temp_streak(key, s.temp_c ~= nil and s.temp_c '' @ op @ '' '' @ show_tenths k
      @ line '') then'' @ branch @ line ''    end'' @ line ''  end'' @ line ''end''"
    show ?thesis
      using assms op True
      by (intro exI [of _ "DQ # esc sensor @ DQ # between @ ''    local key = '' @ DQ #
              temp_key_lit (esc sensor) op (show_tenths k) @ DQ # NL # ?rest"]
            exI [of _ "DQ # temp_key_lit (esc sensor) op (show_tenths k) @ DQ # NL # ?rest"]
            exI [of _ ?rest])
        (simp add: thesada_if_temp_def Let_def js_number_text_def lua_read_esc temp_key_literal)
  next
    case False
    let ?rest = "line ''    if can_alert(key) then'' @ branch @ line ''    end'' @ line ''  end'' @ line ''end''"
    show ?thesis
      using assms op False
      by (intro exI [of _ "DQ # esc sensor @ DQ # between @ ''    local key = '' @ DQ #
              temp_key_lit (esc sensor) op (show_tenths k) @ DQ # NL # ?rest"]
            exI [of _ "DQ # temp_key_lit (esc sensor) op (show_tenths k) @ DQ # NL # ?rest"]
            exI [of _ ?rest])
        (simp add: thesada_if_temp_def Let_def js_number_text_def lua_read_esc temp_key_literal)
  qed
qed

theorem if_temp_literals_witness:
  "\<exists>u v rest.
     thesada_if_temp [(''SENSOR'', FText ''supply''), (''OP'', FText ''>=''), (''THRESH'', FNum 850),
       (''SUSTAIN'', FText ''YES'')] [] =
       Inr (CStr (''for _, s in ipairs(data.sensors) do'' @ [NL] @ ''  if s.name == '' @ u)) \<and>
     lua_literal u = Some (''supply'', ('' then'' @ [NL]) @ ''    local key = '' @ v) \<and>
     lua_literal v = Some (temp_key ''supply'' ''>='' 850, [NL] @ rest)"
  by (rule if_temp_literals [where branch = "''''"])
    (simp_all add: getFieldValue_def statementToCode_def getInputTarget_def)

section \<open>Scope of the ambient variables\<close>

text \<open>
  The conditions bind \<open>key\<close> (\<open>local key = ...\<close>) and the temperature conditions the loop
  variable \<open>s\<close>; \<open>notify\<close> reads \<open>key\<close>, \<open>notify_temp\<close> reads both. \<open>scoped k s b\<close>: with \<open>key\<close>
  bound iff \<open>k\<close> and \<open>s\<close> bound iff \<open>s\<close>, every action in the block, its inputs and the blocks
  after it finds its variables bound.
\<close>

definition binds_key :: "string \<Rightarrow> bool" where
  "binds_key ty \<longleftrightarrow> ty \<in> {''thesada_if_temp'', ''thesada_if_above'', ''thesada_if_current'', ''thesada_if_battery''}"

definition binds_s :: "string \<Rightarrow> bool" where
  "binds_s ty \<longleftrightarrow> ty \<in> {''thesada_if_temp'', ''thesada_if_above''}"

definition needs_bound :: "bool \<Rightarrow> bool \<Rightarrow> string \<Rightarrow> bool" where
  "needs_bound k s ty \<longleftrightarrow>
     (ty = ''thesada_notify'' \<longrightarrow> k) \<and> (ty = ''thesada_notify_temp'' \<longrightarrow> k \<and> s)"

fun scoped :: "bool \<Rightarrow> bool \<Rightarrow> block \<Rightarrow> bool" and scoped_input :: "bool \<Rightarrow> bool \<Rightarrow> binput \<Rightarrow> bool" where
  "scoped k s (Block ty i en cm fs ins nx) \<longleftrightarrow>
     needs_bound k s ty \<and>
     (\<forall>x \<in> set ins. scoped_input (k \<or> binds_key ty) (s \<or> binds_s ty) x) \<and>
     (case nx of None \<Rightarrow> True | Some b \<Rightarrow> scoped k s b)"
| "scoped_input k s (Input n t None) \<longleftrightarrow> True"
| "scoped_input k s (Input n t (Some b)) \<longleftrightarrow> scoped k s b"

fun only_rule_blocks :: "block \<Rightarrow> bool" and only_rule_inputs :: "binput \<Rightarrow> bool" where
  \<comment> \<open>no block of the Logic and Text categories anywhere in the tree\<close>
  "only_rule_blocks (Block ty i en cm fs ins nx) \<longleftrightarrow>
     ty \<in> rule_types \<and> (\<forall>x \<in> set ins. only_rule_inputs x) \<and>
     (case nx of None \<Rightarrow> True | Some b \<Rightarrow> only_rule_blocks b)"
| "only_rule_inputs (Input n t None) \<longleftrightarrow> True"
| "only_rule_inputs (Input n t (Some b)) \<longleftrightarrow> only_rule_blocks b"

definition action_checks :: "string \<Rightarrow> string list" where
  "action_checks ty = (if ty = ''thesada_notify'' then [''ThesadaAction'']
     else if ty = ''thesada_notify_temp'' then [''ThesadaTempAction''] else [])"

lemma rule_type_previous:
  "ty \<in> rule_types \<Longrightarrow> rules_shapes ty ns = Some sh \<Longrightarrow> action_checks ty \<noteq> [] \<Longrightarrow>
   sh_previous sh = Some (Some (action_checks ty))"
  unfolding rule_types_def action_checks_def by (elim insertE emptyE) (auto simp: shape_defs)

lemma fits_needs_bound:
  \<comment> \<open>a child that the checker lets in needs only the variables that the check grants\<close>
  assumes "fits rules_shapes STATEMENT (Some cs) b" and "btype b \<in> rule_types"
    and "''ThesadaAction'' \<in> set cs \<longrightarrow> k" and "''ThesadaTempAction'' \<in> set cs \<longrightarrow> k \<and> s"
  shows "needs_bound k s (btype b)"
proof -
  from assms(1) obtain sh c where sh: "rules_shapes (btype b) (map iname (inputs b)) = Some sh"
    and c: "sh_previous sh = Some c" "doTypeChecks (Some cs) c"
    by (auto simp: fits_def block_shape_def split: option.splits)
  have "action_checks (btype b) \<noteq> [] \<Longrightarrow> c = Some (action_checks (btype b))"
    using rule_type_previous [OF assms(2) sh] c(1) by simp
  with c(2) assms(3,4) show ?thesis
    by (auto simp: needs_bound_def action_checks_def doTypeChecks_def list_ex_iff split: if_splits)
qed

lemma rule_type_next:
  assumes "ty \<in> rule_types" and "rules_shapes ty ns = Some sh" and "sh_next sh = Some c"
    and "needs_bound k s ty"
  shows "\<exists>cs. c = Some cs \<and> (''ThesadaAction'' \<in> set cs \<longrightarrow> k) \<and> (''ThesadaTempAction'' \<in> set cs \<longrightarrow> k \<and> s)"
  using assms unfolding rule_types_def
  by (elim insertE emptyE) (auto simp: shape_defs needs_bound_def)

lemma rule_type_inputs:
  assumes "ty \<in> rule_types" and "rules_shapes ty ns = Some sh" and "(n, t, c) \<in> set (sh_inputs sh)"
  shows "t = STATEMENT \<and> (\<exists>cs. c = Some cs \<and> (''ThesadaAction'' \<in> set cs \<longrightarrow> binds_key ty) \<and>
    (''ThesadaTempAction'' \<in> set cs \<longrightarrow> binds_key ty \<and> binds_s ty))"
  using assms unfolding rule_types_def
  by (elim insertE emptyE) (auto simp: shape_defs binds_key_def binds_s_def)

lemma wf_inputs_member:
  "wf_inputs Sh ins cs \<Longrightarrow> Input n t (Some b) \<in> set ins \<Longrightarrow>
   \<exists>c. (n, t, c) \<in> set cs \<and> fits Sh t c b \<and> wf_block Sh b"
proof (induction ins arbitrary: cs)
  case (Cons x ins)
  then show ?case by (cases x; cases cs) (auto split: option.splits, blast+)
qed simp

lemma only_rule_blocks_type: "only_rule_blocks b \<Longrightarrow> btype b \<in> rule_types"
  by (cases b) simp

lemma scoped_if_checked:
  "wf_block rules_shapes b \<Longrightarrow> only_rule_blocks b \<Longrightarrow> needs_bound k s (btype b) \<Longrightarrow> scoped k s b"
proof (induction b arbitrary: k s rule: block.induct
    [where ?P2.0 = "\<lambda>x. \<forall>b k s. itarget x = Some b \<longrightarrow> wf_block rules_shapes b \<longrightarrow> only_rule_blocks b \<longrightarrow>
        needs_bound k s (btype b) \<longrightarrow> scoped k s b"])
  case (Block ty i en cm fs ins nx)
  from Block.prems(1) obtain sh where sh: "rules_shapes ty (map iname ins) = Some sh"
    and wi: "wf_inputs rules_shapes ins (sh_inputs sh)"
    and nxt: "\<And>b. nx = Some b \<Longrightarrow>
      \<exists>c. sh_next sh = Some c \<and> fits rules_shapes STATEMENT c b \<and> wf_block rules_shapes b"
    by (auto split: option.splits)
  from Block.prems(2) have ty: "ty \<in> rule_types" by simp
  have "scoped_input (k \<or> binds_key ty) (s \<or> binds_s ty) x" if x: "x \<in> set ins" for x
  proof (cases "itarget x")
    case None
    then show ?thesis by (cases x) simp
  next
    case (Some b)
    then obtain n t where xt: "x = Input n t (Some b)" by (cases x) simp
    with x wf_inputs_member [OF wi] obtain c where c: "(n, t, c) \<in> set (sh_inputs sh)"
      and f: "fits rules_shapes t c b" and wf: "wf_block rules_shapes b" by blast
    have ob: "only_rule_blocks b" using Block.prems(2) x xt by auto
    have "needs_bound (k \<or> binds_key ty) (s \<or> binds_s ty) (btype b)"
      using rule_type_inputs [OF ty sh c] f
      by (auto intro!: fits_needs_bound only_rule_blocks_type [OF ob])
    then show ?thesis using Block.hyps(1) [OF x] Some wf ob xt by auto
  qed
  moreover have "scoped k s b" if b: "nx = Some b" for b
  proof -
    from nxt [OF b] obtain c where c: "sh_next sh = Some c" and f: "fits rules_shapes STATEMENT c b"
      and wf: "wf_block rules_shapes b" by blast
    have ob: "only_rule_blocks b" using Block.prems(2) b by simp
    have "needs_bound k s ty" using Block.prems(3) by simp
    from rule_type_next [OF ty sh c this] f have "needs_bound k s (btype b)"
      by (auto intro!: fits_needs_bound only_rule_blocks_type [OF ob])
    then show ?thesis using Block.IH(1) [of b] b wf ob by simp
  qed
  ultimately show ?case using Block.prems(3) by (simp split: option.splits)
next
  case (Input n t tgt)
  then show ?case by auto
qed

text \<open>
  C4. The connection checks of the rule blocks are a scope discipline: in every tree of rule
  blocks under a root block that the checker accepts, each action stands where the generated
  code has bound the variables it reads, \<open>key\<close> for \<open>notify\<close>, and \<open>key\<close> and \<open>s\<close> for the
  notification with a sensor reading.
\<close>

theorem rule_blocks_scoped:
  assumes "wf_block rules_shapes b" and "only_rule_blocks b" and "btype b = ''thesada_rules_root''"
  shows "scoped False False b"
  by (rule scoped_if_checked) (use assms in \<open>auto simp: needs_bound_def\<close>)

theorem rule_blocks_scoped_witness:
  "wf_block rules_shapes seed_root \<and> only_rule_blocks seed_root \<and>
   btype seed_root = ''thesada_rules_root'' \<and> scoped False False seed_root"
proof -
  have o: "only_rule_blocks seed_root" and t: "btype seed_root = ''thesada_rules_root''"
    by (simp_all add: seed_root_eq rule_types_def)
  show ?thesis using seed_root_wf o t rule_blocks_scoped [OF seed_root_wf o t] by blast
qed

definition unscoped_root :: block where
  "unscoped_root = Block ''thesada_rules_root'' ''a'' True None [] [Input ''BODY'' STATEMENT (Some
     (Block ''thesada_on_sensor'' ''b'' True None [(''EVENT'', FText ''battery'')] [Input ''DO'' STATEMENT (Some
       (Block ''controls_if'' ''c'' True None [] [Input ''IF0'' VALUE None, Input ''DO0'' STATEMENT (Some
         (Block ''thesada_notify'' ''d'' True None [(''MSG'', FText ''alert'')] [] None))] None))] None))] None"

text \<open>
  With the Logic category the discipline has a hole: \<open>controls_if\<close> has no type checks, so the
  checker accepts a notify block under an event without any condition around it, where \<open>key\<close> is
  not bound (the generated call then indexes the cooldown table with nil).
\<close>

theorem controls_if_breaks_scope:
  "\<exists>b. wf_block rules_shapes b \<and> btype b = ''thesada_rules_root'' \<and> \<not> scoped False False b"
proof (intro exI conjI)
  have names: "controls_if_names 0 False = [''IF0'', ''DO0'']"
    by (simp add: controls_if_names_def IFn_def DOn_def show_nat.simps digit_simps)
  show "wf_block rules_shapes unscoped_root"
    by (simp add: unscoped_root_def shape_defs fits_def block_shape_def doTypeChecks_def wf_fields_def
        field_ok_def controls_if_shape_def names if_input_def)
  show "btype unscoped_root = ''thesada_rules_root''" by (simp add: unscoped_root_def)
  show "\<not> scoped False False unscoped_root"
    by (simp add: unscoped_root_def needs_bound_def binds_key_def binds_s_def)
qed

end
