(* ===== verification/Alert_Json.thy ===== *)
theory Alert_Json
  imports Lua_Strings
begin

text \<open>
  The alert payload that a rule publishes: the Lua functions \<open>json_body\<close> and \<open>alert_json\<close> of
  the preamble in \<open>pkg/web/static/js/blockly-rules.js\<close>. Strings are bytes, as in Lua. A small
  reader of JSON objects with string members says what a receiver makes of the payload.
\<close>

section \<open>The encoder\<close>

abbreviation ALERT_MAX :: int where "ALERT_MAX \<equiv> 255"
abbreviation CODE_MAX :: int where "CODE_MAX \<equiv> 64"

definition is_cont :: "char \<Rightarrow> bool" where
  \<comment> \<open>the class \<open>[\128-\191]\<close>: a continuation byte of UTF-8\<close>
  "is_cont c \<longleftrightarrow> 128 \<le> (of_char c :: nat) \<and> (of_char c :: nat) \<le> 191"

function chunks :: "string \<Rightarrow> string list" where
  \<comment> \<open>the successive matches of \<open>.[\128-\191]*\<close>\<close>
  "chunks [] = []"
| "chunks (c # s) = (c # takeWhile is_cont s) # chunks (dropWhile is_cont s)"
  by pat_completeness auto
termination
  by (relation "measure length") (auto simp: le_imp_less_Suc length_dropWhile_le)

definition hex_digit :: "nat \<Rightarrow> char" where
  "hex_digit n = (if n < 10 then char_of (48 + n) else char_of (87 + n))"

definition format_04x :: "nat \<Rightarrow> string" where
  \<comment> \<open>\<open>%04x\<close> of a byte\<close>
  "format_04x b = ''00'' @ [hex_digit (b div 16), hex_digit (b mod 16)]"

definition json_escape :: "string \<Rightarrow> string" where
  "json_escape ch =
     (let b = (of_char (hd ch) :: nat)
      in if b = 0 then tl ch
         else if b = 34 \<or> b = 92 then BSL # ch
         else if b < 32 \<or> b = 127 then BSL # CHR ''u'' # format_04x b @ tl ch
         else ch)"

fun json_gsub :: "int \<Rightarrow> int \<Rightarrow> bool \<Rightarrow> string list \<Rightarrow> string" where
  \<comment> \<open>the replacement function over the matches, with its upvalues \<open>used\<close> and \<open>full\<close>\<close>
  "json_gsub mx used full [] = []"
| "json_gsub mx used full (ch # chs) =
     (let e = json_escape ch
      in if full \<or> used + int (length e) > mx then json_gsub mx used True chs
         else e @ json_gsub mx (used + int (length e)) full chs)"

definition json_body :: "string \<Rightarrow> int \<Rightarrow> string" where
  "json_body s mx = json_gsub mx 0 False (chunks s)"

definition alert_format :: "string \<Rightarrow> string \<Rightarrow> string" where
  \<open>alert_format code msg =
     ''{"severity":"warn","code":"'' @ code @ ''","message":"'' @ msg @ ''"}''\<close>

definition alert_json :: "string \<Rightarrow> string \<Rightarrow> string" where
  "alert_json key msg =
     (let code = json_body key CODE_MAX;
          room = ALERT_MAX - int (length (alert_format code ''''))
      in alert_format code (json_body msg room))"

section \<open>The reader\<close>

definition hex_val :: "char \<Rightarrow> nat option" where
  "hex_val c =
     (let b = (of_char c :: nat)
      in if 48 \<le> b \<and> b \<le> 57 then Some (b - 48)
         else if 97 \<le> b \<and> b \<le> 102 then Some (b - 87)
         else if 65 \<le> b \<and> b \<le> 70 then Some (b - 55) else None)"

definition json_simple_escape :: "char \<Rightarrow> char option" where
  "json_simple_escape e =
     (if e \<in> {DQ, BSL, CHR ''/''} then Some e
      else map_of [(CHR ''b'', CHR 0x08), (CHR ''f'', CHR 0x0C), (CHR ''n'', NL), (CHR ''r'', CR),
                   (CHR ''t'', CHR 0x09)] e)"

definition u_escape :: "string \<Rightarrow> (char \<times> string) option" where
  \<comment> \<open>behind \<open>\u\<close>; of the code points those of ASCII\<close>
  "u_escape s =
     (if length s < 4 then None
      else (case (hex_val (s ! 0), hex_val (s ! 1), hex_val (s ! 2), hex_val (s ! 3)) of
              (Some a, Some b, Some c, Some d) \<Rightarrow>
                if a = 0 \<and> b = 0 \<and> c < 8 then Some (char_of (16 * c + d), drop 4 s) else None
            | _ \<Rightarrow> None))"

lemma u_escape_shorter: "u_escape s = Some (x, t) \<Longrightarrow> length t < length s"
  by (auto simp: u_escape_def split: if_splits option.splits)

function json_read :: "string \<Rightarrow> (string \<times> string) option" where
  \<comment> \<open>RFC 8259, section 7: a string behind its opening quote\<close>
  "json_read [] = None"
| "json_read (c # s) =
     (if c = DQ then Some ([], s)
      else if (of_char c :: nat) < 32 then None
      else if c \<noteq> BSL then emit [c] (json_read s)
      else (case s of
              [] \<Rightarrow> None
            | e # t \<Rightarrow>
                if e = CHR ''u''
                then (case u_escape t of None \<Rightarrow> None | Some (x, r) \<Rightarrow> emit [x] (json_read r))
                else (case json_simple_escape e of None \<Rightarrow> None | Some x \<Rightarrow> emit [x] (json_read t))))"
  by pat_completeness auto
termination
  by (relation "measure length") (auto dest: u_escape_shorter)

declare json_read.simps [simp del]

lemma json_read_shorter: "json_read s = Some (v, t) \<Longrightarrow> length t < length s"
proof (induction s arbitrary: v t rule: json_read.induct)
  case 1
  then show ?case by (simp add: json_read.simps)
next
  case (2 c s)
  then show ?case
    by (subst (asm) json_read.simps)
      (fastforce simp: emit_Some_iff dest: u_escape_shorter split: if_splits list.splits option.splits)
qed

function json_members :: "string \<Rightarrow> (string \<times> string) list option" where
  \<comment> \<open>the members of an object of strings, behind the opening brace\<close>
  "json_members s =
     (case s of
        q # s1 \<Rightarrow>
          if q \<noteq> DQ then None
          else (case json_read s1 of
              Some (k, c # q' # s2) \<Rightarrow>
                if c \<noteq> CHR '':'' \<or> q' \<noteq> DQ then None
                else (case json_read s2 of
                    Some (v, d # s3) \<Rightarrow>
                      if d = CHR '','' then map_option (Cons (k, v)) (json_members s3)
                      else if d = CHR 0x7D \<and> s3 = [] then Some [(k, v)] else None
                  | _ \<Rightarrow> None)
            | _ \<Rightarrow> None)
      | [] \<Rightarrow> None)"
  by pat_completeness auto
termination
  by (relation "measure length") (auto dest!: json_read_shorter)

declare json_members.simps [simp del]

definition json_object :: "string \<Rightarrow> (string \<times> string) list option" where
  "json_object s = (case s of c # t \<Rightarrow> if c = CHR 0x7B then json_members t else None | [] \<Rightarrow> None)"

section \<open>One character\<close>

definition clean :: "string \<Rightarrow> string" where
  \<comment> \<open>what of a match survives: NUL bytes are dropped\<close>
  "clean ch = (if hd ch = CHR 0x00 then tl ch else ch)"

lemma chunks_parts:
  "ch \<in> set (chunks s) \<Longrightarrow> ch \<noteq> [] \<and> (\<forall>c \<in> set (tl ch). is_cont c)"
  by (induction s rule: chunks.induct) (auto dest: set_takeWhileD)

lemma concat_chunks: "concat (chunks s) = s"
  by (induction s rule: chunks.induct) auto

lemma json_read_end [simp]: "json_read (DQ # t) = Some ([], t)"
  by (simp add: json_read.simps)

lemma json_read_plain:
  "c \<noteq> DQ \<Longrightarrow> c \<noteq> BSL \<Longrightarrow> 32 \<le> (of_char c :: nat) \<Longrightarrow> json_read (c # t) = emit [c] (json_read t)"
  by (subst json_read.simps) simp

lemma json_read_cont:
  "\<forall>c \<in> set u. is_cont c \<Longrightarrow> json_read (u @ t) = emit u (json_read t)"
proof (induction u)
  case (Cons c u)
  then have "is_cont c" by simp
  then have "c \<noteq> DQ" "c \<noteq> BSL" "32 \<le> (of_char c :: nat)" by (auto simp: is_cont_def)
  with Cons show ?case by (simp add: json_read_plain)
qed simp

lemma of_hex_digit: "n < 16 \<Longrightarrow> hex_val (hex_digit n) = Some n"
  by (auto simp: hex_val_def hex_digit_def)

lemma u_escape_format:
  assumes "b < 128"
  shows "u_escape (format_04x b @ t) = Some (char_of b, t)"
proof -
  have "hex_val (CHR ''0'') = Some 0" by (simp add: hex_val_def)
  moreover have "b div 16 < 8" "b mod 16 < 16" using assms by auto
  ultimately show ?thesis
    by (simp add: u_escape_def format_04x_def of_hex_digit numeral_3_eq_3 numeral_2_eq_2)
qed

lemma of_char_special:
  "(of_char c :: nat) = 0 \<longleftrightarrow> c = CHR 0x00"
  "(of_char c :: nat) = 34 \<longleftrightarrow> c = DQ"
  "(of_char c :: nat) = 92 \<longleftrightarrow> c = BSL"
proof -
  have "(of_char c :: nat) = of_char d \<longleftrightarrow> c = d" for d by simp
  from this [of "CHR 0x00"] this [of DQ] this [of BSL]
  show "(of_char c :: nat) = 0 \<longleftrightarrow> c = CHR 0x00" "(of_char c :: nat) = 34 \<longleftrightarrow> c = DQ"
    "(of_char c :: nat) = 92 \<longleftrightarrow> c = BSL"
    by simp_all
qed

lemma json_read_backslash:
  "json_read (BSL # DQ # t) = emit [DQ] (json_read t)"
  "json_read (BSL # BSL # t) = emit [BSL] (json_read t)"
  "json_read (BSL # CHR ''u'' # t) =
     (case u_escape t of None \<Rightarrow> None | Some (x, r) \<Rightarrow> emit [x] (json_read r))"
  by (subst json_read.simps, simp add: json_simple_escape_def)+

lemma json_read_escape:
  assumes "ch \<noteq> []" and "\<forall>c \<in> set (tl ch). is_cont c"
  shows "json_read (json_escape ch @ t) = emit (clean ch) (json_read t)"
proof -
  obtain c u where ch: "ch = c # u" and u: "\<forall>c \<in> set u. is_cont c"
    using assms by (cases ch) auto
  note cont = json_read_cont [OF u, of t]
  consider (nul) "c = CHR 0x00" | (quote) "c = DQ" | (backslash) "c = BSL"
    | (control) "(of_char c :: nat) < 32 \<or> (of_char c :: nat) = 127" "c \<noteq> CHR 0x00"
    | (plain) "\<not> (of_char c :: nat) < 32" "(of_char c :: nat) \<noteq> 127" "c \<noteq> DQ" "c \<noteq> BSL"
    by blast
  then show ?thesis
  proof cases
    case control
    then have "(of_char c :: nat) < 128" by auto
    moreover from control have "c \<noteq> DQ" "c \<noteq> BSL" by auto
    ultimately show ?thesis
      using control by (simp add: ch json_escape_def clean_def of_char_special json_read_backslash
          u_escape_format cont)
  next
    case plain
    then have "c \<noteq> CHR 0x00" by auto
    with plain show ?thesis
      by (simp add: ch json_escape_def clean_def of_char_special json_read_plain cont)
  qed (simp_all add: ch json_escape_def clean_def json_read_backslash cont)
qed

section \<open>Whole texts\<close>

fun taken :: "int \<Rightarrow> int \<Rightarrow> string list \<Rightarrow> nat" where
  \<comment> \<open>how many characters the encoder lets through\<close>
  "taken mx used [] = 0"
| "taken mx used (ch # chs) =
     (if used + int (length (json_escape ch)) > mx then 0
      else Suc (taken mx (used + int (length (json_escape ch))) chs))"

lemma json_gsub_full [simp]: "json_gsub mx used True chs = []"
  by (induction chs) (simp_all add: Let_def)

lemma json_gsub_taken:
  "json_gsub mx used False chs = concat (map json_escape (take (taken mx used chs) chs))"
  by (induction chs arbitrary: used) (simp_all add: Let_def)

lemma json_gsub_bound: "used \<le> mx \<Longrightarrow> used + int (length (json_gsub mx used False chs)) \<le> mx"
proof (induction chs arbitrary: used)
  case (Cons ch chs)
  show ?case
  proof (cases "used + int (length (json_escape ch)) > mx")
    case False
    with Cons.IH [of "used + int (length (json_escape ch))"] show ?thesis by (simp add: Let_def)
  qed (use Cons.prems in \<open>simp add: Let_def\<close>)
qed simp

lemma json_body_bound: "0 \<le> mx \<Longrightarrow> int (length (json_body s mx)) \<le> mx"
  using json_gsub_bound [of 0 mx "chunks s"] by (simp add: json_body_def)

definition kept :: "string \<Rightarrow> int \<Rightarrow> string" where
  \<comment> \<open>the text that a reader finds: the characters that fit, without NUL\<close>
  "kept s mx = concat (map clean (take (taken mx 0 (chunks s)) (chunks s)))"

lemma json_read_chunks:
  "\<forall>ch \<in> set chs. ch \<noteq> [] \<and> (\<forall>c \<in> set (tl ch). is_cont c) \<Longrightarrow>
   json_read (concat (map json_escape chs) @ t) = emit (concat (map clean chs)) (json_read t)"
  by (induction chs) (simp_all add: json_read_escape)

lemma json_body_reads: "json_read (json_body s mx @ DQ # t) = Some (kept s mx, t)"
proof -
  have "\<forall>ch \<in> set (take (taken mx 0 (chunks s)) (chunks s)). ch \<noteq> [] \<and> (\<forall>c \<in> set (tl ch). is_cont c)"
    by (blast dest: in_set_takeD chunks_parts)
  then show ?thesis
    by (simp add: json_body_def json_gsub_taken json_read_chunks kept_def)
qed

lemma taken_all:
  "used + int (length (concat (map json_escape chs))) \<le> mx \<Longrightarrow> taken mx used chs = length chs"
  by (induction chs arbitrary: used) auto

lemma clean_no_nul: "CHR 0x00 \<notin> set s \<Longrightarrow> ch \<in> set (chunks s) \<Longrightarrow> clean ch = ch"
proof -
  assume "CHR 0x00 \<notin> set s" and ch: "ch \<in> set (chunks s)"
  then have "CHR 0x00 \<notin> set ch" using concat_chunks [of s] by (metis UN_I set_concat)
  moreover have "ch \<noteq> []" using chunks_parts [OF ch] by simp
  ultimately show ?thesis by (metis clean_def hd_in_set)
qed

lemma kept_all:
  assumes "int (length (concat (map json_escape (chunks s)))) \<le> mx" and "CHR 0x00 \<notin> set s"
  shows "kept s mx = s"
proof -
  have "map clean (chunks s) = chunks s"
    by (rule map_idI) (use clean_no_nul [OF assms(2)] in blast)
  with taken_all [of 0 "chunks s" mx] assms(1) show ?thesis
    by (simp add: kept_def concat_chunks)
qed

definition char_boundary :: "string \<Rightarrow> nat \<Rightarrow> bool" where
  \<comment> \<open>a cut of the UTF-8 bytes before position \<open>n\<close> splits no character: it is at an end of the text, or the
      next byte is none of the continuation bytes 128 to 191\<close>
  "char_boundary s n \<longleftrightarrow>
     n = 0 \<or> n = length s \<or> (of_char (s ! n) :: nat) < 128 \<or> 191 < (of_char (s ! n) :: nat)"

lemma char_boundary_append:
  "u = [] \<or> v = [] \<or> \<not> is_cont (hd v) \<Longrightarrow> char_boundary (u @ v) (length u)"
  by (cases v) (auto simp: char_boundary_def is_cont_def nth_append not_le)

lemma chunks_rest_start:
  "0 < n \<Longrightarrow> concat (drop n (chunks s)) = [] \<or> \<not> is_cont (hd (concat (drop n (chunks s))))"
proof (induction s arbitrary: n rule: chunks.induct)
  case (2 c s)
  obtain j where n: "n = Suc j" using 2 by (cases n) auto
  show ?case
  proof (cases j)
    case 0
    then show ?thesis using n hd_dropWhile [of is_cont s] by (auto simp: concat_chunks)
  next
    case (Suc i)
    then show ?thesis using 2 n by simp
  qed
qed simp

lemma kept_split:
  assumes "CHR 0x00 \<notin> set s"
  shows "kept s mx @ concat (drop (taken mx 0 (chunks s)) (chunks s)) = s"
proof -
  let ?n = "taken mx 0 (chunks s)"
  have "map clean (take ?n (chunks s)) = take ?n (chunks s)"
    by (rule map_idI) (use clean_no_nul [OF assms] in \<open>meson in_set_takeD\<close>)
  then show ?thesis
    using concat_chunks [of s] by (simp add: kept_def flip: concat_append)
qed

lemma kept_prefix: "CHR 0x00 \<notin> set s \<Longrightarrow> prefix (kept s mx) s"
  by (metis kept_split prefixI)

lemma kept_boundary: "CHR 0x00 \<notin> set s \<Longrightarrow> char_boundary s (length (kept s mx))"
proof -
  assume nul: "CHR 0x00 \<notin> set s"
  let ?n = "taken mx 0 (chunks s)" and ?r = "concat (drop (taken mx 0 (chunks s)) (chunks s))"
  have "kept s mx = [] \<or> ?r = [] \<or> \<not> is_cont (hd ?r)"
    using chunks_rest_start [of ?n s] by (cases "?n = 0") (auto simp: kept_def)
  then have "char_boundary (kept s mx @ ?r) (length (kept s mx))" by (rule char_boundary_append)
  then show ?thesis by (simp add: kept_split [OF nul])
qed

section \<open>Interface: a bounded encoder of string bodies\<close>

text \<open>
  What \<open>alert_json\<close> relies on: an encoder of text into the body of a JSON string that keeps to the
  bytes it is given and whose output a reader turns into a known value.
\<close>

locale body_encoder =
  fixes enc :: "string \<Rightarrow> int \<Rightarrow> string" and val :: "string \<Rightarrow> int \<Rightarrow> string"
  assumes bounded: "0 \<le> mx \<Longrightarrow> int (length (enc s mx)) \<le> mx"
    and reads_back: "json_read (enc s mx @ DQ # t) = Some (val s mx, t)"
begin

definition payload :: "string \<Rightarrow> string \<Rightarrow> string" where
  "payload key msg =
     (let code = enc key CODE_MAX
      in alert_format code (enc msg (ALERT_MAX - int (length (alert_format code '''')))))"

definition room :: "string \<Rightarrow> int" where
  "room key = ALERT_MAX - int (length (alert_format (enc key CODE_MAX) ''''))"

lemma length_alert_format: "length (alert_format c m) = length c + length m + 42"
  by (simp add: alert_format_def)

lemma room_bounds: "149 \<le> room key" "room key \<le> 213"
  using bounded [of CODE_MAX key] by (simp_all add: room_def length_alert_format)

lemma payload_length: "int (length (payload key msg)) \<le> ALERT_MAX"
  using bounded [of "room key" msg] room_bounds [of key]
  by (simp add: payload_def room_def Let_def length_alert_format)

lemma payload_reads:
  "json_object (payload key msg) =
     Some [(''severity'', ''warn''), (''code'', val key CODE_MAX), (''message'', val msg (room key))]"
  by (simp add: payload_def Let_def json_object_def alert_format_def json_members.simps json_read_plain
      reads_back room_def)

end

interpretation lua_body: body_encoder json_body kept
  by unfold_locales (simp_all add: json_body_bound json_body_reads)

lemma alert_json_payload: "alert_json = lua_body.payload"
  by (intro ext) (simp add: alert_json_def lua_body.payload_def Let_def)

section \<open>The alert payload\<close>

text \<open>
  C6. The payload of an alert always fits the slot of the device's offline queue: at most 255
  bytes, whatever the key and the message are, after escaping.
\<close>

theorem alert_json_fits: "length (alert_json key msg) \<le> 255"
  using lua_body.payload_length [of key msg] by (simp add: alert_json_payload)

definition message_room :: "string \<Rightarrow> int" where
  \<comment> \<open>the bytes that the key leaves for the message\<close>
  "message_room key = 255 - (42 + int (length (json_body key CODE_MAX)))"

text \<open>
  C7. The payload is a well-formed JSON object for every key and message, and a reader finds the
  three members with the severity, the key and the message, cut off at whole characters: the key
  and the message it reads are prefixes of the given ones, neither cut is before a UTF-8
  continuation byte (so no character is split), and they are equal to the given ones when their
  escaped forms fit. (NUL bytes, which the encoder drops, are excluded from the comparison.)
\<close>

theorem alert_json_reads_back:
  assumes "CHR 0x00 \<notin> set key" and "CHR 0x00 \<notin> set msg"
  shows "\<exists>k m. json_object (alert_json key msg) =
      Some [(''severity'', ''warn''), (''code'', k), (''message'', m)] \<and>
      prefix k key \<and> char_boundary key (length k) \<and>
      prefix m msg \<and> char_boundary msg (length m) \<and>
      (int (length (concat (map json_escape (chunks key)))) \<le> 64 \<longrightarrow> k = key) \<and>
      (int (length (concat (map json_escape (chunks msg)))) \<le> message_room key \<longrightarrow> m = msg)"
proof -
  have room: "lua_body.room key = message_room key"
    by (simp add: lua_body.room_def message_room_def lua_body.length_alert_format)
  show ?thesis
    using assms lua_body.payload_reads [of key msg]
    by (auto simp: alert_json_payload room kept_prefix kept_boundary kept_all)
qed

text \<open>
  The witness is a message of 151 two-byte characters after one letter, too long for the payload.
\<close>

definition long_message :: string where
  "long_message = CHR ''a'' # concat (replicate 151 [CHR 0xC3, CHR 0xA9])"

theorem alert_json_reads_back_witness:
  "CHR 0x00 \<notin> set ''battery_low'' \<and> CHR 0x00 \<notin> set long_message \<and>
   (\<exists>k m. json_object (alert_json ''battery_low'' long_message) =
      Some [(''severity'', ''warn''), (''code'', k), (''message'', m)] \<and>
      prefix k ''battery_low'' \<and> char_boundary ''battery_low'' (length k) \<and>
      prefix m long_message \<and> char_boundary long_message (length m) \<and>
      (int (length (concat (map json_escape (chunks ''battery_low'')))) \<le> 64 \<longrightarrow> k = ''battery_low'') \<and>
      (int (length (concat (map json_escape (chunks long_message)))) \<le> message_room ''battery_low'' \<longrightarrow>
         m = long_message))"
proof -
  have k: "CHR 0x00 \<notin> set ''battery_low''" and m: "CHR 0x00 \<notin> set long_message"
    by (simp_all add: long_message_def)
  show ?thesis using k m alert_json_reads_back [OF k m] by blast
qed

end
