(* ===== verification/Rules_Runtime.thy ===== *)
theory Rules_Runtime
  imports Rules_Static Alert_Json
begin

text \<open>
  What the generated file does on a device. The functions of the preamble (\<open>can_alert\<close>,
  \<open>set_cooldown\<close>, \<open>notify\<close>, \<open>temp_sustained\<close>, \<open>temp_clear\<close>, \<open>temp_streak\<close>) act on the
  tables that the file keeps as locals; the code of the condition and event blocks is run on the
  data of an event. The device is a parameter (\<open>host\<close>): the readings of \<open>Node.uptime()\<close>
  in the order of the calls, the answer of \<open>Telegram.broadcast\<close> if the firmware has it, the
  configured prefix and unit, and Lua's text of a number. Numbers of a reading are exact
  rationals; the rounding of the device's floats is not modelled.
\<close>

section \<open>State and device\<close>

datatype effect = LogWarn string | Broadcast string | Publish string string

record rt =
  sustain :: "string \<Rightarrow> int option"
  cooldown :: "string \<Rightarrow> int option"
  temp_sustain_start :: "string \<Rightarrow> int option"
  temp_seen :: "string \<Rightarrow> int option"
  temp_gap :: "string \<Rightarrow> int option"
  reads :: nat  \<comment> \<open>calls of \<open>Node.uptime()\<close> so far\<close>
  out :: "effect list"  \<comment> \<open>newest first\<close>

record host =
  uptime_at :: "nat \<Rightarrow> int"
  telegram :: "(nat \<Rightarrow> string \<Rightarrow> bool) option"  \<comment> \<open>answer by position in the output and text\<close>
  topic_prefix :: string
  temp_unit :: string
  num_text :: "rat \<Rightarrow> string"

definition rt_init :: rt where
  "rt_init = \<lparr>sustain = Map.empty, cooldown = Map.empty, temp_sustain_start = Map.empty,
     temp_seen = Map.empty, temp_gap = Map.empty, reads = 0, out = []\<rparr>"

abbreviation COOLDOWN_MS :: int where "COOLDOWN_MS \<equiv> 900000"
abbreviation TEMP_SUSTAIN :: int where "TEMP_SUSTAIN \<equiv> 5"
abbreviation TEMP_SUSTAIN_MS :: int where "TEMP_SUSTAIN_MS \<equiv> 300000"

section \<open>The functions of the preamble\<close>

definition uptime :: "host \<Rightarrow> rt \<Rightarrow> int \<times> rt" where
  "uptime h s = (uptime_at h (reads s), s\<lparr>reads := Suc (reads s)\<rparr>)"

definition can_alert :: "host \<Rightarrow> string \<Rightarrow> rt \<Rightarrow> bool \<times> rt" where
  "can_alert h key s =
     (let (now, s) = uptime h s
      in case cooldown s key of
           Some c \<Rightarrow> if now - c < COOLDOWN_MS then (False, s) else (True, s)
         | None \<Rightarrow> (True, s))"

definition set_cooldown :: "host \<Rightarrow> string \<Rightarrow> rt \<Rightarrow> rt" where
  "set_cooldown h key s =
     (let (now, s) = uptime h s in s\<lparr>cooldown := (cooldown s)(key \<mapsto> now)\<rparr>)"

definition notify :: "host \<Rightarrow> string \<Rightarrow> string \<Rightarrow> rt \<Rightarrow> rt" where
  "notify h msg key s =
     (let s = s\<lparr>out := LogWarn msg # out s\<rparr>;
          (ok, s) = (case telegram h of
                       Some broadcast \<Rightarrow>
                         (broadcast (length (out s)) msg, s\<lparr>out := Broadcast msg # out s\<rparr>)
                     | None \<Rightarrow> (True, s));
          s = s\<lparr>out := Publish (topic_prefix h @ ''/alert'') (alert_json key msg) # out s\<rparr>
      in if ok then set_cooldown h key s else s)"

definition temp_clear :: "string \<Rightarrow> rt \<Rightarrow> rt" where
  "temp_clear key s =
     s\<lparr>sustain := (sustain s)(key \<mapsto> 0), temp_sustain_start := (temp_sustain_start s)(key := None)\<rparr>"

definition count_of :: "rt \<Rightarrow> string \<Rightarrow> int" where
  \<comment> \<open>\<open>sustain[key] or 0\<close>\<close>
  "count_of s key = (case sustain s key of Some n \<Rightarrow> n | None \<Rightarrow> 0)"

definition temp_sustained :: "host \<Rightarrow> string \<Rightarrow> rt \<Rightarrow> bool \<times> rt" where
  "temp_sustained h key s =
     (let (now, s) = uptime h s;
          n = count_of s key + 1;
          s = s\<lparr>sustain := (sustain s)(key \<mapsto> n)\<rparr>;
          start = (case temp_sustain_start s key of Some t \<Rightarrow> t | None \<Rightarrow> now);
          s = s\<lparr>temp_sustain_start := (temp_sustain_start s)(key \<mapsto> start)\<rparr>;
          elapsed = now - start
      in if n \<ge> TEMP_SUSTAIN \<or> elapsed \<ge> TEMP_SUSTAIN_MS
         then can_alert h key (temp_clear key s)
         else (False, s))"

definition gap_limit :: "int option \<Rightarrow> int" where
  "gap_limit gap =
     (case gap of
        Some g \<Rightarrow> if 3 * g > TEMP_SUSTAIN_MS then 3 * g else TEMP_SUSTAIN_MS
      | None \<Rightarrow> TEMP_SUSTAIN_MS)"

definition note_gap :: "string \<Rightarrow> int \<Rightarrow> rt \<Rightarrow> rt" where
  \<comment> \<open>the \<open>if last then ... end\<close> of \<open>temp_streak\<close>\<close>
  "note_gap key now s =
     (case temp_seen s key of
        None \<Rightarrow> s
      | Some prev \<Rightarrow>
          (let g = now - prev;
               s = (if g > gap_limit (temp_gap s key) then temp_clear key s else s)
           in case temp_gap s key of
                Some m \<Rightarrow> if g < m then s\<lparr>temp_gap := (temp_gap s)(key \<mapsto> g)\<rparr> else s
              | None \<Rightarrow> s\<lparr>temp_gap := (temp_gap s)(key \<mapsto> g)\<rparr>))"

definition temp_streak :: "host \<Rightarrow> string \<Rightarrow> bool \<Rightarrow> rt \<Rightarrow> bool \<times> rt" where
  "temp_streak h key hot s =
     (let (now, s) = uptime h s;
          s = note_gap key now s;
          s = s\<lparr>temp_seen := (temp_seen s)(key \<mapsto> now)\<rparr>
      in if hot then temp_sustained h key s else (False, temp_clear key s))"

section \<open>Rules\<close>

text \<open>
  The rules that a tree of rule blocks stands for. The connection checks admit notifications with
  a reading only under temperature conditions, so the other conditions hold plain texts.
\<close>

datatype cmp = GE | LE

datatype action = Notify string | NotifyTemp string

datatype condition =
    IfTemp string cmp int bool "action list"
  | IfCurrent string cmp int int "string list"
  | IfBattery int "string list"

datatype event = Temperature | Current | Battery

datatype handler = OnSensor event "condition list"

record reading =
  r_name :: string
  temp_c :: "rat option"

record channel =
  ch_name :: string
  current_a :: "rat option"

record event_data =
  sensors :: "reading list option"
  channels :: "channel list option"
  present :: bool
  percent :: "rat option"
  charging :: bool

fun cmp_text :: "cmp \<Rightarrow> string" where
  "cmp_text GE = ''>=''"
| "cmp_text LE = ''<=''"

fun cmp_holds :: "cmp \<Rightarrow> rat \<Rightarrow> int \<Rightarrow> bool" where
  \<comment> \<open>comparison with a threshold in tenths\<close>
  "cmp_holds GE x k \<longleftrightarrow> x \<ge> of_int k / 10"
| "cmp_holds LE x k \<longleftrightarrow> x \<le> of_int k / 10"

definition over :: "cmp \<Rightarrow> int \<Rightarrow> rat option \<Rightarrow> bool" where
  \<comment> \<open>\<open>x ~= nil and x op thresh\<close>\<close>
  "over op k x = (case x of None \<Rightarrow> False | Some t \<Rightarrow> cmp_holds op t k)"

definition cond_key :: "condition \<Rightarrow> string" where
  \<comment> \<open>the value of \<open>local key\<close>\<close>
  "cond_key c =
     (case c of
        IfTemp sensor op k sus acts \<Rightarrow> temp_key sensor (cmp_text op) k
      | IfCurrent ch op k n msgs \<Rightarrow> current_key ch (cmp_text op) k (10 * n)
      | IfBattery pct msgs \<Rightarrow> ''battery_low'')"

section \<open>Running the code of the blocks\<close>

definition temp_message :: "host \<Rightarrow> string \<Rightarrow> rat \<Rightarrow> string \<Rightarrow> string" where
  "temp_message h name t sfx =
     (let t = (if temp_unit h = ''F'' then t * 9 / 5 + 32 else t)
      in name @ '': '' @ num_text h t @ temp_unit h @ '' - '' @ sfx)"

fun run_action :: "host \<Rightarrow> string \<Rightarrow> string \<Rightarrow> rat \<Rightarrow> action \<Rightarrow> rt \<Rightarrow> rt" where
  "run_action h key name t (Notify msg) s = notify h msg key s"
| "run_action h key name t (NotifyTemp sfx) s = notify h (temp_message h name t sfx) key s"

definition run_messages :: "host \<Rightarrow> string \<Rightarrow> string list \<Rightarrow> rt \<Rightarrow> rt" where
  "run_messages h key msgs s = fold (\<lambda>m. notify h m key) msgs s"

definition run_reading ::
  "host \<Rightarrow> string \<Rightarrow> cmp \<Rightarrow> int \<Rightarrow> bool \<Rightarrow> action list \<Rightarrow> reading \<Rightarrow> rt \<Rightarrow> rt" where
  \<comment> \<open>the body of the loop over \<open>data.sensors\<close>; the branch reads \<open>s.temp_c\<close>, which the condition
    has found to be a number\<close>
  "run_reading h sensor op k sus acts r s =
     (let key = temp_key sensor (cmp_text op) k;
          branch = (\<lambda>s. case temp_c r of
                      Some t \<Rightarrow> fold (run_action h key (r_name r) t) acts s
                    | None \<Rightarrow> s)
      in if sus then
           (if r_name r = sensor
            then (let (fire, s) = temp_streak h key (over op k (temp_c r)) s
                  in if fire then branch s else s)
            else s)
         else
           (if r_name r = sensor \<and> over op k (temp_c r)
            then (let (ok, s) = can_alert h key s in if ok then branch s else s)
            else s))"

definition run_channel ::
  "host \<Rightarrow> string \<Rightarrow> cmp \<Rightarrow> int \<Rightarrow> int \<Rightarrow> string list \<Rightarrow> channel \<Rightarrow> rt \<Rightarrow> rt" where
  "run_channel h ch op k n msgs c s =
     (if ch_name c = ch
      then (let key = current_key ch (cmp_text op) k (10 * n)
            in if over op k (current_a c)
               then (let s = s\<lparr>sustain := (sustain s)(key \<mapsto> count_of s key + 1)\<rparr>
                     in if count_of s key \<ge> n
                        then (let (ok, s) = can_alert h key s
                              in if ok
                                 then (let s = run_messages h key msgs s
                                       in s\<lparr>sustain := (sustain s)(key \<mapsto> 0)\<rparr>)
                                 else s)
                        else s)
               else s\<lparr>sustain := (sustain s)(key \<mapsto> 0)\<rparr>)
      else s)"

definition run_battery :: "host \<Rightarrow> int \<Rightarrow> string list \<Rightarrow> event_data \<Rightarrow> rt \<Rightarrow> rt" where
  "run_battery h k msgs d s =
     (let pct = (case percent d of Some p \<Rightarrow> p | None \<Rightarrow> -1)
      in if pct \<ge> 0 \<and> pct \<le> of_int k / 10 \<and> \<not> charging d
         then (let (ok, s) = can_alert h ''battery_low'' s
               in if ok then run_messages h ''battery_low'' msgs s else s)
         else s)"

datatype lua_error = BadIpairsArgument

fun run_condition :: "host \<Rightarrow> event_data \<Rightarrow> condition \<Rightarrow> rt \<Rightarrow> rt \<times> lua_error option" where
  \<comment> \<open>\<open>ipairs(nil)\<close> is a runtime error\<close>
  "run_condition h d (IfTemp sensor op k sus acts) s =
     (case sensors d of
        None \<Rightarrow> (s, Some BadIpairsArgument)
      | Some rs \<Rightarrow> (fold (run_reading h sensor op k sus acts) rs s, None))"
| "run_condition h d (IfCurrent ch op k n msgs) s =
     (case channels d of
        None \<Rightarrow> (s, Some BadIpairsArgument)
      | Some cs \<Rightarrow> (fold (run_channel h ch op k n msgs) cs s, None))"
| "run_condition h d (IfBattery k msgs) s = (run_battery h k msgs d s, None)"

fun run_conditions :: "host \<Rightarrow> event_data \<Rightarrow> condition list \<Rightarrow> rt \<Rightarrow> rt \<times> lua_error option" where
  "run_conditions h d [] s = (s, None)"
| "run_conditions h d (c # cs) s =
     (case run_condition h d c s of
        (s', None) \<Rightarrow> run_conditions h d cs s'
      | (s', Some e) \<Rightarrow> (s', Some e))"

fun guard_passes :: "event \<Rightarrow> event_data \<Rightarrow> bool" where
  "guard_passes Temperature d \<longleftrightarrow> sensors d \<noteq> None"
| "guard_passes Current d \<longleftrightarrow> channels d \<noteq> None"
| "guard_passes Battery d \<longleftrightarrow> present d"

fun run_handler :: "host \<Rightarrow> event_data \<Rightarrow> handler \<Rightarrow> rt \<Rightarrow> rt \<times> lua_error option" where
  "run_handler h d (OnSensor ev cs) s =
     (if guard_passes ev d then run_conditions h d cs s else (s, None))"

end
