(* ===== verification/Rules_Alerts.thy ===== *)
theory Rules_Alerts
  imports Rules_Runtime
begin

text \<open>
  When the generated rules alert and when they stay quiet: the cooldown after an alert, the streak
  that a sustained temperature rule needs, the keys that keep rules apart, and the events that a
  handler can be run on.
\<close>

section \<open>Frames\<close>

lemma uptime_frame [simp]:
  "uptime h s = (uptime_at h (reads s), s\<lparr>reads := Suc (reads s)\<rparr>)"
  by (simp add: uptime_def)

lemma temp_clear_frame [simp]:
  "reads (temp_clear key s) = reads s" "out (temp_clear key s) = out s"
  "cooldown (temp_clear key s) = cooldown s" "temp_seen (temp_clear key s) = temp_seen s"
  "temp_gap (temp_clear key s) = temp_gap s"
  by (simp_all add: temp_clear_def)

lemma temp_clear_count [simp]:
  "count_of (temp_clear key s) k = (if k = key then 0 else count_of s k)"
  "temp_sustain_start (temp_clear key s) k = (if k = key then None else temp_sustain_start s k)"
  by (simp_all add: temp_clear_def count_of_def)

lemma note_gap_frame [simp]:
  "reads (note_gap key now s) = reads s" "out (note_gap key now s) = out s"
  "cooldown (note_gap key now s) = cooldown s" "temp_seen (note_gap key now s) = temp_seen s"
  by (simp_all add: note_gap_def Let_def split: option.splits)

lemma can_alert_frame:
  assumes "can_alert h key s = (b, s')"
  shows "s' = s\<lparr>reads := Suc (reads s)\<rparr>"
    and "b \<longleftrightarrow> (case cooldown s key of None \<Rightarrow> True | Some c \<Rightarrow> uptime_at h (reads s) - c \<ge> COOLDOWN_MS)"
  using assms by (auto simp: can_alert_def split: option.splits if_splits)

lemma temp_sustained_frame:
  assumes "temp_sustained h key s = (b, s')"
  shows "out s' = out s" "cooldown s' = cooldown s" "Suc (reads s) \<le> reads s'"
  using assms by (auto simp: temp_sustained_def Let_def split: if_splits dest!: can_alert_frame(1))

lemma temp_streak_frame:
  assumes "temp_streak h key hot s = (b, s')"
  shows "out s' = out s" "cooldown s' = cooldown s" "Suc (reads s) \<le> reads s'"
  using assms by (auto simp: temp_streak_def Let_def split: if_splits dest: temp_sustained_frame)

lemma notify_reads: "reads s \<le> reads (notify h msg key s)"
  by (auto simp: notify_def set_cooldown_def Let_def split: option.splits)

lemma run_action_reads: "reads s \<le> reads (run_action h key name t a s)"
  by (cases a) (simp_all add: notify_reads)

lemma fold_reads: "(\<And>x s. reads s \<le> reads (f x s)) \<Longrightarrow> reads s \<le> reads (fold f xs s)"
proof (induction xs arbitrary: s)
  case (Cons x xs)
  have "reads s \<le> reads (f x s)" by (rule Cons.prems)
  also have "\<dots> \<le> reads (fold f xs (f x s))" by (rule Cons.IH [OF Cons.prems])
  finally show ?case by simp
qed simp

lemma run_messages_reads: "reads s \<le> reads (run_messages h key msgs s)"
  by (simp add: run_messages_def fold_reads notify_reads)

section \<open>Interface: a gate in front of an alert\<close>

text \<open>
  The code of every condition asks a gate before it runs its branch: \<open>can_alert\<close> or, for a
  sustained rule, \<open>temp_streak\<close>. What the conditions rely on: a gate sends nothing, leaves the
  cooldown table alone, and opens only when the cooldown of its key is over.
\<close>

definition quiet :: "host \<Rightarrow> string \<Rightarrow> int \<Rightarrow> nat \<Rightarrow> rt \<Rightarrow> bool" where
  \<comment> \<open>the key was alerted at time \<open>c\<close> and every clock reading before the \<open>n\<close>-th is too early\<close>
  "quiet h key c n s \<longleftrightarrow>
     cooldown s key = Some c \<and> (\<forall>i. reads s \<le> i \<longrightarrow> i < n \<longrightarrow> uptime_at h i - c < COOLDOWN_MS)"

locale alert_gate =
  fixes gate :: "host \<Rightarrow> string \<Rightarrow> rt \<Rightarrow> bool \<times> rt"
  assumes sends_nothing: "gate h key s = (b, s') \<Longrightarrow> out s' = out s"
    and keeps_cooldown: "gate h key s = (b, s') \<Longrightarrow> cooldown s' = cooldown s"
    and reads_clock: "gate h key s = (b, s') \<Longrightarrow> reads s \<le> reads s'"
    and opens_late: "gate h key s = (True, s') \<Longrightarrow> cooldown s key = Some c \<Longrightarrow>
      \<exists>i. reads s \<le> i \<and> i < reads s' \<and> uptime_at h i - c \<ge> COOLDOWN_MS"
begin

lemma closed_when_quiet:
  assumes "gate h key s = (b, s')" and "quiet h key c n s" and "reads s' \<le> n"
  shows "\<not> b" and "quiet h key c n s'"
proof -
  show "\<not> b"
  proof
    assume b
    with assms(1,2) opens_late [of h key s s' c] obtain i where
      "reads s \<le> i" "i < reads s'" "uptime_at h i - c \<ge> COOLDOWN_MS"
      by (auto simp: quiet_def)
    moreover from this assms(2,3) have "uptime_at h i - c < COOLDOWN_MS"
      by (auto simp: quiet_def)
    ultimately show False by simp
  qed
  show "quiet h key c n s'"
    using assms(2) keeps_cooldown [OF assms(1)] reads_clock [OF assms(1)] by (auto simp: quiet_def)
qed

end

interpretation plain_gate: alert_gate can_alert
proof
  show "out s' = out s" "cooldown s' = cooldown s" "reads s \<le> reads s'"
    if "can_alert h key s = (b, s')" for h key s b s'
    using can_alert_frame(1) [OF that] by simp_all
  show "\<exists>i. reads s \<le> i \<and> i < reads s' \<and> uptime_at h i - c \<ge> COOLDOWN_MS"
    if "can_alert h key s = (True, s')" and "cooldown s key = Some c" for h key s s' c
    using can_alert_frame [OF that(1)] that(2) by auto
qed

lemma temp_sustained_opens_late:
  assumes "temp_sustained h key s = (True, s')" and "cooldown s key = Some c"
  shows "\<exists>i. reads s \<le> i \<and> i < reads s' \<and> uptime_at h i - c \<ge> COOLDOWN_MS"
  using assms
  by (auto simp: temp_sustained_def Let_def split: if_splits
      dest!: plain_gate.opens_late [where c = c]) (meson Suc_leD)+

interpretation streak_gate: alert_gate "\<lambda>h key. temp_streak h key hot" for hot
proof
  show "out s' = out s" "cooldown s' = cooldown s" "reads s \<le> reads s'"
    if "temp_streak h key hot s = (b, s')" for h key s b s'
    using temp_streak_frame [OF that] by simp_all
  show "\<exists>i. reads s \<le> i \<and> i < reads s' \<and> uptime_at h i - c \<ge> COOLDOWN_MS"
    if "temp_streak h key hot s = (True, s')" and "cooldown s key = Some c" for h key s s' c
    using that by (auto simp: temp_streak_def Let_def split: if_splits
        dest!: temp_sustained_opens_late [where c = c]) (meson Suc_leD)
qed

section \<open>Cooldown\<close>

text \<open>
  A step of a condition is silent for its key: when the key is in its cooldown for the whole step,
  the step sends nothing and the key stays in its cooldown.
\<close>

definition silent :: "host \<Rightarrow> string \<Rightarrow> int \<Rightarrow> nat \<Rightarrow> (rt \<Rightarrow> rt) \<Rightarrow> bool" where
  "silent h key c n f \<longleftrightarrow>
     (\<forall>s. reads s \<le> reads (f s)) \<and>
     (\<forall>s. quiet h key c n s \<longrightarrow> reads (f s) \<le> n \<longrightarrow> out (f s) = out s \<and> quiet h key c n (f s))"

lemma silent_fold:
  assumes "\<And>x. x \<in> set xs \<Longrightarrow> silent h key c n (f x)"
  shows "silent h key c n (fold f xs)"
  using assms
proof (induction xs)
  case (Cons x xs)
  have x: "silent h key c n (f x)" and xs: "silent h key c n (fold f xs)"
    using Cons by simp_all
  have mono: "reads s \<le> reads (f x s)" "reads (f x s) \<le> reads (fold f xs (f x s))" for s
    using x xs by (simp_all add: silent_def)
  then have "reads s \<le> reads (fold f (x # xs) s)" for s
    by (metis fold_simps(2) le_trans)
  moreover have "out (fold f (x # xs) s) = out s \<and> quiet h key c n (fold f (x # xs) s)"
    if "quiet h key c n s" and "reads (fold f (x # xs) s) \<le> n" for s
  proof -
    have "reads (f x s) \<le> n" using mono(2) [of s] that(2) by simp
    with x that(1) have "out (f x s) = out s" "quiet h key c n (f x s)"
      by (simp_all add: silent_def)
    with xs that(2) show ?thesis by (simp add: silent_def)
  qed
  ultimately show ?case by (simp add: silent_def)
qed (simp add: silent_def)

context alert_gate
begin

lemma guarded_silent:
  assumes mono: "\<And>s. reads s \<le> reads (branch s)"
  shows "silent h key c n (\<lambda>s. let (ok, s) = gate h key s in if ok then branch s else s)"
  unfolding silent_def
proof (intro conjI allI impI)
  fix s
  obtain b s' where g: "gate h key s = (b, s')" by fastforce
  have r: "reads s \<le> reads s'" by (rule reads_clock [OF g])
  then show "reads s \<le> reads (let (ok, s) = gate h key s in if ok then branch s else s)"
    using g mono [of s'] by (simp add: le_trans)
  assume q: "quiet h key c n s"
    and n: "reads (let (ok, s) = gate h key s in if ok then branch s else s) \<le> n"
  have "reads s' \<le> n" using n g mono [of s'] by (simp split: if_splits)
  note closed = closed_when_quiet [OF g q this]
  show "out (let (ok, s) = gate h key s in if ok then branch s else s) = out s"
    using closed g sends_nothing [OF g] by simp
  show "quiet h key c n (let (ok, s) = gate h key s in if ok then branch s else s)"
    using closed g by simp
qed

end

lemma silent_id: "silent h key c n (\<lambda>s. s)"
  by (simp add: silent_def)

lemma silent_if:
  "silent h key c n f \<Longrightarrow> silent h key c n g \<Longrightarrow> silent h key c n (\<lambda>s. if P s then f s else g s)"
  by (simp add: silent_def)

lemma quiet_sustain [simp]: "quiet h key c n (s\<lparr>sustain := x\<rparr>) = quiet h key c n s"
  by (simp add: quiet_def)

lemma silent_sustain:
  assumes "silent h key c n f"
  shows "silent h key c n (\<lambda>s. f (s\<lparr>sustain := g s\<rparr>))"
proof -
  have "reads (s\<lparr>sustain := g s\<rparr>) \<le> reads (f (s\<lparr>sustain := g s\<rparr>))" for s
    using assms unfolding silent_def by blast
  moreover have "quiet h key c n (s\<lparr>sustain := g s\<rparr>) \<Longrightarrow> reads (f (s\<lparr>sustain := g s\<rparr>)) \<le> n \<Longrightarrow>
      out (f (s\<lparr>sustain := g s\<rparr>)) = out (s\<lparr>sustain := g s\<rparr>) \<and> quiet h key c n (f (s\<lparr>sustain := g s\<rparr>))"
    for s
    using assms unfolding silent_def by blast
  ultimately show ?thesis by (simp add: silent_def)
qed

lemma run_actions_reads: "reads s \<le> reads (fold (run_action h key name t) acts s)"
  by (simp add: fold_reads run_action_reads)

lemma run_reading_silent:
  "silent h (temp_key sensor (cmp_text op) k) c n (run_reading h sensor op k sus acts r)"
proof -
  let ?key = "temp_key sensor (cmp_text op) k"
  let ?branch = "\<lambda>s. case temp_c r of
    Some t \<Rightarrow> fold (run_action h ?key (r_name r) t) acts s | None \<Rightarrow> s"
  have mono: "reads s \<le> reads (?branch s)" for s
    by (simp add: run_actions_reads split: option.split)
  show ?thesis
    unfolding run_reading_def [abs_def] Let_def [of ?key] Let_def [of ?branch]
    using streak_gate.guarded_silent [of ?branch h ?key c n "over op k (temp_c r)", OF mono]
      plain_gate.guarded_silent [of ?branch h ?key c n, OF mono]
    by (cases sus) (simp_all add: silent_if silent_id)
qed

lemma run_channel_silent:
  "silent h (current_key ch (cmp_text op) k (10 * m)) c n (run_channel h ch op k m msgs r)"
proof -
  let ?key = "current_key ch (cmp_text op) k (10 * m)"
  let ?branch = "\<lambda>s. (run_messages h ?key msgs s)
    \<lparr>sustain := (sustain (run_messages h ?key msgs s))(?key \<mapsto> 0)\<rparr>"
  have "reads s \<le> reads (?branch s)" for s
    by (simp add: run_messages_reads)
  then have "silent h ?key c n (\<lambda>s. let (ok, s) = can_alert h ?key s in if ok then ?branch s else s)"
    by (rule plain_gate.guarded_silent)
  then have "silent h ?key c n (\<lambda>s. if count_of s ?key \<ge> m
      then (let (ok, s) = can_alert h ?key s in if ok then ?branch s else s) else s)" (is "silent _ _ _ _ ?f")
    by (rule silent_if [OF _ silent_id])
  from silent_sustain [OF this, of "\<lambda>s. (sustain s)(?key \<mapsto> count_of s ?key + 1)"]
  have "silent h ?key c n (\<lambda>s. if ch_name r = ch then
      (if over op k (current_a r) then ?f (s\<lparr>sustain := (sustain s)(?key \<mapsto> count_of s ?key + 1)\<rparr>)
       else s\<lparr>sustain := (sustain s)(?key \<mapsto> 0)\<rparr>) else s)"
    by (rule silent_if [OF silent_if [OF _ silent_sustain [OF silent_id]] silent_id])
  also have "(\<lambda>s. if ch_name r = ch then
      (if over op k (current_a r) then ?f (s\<lparr>sustain := (sustain s)(?key \<mapsto> count_of s ?key + 1)\<rparr>)
       else s\<lparr>sustain := (sustain s)(?key \<mapsto> 0)\<rparr>) else s) = run_channel h ch op k m msgs r"
    unfolding run_channel_def [abs_def] Let_def by (rule refl)
  finally show ?thesis .
qed

lemma run_battery_silent: "silent h ''battery_low'' c n (run_battery h k msgs d)"
  unfolding run_battery_def [abs_def] Let_def [of "case percent d of Some p \<Rightarrow> p | None \<Rightarrow> -1"]
  by (intro silent_if silent_id plain_gate.guarded_silent run_messages_reads)

lemma run_condition_silent:
  "silent h (cond_key c) t n (\<lambda>s. fst (run_condition h d c s))"
proof (cases c)
  case (IfTemp sensor op k sus acts)
  then show ?thesis
    using silent_fold [OF run_reading_silent] silent_id
    by (cases "sensors d") (simp_all add: cond_key_def)
next
  case (IfCurrent ch op k m msgs)
  then show ?thesis
    using silent_fold [OF run_channel_silent] silent_id
    by (cases "channels d") (simp_all add: cond_key_def)
next
  case (IfBattery k msgs)
  then show ?thesis by (simp add: cond_key_def run_battery_silent)
qed

text \<open>
  The cooldown starts only when an alert counts: \<open>notify\<close> sets it when the firmware has no Telegram or
  the broadcast was accepted. \<open>alert_counted\<close> reads that off the effects after position \<open>n\<close> of the
  output; \<open>keeps_books\<close> says that a step writes the cooldown of its key exactly in that case, with a
  clock reading of the step.
\<close>

definition accepted :: "host \<Rightarrow> nat \<Rightarrow> effect \<Rightarrow> bool" where
  \<comment> \<open>whether the effect at a position of the output is a delivery that counts\<close>
  "accepted h p e \<longleftrightarrow>
     (case telegram h of
        None \<Rightarrow> True
      | Some bc \<Rightarrow> (case e of Broadcast m \<Rightarrow> bc p m | _ \<Rightarrow> False))"

definition alert_counted :: "host \<Rightarrow> nat \<Rightarrow> effect list \<Rightarrow> bool" where
  "alert_counted h n os \<longleftrightarrow> list_ex (\<lambda>p. accepted h p (rev os ! p)) [n..<length os]"

definition keeps_books :: "host \<Rightarrow> string \<Rightarrow> rt \<Rightarrow> rt \<Rightarrow> bool" where
  "keeps_books h key s s' \<longleftrightarrow>
     suffix (out s) (out s') \<and> reads s \<le> reads s' \<and>
     (if alert_counted h (length (out s)) (out s')
      then \<exists>i. reads s \<le> i \<and> i < reads s' \<and> cooldown s' key = Some (uptime_at h i)
      else cooldown s' key = cooldown s key)"

lemma alert_counted_same [simp]: "alert_counted h (length os) os \<longleftrightarrow> False"
  by (simp add: alert_counted_def)

lemma alert_counted_split:
  assumes "suffix os1 os2" and "n \<le> length os1"
  shows "alert_counted h n os2 \<longleftrightarrow> alert_counted h n os1 \<or> alert_counted h (length os1) os2"
proof -
  obtain ys where os2: "os2 = ys @ os1" using assms(1) by (auto simp: suffix_def)
  have "[n..<length os2] = [n..<length os1] @ [length os1..<length os2]"
    using assms(2) os2 upt_add_eq_append [of n "length os1" "length ys"] by (simp add: add.commute)
  moreover have "rev os2 ! p = rev os1 ! p" if "p \<in> set [n..<length os1]" for p
    using that os2 by (simp add: nth_append)
  then have "list_ex (\<lambda>p. accepted h p (rev os2 ! p)) [n..<length os1] \<longleftrightarrow> alert_counted h n os1"
    by (auto simp: alert_counted_def list_ex_iff)
  ultimately show ?thesis by (simp add: alert_counted_def)
qed

lemma keeps_books_idle:
  "out s' = out s \<Longrightarrow> cooldown s' = cooldown s \<Longrightarrow> reads s \<le> reads s' \<Longrightarrow> keeps_books h key s s'"
  by (simp add: keeps_books_def)

lemma keeps_books_trans:
  assumes "keeps_books h key s s1" and "keeps_books h key s1 s2"
  shows "keeps_books h key s s2"
proof -
  have "alert_counted h (length (out s)) (out s2) \<longleftrightarrow>
      alert_counted h (length (out s)) (out s1) \<or> alert_counted h (length (out s1)) (out s2)"
    using assms by (intro alert_counted_split) (simp_all add: keeps_books_def suffix_length_le)
  moreover have "suffix (out s) (out s2)" "reads s \<le> reads s2"
    using assms by (auto simp: keeps_books_def intro: suffix_order.trans)
  ultimately show ?thesis using assms unfolding keeps_books_def
    by (smt (verit) le_trans less_le_trans)
qed

lemma keeps_books_fold: "(\<And>x s. keeps_books h key s (f x s)) \<Longrightarrow> keeps_books h key s (fold f xs s)"
  by (induction xs arbitrary: s) (auto intro: keeps_books_idle keeps_books_trans)

lemma keeps_books_sustain: "keeps_books h key s s' \<Longrightarrow> keeps_books h key s (s'\<lparr>sustain := f\<rparr>)"
  by (simp add: keeps_books_def)

lemma notify_keeps_books: "keeps_books h key s (notify h msg key s)"
proof (cases "telegram h")
  case None
  then show ?thesis
    by (auto simp: keeps_books_def alert_counted_def accepted_def notify_def set_cooldown_def Let_def
        suffix_def list_ex_iff intro!: bexI [of _ "length (out s)"])
next
  case (Some bc)
  let ?n = "length (out s)"
  have "[?n..<Suc (Suc (Suc ?n))] = [?n, Suc ?n, Suc (Suc ?n)]" by (simp add: upt_rec)
  then have "alert_counted h ?n (out (notify h msg key s)) \<longleftrightarrow> bc (Suc ?n) msg"
    using Some by (simp add: alert_counted_def accepted_def notify_def set_cooldown_def Let_def nth_append)
  with Some show ?thesis
    by (auto simp: keeps_books_def notify_def set_cooldown_def Let_def suffix_def)
qed

lemma run_action_keeps_books: "keeps_books h key s (run_action h key name t a s)"
  by (cases a) (simp_all add: notify_keeps_books)

context alert_gate
begin

lemma guarded_keeps_books:
  assumes "\<And>s. keeps_books h key s (branch s)"
  shows "keeps_books h key s (let (ok, s) = gate h key s in if ok then branch s else s)"
proof -
  obtain b s' where g: "gate h key s = (b, s')" by fastforce
  have "keeps_books h key s s'"
    using g sends_nothing keeps_cooldown reads_clock by (intro keeps_books_idle) blast+
  with keeps_books_trans [OF this assms] show ?thesis by (simp add: g)
qed

end

lemma run_reading_keeps_books:
  "keeps_books h (temp_key sensor (cmp_text op) k) s (run_reading h sensor op k sus acts r s)"
proof -
  let ?key = "temp_key sensor (cmp_text op) k"
  let ?branch = "\<lambda>s. case temp_c r of
    Some t \<Rightarrow> fold (run_action h ?key (r_name r) t) acts s | None \<Rightarrow> s"
  have "keeps_books h ?key s (?branch s)" for s
    by (auto simp: keeps_books_idle intro: keeps_books_fold run_action_keeps_books split: option.split)
  note gates = streak_gate.guarded_keeps_books [OF this, of s "over op k (temp_c r)"]
    plain_gate.guarded_keeps_books [OF this, of s]
  show ?thesis
    unfolding run_reading_def Let_def [of ?key] Let_def [of ?branch]
    using gates by (cases sus) (simp_all add: keeps_books_idle)
qed

lemma run_messages_keeps_books: "keeps_books h key s (run_messages h key msgs s)"
  unfolding run_messages_def by (rule keeps_books_fold) (rule notify_keeps_books)

lemma run_channel_keeps_books:
  "keeps_books h (current_key ch (cmp_text op) k (10 * n)) s (run_channel h ch op k n msgs r s)"
proof -
  let ?key = "current_key ch (cmp_text op) k (10 * n)"
  let ?counted = "s\<lparr>sustain := (sustain s)(?key \<mapsto> count_of s ?key + 1)\<rparr>"
  let ?branch = "\<lambda>s. (run_messages h ?key msgs s)
    \<lparr>sustain := (sustain (run_messages h ?key msgs s))(?key \<mapsto> 0)\<rparr>"
  have "keeps_books h ?key s (?branch s)" for s
    by (intro keeps_books_sustain run_messages_keeps_books)
  from plain_gate.guarded_keeps_books [OF this, of ?counted]
  have "keeps_books h ?key s (let (ok, s) = can_alert h ?key ?counted in if ok then ?branch s else s)"
    by (rule keeps_books_trans [OF keeps_books_idle, rotated -1]) simp_all
  then show ?thesis
    unfolding run_channel_def Let_def by (simp add: keeps_books_idle)
qed

lemma run_condition_keeps_books: "keeps_books h (cond_key c) s (fst (run_condition h d c s))"
proof (cases c)
  case (IfTemp sensor op k sus acts)
  then show ?thesis
    by (auto simp: cond_key_def keeps_books_idle run_reading_keeps_books
        intro!: keeps_books_fold split: option.split)
next
  case (IfCurrent ch op k n msgs)
  then show ?thesis
    by (auto simp: cond_key_def keeps_books_idle run_channel_keeps_books
        intro!: keeps_books_fold split: option.split)
next
  case (IfBattery k msgs)
  have "keeps_books h ''battery_low'' s (run_battery h k msgs d s)"
    unfolding run_battery_def Let_def [of "case percent d of Some p \<Rightarrow> p | None \<Rightarrow> -1"]
    using plain_gate.guarded_keeps_books [OF run_messages_keeps_books, of h "''battery_low''"]
    by (simp add: keeps_books_idle)
  with IfBattery show ?thesis by (simp add: cond_key_def)
qed

lemma condition_silent:
  assumes "run_condition h d c s = (s', e)" and "cooldown s (cond_key c) = Some t"
    and "\<forall>j. reads s \<le> j \<longrightarrow> j < reads s' \<longrightarrow> uptime_at h j - t < 900000"
  shows "out s' = out s \<and> cooldown s' (cond_key c) = Some t"
proof -
  have "quiet h (cond_key c) t (reads s') s" using assms(2,3) by (simp add: quiet_def)
  with run_condition_silent [of h c t "reads s'" d] assms(1) show ?thesis
    by (auto simp: silent_def quiet_def dest!: spec [where x = s])
qed


definition sample_host :: host where
  "sample_host = \<lparr>uptime_at = (\<lambda>i. 1000 * int i), telegram = Some (\<lambda>n msg. True),
     topic_prefix = ''thesada/node'', temp_unit = ''C'', num_text = (\<lambda>x. ''21'')\<rparr>"

definition low_battery :: event_data where
  "low_battery = \<lparr>sensors = None, channels = None, present = True, percent = Some 15, charging = False\<rparr>"


section \<open>Delivery\<close>

definition alert_effects :: "host \<Rightarrow> string \<Rightarrow> string \<Rightarrow> effect list" where
  \<comment> \<open>newest first\<close>
  "alert_effects h key msg =
     Publish (topic_prefix h @ ''/alert'') (alert_json key msg) #
     (if telegram h = None then [] else [Broadcast msg]) @ [LogWarn msg]"

lemma notify_out: "out (notify h msg key s) = alert_effects h key msg @ out s"
  by (auto simp: notify_def alert_effects_def set_cooldown_def Let_def split: option.splits)

lemma run_messages_out:
  "out (run_messages h key msgs s) = concat (map (alert_effects h key) (rev msgs)) @ out s"
  by (induction msgs arbitrary: s) (simp_all add: run_messages_def notify_out)

fun action_text :: "host \<Rightarrow> string \<Rightarrow> rat \<Rightarrow> action \<Rightarrow> string" where
  "action_text h name t (Notify msg) = msg"
| "action_text h name t (NotifyTemp sfx) = temp_message h name t sfx"

lemma run_action_notify: "run_action h key name t a s = notify h (action_text h name t a) key s"
  by (cases a) simp_all

lemma run_actions_out:
  "out (fold (run_action h key name t) acts s) =
   concat (map (\<lambda>a. alert_effects h key (action_text h name t a)) (rev acts)) @ out s"
  by (induction acts arbitrary: s) (simp_all add: run_action_notify notify_out)

lemma notify_cooldown:
  "cooldown (notify h msg key s) k \<noteq> cooldown s k \<Longrightarrow> k = key"
  by (auto simp: notify_def set_cooldown_def Let_def split: option.splits if_splits)

text \<open>
  C9. A notification is written to the device log, handed to Telegram when the firmware has it, and
  published as JSON on the alert topic under the configured prefix, in this order and exactly once each,
  whatever Telegram answers; the cooldown of the key starts (at the next clock reading) exactly when
  Telegram is absent or has accepted the message, and no other key's cooldown is touched.
\<close>

theorem notify_delivers:
  "rev (out (notify h msg key s)) =
     rev (out s) @ [LogWarn msg] @ (if telegram h = None then [] else [Broadcast msg]) @
     [Publish (topic_prefix h @ ''/alert'') (alert_json key msg)] \<and>
   cooldown (notify h msg key s) =
     (if (case telegram h of None \<Rightarrow> True | Some bc \<Rightarrow> bc (Suc (length (out s))) msg)
      then (cooldown s)(key \<mapsto> uptime_at h (reads s)) else cooldown s)"
  by (auto simp: notify_out alert_effects_def)
    (auto simp: notify_def set_cooldown_def Let_def split: option.splits)

end
