(* ===== verification/Rules_Streak.thy ===== *)
theory Rules_Streak
  imports Rules_Alerts
begin

text \<open>
  The counting behind sustained rules. A sustained temperature rule calls \<open>temp_streak\<close> once per
  reading of its sensor; a current rule counts its readings in \<open>sustain\<close>. The history of the
  readings is kept beside the state, and the alerts are related to it: an alert is sent only
  after a streak, a streak without cooldown leads to an alert.
\<close>

section \<open>Histories of temperature readings\<close>

text \<open>
  An observation is one call of \<open>temp_streak\<close>: when the call was made, when it was counted
  (the second clock reading, taken by \<open>temp_sustained\<close>) and whether the reading matched.
\<close>

record obs =
  seen_at :: int
  counted_at :: int
  hot :: bool

fun min_gap :: "obs list \<Rightarrow> int option" where
  \<comment> \<open>the shortest time between two successive observations, newest first\<close>
  "min_gap [] = None"
| "min_gap [e] = None"
| "min_gap (e # e' # es) =
     (let g = seen_at e - seen_at e'
      in case min_gap (e' # es) of None \<Rightarrow> Some g | Some m \<Rightarrow> Some (if g < m then g else m))"

fun joined :: "nat \<Rightarrow> obs list \<Rightarrow> bool" where
  \<comment> \<open>the newest \<open>n\<close> observations all match and no two of them are too far apart\<close>
  "joined 0 es = True"
| "joined (Suc n) [] = False"
| "joined (Suc 0) (e # es) = hot e"
| "joined (Suc (Suc n)) (e # es) =
     (hot e \<and> es \<noteq> [] \<and> seen_at e - seen_at (hd es) \<le> gap_limit (min_gap es) \<and> joined (Suc n) es)"

definition observe :: "host \<Rightarrow> rt \<Rightarrow> bool \<Rightarrow> obs" where
  "observe h s b =
     \<lparr>seen_at = uptime_at h (reads s), counted_at = uptime_at h (Suc (reads s)), hot = b\<rparr>"

text \<open>
  \<open>streak_history h key s es\<close>: the state \<open>s\<close> is reached from the loading of the file by the calls
  \<open>es\<close> of \<open>temp_streak\<close> for the key, with any work of other rules in between. Other rules do
  not write the entries of this key.
\<close>

definition same_streak :: "string \<Rightarrow> rt \<Rightarrow> rt \<Rightarrow> bool" where
  "same_streak key s s' \<longleftrightarrow>
     sustain s' key = sustain s key \<and> temp_sustain_start s' key = temp_sustain_start s key \<and>
     temp_seen s' key = temp_seen s key \<and> temp_gap s' key = temp_gap s key"

inductive streak_history :: "host \<Rightarrow> string \<Rightarrow> rt \<Rightarrow> obs list \<Rightarrow> bool" for h key where
  load: "streak_history h key rt_init []"
| call: "streak_history h key s es \<Longrightarrow> temp_streak h key b s = (fire, s') \<Longrightarrow>
    streak_history h key s' (observe h s b # es)"
| other: "streak_history h key s es \<Longrightarrow> same_streak key s s' \<Longrightarrow> streak_history h key s' es"

inductive_cases streak_history_ConsE: "streak_history h key s (e # es)"

definition streak_inv :: "string \<Rightarrow> rt \<Rightarrow> obs list \<Rightarrow> bool" where
  "streak_inv key s es \<longleftrightarrow>
     temp_seen s key = (if es = [] then None else Some (seen_at (hd es))) \<and>
     temp_gap s key = min_gap es \<and>
     (\<exists>n. count_of s key = int n \<and> n \<le> length es \<and> joined n es \<and>
        temp_sustain_start s key = (if n = 0 then None else Some (counted_at (es ! (n - 1)))))"

lemma min_gap_Cons:
  "es \<noteq> [] \<Longrightarrow> min_gap (e # es) =
   (let g = seen_at e - seen_at (hd es)
    in case min_gap es of None \<Rightarrow> Some g | Some m \<Rightarrow> Some (if g < m then g else m))"
  by (cases es) simp_all

lemma joined_Cons:
  "hot e \<Longrightarrow> joined (Suc n) (e # es) \<longleftrightarrow>
     n = 0 \<or> (es \<noteq> [] \<and> seen_at e - seen_at (hd es) \<le> gap_limit (min_gap es) \<and> joined n es)"
  by (cases n) simp_all

lemma joined_hot: "joined n es \<Longrightarrow> i < n \<Longrightarrow> i < length es \<and> hot (es ! i)"
proof (induction n es arbitrary: i rule: joined.induct)
  case (4 n e es)
  then show ?case by (cases i) auto
qed auto

section \<open>One call\<close>

definition noted :: "host \<Rightarrow> string \<Rightarrow> rt \<Rightarrow> rt" where
  \<comment> \<open>the state after the bookkeeping of a call, before the reading is counted\<close>
  "noted h key s =
     (let s' = note_gap key (uptime_at h (reads s)) (s\<lparr>reads := Suc (reads s)\<rparr>)
      in s'\<lparr>temp_seen := (temp_seen s')(key \<mapsto> uptime_at h (reads s))\<rparr>)"

lemma temp_streak_noted:
  "temp_streak h key b s =
     (if b then temp_sustained h key (noted h key s) else (False, temp_clear key (noted h key s)))"
  by (simp add: temp_streak_def noted_def Let_def)

lemma noted_reads [simp]: "reads (noted h key s) = Suc (reads s)"
  by (simp add: noted_def Let_def)

lemma noted_cooldown [simp]: "cooldown (noted h key s) = cooldown s"
  by (simp add: noted_def Let_def)

lemma count_of_updates [simp]:
  "count_of (s\<lparr>temp_seen := x\<rparr>) k = count_of s k" "count_of (s\<lparr>reads := m\<rparr>) k = count_of s k"
  "count_of (s\<lparr>temp_gap := y\<rparr>) k = count_of s k"
  "count_of (s\<lparr>temp_sustain_start := y\<rparr>) k = count_of s k"
  "count_of (s\<lparr>sustain := f(k' \<mapsto> v)\<rparr>) k = (if k = k' then v else count_of (s\<lparr>sustain := f\<rparr>) k)"
  by (simp_all add: count_of_def)

lemma noted_inv:
  assumes inv: "streak_inv key s es" and e: "seen_at e = uptime_at h (reads s)"
  obtains n where "temp_seen (noted h key s) key = Some (seen_at e)"
    and "temp_gap (noted h key s) key = min_gap (e # es)"
    and "count_of (noted h key s) key = int n" and "n \<le> length es"
    and "hot e \<Longrightarrow> joined (Suc n) (e # es)"
    and "temp_sustain_start (noted h key s) key =
      (if n = 0 then None else Some (counted_at (es ! (n - 1))))"
proof -
  from inv obtain n where n: "count_of s key = int n" "n \<le> length es" "joined n es"
    "temp_sustain_start s key = (if n = 0 then None else Some (counted_at (es ! (n - 1))))"
    and seen: "temp_seen s key = (if es = [] then None else Some (seen_at (hd es)))"
    and gap: "temp_gap s key = min_gap es"
    by (auto simp: streak_inv_def)
  show ?thesis
  proof (cases "es = []")
    case True
    with n seen gap e show ?thesis
      by (intro that [of 0]) (simp_all add: noted_def note_gap_def Let_def)
  next
    case False
    let ?far = "seen_at e - seen_at (hd es) > gap_limit (min_gap es)"
    have gap': "temp_gap (noted h key s) key = min_gap (e # es)"
      using False seen gap e
      by (auto simp: noted_def note_gap_def Let_def min_gap_Cons split: option.split)
    show ?thesis
    proof (cases ?far)
      case True
      with False seen gap gap' e show ?thesis
        by (intro that [of 0]) (auto simp: noted_def note_gap_def Let_def split: option.splits)
    next
      case near: False
      with False seen gap gap' e n show ?thesis
        by (intro that [of n])
          (auto simp: noted_def note_gap_def Let_def joined_Cons split: option.splits)
    qed
  qed
qed

lemma temp_sustained_step:
  assumes "count_of s key = int n" and "temp_sustain_start s key = (if n = 0 then None else Some t)"
    and "temp_sustained h key s = (fire, s')" and "now = uptime_at h (reads s)"
  shows "temp_seen s' key = temp_seen s key" and "temp_gap s' key = temp_gap s key"
    and "if 5 \<le> Suc n \<or> now - (if n = 0 then now else t) \<ge> 300000
      then count_of s' key = 0 \<and> temp_sustain_start s' key = None \<and>
        (fire \<longleftrightarrow> (case cooldown s key of None \<Rightarrow> True | Some c \<Rightarrow> uptime_at h (Suc (reads s)) - c \<ge> 900000))
      else count_of s' key = int (Suc n) \<and>
        temp_sustain_start s' key = Some (if n = 0 then now else t) \<and> \<not> fire"
  using assms
  by (auto simp: temp_sustained_def can_alert_def Let_def split: if_splits option.splits)

lemma temp_streak_inv:
  assumes inv: "streak_inv key s es" and run: "temp_streak h key b s = (fire, s')"
  shows "streak_inv key s' (observe h s b # es)"
    and "fire \<Longrightarrow> b \<and> (\<exists>n. joined (Suc n) (observe h s b # es) \<and> (5 \<le> Suc n \<or>
      counted_at (observe h s b) - counted_at ((observe h s b # es) ! n) \<ge> 300000))"
proof -
  let ?e = "observe h s b" and ?now = "uptime_at h (Suc (reads s))"
  obtain n where n: "temp_seen (noted h key s) key = Some (seen_at ?e)"
    "temp_gap (noted h key s) key = min_gap (?e # es)"
    "count_of (noted h key s) key = int n" "n \<le> length es"
    "hot ?e \<Longrightarrow> joined (Suc n) (?e # es)"
    "temp_sustain_start (noted h key s) key = (if n = 0 then None else Some (counted_at (es ! (n - 1))))"
    using noted_inv [OF inv, of ?e h] by (auto simp: observe_def)
  have e: "counted_at ?e = ?now" "hot ?e = b" by (simp_all add: observe_def)
  have nth: "(if n = 0 then ?now else counted_at (es ! (n - 1))) = counted_at ((?e # es) ! n)"
    using e by (cases n) simp_all
  have "streak_inv key s' (?e # es) \<and> (fire \<longrightarrow> b \<and> (\<exists>n. joined (Suc n) (?e # es) \<and>
      (5 \<le> Suc n \<or> counted_at ?e - counted_at ((?e # es) ! n) \<ge> 300000)))"
  proof (cases b)
    case False
    with run n show ?thesis
      by (auto simp: temp_streak_noted streak_inv_def intro!: exI [of _ 0])
  next
    case True
    with run have run': "temp_sustained h key (noted h key s) = (fire, s')"
      by (simp add: temp_streak_noted)
    have now: "?now = uptime_at h (reads (noted h key s))" by simp
    note step = temp_sustained_step [OF n(3) n(6) run' now]
    have j: "joined (Suc n) (?e # es)" using n(5) e True by simp
    show ?thesis
    proof (cases "5 \<le> Suc n \<or> ?now - counted_at ((?e # es) ! n) \<ge> 300000")
      case True
      with step n nth j e \<open>b\<close> show ?thesis
        by (auto simp: streak_inv_def intro: exI [of _ n] exI [of _ 0])
    next
      case False
      with step(3) nth have "count_of s' key = int (Suc n)" "\<not> fire"
        "temp_sustain_start s' key = Some (counted_at ((?e # es) ! n))"
        by (simp_all split: if_splits)
      with step(1,2) n(1,2,4) j show ?thesis
        by (auto simp: streak_inv_def intro!: exI [of _ "Suc n"])
    qed
  qed
  then show "streak_inv key s' (?e # es)"
    and "fire \<Longrightarrow> b \<and> (\<exists>n. joined (Suc n) (?e # es) \<and> (5 \<le> Suc n \<or>
      counted_at ?e - counted_at ((?e # es) ! n) \<ge> 300000))" by auto
qed

section \<open>Sustained temperature rules\<close>

lemma streak_inv_init: "streak_inv key rt_init []"
  by (simp add: streak_inv_def rt_init_def count_of_def)

lemma streak_inv_same:
  "streak_inv key s es \<Longrightarrow> same_streak key s s' \<Longrightarrow> streak_inv key s' es"
  by (auto simp: streak_inv_def same_streak_def count_of_def)

lemma streak_history_inv: "streak_history h key s es \<Longrightarrow> streak_inv key s es"
  by (induction rule: streak_history.induct)
    (auto intro: streak_inv_init temp_streak_inv(1) streak_inv_same)

text \<open>
  C10. A sustained temperature rule fires only after a streak: when \<open>temp_streak\<close> answers true, the
  current reading and the ones before it form a run of matching readings of which no two
  successive ones are further apart than the gap limit (five minutes, or three times the shortest gap
  seen), and the run has at least five readings or spans at least five minutes. This
  holds for every sequence of readings since the file was loaded and whatever other rules do in between.
\<close>

theorem streak_fires_after_streak:
  assumes "streak_history h key s es" and "temp_streak h key b s = (True, s')"
  shows "\<exists>n. joined (Suc n) (observe h s b # es) \<and>
    (5 \<le> Suc n \<or> counted_at (observe h s b) - counted_at ((observe h s b # es) ! n) \<ge> 300000)"
  using temp_streak_inv(2) [OF streak_history_inv [OF assms(1)] assms(2)] by blast

definition slow_host :: host where
  \<comment> \<open>two clock readings per call, calls four minutes apart\<close>
  "slow_host = sample_host\<lparr>uptime_at := (\<lambda>i. 240000 * int (i div 2))\<rparr>"

theorem streak_fires_after_streak_witness:
  "let (b1, s1) = temp_streak slow_host ''temp:supply:>=85'' True rt_init;
       (b2, s2) = temp_streak slow_host ''temp:supply:>=85'' True s1;
       (b3, s3) = temp_streak slow_host ''temp:supply:>=85'' True s2
   in \<not> b1 \<and> \<not> b2 \<and> b3 \<and>
      (\<exists>n. joined (Suc n) [observe slow_host s2 True, observe slow_host s1 True, observe slow_host rt_init True] \<and>
        (5 \<le> Suc n \<or> counted_at (observe slow_host s2 True) -
          counted_at ([observe slow_host s2 True, observe slow_host s1 True,
            observe slow_host rt_init True] ! n) \<ge> 300000))"
proof -
  let ?k = "''temp:supply:>=85''"
  obtain b1 s1 where 1: "temp_streak slow_host ?k True rt_init = (b1, s1)" by fastforce
  obtain b2 s2 where 2: "temp_streak slow_host ?k True s1 = (b2, s2)" by fastforce
  obtain b3 s3 where 3: "temp_streak slow_host ?k True s2 = (b3, s3)" by fastforce
  have b: "\<not> b1 \<and> \<not> b2 \<and> b3"
    using 1 2 3 by (auto simp: temp_streak_def temp_sustained_def note_gap_def gap_limit_def
        slow_host_def can_alert_def rt_init_def count_of_def Let_def temp_clear_def)
  have "streak_history slow_host ?k s2 [observe slow_host s1 True, observe slow_host rt_init True]"
    using streak_history.call [OF streak_history.call [OF streak_history.load 1] 2] .
  from streak_fires_after_streak [OF this] 3 b have
    "\<exists>n. joined (Suc n) [observe slow_host s2 True, observe slow_host s1 True, observe slow_host rt_init True] \<and>
      (5 \<le> Suc n \<or> counted_at (observe slow_host s2 True) - counted_at ([observe slow_host s2 True,
        observe slow_host s1 True, observe slow_host rt_init True] ! n) \<ge> 300000)"
    by simp
  with 1 2 3 b show ?thesis by simp
qed

fun streak_run :: "host \<Rightarrow> string \<Rightarrow> bool list \<Rightarrow> rt \<Rightarrow> bool list \<times> rt" where
  \<comment> \<open>the answers of successive calls\<close>
  "streak_run h key [] s = ([], s)"
| "streak_run h key (b # bs) s =
     (let (fire, s') = temp_streak h key b s; (fires, s'') = streak_run h key bs s' in (fire # fires, s''))"

text \<open>A matching reading without cooldown fires or raises the count.\<close>

lemma hot_step:
  assumes run: "temp_streak h key True s = (fire, s')" and inv: "streak_inv key s es"
    and cool: "cooldown s key = None" and nofire: "\<not> fire"
  shows "count_of s' key \<ge> 1" and "count_of s' key < 5" and "cooldown s' key = None"
    and "reads s' = reads s + 2"
    and "es \<noteq> [] \<Longrightarrow> uptime_at h (reads s) - seen_at (hd es) \<le> 300000 \<Longrightarrow>
      count_of s' key = count_of s key + 1"
proof -
  let ?s = "noted h key s"
  obtain n where n: "count_of ?s key = int n"
    "temp_sustain_start ?s key = (if n = 0 then None else Some (counted_at (es ! (n - 1))))"
    using noted_inv [OF inv, of "observe h s True" h] by (auto simp: observe_def)
  have run': "temp_sustained h key ?s = (fire, s')" using run by (simp add: temp_streak_noted)
  note step = temp_sustained_step(3) [OF n run' refl]
  with cool nofire have c: "count_of s' key = int (Suc n)" "\<not> 5 \<le> Suc n" by (auto split: if_splits)
  then show "count_of s' key \<ge> 1" "count_of s' key < 5" by simp_all
  show "cooldown s' key = None" using temp_streak_frame(2) [OF run] cool by simp
  show "reads s' = reads s + 2"
    using run' nofire cool by (auto simp: temp_sustained_def can_alert_def Let_def split: if_splits)
  assume "es \<noteq> []" "uptime_at h (reads s) - seen_at (hd es) \<le> 300000"
  with inv have "count_of ?s key = count_of s key"
    by (auto simp: streak_inv_def noted_def note_gap_def gap_limit_def Let_def split: option.splits)
  with n(1) c(1) show "count_of s' key = count_of s key + 1" by simp
qed

lemma hot_run:
  assumes "streak_inv key s es" and "es \<noteq> []" and "cooldown s key = None"
    and "\<And>i. i < m \<Longrightarrow> uptime_at h (reads s + 2 * i) - (case i of 0 \<Rightarrow> seen_at (hd es)
      | Suc j \<Rightarrow> uptime_at h (reads s + 2 * j)) \<le> 300000"
    and "count_of s key + int m \<ge> 5" and "count_of s key < 5"
  shows "True \<in> set (fst (streak_run h key (replicate m True) s))"
  using assms
proof (induction m arbitrary: s es)
  case (Suc m)
  obtain fire s' where run: "temp_streak h key True s = (fire, s')" by fastforce
  show ?case
  proof (cases fire)
    case True
    with run show ?thesis by (simp add: case_prod_beta Let_def)
  next
    case False
    note step = hot_step [OF run Suc.prems(1,3) False]
    have near: "uptime_at h (reads s) - seen_at (hd es) \<le> 300000" using Suc.prems(4) [of 0] by simp
    have "True \<in> set (fst (streak_run h key (replicate m True) s'))"
    proof (rule Suc.IH [where es = "observe h s True # es"])
      show "streak_inv key s' (observe h s True # es)"
        by (rule temp_streak_inv(1) [OF Suc.prems(1) run])
      fix i assume "i < m"
      with Suc.prems(4) [of "Suc i"] show "uptime_at h (reads s' + 2 * i) -
          (case i of 0 \<Rightarrow> seen_at (hd (observe h s True # es))
           | Suc j \<Rightarrow> uptime_at h (reads s' + 2 * j)) \<le> 300000"
        using step(4) by (cases i) (simp_all add: observe_def)
    qed (use step(2,3,5) near Suc.prems(2,5) in auto)
    with run show ?thesis by (simp add: case_prod_beta Let_def)
  qed
qed simp



end
