(* ===== verification/Rules_Keys.thy ===== *)
theory Rules_Keys
  imports Rules_Streak
begin

text \<open>
  Rules share the tables of the preamble; the key of a condition keeps them apart. Temperature and
  current conditions have a key of their own for each name, comparison, limit and count; battery
  conditions share one key, and with it their cooldown. A condition touches the entries of its own key only.
\<close>

section \<open>Numerals and keys\<close>

definition abs_tenths :: "nat \<Rightarrow> string" where
  "abs_tenths a = show_nat (a div 10) @ (if a mod 10 = 0 then '''' else CHR ''.'' # [digit (a mod 10)])"

lemma show_tenths_abs:
  "show_tenths k = (if k < 0 then CHR ''-'' # abs_tenths (nat \<bar>k\<bar>) else abs_tenths (nat \<bar>k\<bar>))"
  by (simp add: show_tenths_def abs_tenths_def Let_def)

lemma digit_inj: "c < 10 \<Longrightarrow> d < 10 \<Longrightarrow> digit c = digit d \<longleftrightarrow> c = d"
  by (metis digit_val_digit)

lemma takeWhile_abs_tenths: "takeWhile is_digit (abs_tenths a) = show_nat (a div 10)"
  using show_nat_digits [of "a div 10"]
  by (simp add: abs_tenths_def takeWhile_append2 takeWhile_eq_all_conv is_digit_def)

lemma abs_tenths_inj: "abs_tenths a = abs_tenths b \<Longrightarrow> a = b"
proof -
  assume eq: "abs_tenths a = abs_tenths b"
  then have q: "a div 10 = b div 10" by (metis takeWhile_abs_tenths show_nat_inj)
  with eq have "a mod 10 = b mod 10"
    by (auto simp: abs_tenths_def digit_inj split: if_splits)
  with q show "a = b" by (metis div_mult_mod_eq)
qed

lemma abs_tenths_hd: "abs_tenths a \<noteq> CHR ''-'' # s"
proof
  assume "abs_tenths a = CHR ''-'' # s"
  then have "takeWhile is_digit (abs_tenths a) = []" by (simp add: is_digit_def)
  then show False by (simp add: takeWhile_abs_tenths)
qed

lemma show_tenths_inj [simp]: "show_tenths j = show_tenths k \<longleftrightarrow> j = k"
proof
  assume "show_tenths j = show_tenths k"
  then have "(j < 0 \<longleftrightarrow> k < 0) \<and> nat \<bar>j\<bar> = nat \<bar>k\<bar>"
    using abs_tenths_hd abs_tenths_hd [symmetric]
    by (auto simp: show_tenths_abs dest: abs_tenths_inj split: if_splits)
  then show "j = k" by auto
qed simp

lemma colon_show_tenths [simp]: "CHR '':'' \<notin> set (show_tenths k)"
proof -
  have "CHR '':'' \<notin> set (show_nat n)" for n using show_nat_digits [of n] is_digit_neq(1) by auto
  moreover have "CHR '':'' \<noteq> digit (n mod 10)" for n
    using is_digit_neq(1) [OF is_digit_digit [of "n mod 10"]] by auto
  ultimately show ?thesis by (auto simp: show_tenths_def Let_def)
qed

lemma cmp_text_inj: "cmp_text a @ s = cmp_text b @ t \<longleftrightarrow> a = b \<and> s = t"
  by (cases a; cases b) simp_all

lemma colon_cmp_text [simp]: "CHR '':'' \<notin> set (cmp_text op)"
  by (cases op) simp_all

lemma temp_key_inj:
  "temp_key a (cmp_text op) k = temp_key a' (cmp_text op') k' \<longleftrightarrow> a = a' \<and> op = op' \<and> k = k'"
  by (auto simp: temp_key_def temp_key_lit_def cmp_text_inj dest!: append_separator_unique)

lemma current_key_inj:
  "current_key a (cmp_text op) k n = current_key a' (cmp_text op') k' n' \<longleftrightarrow>
     a = a' \<and> op = op' \<and> k = k' \<and> n = n'"
proof
  assume "current_key a (cmp_text op) k n = current_key a' (cmp_text op') k' n'"
  then have "(a @ CHR '':'' # cmp_text op @ show_tenths k) @ CHR '':'' # show_tenths n =
      (a' @ CHR '':'' # cmp_text op' @ show_tenths k') @ CHR '':'' # show_tenths n'"
    by (simp add: current_key_def current_key_lit_def)
  from append_separator_unique [OF this] show "a = a' \<and> op = op' \<and> k = k' \<and> n = n'"
    by (auto simp: cmp_text_inj dest!: append_separator_unique)
qed simp

lemma keys_differ [simp]:
  "temp_key a op k \<noteq> current_key b op' k' n" "current_key b op' k' n \<noteq> temp_key a op k"
  "temp_key a op k \<noteq> ''battery_low''" "''battery_low'' \<noteq> temp_key a op k"
  "current_key a op k n \<noteq> ''battery_low''" "''battery_low'' \<noteq> current_key a op k n"
  by (simp_all add: temp_key_def temp_key_lit_def current_key_def current_key_lit_def)

fun watches :: "condition \<Rightarrow> condition \<Rightarrow> bool" where
  \<comment> \<open>the conditions that share their entries of the tables: two temperature or two current conditions
      on the same name with the same comparison, limit and count, and any two battery conditions, whatever
      their limits\<close>
  "watches (IfTemp a op k sus acts) (IfTemp a' op' k' sus' acts') \<longleftrightarrow> a = a' \<and> op = op' \<and> k = k'"
| "watches (IfCurrent a op k n msgs) (IfCurrent a' op' k' n' msgs') \<longleftrightarrow>
     a = a' \<and> op = op' \<and> k = k' \<and> n = n'"
| "watches (IfBattery k msgs) (IfBattery k' msgs') \<longleftrightarrow> True"
| "watches _ _ \<longleftrightarrow> False"

lemma cond_key_iff: "cond_key c = cond_key c' \<longleftrightarrow> watches c c'"
  by (cases c; cases c') (simp_all add: cond_key_def temp_key_inj current_key_inj)

text \<open>
  C12. The keys keep conditions apart, for every sensor and channel name (colons and digits
  included): two temperature conditions have the same key exactly when they watch the same sensor with the same
  comparison and limit, two current conditions exactly when they watch the same channel with the same comparison,
  limit and count, and conditions of different kinds never do. Battery conditions are the exception:
  all share the key \<open>battery_low\<close>, so an alert of one that counts keeps every other one silent for
  fifteen minutes, whatever the two limits are.
\<close>

theorem cond_key_unique:
  "(cond_key (IfTemp a op k sus acts) = cond_key (IfTemp a' op' k' sus' acts') \<longleftrightarrow>
      a = a' \<and> op = op' \<and> k = k') \<and>
   (cond_key (IfCurrent b op k n msgs) = cond_key (IfCurrent b' op' k' n' msgs') \<longleftrightarrow>
      b = b' \<and> op = op' \<and> k = k' \<and> n = n') \<and>
   cond_key (IfTemp a op k sus acts) \<noteq> cond_key (IfCurrent b' op' k' n' msgs') \<and>
   cond_key (IfTemp a op k sus acts) \<noteq> cond_key (IfBattery k' msgs') \<and>
   cond_key (IfCurrent b op k n msgs) \<noteq> cond_key (IfBattery k' msgs') \<and>
   (run_condition h d (IfBattery k msgs) s = (s1, e) \<and> alert_counted h (length (out s)) (out s1) \<longrightarrow>
      (\<exists>t. cooldown s1 ''battery_low'' = Some t \<and>
         (\<forall>d' s2. (\<forall>j. reads s1 \<le> j \<longrightarrow> j < reads s2 \<longrightarrow> uptime_at h j - t < 900000) \<longrightarrow>
            run_condition h d' (IfBattery k' msgs') s1 = (s2, None) \<longrightarrow> out s2 = out s1)))"
proof -
  have keys: "cond_key (IfBattery k msgs) = ''battery_low''" for k msgs by (simp add: cond_key_def)
  have "\<exists>t. cooldown s1 ''battery_low'' = Some t \<and>
      (\<forall>d' s2. (\<forall>j. reads s1 \<le> j \<longrightarrow> j < reads s2 \<longrightarrow> uptime_at h j - t < 900000) \<longrightarrow>
         run_condition h d' (IfBattery k' msgs') s1 = (s2, None) \<longrightarrow> out s2 = out s1)"
    if "run_condition h d (IfBattery k msgs) s = (s1, e)" and "alert_counted h (length (out s)) (out s1)"
  proof -
    have "keeps_books h ''battery_low'' s s1"
      using run_condition_keeps_books [of h "IfBattery k msgs" s d] unfolding that(1) keys by simp
    with that(2) obtain t where t: "cooldown s1 ''battery_low'' = Some t" by (auto simp: keeps_books_def)
    have "out s2 = out s1"
      if q: "\<forall>j. reads s1 \<le> j \<longrightarrow> j < reads s2 \<longrightarrow> uptime_at h j - t < 900000"
        and run: "run_condition h d' (IfBattery k' msgs') s1 = (s2, None)" for d' s2
      using condition_silent [OF run, of t] t q by (simp add: keys)
    with t show ?thesis by blast
  qed
  then show ?thesis by (simp add: cond_key_iff del: run_condition.simps)
qed

text \<open>
  The witness: after an alert of the condition on 20 percent, the one on 10 percent is silent at 5 percent.
\<close>

theorem cond_key_unique_witness:
  "cond_key (IfTemp ''a:b'' GE 10 True []) \<noteq> cond_key (IfTemp ''a'' GE 10 True []) \<and>
   (let s1 = fst (run_condition sample_host low_battery (IfBattery 200 [''Battery low'']) rt_init);
        s2 = fst (run_condition sample_host (low_battery\<lparr>percent := Some 5\<rparr>)
                    (IfBattery 100 [''Battery empty'']) s1)
    in length (out s1) = 3 \<and> out s2 = out s1)"
proof -
  let ?c = "IfBattery 200 [''Battery low'']" and ?c' = "IfBattery 100 [''Battery empty'']"
  let ?s1 = "fst (run_condition sample_host low_battery ?c rt_init)"
  let ?d' = "low_battery\<lparr>percent := Some 5\<rparr>"
  let ?s2 = "fst (run_condition sample_host ?d' ?c' ?s1)"
  note runs = run_battery_def low_battery_def can_alert_def sample_host_def run_messages_def notify_def
    set_cooldown_def rt_init_def Let_def
  have s1: "length (out ?s1) = 3" "reads ?s1 = 2" "cooldown ?s1 ''battery_low'' = Some 1000" "reads ?s2 = 3"
    by (simp_all add: runs)
  have counted: "alert_counted sample_host (length (out rt_init)) (out ?s1)"
    by (simp add: alert_counted_def accepted_def upt_rec runs)
  have run: "run_condition sample_host low_battery ?c rt_init = (?s1, None)"
    "run_condition sample_host ?d' ?c' ?s1 = (?s2, None)" by simp_all
  have "\<exists>t. cooldown ?s1 ''battery_low'' = Some t \<and>
      (\<forall>d' s2. (\<forall>j. reads ?s1 \<le> j \<longrightarrow> j < reads s2 \<longrightarrow> uptime_at sample_host j - t < 900000) \<longrightarrow>
         run_condition sample_host d' ?c' ?s1 = (s2, None) \<longrightarrow> out s2 = out ?s1)"
    using cond_key_unique [where h = sample_host and d = low_battery and s = rt_init and ?s1.0 = ?s1 and e = None
        and k = 200 and msgs = "[''Battery low'']" and k' = 100 and msgs' = "[''Battery empty'']"] run counted
    by blast
  moreover have "\<forall>j. reads ?s1 \<le> j \<longrightarrow> j < reads ?s2 \<longrightarrow> uptime_at sample_host j - 1000 < 900000"
    using s1(4) by (simp add: sample_host_def)
  ultimately have "out ?s2 = out ?s1" using run(2) s1(3) by force
  moreover have "cond_key (IfTemp ''a:b'' GE 10 True []) \<noteq> cond_key (IfTemp ''a'' GE 10 True [])"
    using cond_key_unique [of "''a:b''" GE 10 True "[]" "''a''" GE 10 True "[]"] by simp
  ultimately show ?thesis using s1(1) unfolding Let_def by blast
qed

section \<open>Isolation\<close>

definition same_entries :: "string \<Rightarrow> rt \<Rightarrow> rt \<Rightarrow> bool" where
  "same_entries key s s' \<longleftrightarrow> same_streak key s s' \<and> cooldown s' key = cooldown s key"

lemma same_entries_refl [simp]: "same_entries key s s"
  by (simp add: same_entries_def same_streak_def)

lemma same_entries_trans [trans]:
  "same_entries key s s' \<Longrightarrow> same_entries key s' s'' \<Longrightarrow> same_entries key s s''"
  by (simp add: same_entries_def same_streak_def)

lemma same_entries_fold:
  assumes "\<And>x s. same_entries key s (f x s)"
  shows "same_entries key s (fold f xs s)"
  by (rule fold_invariant_list) (auto intro: same_entries_trans [OF _ assms])

lemma can_alert_same: "can_alert h key' s = (b, s') \<Longrightarrow> same_entries key s s'"
  by (auto dest!: can_alert_frame(1) simp: same_entries_def same_streak_def)

lemma notify_same: "key \<noteq> key' \<Longrightarrow> same_entries key s (notify h msg key' s)"
  by (auto simp: notify_def set_cooldown_def Let_def same_entries_def same_streak_def split: option.split)

lemma temp_clear_same: "key \<noteq> key' \<Longrightarrow> same_entries key s (temp_clear key' s)"
  by (simp add: same_entries_def same_streak_def temp_clear_def)

lemma temp_sustained_same:
  assumes "temp_sustained h key' s = (b, s')" and "key \<noteq> key'"
  shows "same_entries key s s'"
  using assms by (auto simp: temp_sustained_def Let_def same_entries_def same_streak_def temp_clear_def
      dest!: can_alert_frame(1) split: if_splits)

lemma noted_same: "key \<noteq> key' \<Longrightarrow> same_entries key s (noted h key' s)"
  by (auto simp: noted_def note_gap_def Let_def same_entries_def same_streak_def temp_clear_def
      split: option.split)

lemma temp_streak_same:
  "temp_streak h key' b s = (fire, s') \<Longrightarrow> key \<noteq> key' \<Longrightarrow> same_entries key s s'"
  by (auto simp: temp_streak_noted split: if_splits
      intro: same_entries_trans [OF noted_same temp_sustained_same]
        same_entries_trans [OF noted_same temp_clear_same])

lemma run_actions_same: "key \<noteq> key' \<Longrightarrow> same_entries key s (fold (run_action h key' name t) acts s)"
  by (rule same_entries_fold) (simp add: run_action_notify notify_same)

lemma run_messages_same: "key \<noteq> key' \<Longrightarrow> same_entries key s (run_messages h key' msgs s)"
  unfolding run_messages_def by (rule same_entries_fold) (rule notify_same)

lemma run_reading_same:
  assumes "key \<noteq> temp_key sensor (cmp_text op) k"
  shows "same_entries key s (run_reading h sensor op k sus acts r s)"
  using assms
  by (auto simp: run_reading_def Let_def split: prod.split option.split
      intro: can_alert_same temp_streak_same same_entries_trans [OF can_alert_same run_actions_same]
        same_entries_trans [OF temp_streak_same run_actions_same])

lemma sustain_same [simp]:
  "key \<noteq> key' \<Longrightarrow> same_entries key s (s'\<lparr>sustain := (sustain s')(key' \<mapsto> v)\<rparr>) = same_entries key s s'"
  by (simp add: same_entries_def same_streak_def)

lemma sustain_same' [simp]:
  "key \<noteq> key' \<Longrightarrow> same_entries key (s\<lparr>sustain := (sustain s)(key' \<mapsto> v)\<rparr>) s' = same_entries key s s'"
  by (simp add: same_entries_def same_streak_def)

lemma run_channel_same:
  assumes "key \<noteq> current_key ch (cmp_text op) k (10 * n)"
  shows "same_entries key s (run_channel h ch op k n msgs c s)"
proof -
  let ?key = "current_key ch (cmp_text op) k (10 * n)"
  have "same_entries key s s'" "same_entries key s (run_messages h ?key msgs s')"
    if "can_alert h ?key (s\<lparr>sustain := (sustain s)(?key \<mapsto> v)\<rparr>) = (b, s')" for b s' v
    using can_alert_same [OF that, of key] assms
      same_entries_trans [OF _ run_messages_same [OF assms], of s s' h msgs] by simp_all
  with assms show ?thesis
    by (auto simp: run_channel_def Let_def split: prod.split)
qed

lemma run_battery_same:
  "key \<noteq> ''battery_low'' \<Longrightarrow> same_entries key s (run_battery h k msgs d s)"
  by (auto simp: run_battery_def Let_def split: prod.split
      intro: can_alert_same same_entries_trans [OF can_alert_same run_messages_same])

lemma run_condition_same:
  assumes "run_condition h d c s = (s', e)" and "key \<noteq> cond_key c"
  shows "same_entries key s s'"
  using assms
  by (cases c) (auto simp: cond_key_def run_battery_same split: option.splits
      intro: same_entries_fold run_reading_same run_channel_same)

text \<open>
  C13. Isolation: running a condition changes no table entry (count, start, last seen, gap, cooldown) of a
  condition that watches something else; so rules can be added and reordered without
  changing when another rule alerts.
\<close>

theorem conditions_isolated:
  assumes "run_condition h d c s = (s', e)" and "\<not> watches c c'"
  shows "same_entries (cond_key c') s s'"
  by (rule run_condition_same [OF assms(1)]) (metis assms(2) cond_key_iff)

theorem conditions_isolated_witness:
  "let s' = fst (run_condition sample_host low_battery (IfBattery 200 [''Battery low'']) rt_init)
   in out s' \<noteq> [] \<and>
      same_entries (cond_key (IfTemp ''supply'' GE 850 True [NotifyTemp ''Overheat!''])) rt_init s'"
proof -
  let ?r = "run_condition sample_host low_battery (IfBattery 200 [''Battery low'']) rt_init"
  have "out (fst ?r) \<noteq> []"
    by (simp add: run_battery_def low_battery_def can_alert_def sample_host_def rt_init_def
        run_messages_out alert_effects_def)
  moreover have "same_entries (cond_key (IfTemp ''supply'' GE 850 True [NotifyTemp ''Overheat!'']))
      rt_init (fst ?r)"
    by (rule conditions_isolated [of _ _ "IfBattery 200 [''Battery low'']" _ _ "snd ?r"]) simp_all
  ultimately show ?thesis by (simp add: Let_def)
qed

section \<open>Current rules\<close>

definition of_channel :: "string \<Rightarrow> channel list \<Rightarrow> channel list" where
  "of_channel ch rs = filter (\<lambda>r. ch_name r = ch) rs"

lemma of_channel_simps [simp]:
  "of_channel ch [] = []" "of_channel ch (rs @ [r]) = of_channel ch rs @ (if ch_name r = ch then [r] else [])"
  by (simp_all add: of_channel_def)

definition count_inv :: "string \<Rightarrow> cmp \<Rightarrow> int \<Rightarrow> int \<Rightarrow> rt \<Rightarrow> channel list \<Rightarrow> bool" where
  \<comment> \<open>the count is backed by that many matching readings of the channel, the newest ones\<close>
  "count_inv ch op k n s rs \<longleftrightarrow>
     (\<exists>m \<le> length (of_channel ch rs). count_of s (current_key ch (cmp_text op) k (10 * n)) = int m \<and>
        (\<forall>r \<in> set (take m (rev (of_channel ch rs))). over op k (current_a r)))"

lemma count_of_reads_out [simp]: "count_of (s\<lparr>out := x\<rparr>) k = count_of s k"
  by (simp add: count_of_def)

lemma run_channel_count:
  assumes inv: "count_inv ch op k n s rs"
  shows "count_inv ch op k n (run_channel h ch op k n msgs r s) (rs @ [r])"
    and "out (run_channel h ch op k n msgs r s) \<noteq> out s \<Longrightarrow>
      ch_name r = ch \<and> (\<exists>m. n \<le> int m \<and> m \<le> length (of_channel ch (rs @ [r])) \<and>
        (\<forall>r \<in> set (take m (rev (of_channel ch (rs @ [r])))). over op k (current_a r)))"
proof -
  let ?key = "current_key ch (cmp_text op) k (10 * n)"
  let ?s = "run_channel h ch op k n msgs r s"
  from inv obtain m where m: "m \<le> length (of_channel ch rs)" "count_of s ?key = int m"
    "\<forall>r \<in> set (take m (rev (of_channel ch rs))). over op k (current_a r)"
    by (auto simp: count_inv_def)
  let ?new = "\<lambda>m. m \<le> length (of_channel ch (rs @ [r])) \<and>
    (\<forall>r \<in> set (take m (rev (of_channel ch (rs @ [r])))). over op k (current_a r))"
  consider (skip) "ch_name r \<noteq> ch" | (miss) "ch_name r = ch" "\<not> over op k (current_a r)"
    | (hit) "ch_name r = ch" "over op k (current_a r)" by blast
  then have "(\<exists>m. count_of ?s ?key = int m \<and> ?new m) \<and>
    (out ?s \<noteq> out s \<longrightarrow> ch_name r = ch \<and> (\<exists>m. n \<le> int m \<and> ?new m))"
  proof cases
    case skip
    with m show ?thesis by (auto simp: run_channel_def)
  next
    case miss
    then show ?thesis by (auto simp: run_channel_def Let_def intro!: exI [of _ 0])
  next
    case hit
    then have new: "?new (Suc m)" using m by simp
    let ?s1 = "s\<lparr>sustain := (sustain s)(?key \<mapsto> int m + 1)\<rparr>"
    obtain b s2 where can: "can_alert h ?key ?s1 = (b, s2)" by fastforce
    have s2: "s2 = ?s1\<lparr>reads := Suc (reads s)\<rparr>" using can_alert_frame(1) [OF can] by simp
    have eq: "?s = (if int m + 1 \<ge> n then if b then (run_messages h ?key msgs s2)
        \<lparr>sustain := (sustain (run_messages h ?key msgs s2))(?key \<mapsto> 0)\<rparr> else s2 else ?s1)"
      using hit m(2) can by (simp add: run_channel_def Let_def)
    have zero: "?new 0" by simp
    have "count_of ?s ?key = int 0 \<or> count_of ?s ?key = int (Suc m)"
      unfolding eq s2 by simp
    moreover have "out ?s \<noteq> out s \<longrightarrow> n \<le> int (Suc m)" unfolding eq by simp
    ultimately show ?thesis using new zero hit(1) by metis
  qed
  then show "count_inv ch op k n ?s (rs @ [r])" and "out ?s \<noteq> out s \<Longrightarrow>
      ch_name r = ch \<and> (\<exists>m. n \<le> int m \<and> m \<le> length (of_channel ch (rs @ [r])) \<and>
        (\<forall>r \<in> set (take m (rev (of_channel ch (rs @ [r])))). over op k (current_a r)))"
    unfolding count_inv_def by blast+
qed

lemma run_channels_count:
  assumes "count_of s (current_key ch (cmp_text op) k (10 * n)) = 0"
  shows "count_inv ch op k n (fold (run_channel h ch op k n msgs) rs s) rs"
proof (induction rs rule: rev_induct)
  case Nil
  with assms show ?case by (auto simp: count_inv_def)
next
  case (snoc r rs)
  then show ?case by (simp add: run_channel_count(1))
qed

text \<open>
  C14. A current rule "for \<open>n\<close> readings" alerts only on the \<open>n\<close>-th matching reading in a row or later:
  whenever the reading \<open>r\<close> makes it send something, the newest \<open>n\<close> readings of its channel,
  \<open>r\<close> being the last, all match. A reading that does not match or has no value restarts the count.
\<close>

theorem current_alert_needs_count:
  assumes "count_of s (current_key ch (cmp_text op) k (10 * n)) = 0" and "n \<ge> 1"
    and "s' = fold (run_channel h ch op k n msgs) rs s"
    and "out (run_channel h ch op k n msgs r s') \<noteq> out s'"
  shows "ch_name r = ch \<and> nat n \<le> length (of_channel ch (rs @ [r])) \<and>
    (\<forall>x \<in> set (take (nat n) (rev (of_channel ch (rs @ [r])))). over op k (current_a x))"
proof -
  note inv = run_channels_count [OF assms(1), of h msgs rs]
  obtain m where m: "ch_name r = ch" "n \<le> int m" "m \<le> length (of_channel ch (rs @ [r]))"
    "\<forall>x \<in> set (take m (rev (of_channel ch (rs @ [r])))). over op k (current_a x)"
    using run_channel_count(2) [OF inv] assms(3,4) by metis
  then have "nat n \<le> m" by simp
  with m show ?thesis using set_take_subset_set_take [of "nat n" m] by (metis le_trans subsetD)
qed

definition pump_low :: channel where
  "pump_low = \<lparr>ch_name = ''pump'', current_a = Some (1/4)\<rparr>"

theorem current_alert_needs_count_witness:
  "let s' = fold (run_channel sample_host ''pump'' LE 5 2 [''dry'']) [pump_low] rt_init
   in out (run_channel sample_host ''pump'' LE 5 2 [''dry''] pump_low s') \<noteq> out s' \<and>
      ch_name pump_low = ''pump'' \<and> nat 2 \<le> length (of_channel ''pump'' ([pump_low] @ [pump_low])) \<and>
      list_all (\<lambda>x. over LE 5 (current_a x)) (take (nat 2) (rev (of_channel ''pump'' ([pump_low] @ [pump_low]))))"
proof -
  let ?s = "fold (run_channel sample_host ''pump'' LE 5 2 [''dry'']) [pump_low] rt_init"
  have "out (run_channel sample_host ''pump'' LE 5 2 [''dry''] pump_low ?s) \<noteq> out ?s"
    by (simp add: run_channel_def pump_low_def over_def rt_init_def can_alert_def
        sample_host_def run_messages_out alert_effects_def Let_def count_of_def)
  moreover have "count_of rt_init (current_key ''pump'' (cmp_text LE) 5 (10 * 2)) = 0"
    by (simp add: rt_init_def count_of_def)
  ultimately show ?thesis
    using current_alert_needs_count [of rt_init "''pump''" LE 5 2 ?s sample_host "[''dry'']" "[pump_low]" pump_low]
    by (simp add: list_all_iff)
qed

end
