(* ===== verification/Rules_Meaning.thy ===== *)
theory Rules_Meaning
  imports Rules_Keys
begin

text \<open>
  From blocks to rules: the handlers that a tree of rule blocks stands for, and the text of a
  handler. The generated code of a tree is the text of its handlers, so the theorems on running
  handlers are about the files that the editor writes.
\<close>

section \<open>Rules of a tree\<close>

definition text_of :: "(string \<times> fval) list \<Rightarrow> string \<Rightarrow> string" where
  "text_of fs n = js_String (getFieldValue fs n)"

definition tenths_of :: "(string \<times> fval) list \<Rightarrow> string \<Rightarrow> int" where
  "tenths_of fs n = (case getFieldValue fs n of Some (FNum k) \<Rightarrow> k | _ \<Rightarrow> 0)"

definition cmp_of :: "(string \<times> fval) list \<Rightarrow> cmp" where
  "cmp_of fs = (if text_of fs ''OP'' = ''>='' then GE else LE)"

definition target_of :: "binput list \<Rightarrow> string \<Rightarrow> block option" where
  "target_of ins n = (case find (\<lambda>i. iname i = n) ins of Some i \<Rightarrow> itarget i | None \<Rightarrow> None)"

definition chain_of :: "(block \<Rightarrow> 'a list) \<Rightarrow> block option \<Rightarrow> 'a list" where
  "chain_of f b = (case b of None \<Rightarrow> [] | Some b \<Rightarrow> f b)"

lemma chain_of_simps [simp]: "chain_of f None = []" "chain_of f (Some b) = f b"
  by (simp_all add: chain_of_def)

lemma chain_of_cong [fundef_cong]:
  "b = b' \<Longrightarrow> (\<And>x. b' = Some x \<Longrightarrow> f x = g x) \<Longrightarrow> chain_of f b = chain_of g b'"
  by (cases b') simp_all

definition action_of :: "string \<Rightarrow> (string \<times> fval) list \<Rightarrow> action" where
  "action_of ty fs =
     (if ty = ''thesada_notify_temp'' then NotifyTemp (text_of fs ''SUFFIX'') else Notify (text_of fs ''MSG''))"

fun actions_of :: "block \<Rightarrow> action list" where
  "actions_of (Block ty i en cm fs ins nx) = (if en then [action_of ty fs] else []) @ chain_of actions_of nx"

definition texts_of :: "action list \<Rightarrow> string list" where
  "texts_of acts = concat (map (\<lambda>a. case a of Notify m \<Rightarrow> [m] | NotifyTemp sfx \<Rightarrow> []) acts)"

definition condition_of :: "string \<Rightarrow> (string \<times> fval) list \<Rightarrow> action list \<Rightarrow> condition" where
  "condition_of ty fs acts =
     (if ty = ''thesada_if_battery'' then IfBattery (tenths_of fs ''PCT'') (texts_of acts)
      else if ty = ''thesada_if_current''
      then IfCurrent (text_of fs ''CHANNEL'') (cmp_of fs) (tenths_of fs ''THRESH'')
             (tenths_of fs ''COUNT'' div 10) (texts_of acts)
      else IfTemp (text_of fs ''SENSOR'') (cmp_of fs) (tenths_of fs ''THRESH'')
             (text_of fs ''SUSTAIN'' = ''YES'') acts)"

fun conditions_of :: "block \<Rightarrow> condition list" where
  "conditions_of (Block ty i en cm fs ins nx) =
     (if en then [condition_of ty fs (chain_of actions_of (target_of ins ''DO''))] else [])
     @ chain_of conditions_of nx"

definition event_of :: "(string \<times> fval) list \<Rightarrow> event" where
  "event_of fs =
     (if text_of fs ''EVENT'' = ''temperature'' then Temperature
      else if text_of fs ''EVENT'' = ''current'' then Current else Battery)"

fun handlers_of :: "block \<Rightarrow> handler list" where
  "handlers_of (Block ty i en cm fs ins nx) =
     (if en then [OnSensor (event_of fs) (chain_of conditions_of (target_of ins ''DO''))] else [])
     @ chain_of handlers_of nx"

definition rules_of :: "block \<Rightarrow> handler list" where
  \<comment> \<open>the handlers of a \<open>thesada_rules_root\<close>\<close>
  "rules_of b = (if enabled b then chain_of handlers_of (target_of (inputs b) ''BODY'') else [])"

section \<open>Text of the rules\<close>

definition unlines :: "string list \<Rightarrow> string" where
  "unlines ls = concat (map line ls)"

abbreviation indented :: "string list \<Rightarrow> string list" where
  "indented \<equiv> map ((@) INDENT)"

fun action_lines :: "action \<Rightarrow> string list" where
  \<open>action_lines (Notify m) = [''notify("'' @ esc m @ ''", key)'']\<close>
| \<open>action_lines (NotifyTemp sfx) =
     [''local t = (unit == "F") and (s.temp_c * 9 / 5 + 32) or s.temp_c'',
      ''notify(s.name .. ": " .. t .. unit .. " - '' @ esc sfx @ ''", key)'']\<close>

fun condition_lines :: "condition \<Rightarrow> string list" where
  \<open>condition_lines (IfTemp sensor op k sus acts) =
     (let key = temp_key_lit (esc sensor) (cmp_text op) (show_tenths k);
          branch = indented (concat (map action_lines acts));
          test = ''s.temp_c ~= nil and s.temp_c '' @ cmp_text op @ '' '' @ show_tenths k
      in [''for _, s in ipairs(data.sensors) do'']
         @ (if sus
            then [''  if s.name == "'' @ esc sensor @ ''" then'',
                  ''    local key = "'' @ key @ ''"'',
                  ''    if temp_streak(key, '' @ test @ '') then'']
            else [''  if s.name == "'' @ esc sensor @ ''" and '' @ test @ '' then'',
                  ''    local key = "'' @ key @ ''"'',
                  ''    if can_alert(key) then''])
         @ branch @ [''    end'', ''  end'', ''end''])\<close>
| \<open>condition_lines (IfCurrent ch op k n msgs) =
     [''for _, ch in ipairs(data.channels) do'',
      ''  if ch.name == "'' @ esc ch @ ''" then'',
      ''    local key = "'' @ current_key_lit (esc ch) (cmp_text op) (show_tenths k) (show_tenths (10 * n)) @ ''"'',
      ''    if ch.current_a ~= nil and ch.current_a '' @ cmp_text op @ '' '' @ show_tenths k @ '' then'',
      ''      sustain[key] = (sustain[key] or 0) + 1'',
      ''      if sustain[key] >= '' @ show_tenths (10 * n) @ '' and can_alert(key) then'']
     @ indented (concat (map (action_lines \<circ> Notify) msgs))
     @ [''        sustain[key] = 0'', ''      end'', ''    else'', ''      sustain[key] = 0'',
        ''    end'', ''  end'', ''end'']\<close>
| \<open>condition_lines (IfBattery k msgs) =
     [''do'', ''  local pct = data.percent or -1'',
      ''  if pct >= 0 and pct <= '' @ show_tenths k @ '' and not data.charging then'',
      ''    local key = "battery_low"'', ''    if can_alert(key) then'']
     @ indented (concat (map (action_lines \<circ> Notify) msgs))
     @ [''    end'', ''  end'', ''end'']\<close>

fun event_text :: "event \<Rightarrow> string" where
  "event_text Temperature = ''temperature''"
| "event_text Current = ''current''"
| "event_text Battery = ''battery''"

fun guard_text :: "event \<Rightarrow> string" where
  "guard_text Temperature = ''data.sensors''"
| "guard_text Current = ''data.channels''"
| "guard_text Battery = ''data.present''"

fun handler_lines :: "handler \<Rightarrow> string list" where
  \<open>handler_lines (OnSensor ev cs) =
     [''EventBus.subscribe("'' @ event_text ev @ ''", function(data)'',
      ''  if not '' @ guard_text ev @ '' then return end'']
     @ indented (concat (map condition_lines cs)) @ [''end)'']\<close>

section \<open>Indentation\<close>

definition no_breaks :: "string list \<Rightarrow> bool" where
  "no_breaks ls \<longleftrightarrow> (\<forall>l \<in> set ls. NL \<notin> set l)"

lemma no_breaks_simps [simp]:
  "no_breaks []" "no_breaks (l # ls) \<longleftrightarrow> NL \<notin> set l \<and> no_breaks ls"
  "no_breaks (ls @ ms) \<longleftrightarrow> no_breaks ls \<and> no_breaks ms"
  by (auto simp: no_breaks_def)

lemma unlines_simps [simp]:
  "unlines [] = []" "unlines (l # ls) = l @ NL # unlines ls" "unlines (ls @ ms) = unlines ls @ unlines ms"
  by (simp_all add: unlines_def line_def)

lemma unlines_Nil_iff [simp]: "unlines ls = [] \<longleftrightarrow> ls = []" "[] = unlines ls \<longleftrightarrow> ls = []"
  by (cases ls; simp)+

lemma indent_newlines_line:
  "NL \<notin> set l \<Longrightarrow> s \<noteq> [] \<Longrightarrow> indent_newlines p (l @ NL # s) = l @ NL # p @ indent_newlines p s"
proof (induction l)
  case Nil
  then show ?case by (cases s) simp_all
next
  case (Cons c l)
  then show ?case by (cases l) auto
qed

lemma indent_newlines_last: "NL \<notin> set l \<Longrightarrow> indent_newlines p (l @ [NL]) = l @ [NL]"
proof (induction l)
  case (Cons c l)
  then show ?case by (cases l) auto
qed simp

lemma prefixLines_unlines:
  assumes "no_breaks ls" and "ls \<noteq> []"
  shows "prefixLines (unlines ls) p = unlines (map ((@) p) ls)"
  using assms
proof (induction ls)
  case (Cons l ls)
  then show ?case
    by (cases "ls = []") (simp_all add: prefixLines_def indent_newlines_line indent_newlines_last)
qed simp

section \<open>Blocks of a well-formed tree\<close>

fun tidy :: "block \<Rightarrow> bool" and tidy_input :: "binput \<Rightarrow> bool" where
  \<comment> \<open>no comments, and texts without line breaks, as an input line of the browser gives them\<close>
  "tidy (Block ty i en cm fs ins nx) \<longleftrightarrow>
     cm = None \<and> (\<forall>(n, v) \<in> set fs. case v of FText s \<Rightarrow> one_line s | FNum k \<Rightarrow> True) \<and>
     (\<forall>x \<in> set ins. tidy_input x) \<and> (case nx of None \<Rightarrow> True | Some b \<Rightarrow> tidy b)"
| "tidy_input (Input n t None) \<longleftrightarrow> True"
| "tidy_input (Input n t (Some b)) \<longleftrightarrow> tidy b"

definition rule_tree :: "block \<Rightarrow> bool" where
  "rule_tree b \<longleftrightarrow> wf_block rules_shapes b \<and> only_rule_blocks b \<and> tidy b"

definition previous_of :: "string \<Rightarrow> string" where
  "previous_of ty =
     (if ty = ''thesada_on_sensor'' then ''ThesadaEvent''
      else if ty = ''thesada_notify'' then ''ThesadaAction''
      else if ty = ''thesada_notify_temp'' then ''ThesadaTempAction''
      else if ty = ''thesada_rules_root'' then '''' else ''ThesadaCondition'')"

lemma rule_previous:
  "ty \<in> rule_types \<Longrightarrow> rules_shapes ty ns = Some sh \<Longrightarrow>
   sh_previous sh = (if ty = ''thesada_rules_root'' then None else Some (Some [previous_of ty]))"
  unfolding rule_types_def by (elim insertE emptyE) (auto simp: shape_defs previous_of_def)

lemma fits_previous:
  assumes "fits rules_shapes STATEMENT (Some cs) b" and "btype b \<in> rule_types"
  shows "previous_of (btype b) \<in> set cs \<and> btype b \<noteq> ''thesada_rules_root''"
  using assms rule_previous [of "btype b"]
  by (auto simp: fits_def block_shape_def doTypeChecks_def list_ex_iff split: option.splits if_splits)

lemma wf_inputs_Nil [simp]: "wf_inputs Sh ins [] \<longleftrightarrow> ins = []"
  by (cases ins) simp_all

lemma wf_inputs_one:
  "wf_inputs Sh ins [(m, u, c)] \<longleftrightarrow>
     (\<exists>tgt. ins = [Input m u tgt] \<and> (case tgt of None \<Rightarrow> True | Some b \<Rightarrow> fits Sh u c b \<and> wf_block Sh b))"
  by (cases ins; cases "hd ins"; cases "tl ins") auto

definition condition_types :: "string set" where
  "condition_types = {''thesada_if_temp'', ''thesada_if_above'', ''thesada_if_current'', ''thesada_if_battery''}"

definition action_types :: "string set" where
  "action_types = {''thesada_notify'', ''thesada_notify_temp''}"

definition chain_in :: "string set \<Rightarrow> block option \<Rightarrow> bool" where
  \<comment> \<open>nothing, or a tree that starts with a block of these types\<close>
  "chain_in T b \<longleftrightarrow> (case b of None \<Rightarrow> True | Some b \<Rightarrow> rule_tree b \<and> btype b \<in> T)"

definition check_types :: "string list \<Rightarrow> string set" where
  "check_types cs = {ty \<in> rule_types. ty \<noteq> ''thesada_rules_root'' \<and> previous_of ty \<in> set cs}"

lemma check_types_simps [simp]:
  "check_types [''ThesadaEvent''] = {''thesada_on_sensor''}"
  "check_types [''ThesadaCondition''] = condition_types"
  "check_types [''ThesadaAction''] = {''thesada_notify''}"
  "check_types [''ThesadaTempAction'', ''ThesadaAction''] = action_types"
  by (auto simp: check_types_def condition_types_def action_types_def rule_types_def previous_of_def
      split: if_splits)

lemma fits_types:
  "fits rules_shapes STATEMENT (Some cs) b \<Longrightarrow> only_rule_blocks b \<Longrightarrow> btype b \<in> check_types cs"
  using fits_previous only_rule_blocks_type by (auto simp: check_types_def)

text \<open>What the generators see of a block: its fields, its branch and the block after it.\<close>

lemma rule_tree_next:
  assumes "rule_tree (Block ty i en cm fs ins nx)" and "rules_shapes ty (map iname ins) = Some sh"
    and "sh_next sh = Some (Some cs)"
  shows "chain_in (check_types cs) nx"
  using assms fits_types by (auto simp: rule_tree_def chain_in_def split: option.splits)

lemma rule_tree_branch:
  assumes "rule_tree (Block ty i en cm fs ins nx)" and "rules_shapes ty (map iname ins) = Some sh"
    and "sh_inputs sh = [(n, STATEMENT, Some cs)]"
  shows "\<exists>tgt. ins = [Input n STATEMENT tgt] \<and> chain_in (check_types cs) tgt"
proof -
  from assms obtain tgt where ins: "ins = [Input n STATEMENT tgt]"
    and tgt: "case tgt of None \<Rightarrow> True
      | Some b \<Rightarrow> fits rules_shapes STATEMENT (Some cs) b \<and> wf_block rules_shapes b"
    by (auto simp: rule_tree_def wf_inputs_one)
  have "only_rule_inputs (Input n STATEMENT tgt)" "tidy_input (Input n STATEMENT tgt)"
    using assms(1) ins by (simp_all add: rule_tree_def)
  with tgt have "chain_in (check_types cs) tgt"
    using fits_types by (cases tgt) (simp_all add: chain_in_def rule_tree_def)
  with ins show ?thesis by blast
qed

lemma rule_tree_fields:
  assumes "rule_tree (Block ty i en cm fs ins nx)" and "rules_shapes ty (map iname ins) = Some sh"
  shows "cm = None" and "wf_fields fs (sh_fields sh)" and "wf_inputs rules_shapes ins (sh_inputs sh)"
    and "\<And>n s. (n, FText s) \<in> set fs \<Longrightarrow> one_line s"
  using assms by (auto simp: rule_tree_def)

lemma rule_tree_notify:
  assumes t: "rule_tree (Block ''thesada_notify'' i en cm fs ins nx)"
  shows "\<exists>m. fs = [(''MSG'', FText m)] \<and> one_line m \<and> ins = [] \<and> cm = None \<and> chain_in {''thesada_notify''} nx"
proof -
  have sh: "rules_shapes ''thesada_notify'' (map iname ins) = Some thesada_notify_shape" by (simp add: shape_defs)
  from rule_tree_fields [OF t sh] rule_tree_next [OF t sh] show ?thesis
    by (auto simp: shape_defs wf_fields_def list_all2_Cons2 field_ok_cases)
qed

lemma rule_tree_notify_temp:
  assumes t: "rule_tree (Block ''thesada_notify_temp'' i en cm fs ins nx)"
  shows "\<exists>m. fs = [(''SUFFIX'', FText m)] \<and> one_line m \<and> ins = [] \<and> cm = None \<and> chain_in action_types nx"
proof -
  have sh: "rules_shapes ''thesada_notify_temp'' (map iname ins) = Some thesada_notify_temp_shape"
    by (simp add: shape_defs)
  from rule_tree_fields [OF t sh] rule_tree_next [OF t sh] show ?thesis
    by (auto simp: shape_defs wf_fields_def list_all2_Cons2 field_ok_cases)
qed

lemma cmp_text_cases: "s = ''>='' \<or> s = ''<='' \<Longrightarrow> \<exists>op. s = cmp_text op"
  by (metis cmp_text.simps)

lemma rule_tree_if_temp:
  assumes t: "rule_tree (Block ty i en cm fs ins nx)" and ty: "ty = ''thesada_if_temp'' \<or> ty = ''thesada_if_above''"
  shows "\<exists>a op k sus tgt. fs = [(''SENSOR'', FText a), (''OP'', FText (cmp_text op)), (''THRESH'', FNum k),
      (''SUSTAIN'', FText (if sus then ''YES'' else ''NO''))] \<and> one_line a \<and> cm = None \<and>
    ins = [Input ''DO'' STATEMENT tgt] \<and> chain_in action_types tgt \<and> chain_in condition_types nx"
proof -
  have sh: "rules_shapes ty (map iname ins) = Some thesada_if_temp_shape" using ty by (auto simp: shape_defs)
  note f = rule_tree_fields [OF t sh]
  obtain tgt where tgt: "ins = [Input ''DO'' STATEMENT tgt]" "chain_in action_types tgt"
    using rule_tree_branch [OF t sh] by (auto simp: thesada_if_temp_shape_def)
  have nx: "chain_in condition_types nx"
    using rule_tree_next [OF t sh] by (simp add: thesada_if_temp_shape_def)
  from f(2) obtain a s k u where fs: "fs = [(''SENSOR'', FText a), (''OP'', FText s), (''THRESH'', FNum k),
      (''SUSTAIN'', FText u)]" "s = ''>='' \<or> s = ''<=''" "u = ''YES'' \<or> u = ''NO''"
    by (auto simp: wf_fields_def list_all2_Cons2 field_ok_cases thesada_if_temp_shape_def)
  moreover have "one_line a" using f(4) [of "''SENSOR''" a] fs(1) by simp
  moreover obtain op where "s = cmp_text op" using cmp_text_cases fs(2) by blast
  moreover have "u = (if u = ''YES'' then ''YES'' else ''NO'')" using fs(3) by auto
  ultimately show ?thesis using f(1) tgt nx by blast
qed

lemma rule_tree_if_current:
  assumes t: "rule_tree (Block ''thesada_if_current'' i en cm fs ins nx)"
  shows "\<exists>a op k n tgt. fs = [(''CHANNEL'', FText a), (''OP'', FText (cmp_text op)), (''THRESH'', FNum k),
      (''COUNT'', FNum (10 * n))] \<and> n \<ge> 1 \<and> one_line a \<and> cm = None \<and> ins = [Input ''DO'' STATEMENT tgt] \<and>
    chain_in {''thesada_notify''} tgt \<and> chain_in condition_types nx"
proof -
  have sh: "rules_shapes ''thesada_if_current'' (map iname ins) = Some thesada_if_current_shape"
    by (simp add: shape_defs)
  note f = rule_tree_fields [OF t sh]
  obtain tgt where tgt: "ins = [Input ''DO'' STATEMENT tgt]" "chain_in {''thesada_notify''} tgt"
    using rule_tree_branch [OF t sh] by (auto simp: thesada_if_current_shape_def)
  have nx: "chain_in condition_types nx"
    using rule_tree_next [OF t sh] by (simp add: thesada_if_current_shape_def)
  from f(2) obtain a s k m where fs: "fs = [(''CHANNEL'', FText a), (''OP'', FText s), (''THRESH'', FNum k),
      (''COUNT'', FNum m)]" "s = ''>='' \<or> s = ''<=''" "10 \<le> m" "10 dvd m"
    by (auto simp: wf_fields_def list_all2_Cons2 field_ok_cases thesada_if_current_shape_def)
  moreover from fs(3,4) obtain n where "m = 10 * n" "n \<ge> 1" by (auto simp: dvd_def)
  moreover have "one_line a" using f(4) [of "''CHANNEL''" a] fs(1) by simp
  moreover obtain op where "s = cmp_text op" using cmp_text_cases fs(2) by blast
  ultimately show ?thesis using f(1) tgt nx by blast
qed

lemma rule_tree_if_battery:
  assumes t: "rule_tree (Block ''thesada_if_battery'' i en cm fs ins nx)"
  shows "\<exists>k tgt. fs = [(''PCT'', FNum k)] \<and> cm = None \<and> ins = [Input ''DO'' STATEMENT tgt] \<and>
    chain_in {''thesada_notify''} tgt \<and> chain_in condition_types nx"
proof -
  have sh: "rules_shapes ''thesada_if_battery'' (map iname ins) = Some thesada_if_battery_shape"
    by (simp add: shape_defs)
  from rule_tree_fields [OF t sh] rule_tree_branch [OF t sh] rule_tree_next [OF t sh] show ?thesis
    by (auto simp: thesada_if_battery_shape_def empty_shape_def wf_fields_def list_all2_Cons2 field_ok_cases)
qed

lemma rule_tree_on_sensor:
  assumes t: "rule_tree (Block ''thesada_on_sensor'' i en cm fs ins nx)"
  shows "\<exists>ev tgt. fs = [(''EVENT'', FText (event_text ev))] \<and> cm = None \<and> ins = [Input ''DO'' STATEMENT tgt] \<and>
    chain_in condition_types tgt \<and> chain_in {''thesada_on_sensor''} nx"
proof -
  have sh: "rules_shapes ''thesada_on_sensor'' (map iname ins) = Some thesada_on_sensor_shape"
    by (simp add: shape_defs)
  note f = rule_tree_fields [OF t sh]
  obtain tgt where tgt: "ins = [Input ''DO'' STATEMENT tgt]" "chain_in condition_types tgt"
    using rule_tree_branch [OF t sh] by (auto simp: thesada_on_sensor_shape_def)
  have nx: "chain_in {''thesada_on_sensor''} nx"
    using rule_tree_next [OF t sh] by (simp add: thesada_on_sensor_shape_def)
  from f(2) obtain s where fs: "fs = [(''EVENT'', FText s)]" "s = ''temperature'' \<or> s = ''current'' \<or> s = ''battery''"
    by (auto simp: wf_fields_def list_all2_Cons2 field_ok_cases thesada_on_sensor_shape_def)
  from fs(2) obtain ev where "s = event_text ev" by (metis event_text.simps)
  with fs(1) f(1) tgt nx show ?thesis by blast
qed

section \<open>The generated code is the text of the rules\<close>

definition coded :: "lua_generator \<Rightarrow> string list \<Rightarrow> block option \<Rightarrow> bool" where
  \<comment> \<open>the code of a chain of blocks is these lines\<close>
  "coded G ls b \<longleftrightarrow>
     no_breaks ls \<and> (case b of None \<Rightarrow> Inr (CStr '''') | Some b \<Rightarrow> blockToCode G b) = Inr (CStr (unlines ls))"

lemma coded_None [simp]: "coded G [] None"
  by (simp add: coded_def)

lemma coded_branch:
  assumes "coded G ls tgt"
  shows "statementToCode [inputToCode G (Input n STATEMENT tgt)] n = Inr (unlines (indented ls))"
  using assms
  by (cases tgt) (auto simp: coded_def statementToCode_def getInputTarget_def prefixLines_unlines)

lemma coded_Some:
  assumes "coded G ls nx" and "forBlock G ty = Some g" and "\<not> has_output G ty" and "no_breaks ms"
    and "g fs (map (inputToCode G) ins) = Inr (CStr (unlines ms))" and "\<forall>x \<in> set ins. itype x = STATEMENT"
  shows "coded G ((if en then ms else []) @ ls) (Some (Block ty i en None fs ins nx))"
proof -
  have "comment_code (wrap_text G) None ins = ''''"
    using assms(6) by (auto simp: comment_code_def split: binput.split input_type.split)
  with assms(1-5) show ?thesis by (auto simp: coded_def Let_def)
qed

lemma rules_lua_simps [simp]:
  "forBlock (rules_lua wrap) = rules_generators"
  "has_output (rules_lua wrap) ty \<longleftrightarrow> ty \<in> {''logic_compare'', ''logic_operation'', ''logic_negate'', ''text''}"
  by (simp_all add: rules_lua_def)

lemma unlines_line: "line l = unlines [l]" "l @ line m = unlines [l @ m]"
  by (simp_all add: line_def)

lemma one_line_no_break: "one_line s \<Longrightarrow> NL \<notin> set s"
  by (simp add: one_line_def)

lemma esc_no_break: "one_line s \<Longrightarrow> NL \<notin> set (esc s)"
  by (simp add: one_line_no_break esc_one_line)

lemma plain_no_break: "plain s \<Longrightarrow> NL \<notin> set s"
  by (auto simp: plain_def)

lemma cmp_text_no_break [simp]: "NL \<notin> set (cmp_text op)"
  by (cases op) simp_all

lemma chain_in_Some [simp]: "chain_in T (Some b) \<longleftrightarrow> rule_tree b \<and> btype b \<in> T"
  by (simp add: chain_in_def)

lemma chain_in_mono: "chain_in T b \<Longrightarrow> T \<subseteq> T' \<Longrightarrow> chain_in T' b"
  by (auto simp: chain_in_def split: option.splits)

definition all_notify :: "action list \<Rightarrow> bool" where
  "all_notify acts \<longleftrightarrow> acts = map Notify (texts_of acts)"

lemma all_notify_simps [simp]:
  "all_notify []" "all_notify (Notify m # acts) \<longleftrightarrow> all_notify acts"
  by (simp_all add: all_notify_def texts_of_def)

lemma chain_induct [case_names None Block]:
  assumes "P None" and "\<And>ty i en cm fs ins nx. P nx \<Longrightarrow> P (Some (Block ty i en cm fs ins nx))"
  shows "P b"
proof (induction "case b of None \<Rightarrow> 0 | Some b \<Rightarrow> size b" arbitrary: b rule: less_induct)
  case less
  show ?case
  proof (cases b)
    case (Some x)
    obtain ty i en cm fs ins nx where x: "x = Block ty i en cm fs ins nx" by (cases x)
    have "P nx" using less.hyps [of nx] assms(1) by (cases nx) (simp_all add: Some x)
    then show ?thesis using assms(2) by (simp add: Some x)
  qed (simp add: assms(1))
qed

lemma actions_coded:
  "chain_in action_types b \<Longrightarrow>
     coded (rules_lua wrap) (concat (map action_lines (chain_of actions_of b))) b \<and>
     (chain_in {''thesada_notify''} b \<longrightarrow> all_notify (chain_of actions_of b))"
proof (induction b rule: chain_induct)
  case (Block ty i en cm fs ins nx)
  have t: "rule_tree (Block ty i en cm fs ins nx)" and "ty = ''thesada_notify'' \<or> ty = ''thesada_notify_temp''"
    using Block.prems by (auto simp: action_types_def)
  then show ?case
  proof (elim disjE)
    assume ty: "ty = ''thesada_notify''"
    from rule_tree_notify [OF t [unfolded ty]] obtain m where
      m: "fs = [(''MSG'', FText m)]" "one_line m" "ins = []" "cm = None" "chain_in {''thesada_notify''} nx"
      by blast
    have act: "action_of ty fs = Notify m"
      by (simp add: action_of_def ty m(1) text_of_def getFieldValue_def)
    have nx: "coded (rules_lua wrap) (concat (map action_lines (chain_of actions_of nx))) nx"
      "all_notify (chain_of actions_of nx)"
      using Block.IH chain_in_mono [OF m(5)] m(5) by (auto simp: action_types_def)
    have "coded (rules_lua wrap) ((if en then action_lines (Notify m) else []) @
        concat (map action_lines (chain_of actions_of nx))) (Some (Block ty i en None fs ins nx))"
      by (rule coded_Some [OF nx(1), where g = thesada_notify])
        (simp_all add: ty m(1-3) rules_generators_def thesada_notify_def getFieldValue_def unlines_line
          esc_no_break)
    with nx(2) act [unfolded ty] show ?thesis by (simp add: m(4) ty split: if_splits)
  next
    assume ty: "ty = ''thesada_notify_temp''"
    from rule_tree_notify_temp [OF t [unfolded ty]] obtain m where
      m: "fs = [(''SUFFIX'', FText m)]" "one_line m" "ins = []" "cm = None" "chain_in action_types nx"
      by blast
    have act: "action_of ty fs = NotifyTemp m"
      by (simp add: action_of_def ty m(1) text_of_def getFieldValue_def)
    have nx: "coded (rules_lua wrap) (concat (map action_lines (chain_of actions_of nx))) nx"
      using Block.IH m(5) by simp
    have "coded (rules_lua wrap) ((if en then action_lines (NotifyTemp m) else []) @
        concat (map action_lines (chain_of actions_of nx))) (Some (Block ty i en None fs ins nx))"
      by (rule coded_Some [OF nx(1), where g = thesada_notify_temp])
        (simp_all add: ty m(1-3) rules_generators_def thesada_notify_temp_def getFieldValue_def line_def
          esc_no_break)
    with act show ?thesis by (simp add: m(4) ty split: if_splits)
  qed
qed simp

lemma no_breaks_indented: "no_breaks ls \<Longrightarrow> no_breaks (indented ls)"
  by (auto simp: no_breaks_def)

lemma coded_no_breaks: "coded G ls b \<Longrightarrow> no_breaks (indented ls)"
  by (simp add: coded_def no_breaks_indented)

lemmas lines_simps =
  text_of_def tenths_of_def getFieldValue_def js_number_text_def js_or_number_def target_of_def
  temp_key_lit_def current_key_lit_def line_def esc_no_break one_line_no_break
  plain_no_break [OF plain_show_tenths] Let_def

lemma if_temp_coded:
  assumes fs: "fs = [(''SENSOR'', FText a), (''OP'', FText (cmp_text op)), (''THRESH'', FNum k),
      (''SUSTAIN'', FText (if sus then ''YES'' else ''NO''))]" "one_line a"
    and tgt: "coded G (concat (map action_lines acts)) tgt"
  shows "thesada_if_temp fs [inputToCode G (Input ''DO'' STATEMENT tgt)] =
      Inr (CStr (unlines (condition_lines (IfTemp a op k sus acts))))"
    and "no_breaks (condition_lines (IfTemp a op k sus acts))"
  using coded_branch [OF tgt, of "''DO''"] coded_no_breaks [OF tgt] fs(2)
  by (simp_all add: thesada_if_temp_def fs(1) lines_simps)

lemma if_current_coded:
  assumes fs: "fs = [(''CHANNEL'', FText a), (''OP'', FText (cmp_text op)), (''THRESH'', FNum k),
      (''COUNT'', FNum (10 * n))]" "one_line a" "n \<ge> 1"
    and tgt: "coded G (concat (map (action_lines \<circ> Notify) msgs)) tgt"
  shows "thesada_if_current fs [inputToCode G (Input ''DO'' STATEMENT tgt)] =
      Inr (CStr (unlines (condition_lines (IfCurrent a op k n msgs))))"
    and "no_breaks (condition_lines (IfCurrent a op k n msgs))"
  using coded_branch [OF tgt, of "''DO''"] coded_no_breaks [OF tgt] fs(2,3)
  by (simp_all add: thesada_if_current_def fs(1) lines_simps)

lemma if_battery_coded:
  assumes fs: "fs = [(''PCT'', FNum k)]" and tgt: "coded G (concat (map (action_lines \<circ> Notify) msgs)) tgt"
  shows "thesada_if_battery fs [inputToCode G (Input ''DO'' STATEMENT tgt)] =
      Inr (CStr (unlines (condition_lines (IfBattery k msgs))))"
    and "no_breaks (condition_lines (IfBattery k msgs))"
  using coded_branch [OF tgt, of "''DO''"] coded_no_breaks [OF tgt]
  by (simp_all add: thesada_if_battery_def fs lines_simps)

lemma messages_coded:
  assumes "chain_in {''thesada_notify''} tgt"
  shows "coded (rules_lua wrap) (concat (map (action_lines \<circ> Notify) (texts_of (chain_of actions_of tgt)))) tgt"
  using actions_coded [OF chain_in_mono [OF assms], of wrap] assms
  by (simp add: action_types_def all_notify_def) (metis map_map)

lemma cmp_of_text: "getFieldValue fs ''OP'' = Some (FText (cmp_text op)) \<Longrightarrow> cmp_of fs = op"
  by (cases op) (simp_all add: cmp_of_def text_of_def)

lemma condition_coded:
  assumes t: "rule_tree (Block ty i en cm fs ins nx)" and ty: "ty \<in> condition_types"
  shows "\<exists>g. rules_generators ty = Some g \<and>
    g fs (map (inputToCode (rules_lua wrap)) ins) =
      Inr (CStr (unlines (condition_lines (condition_of ty fs (chain_of actions_of (target_of ins ''DO'')))))) \<and>
    no_breaks (condition_lines (condition_of ty fs (chain_of actions_of (target_of ins ''DO'')))) \<and>
    ty \<notin> {''logic_compare'', ''logic_operation'', ''logic_negate'', ''text''} \<and>
    cm = None \<and> (\<forall>x \<in> set ins. itype x = STATEMENT) \<and> chain_in condition_types nx"
proof -
  consider (temp) "ty = ''thesada_if_temp'' \<or> ty = ''thesada_if_above''" | (current) "ty = ''thesada_if_current''"
    | (battery) "ty = ''thesada_if_battery''"
    using ty by (auto simp: condition_types_def)
  then show ?thesis
  proof cases
    case temp
    from rule_tree_if_temp [OF t temp] obtain a op k sus tgt where
      f: "fs = [(''SENSOR'', FText a), (''OP'', FText (cmp_text op)), (''THRESH'', FNum k),
        (''SUSTAIN'', FText (if sus then ''YES'' else ''NO''))]" "one_line a" "cm = None"
        "ins = [Input ''DO'' STATEMENT tgt]" "chain_in action_types tgt" "chain_in condition_types nx" by blast
    have c: "condition_of ''thesada_if_temp'' fs acts = IfTemp a op k sus acts"
      "condition_of ''thesada_if_above'' fs acts = IfTemp a op k sus acts" for acts
      using cmp_of_text [of fs op] by (auto simp: condition_of_def f(1) text_of_def tenths_of_def getFieldValue_def)
    have tgt: "coded (rules_lua wrap) (concat (map action_lines (chain_of actions_of tgt))) tgt"
      using actions_coded [OF f(5)] by blast
    from temp if_temp_coded [OF f(1,2) tgt] f(3-6) show ?thesis
      by (elim disjE) (simp_all add: c rules_generators_def target_of_def del: condition_lines.simps)
  next
    case current
    from rule_tree_if_current [OF t [unfolded current]] obtain a op k n tgt where
      f: "fs = [(''CHANNEL'', FText a), (''OP'', FText (cmp_text op)), (''THRESH'', FNum k),
        (''COUNT'', FNum (10 * n))]" "one_line a" "n \<ge> 1" "cm = None"
        "ins = [Input ''DO'' STATEMENT tgt]" "chain_in {''thesada_notify''} tgt" "chain_in condition_types nx" by blast
    have c: "condition_of ''thesada_if_current'' fs acts = IfCurrent a op k n (texts_of acts)" for acts
      using cmp_of_text [of fs op]
      by (auto simp: condition_of_def f(1) text_of_def tenths_of_def getFieldValue_def)
    from current if_current_coded [OF f(1-3) messages_coded [OF f(6)]] f(4-7) show ?thesis
      by (simp add: c rules_generators_def target_of_def del: condition_lines.simps)
  next
    case battery
    from rule_tree_if_battery [OF t [unfolded battery]] obtain k tgt where
      f: "fs = [(''PCT'', FNum k)]" "cm = None" "ins = [Input ''DO'' STATEMENT tgt]"
        "chain_in {''thesada_notify''} tgt" "chain_in condition_types nx" by blast
    have c: "condition_of ''thesada_if_battery'' fs acts = IfBattery k (texts_of acts)" for acts
      by (auto simp: condition_of_def f(1) tenths_of_def getFieldValue_def)
    from battery if_battery_coded [OF f(1) messages_coded [OF f(4)]] f(2-5) show ?thesis
      by (simp add: c rules_generators_def target_of_def del: condition_lines.simps)
  qed
qed

lemma conditions_coded:
  "chain_in condition_types b \<Longrightarrow>
   coded (rules_lua wrap) (concat (map condition_lines (chain_of conditions_of b))) b"
proof (induction b rule: chain_induct)
  case (Block ty i en cm fs ins nx)
  let ?c = "condition_of ty fs (chain_of actions_of (target_of ins ''DO''))"
  have t: "rule_tree (Block ty i en cm fs ins nx)" "ty \<in> condition_types" using Block.prems by simp_all
  from condition_coded [OF t, of wrap] obtain g where g: "rules_generators ty = Some g"
    "g fs (map (inputToCode (rules_lua wrap)) ins) = Inr (CStr (unlines (condition_lines ?c)))"
    "no_breaks (condition_lines ?c)" "ty \<notin> {''logic_compare'', ''logic_operation'', ''logic_negate'', ''text''}"
    "cm = None" "\<forall>x \<in> set ins. itype x = STATEMENT" "chain_in condition_types nx" by blast
  have "coded (rules_lua wrap) ((if en then condition_lines ?c else []) @
      concat (map condition_lines (chain_of conditions_of nx))) (Some (Block ty i en None fs ins nx))"
    by (rule coded_Some [OF Block.IH [OF g(7)], where g = g]) (use g in simp_all)
  then show ?case using g(5) by (cases en) simp_all
qed simp

lemma handlers_coded:
  "chain_in {''thesada_on_sensor''} b \<Longrightarrow>
   coded (rules_lua wrap) (concat (map handler_lines (chain_of handlers_of b))) b"
proof (induction b rule: chain_induct)
  case (Block ty i en cm fs ins nx)
  have ty: "ty = ''thesada_on_sensor''" using Block.prems by simp
  have t: "rule_tree (Block ''thesada_on_sensor'' i en cm fs ins nx)" using Block.prems ty by simp
  from rule_tree_on_sensor [OF t] obtain ev tgt where f: "fs = [(''EVENT'', FText (event_text ev))]"
    "cm = None" "ins = [Input ''DO'' STATEMENT tgt]" "chain_in condition_types tgt"
    "chain_in {''thesada_on_sensor''} nx" by blast
  let ?h = "OnSensor ev (chain_of conditions_of tgt)"
  have ev: "event_of fs = ev" by (cases ev) (simp_all add: event_of_def text_of_def f(1) getFieldValue_def)
  note tgt = conditions_coded [OF f(4), of wrap]
  have "coded (rules_lua wrap) ((if en then handler_lines ?h else []) @
      concat (map handler_lines (chain_of handlers_of nx))) (Some (Block ty i en None fs ins nx))"
  proof (rule coded_Some [OF Block.IH [OF f(5)], where g = thesada_on_sensor])
    show "thesada_on_sensor fs (map (inputToCode (rules_lua wrap)) ins) = Inr (CStr (unlines (handler_lines ?h)))"
      using coded_branch [OF tgt, of "''DO''"]
      by (cases ev) (simp_all add: thesada_on_sensor_def f(1,3) lines_simps)
    show "no_breaks (handler_lines ?h)"
      using coded_no_breaks [OF tgt] by (cases ev) simp_all
  qed (use f(3) in \<open>simp_all add: ty rules_generators_def\<close>)
  then show ?case by (cases en) (simp_all add: f(2,3) ev target_of_def)
qed simp

text \<open>
  C15. The code that the generator makes of a rules file is the text of its rules: for a
  well-formed tree of rule blocks without comments, whose texts are one line each, \<open>blockToCode\<close> of
  the root is exactly the printed form of the handlers that the tree stands for, in the
  order of the blocks, each nesting level indented by two more spaces and disabled blocks left out.
\<close>

theorem generated_code_prints_rules:
  assumes "rule_tree b" and "btype b = ''thesada_rules_root''"
  shows "blockToCode (rules_lua wrap) b =
    Inr (CStr (unlines (indented (concat (map handler_lines (rules_of b))))))"
proof -
  obtain i en cm fs ins nx where b: "b = Block ''thesada_rules_root'' i en cm fs ins nx"
    using assms(2) by (cases b) simp
  have sh: "rules_shapes ''thesada_rules_root'' (map iname ins) = Some thesada_rules_root_shape"
    by (simp add: shape_defs)
  note t = assms(1) [unfolded b]
  obtain tgt where tgt: "ins = [Input ''BODY'' STATEMENT tgt]" "chain_in {''thesada_on_sensor''} tgt"
    using rule_tree_branch [OF t sh] by (auto simp: thesada_rules_root_shape_def)
  have "nx = None" using t by (auto simp: rule_tree_def shape_defs split: option.splits)
  moreover have "cm = None" using rule_tree_fields(1) [OF t sh] .
  moreover note coded_branch [OF handlers_coded [OF tgt(2), of wrap], of "''BODY''"]
  ultimately show ?thesis
    by (cases en) (simp_all add: b tgt(1) rules_of_def target_of_def rules_generators_def thesada_rules_root_def
        or_else_def comment_code_def)
qed

theorem generated_code_prints_rules_witness:
  "blockToCode (rules_lua id) seed_root =
     Inr (CStr (unlines (indented (concat (map handler_lines (rules_of seed_root)))))) \<and>
   rules_of seed_root =
     [OnSensor Temperature [IfTemp ''supply'' GE 850 True [NotifyTemp ''Overheat!'']],
      OnSensor Battery [IfBattery 200 [''Battery low'']]]"
proof -
  have "only_rule_blocks seed_root" "tidy seed_root" "btype seed_root = ''thesada_rules_root''"
    by (simp_all add: seed_root_eq rule_types_def)
  then have "blockToCode (rules_lua id) seed_root =
      Inr (CStr (unlines (indented (concat (map handler_lines (rules_of seed_root))))))"
    by (intro generated_code_prints_rules) (simp_all add: rule_tree_def seed_root_wf)
  moreover have "rules_of seed_root =
     [OnSensor Temperature [IfTemp ''supply'' GE 850 True [NotifyTemp ''Overheat!'']],
      OnSensor Battery [IfBattery 200 [''Battery low'']]]"
    by (simp add: seed_root_eq rules_of_def target_of_def condition_of_def action_of_def event_of_def cmp_of_def
        text_of_def tenths_of_def getFieldValue_def texts_of_def)
  ultimately show ?thesis by blast
qed

section \<open>Events and conditions\<close>

fun suits :: "event \<Rightarrow> condition \<Rightarrow> bool" where
  \<comment> \<open>the event carries the table that the condition loops over\<close>
  "suits ev (IfTemp a op k sus acts) \<longleftrightarrow> ev = Temperature"
| "suits ev (IfCurrent a op k n msgs) \<longleftrightarrow> ev = Current"
| "suits ev (IfBattery k msgs) \<longleftrightarrow> True"

lemma run_conditions_no_error:
  "\<forall>c \<in> set cs. suits ev c \<Longrightarrow> guard_passes ev d \<Longrightarrow> snd (run_conditions h d cs s) = None"
proof (induction cs arbitrary: s)
  case (Cons c cs)
  then have "snd (run_condition h d c s) = None"
    by (cases c) (auto split: option.split)
  with Cons show ?case by (auto split: prod.split option.split)
qed simp

text \<open>
  C16. A handler whose conditions suit its event (temperature conditions under "temperature", current conditions
  under "current", battery conditions anywhere) never stops with a runtime error, whatever data the
  event carries: the guard at its top returns before a missing table is looped over.
\<close>

theorem suited_handler_no_error:
  assumes "\<forall>c \<in> set cs. suits ev c"
  shows "snd (run_handler h d (OnSensor ev cs) s) = None"
  using run_conditions_no_error [OF assms] by simp

theorem suited_handler_no_error_witness:
  "snd (run_handler sample_host low_battery
     (OnSensor Temperature [IfTemp ''supply'' GE 850 True [NotifyTemp ''Overheat!''], IfBattery 200 [''low'']])
     rt_init) = None"
  by (rule suited_handler_no_error) simp

definition unsuited_root :: block where
  "unsuited_root = Block ''thesada_rules_root'' ''a'' True None [] [Input ''BODY'' STATEMENT (Some
     (Block ''thesada_on_sensor'' ''b'' True None [(''EVENT'', FText ''temperature'')] [Input ''DO'' STATEMENT (Some
       (Block ''thesada_if_current'' ''c'' True None [(''CHANNEL'', FText ''pump''), (''OP'', FText ''<=''),
          (''THRESH'', FNum 5), (''COUNT'', FNum 50)] [Input ''DO'' STATEMENT (Some
         (Block ''thesada_notify'' ''d'' True None [(''MSG'', FText ''alert'')] [] None))] None))] None))] None"

definition readings_only :: event_data where
  "readings_only = \<lparr>sensors = Some [], channels = None, present = False, percent = None, charging = False\<rparr>"

text \<open>
  The connection checks do not tie conditions to events: the editor accepts a current condition
  under a temperature event, and the generated handler then fails with a runtime error on every
  temperature event, since that event has no channels and the guard asks for sensors only.
\<close>

theorem unsuited_handler_accepted:
  "rule_tree unsuited_root \<and>
   (\<exists>hd. rules_of unsuited_root = [hd] \<and>
      (\<forall>h s. run_handler h readings_only hd s = (s, Some BadIpairsArgument)))"
proof
  show "rule_tree unsuited_root"
    by (simp add: rule_tree_def unsuited_root_def shape_defs fits_def block_shape_def doTypeChecks_def
        wf_fields_def field_ok_def rule_types_def)
  show "\<exists>hd. rules_of unsuited_root = [hd] \<and>
      (\<forall>h s. run_handler h readings_only hd s = (s, Some BadIpairsArgument))"
    by (simp add: unsuited_root_def rules_of_def target_of_def condition_of_def event_of_def
        text_of_def getFieldValue_def readings_only_def)
qed

end
