(* ===== verification/Mutators.thy ===== *)
theory Mutators
  imports Rules_Blocks "HOL-Library.Multiset"
begin

text \<open>
  The mutator of the block \<open>controls_if\<close> (blocks\_compressed.js): its dialogue shows one item per \<open>else if\<close> and one for
  \<open>else\<close>; when the items are rearranged, the inputs of the block are rebuilt and its children follow their items. The blocks
  of the workspace that the mutator can touch are the children of the block and the loose ones, which have no parent; a child is
  known by its upper connection, so a saved connection is the child itself.
\<close>

section \<open>The block and its inputs\<close>

record mblock =
  elseifCount :: nat
  elseCount :: nat
  m_inputs :: "binput list"
  loose :: "block list"

definition input_named :: "binput list \<Rightarrow> string \<Rightarrow> binput option" where
  "input_named ins n = find (\<lambda>i. iname i = n) ins"

definition child_at :: "binput list \<Rightarrow> string \<Rightarrow> block option" where
  "child_at ins n = (case input_named ins n of None \<Rightarrow> None | Some i \<Rightarrow> itarget i)"

definition opt_list :: "'a option \<Rightarrow> 'a list" where
  "opt_list x = (case x of None \<Rightarrow> [] | Some y \<Rightarrow> [y])"

definition children :: "binput list \<Rightarrow> block list" where
  "children ins = concat (map (\<lambda>i. opt_list (itarget i)) ins)"

definition removeInput :: "string \<Rightarrow> mblock \<Rightarrow> mblock result" where
  \<comment> \<open>the child of a removed input is unplugged\<close>
  "removeInput n s =
     (case input_named (m_inputs s) n of
        None \<Rightarrow> Inl (PlainError (''Input not found: '' @ n))
      | Some i \<Rightarrow> Inr (s\<lparr>m_inputs := remove1 i (m_inputs s), loose := loose s @ opt_list (itarget i)\<rparr>))"

definition appendInput :: "string \<Rightarrow> input_type \<Rightarrow> mblock \<Rightarrow> mblock" where
  "appendInput n t s = s\<lparr>m_inputs := m_inputs s @ [Input n t None]\<rparr>"

definition unplug :: "block \<Rightarrow> mblock \<Rightarrow> mblock" where
  \<comment> \<open>take a block out of its place\<close>
  "unplug c s =
     s\<lparr>m_inputs := map (\<lambda>i. if itarget i = Some c then Input (iname i) (itype i) None else i) (m_inputs s),
       loose := remove1 c (loose s)\<rparr>"

definition put_child :: "string \<Rightarrow> block option \<Rightarrow> binput list \<Rightarrow> binput list" where
  "put_child n b ins = map (\<lambda>i. if iname i = n then Input n (itype i) b else i) ins"

definition reconnect :: "shapes \<Rightarrow> (string \<Rightarrow> check) \<Rightarrow> block \<Rightarrow> string \<Rightarrow> mblock \<Rightarrow> mblock" where
  \<comment> \<open>\<open>Connection.reconnect\<close> of a child; a child under another block, or disposed of, is left alone\<close>
  "reconnect Sh chk c n s =
     (case input_named (m_inputs s) n of
        None \<Rightarrow> s
      | Some i \<Rightarrow>
          if c \<notin> set (loose s) \<and> c \<notin> set (children (m_inputs s)) \<or> itarget i = Some c then s
          else
            (let s = (case itarget i of None \<Rightarrow> s | Some b \<Rightarrow> (unplug b s)\<lparr>loose := loose s @ [b]\<rparr>)
             in if fits Sh (itype i) (chk n) c
                then (unplug c s)\<lparr>m_inputs := put_child n (Some c) (m_inputs (unplug c s))\<rparr>
                else s))"

definition reconnect_opt :: "shapes \<Rightarrow> (string \<Rightarrow> check) \<Rightarrow> block option \<Rightarrow> string \<Rightarrow> mblock \<Rightarrow> mblock" where
  "reconnect_opt Sh chk c n s = (case c of None \<Rightarrow> s | Some c \<Rightarrow> reconnect Sh chk c n s)"

section \<open>The shape of an if block\<close>

lemma removeInput_shorter: "removeInput n s = Inr s' \<Longrightarrow> length (m_inputs s') < length (m_inputs s)"
  by (auto simp: removeInput_def input_named_def find_Some_iff length_remove1 split: option.splits dest: nth_mem)

function remove_clauses :: "nat \<Rightarrow> mblock \<Rightarrow> mblock result" where
  \<comment> \<open>\<open>for (a = 1; getInput("IF" + a); a++)\<close>\<close>
  "remove_clauses a s =
     (if input_named (m_inputs s) (IFn a) = None then Inr s
      else (case removeInput (IFn a) s of
          Inl e \<Rightarrow> Inl e
        | Inr s \<Rightarrow> (case removeInput (DOn a) s of Inl e \<Rightarrow> Inl e | Inr s \<Rightarrow> remove_clauses (Suc a) s)))"
  by pat_completeness auto

termination
  by (relation "measure (\<lambda>(a, s). length (m_inputs s))") (auto dest!: removeInput_shorter)

declare remove_clauses.simps [simp del]

definition append_clauses :: "mblock \<Rightarrow> mblock" where
  "append_clauses s =
     fold (\<lambda>a s. appendInput (DOn a) STATEMENT (appendInput (IFn a) VALUE s)) [1 ..< Suc (elseifCount s)] s"

definition updateShape :: "mblock \<Rightarrow> mblock result" where
  "updateShape s =
     bind_result (if input_named (m_inputs s) ''ELSE'' \<noteq> None then removeInput ''ELSE'' s else Inr s) (\<lambda>s.
     bind_result (remove_clauses 1 s) (\<lambda>s.
       let s = append_clauses s
       in Inr (if elseCount s \<noteq> 0 then appendInput ''ELSE'' STATEMENT s else s)))"

definition if_check :: "string \<Rightarrow> check" where
  "if_check n = snd (snd (if_input n))"

definition reconnectChildBlocks ::
  "shapes \<Rightarrow> block option list \<Rightarrow> block option list \<Rightarrow> block option \<Rightarrow> mblock \<Rightarrow> mblock" where
  "reconnectChildBlocks Sh vs ss d s =
     reconnect_opt Sh if_check d ''ELSE''
       (fold (\<lambda>k s. reconnect_opt Sh if_check (ss ! k) (DOn k) (reconnect_opt Sh if_check (vs ! k) (IFn k) s))
         [1 ..< Suc (elseifCount s)] s)"

definition saveExtraState :: "mblock \<Rightarrow> (nat \<times> bool) option" where
  "saveExtraState s = (if elseifCount s = 0 \<and> elseCount s = 0 then None else Some (elseifCount s, elseCount s \<noteq> 0))"

definition loadExtraState :: "nat \<times> bool \<Rightarrow> mblock \<Rightarrow> mblock result" where
  "loadExtraState x s = updateShape (s\<lparr>elseifCount := fst x, elseCount := (if snd x then 1 else 0)\<rparr>)"

section \<open>The dialogue\<close>

record mitem =
  mtype :: string
  isInsertionMarker :: bool
  valueConnection :: "block option"
  statementConnection :: "block option"

definition newItem :: "string \<Rightarrow> mitem" where
  "newItem ty = \<lparr>mtype = ty, isInsertionMarker = False, valueConnection = None, statementConnection = None\<rparr>"

definition decompose :: "mblock \<Rightarrow> mitem list" where
  \<comment> \<open>the items below \<open>controls_if_if\<close>\<close>
  "decompose s =
     replicate (elseifCount s) (newItem ''controls_if_elseif'') @ (if elseCount s \<noteq> 0 then [newItem ''controls_if_else''] else [])"

fun saveConnections :: "mblock \<Rightarrow> nat \<Rightarrow> mitem list \<Rightarrow> mitem list result" where
  "saveConnections s b [] = Inr []"
| "saveConnections s b (a # as) =
     (if isInsertionMarker a then bind_result (saveConnections s b as) (\<lambda>as. Inr (a # as))
      else if mtype a = ''controls_if_elseif'' then
        bind_result (saveConnections s (Suc b) as) (\<lambda>as.
          Inr (a\<lparr>valueConnection := child_at (m_inputs s) (IFn b), statementConnection := child_at (m_inputs s) (DOn b)\<rparr> # as))
      else if mtype a = ''controls_if_else'' then
        bind_result (saveConnections s b as) (\<lambda>as. Inr (a\<lparr>statementConnection := child_at (m_inputs s) ''ELSE''\<rparr> # as))
      else Inl (TypeError (''Unknown block type: '' @ mtype a)))"

fun compose_items ::
  "mitem list \<Rightarrow> nat \<times> nat \<times> block option list \<times> block option list \<times> block option \<Rightarrow>
   (nat \<times> nat \<times> block option list \<times> block option list \<times> block option) result" where
  \<comment> \<open>the loop of \<open>compose\<close> over the stack of items\<close>
  "compose_items [] acc = Inr acc"
| "compose_items (a # as) (n, m, b, c, d) =
     (if isInsertionMarker a then compose_items as (n, m, b, c, d)
      else if mtype a = ''controls_if_elseif'' then
        compose_items as (Suc n, m, b @ [valueConnection a], c @ [statementConnection a], d)
      else if mtype a = ''controls_if_else'' then compose_items as (n, Suc m, b, c, statementConnection a)
      else Inl (TypeError (''Unknown block type: '' @ mtype a)))"

definition compose :: "shapes \<Rightarrow> mitem list \<Rightarrow> mblock \<Rightarrow> mblock result" where
  "compose Sh items s =
     bind_result (compose_items items (0, 0, [None], [None], None)) (\<lambda>(n, m, b, c, d).
     bind_result (updateShape (s\<lparr>elseifCount := n, elseCount := m\<rparr>)) (\<lambda>s.
       Inr (reconnectChildBlocks Sh b c d s)))"

section \<open>Clauses\<close>

type_synonym clause = "block option \<times> block option"

fun clause_inputs :: "nat \<Rightarrow> clause list \<Rightarrow> block option option \<Rightarrow> binput list" where
  \<comment> \<open>the inputs of the clauses from this number on, and of \<open>else\<close>\<close>
  "clause_inputs k [] el = (case el of None \<Rightarrow> [] | Some d \<Rightarrow> [Input ''ELSE'' STATEMENT d])"
| "clause_inputs k ((v, d) # cs) el = Input (IFn k) VALUE v # Input (DOn k) STATEMENT d # clause_inputs (Suc k) cs el"

lemma name_eqs [simp]:
  "IFn a = IFn b \<longleftrightarrow> a = b" "DOn a = DOn b \<longleftrightarrow> a = b" "IFn a \<noteq> DOn b" "DOn a \<noteq> IFn b"
  "IFn a \<noteq> ''ELSE''" "DOn a \<noteq> ''ELSE''" "''ELSE'' \<noteq> IFn a" "''ELSE'' \<noteq> DOn a"
  by (simp_all add: IFn_def DOn_def)

lemma input_named_simps [simp]:
  "input_named [] n = None" "input_named (i # ins) n = (if iname i = n then Some i else input_named ins n)"
  by (simp_all add: input_named_def)

lemma children_simps [simp]: "children [] = []" "children (i # ins) = opt_list (itarget i) @ children ins"
  "children (ins @ ins') = children ins @ children ins'"
  by (simp_all add: children_def)

lemma opt_list_simps [simp]: "opt_list None = []" "opt_list (Some x) = [x]"
  by (simp_all add: opt_list_def)

lemma put_child_simps [simp]:
  "put_child n b [] = []" "put_child n b (i # ins) = (if iname i = n then Input n (itype i) b else i) # put_child n b ins"
  by (simp_all add: put_child_def)

lemma upt_first: "[k ..< k + Suc n] = k # [Suc k ..< Suc k + n]"
  by (simp add: upt_conv_Cons del: upt_Suc)

lemma clause_names_from:
  "map iname (clause_inputs k cs el) = concat (map (\<lambda>k. [IFn k, DOn k]) [k ..< k + length cs]) @ (if el = None then [] else [''ELSE''])"
proof (induction k cs el rule: clause_inputs.induct)
  case (2 k v d cs el)
  then show ?case by (simp only: clause_inputs.simps list.map length_Cons upt_first concat.simps append.simps binput.sel)
qed (simp split: option.splits)

lemma clause_names: "map iname (clause_inputs 0 (c # cs) el) = controls_if_names (length cs) (el \<noteq> None)"
  unfolding clause_names_from controls_if_names_def by (cases "el = None") (simp_all del: upt_Suc)

lemma put_child_absent: "n \<notin> set (map iname ins) \<Longrightarrow> put_child n b ins = ins"
  by (induction ins) auto

lemma clause_inputs_lookup:
  "input_named (clause_inputs k cs el) (IFn (k + j)) = (if j < length cs then Some (Input (IFn (k + j)) VALUE (fst (cs ! j))) else None)"
  "input_named (clause_inputs k cs el) (DOn (k + j)) = (if j < length cs then Some (Input (DOn (k + j)) STATEMENT (snd (cs ! j))) else None)"
  "input_named (clause_inputs k cs el) ''ELSE'' = map_option (Input ''ELSE'' STATEMENT) el"
proof (induction k cs el arbitrary: j rule: clause_inputs.induct)
  case (2 k v d cs el)
  case 1
  show ?case using "2.IH"(1) [of "j - 1"] by (cases j) simp_all
next
  case (2 k v d cs el)
  case 2
  show ?case using "2.IH"(2) [of "j - 1"] by (cases j) simp_all
next
  case (2 k v d cs el)
  case 3
  show ?case using "2.IH"(3) by simp
qed (auto split: option.splits)

lemma clause_inputs_set:
  "put_child (IFn (k + j)) b (clause_inputs k cs el) = clause_inputs k (if j < length cs then cs[j := (b, snd (cs ! j))] else cs) el"
  "put_child (DOn (k + j)) b (clause_inputs k cs el) = clause_inputs k (if j < length cs then cs[j := (fst (cs ! j), b)] else cs) el"
  "put_child ''ELSE'' b (clause_inputs k cs el) = clause_inputs k cs (map_option (\<lambda>_. b) el)"
proof (induction k cs el arbitrary: j rule: clause_inputs.induct)
  case (2 k v d cs el)
  case 1
  have "put_child (IFn k) b (clause_inputs (Suc k) cs el) = clause_inputs (Suc k) cs el" by (rule put_child_absent) (auto simp: clause_names_from)
  then show ?case using "2.IH"(1) [of "j - 1"] by (cases j) auto
next
  case (2 k v d cs el)
  case 2
  have "put_child (DOn k) b (clause_inputs (Suc k) cs el) = clause_inputs (Suc k) cs el" by (rule put_child_absent) (auto simp: clause_names_from)
  then show ?case using "2.IH"(2) [of "j - 1"] by (cases j) auto
next
  case (2 k v d cs el)
  case 3
  show ?case using "2.IH"(3) by simp
qed (auto split: option.splits)

lemma children_clause_inputs:
  "children (clause_inputs k cs el) =
     concat (map (\<lambda>(v, d). opt_list v @ opt_list d) cs) @ (case el of None \<Rightarrow> [] | Some d \<Rightarrow> opt_list d)"
  by (induction k cs el rule: clause_inputs.induct) (auto split: option.splits)

lemma clause_inputs_append:
  "clause_inputs k (cs @ ds) el = clause_inputs k cs None @ clause_inputs (k + length cs) ds el"
  by (induction k cs "None :: block option option" rule: clause_inputs.induct) simp_all


section \<open>Rebuilding the shape\<close>

lemma remove_else: "remove1 (Input ''ELSE'' STATEMENT d) (clause_inputs k cs (Some d)) = clause_inputs k cs None"
  by (induction k cs "Some d" rule: clause_inputs.induct) simp_all

lemma input_named_append: "n \<notin> set (map iname pre) \<Longrightarrow> input_named (pre @ ins) n = input_named ins n"
  by (induction pre) auto

lemma removeInput_middle:
  assumes "m_inputs s = pre @ Input n t v # ins" and "n \<notin> set (map iname pre)"
  shows "removeInput n s = Inr (s\<lparr>m_inputs := pre @ ins, loose := loose s @ opt_list v\<rparr>)"
proof -
  have "Input n t v \<notin> set pre" using assms(2) by force
  then show ?thesis using assms by (simp add: removeInput_def input_named_append remove1_append)
qed

lemma remove_clauses_spec:
  assumes "m_inputs s = pre @ clause_inputs a cs None" and "\<And>j. a \<le> j \<Longrightarrow> IFn j \<notin> set (map iname pre) \<and> DOn j \<notin> set (map iname pre)"
  shows "remove_clauses a s = Inr (s\<lparr>m_inputs := pre, loose := loose s @ children (clause_inputs a cs None)\<rparr>)"
  using assms
proof (induction cs arbitrary: a s)
  case Nil
  then have "input_named (m_inputs s) (IFn a) = None" by (simp add: input_named_def find_None_iff) force
  with Nil show ?case by (subst remove_clauses.simps) simp
next
  case (Cons c cs)
  obtain v d where c: "c = (v, d)" by (cases c)
  let ?s1 = "s\<lparr>m_inputs := pre @ Input (DOn a) STATEMENT d # clause_inputs (Suc a) cs None, loose := loose s @ opt_list v\<rparr>"
  let ?s2 = "?s1\<lparr>m_inputs := pre @ clause_inputs (Suc a) cs None, loose := loose ?s1 @ opt_list d\<rparr>"
  have "removeInput (IFn a) s = Inr ?s1" using Cons.prems by (intro removeInput_middle) (auto simp: c)
  moreover have "removeInput (DOn a) ?s1 = Inr ?s2" using Cons.prems by (intro removeInput_middle) auto
  moreover have "input_named (m_inputs s) (IFn a) \<noteq> None" using Cons.prems by (simp add: c input_named_append)
  moreover have "remove_clauses (Suc a) ?s2 = Inr (?s2\<lparr>m_inputs := pre, loose := loose ?s2 @ children (clause_inputs (Suc a) cs None)\<rparr>)"
    by (rule Cons.IH) (use Cons.prems(2) in auto)
  ultimately show ?case by (subst remove_clauses.simps) (auto simp: c)
qed

lemma append_clauses_from:
  "fold (\<lambda>a s. appendInput (DOn a) STATEMENT (appendInput (IFn a) VALUE s)) [a ..< a + n] s =
     s\<lparr>m_inputs := m_inputs s @ clause_inputs a (replicate n (None, None)) None\<rparr>"
proof (induction n arbitrary: a s)
  case (Suc n)
  show ?case unfolding upt_first fold.simps comp_apply Suc.IH by (simp add: appendInput_def)
qed simp

lemma updateShape_spec:
  assumes "m_inputs s = clause_inputs 0 (c # cs) el"
  shows "updateShape s =
    Inr (s\<lparr>m_inputs := clause_inputs 0 (c # replicate (elseifCount s) (None, None)) (if elseCount s \<noteq> 0 then Some None else None),
      loose := loose s @ (case el of None \<Rightarrow> [] | Some d \<Rightarrow> opt_list d) @ children (clause_inputs 1 cs None)\<rparr>)"
proof -
  define s1 where "s1 = s\<lparr>m_inputs := clause_inputs 0 (c # cs) None, loose := loose s @ (case el of None \<Rightarrow> [] | Some d \<Rightarrow> opt_list d)\<rparr>"
  let ?pre = "clause_inputs 0 [c] None"
  have "(if input_named (m_inputs s) ''ELSE'' \<noteq> None then removeInput ''ELSE'' s else Inr s) = Inr s1"
    unfolding assms clause_inputs_lookup removeInput_def by (cases el) (simp_all add: assms s1_def remove_else)
  moreover have "remove_clauses 1 s1 = Inr (s1\<lparr>m_inputs := ?pre, loose := loose s1 @ children (clause_inputs 1 cs None)\<rparr>)"
    using clause_inputs_append [of 0 "[c]" cs None] by (intro remove_clauses_spec) (auto simp: s1_def clause_names_from)
  moreover have "append_clauses s2 = s2\<lparr>m_inputs := m_inputs s2 @ clause_inputs 1 (replicate (elseifCount s2) (None, None)) None\<rparr>" for s2
    unfolding append_clauses_def using append_clauses_from [of 1 "elseifCount s2" s2] by (simp del: upt_Suc)
  moreover obtain v d where "c = (v, d)" by (cases c)
  moreover have "clause_inputs 1 ds (Some None) = clause_inputs 1 ds None @ [Input ''ELSE'' STATEMENT None]" for ds
    using clause_inputs_append [of 1 ds "[]" "Some None"] by simp
  ultimately show ?thesis by (simp add: updateShape_def s1_def Let_def appendInput_def)
qed

lemma extraState_restores:
  assumes "m_inputs s = clause_inputs 0 (c # cs) el" and "elseifCount s = length cs" and "elseCount s = (if el = None then 0 else 1)"
    and "m_inputs t = clause_inputs 0 [(None, None)] None" and "saveExtraState s = Some x"
  shows "\<exists>t'. loadExtraState x t = Inr t' \<and> map iname (m_inputs t') = map iname (m_inputs s) \<and> loose t' = loose t"
proof -
  have x: "x = (length cs, el \<noteq> None)" using assms(2,3,5) by (auto simp: saveExtraState_def split: if_splits)
  let ?t = "t\<lparr>elseifCount := fst x, elseCount := (if snd x then 1 else 0)\<rparr>"
  have "m_inputs ?t = clause_inputs 0 ((None, None) # []) None" using assms(4) by simp
  from updateShape_spec [OF this] show ?thesis
    unfolding loadExtraState_def assms(1) clause_names by (auto simp: clause_names x simp del: clause_inputs.simps(2) list.map)
qed

section \<open>Children follow their items\<close>

definition clause_blocks :: "clause list \<Rightarrow> block list" where
  "clause_blocks cs = concat (map (\<lambda>(v, d). opt_list v @ opt_list d) cs)"

definition else_blocks :: "block option option \<Rightarrow> block list" where
  "else_blocks el = (case el of None \<Rightarrow> [] | Some d \<Rightarrow> opt_list d)"

lemma blocks_simps [simp]:
  "clause_blocks [] = []" "clause_blocks ((v, d) # cs) = opt_list v @ opt_list d @ clause_blocks cs"
  "clause_blocks (cs @ ds) = clause_blocks cs @ clause_blocks ds" "clause_blocks (replicate n (None, None)) = []"
  "else_blocks None = []" "else_blocks (Some d) = opt_list d"
  by (simp_all add: clause_blocks_def else_blocks_def)

lemma children_clauses [simp]: "children (clause_inputs k cs el) = clause_blocks cs @ else_blocks el"
  unfolding children_clause_inputs by (simp add: clause_blocks_def else_blocks_def)

lemma reconnect_loose:
  assumes "input_named (m_inputs s) n = Some (Input n t None)" and "c \<in> set (loose s)" and "c \<notin> set (children (m_inputs s))"
    and "fits Sh t (chk n) c"
  shows "reconnect Sh chk c n s = s\<lparr>m_inputs := put_child n (Some c) (m_inputs s), loose := remove1 c (loose s)\<rparr>"
proof -
  have "itarget i \<noteq> Some c" if "i \<in> set (m_inputs s)" for i using assms(3) that by (force simp: children_def)
  then have "map (\<lambda>i. if itarget i = Some c then Input (iname i) (itype i) None else i) (m_inputs s) = m_inputs s"
    by (intro map_idI) auto
  with assms show ?thesis by (simp add: reconnect_def unplug_def)
qed

lemma reconnect_opt_loose:
  assumes "input_named (m_inputs s) n = Some (Input n t None)"
    and "put_child n None (m_inputs s) = m_inputs s"
    and "\<And>c. x = Some c \<Longrightarrow> c \<in> set (loose s) \<and> c \<notin> set (children (m_inputs s)) \<and> fits Sh t (chk n) c"
  shows "reconnect_opt Sh chk x n s = s\<lparr>m_inputs := put_child n x (m_inputs s), loose := fold remove1 (opt_list x) (loose s)\<rparr>"
  using reconnect_loose [OF assms(1), of _ Sh chk] assms(2,3) by (cases x) (simp_all add: reconnect_opt_def)

lemma if_check_simps: "if_check (IFn k) = Some [''Boolean'']" "if_check (DOn k) = None" "if_check ''ELSE'' = None"
  by (simp_all add: if_check_def if_input_def IFn_def DOn_def)

definition clause_fits :: "shapes \<Rightarrow> clause \<Rightarrow> bool" where
  "clause_fits Sh c \<longleftrightarrow>
     list_all (fits Sh VALUE (Some [''Boolean''])) (opt_list (fst c)) \<and> list_all (fits Sh STATEMENT None) (opt_list (snd c))"

lemma clause_inputs_at:
  "k = length cs \<Longrightarrow> input_named (clause_inputs 0 (cs @ (v, d) # ds) el) (IFn k) = Some (Input (IFn k) VALUE v)"
  "k = length cs \<Longrightarrow> input_named (clause_inputs 0 (cs @ (v, d) # ds) el) (DOn k) = Some (Input (DOn k) STATEMENT d)"
  "k = length cs \<Longrightarrow> put_child (IFn k) v' (clause_inputs 0 (cs @ (v, d) # ds) el) = clause_inputs 0 (cs @ (v', d) # ds) el"
  "k = length cs \<Longrightarrow> put_child (DOn k) d' (clause_inputs 0 (cs @ (v, d) # ds) el) = clause_inputs 0 (cs @ (v, d') # ds) el"
  using clause_inputs_lookup(1,2) [of 0 "cs @ (v, d) # ds" el k] clause_inputs_set(1,2) [of 0 k _ "cs @ (v, d) # ds" el]
  by (simp_all add: nth_append)

lemma fold_remove1_keeps: "x \<in> set xs \<Longrightarrow> x \<notin> set cs \<Longrightarrow> x \<in> set (fold remove1 cs xs)"
  by (induction cs arbitrary: xs) (auto simp: in_set_remove1)

lemma fold_remove1_filter: "distinct xs \<Longrightarrow> fold remove1 cs xs = filter (\<lambda>x. x \<notin> set cs) xs"
proof (induction cs arbitrary: xs)
  case (Cons c cs)
  then show ?case by (simp add: distinct_remove1_removeAll removeAll_filter_not_eq) (metis (mono_tags, lifting))
qed simp

lemma reconnect_clauses:
  assumes "m_inputs s = clause_inputs 0 (ds @ replicate (length todo) (None, None)) el"
    and "\<And>i. i < length todo \<Longrightarrow> vs ! (length ds + i) = fst (todo ! i) \<and> ss ! (length ds + i) = snd (todo ! i)"
    and "distinct (clause_blocks todo)" and "set (clause_blocks todo) \<subseteq> set (loose s)"
    and "set (clause_blocks todo) \<inter> set (clause_blocks ds @ else_blocks el) = {}" and "list_all (clause_fits Sh) todo"
  shows "fold (\<lambda>k s. reconnect_opt Sh if_check (ss ! k) (DOn k) (reconnect_opt Sh if_check (vs ! k) (IFn k) s))
      [length ds ..< length ds + length todo] s =
    s\<lparr>m_inputs := clause_inputs 0 (ds @ todo) el, loose := fold remove1 (clause_blocks todo) (loose s)\<rparr>"
  using assms
proof (induction todo arbitrary: ds s)
  case (Cons c todo)
  obtain v d where c: "c = (v, d)" by (cases c)
  let ?k = "length ds" and ?rest = "replicate (length todo) (None, None)"
  have at: "vs ! ?k = v" "ss ! ?k = d" using Cons.prems(2) [of 0] by (simp_all add: c)
  have fit: "list_all (fits Sh VALUE (Some [''Boolean''])) (opt_list v)" "list_all (fits Sh STATEMENT None) (opt_list d)"
    using Cons.prems(6) by (simp_all add: c clause_fits_def)
  have ins: "m_inputs s = clause_inputs 0 (ds @ (None, None) # ?rest) el" using Cons.prems(1) by simp
  define s1 where "s1 = s\<lparr>m_inputs := clause_inputs 0 (ds @ (v, None) # ?rest) el, loose := fold remove1 (opt_list v) (loose s)\<rparr>"
  define s2 where "s2 = s\<lparr>m_inputs := clause_inputs 0 (ds @ (v, d) # ?rest) el, loose := fold remove1 (opt_list v @ opt_list d) (loose s)\<rparr>"
  have "reconnect_opt Sh if_check v (IFn ?k) s = s1"
    using Cons.prems(3-5) fit(1)
    by (subst reconnect_opt_loose [where t = VALUE]) (auto simp: ins clause_inputs_at s1_def c if_check_simps)
  moreover have "reconnect_opt Sh if_check d (DOn ?k) s1 = s2"
    using Cons.prems(3-5) fit(2)
    by (subst reconnect_opt_loose [where t = STATEMENT]) (auto simp: clause_inputs_at s1_def s2_def c if_check_simps opt_list_def split: option.splits)
  moreover have "fold (\<lambda>k s. reconnect_opt Sh if_check (ss ! k) (DOn k) (reconnect_opt Sh if_check (vs ! k) (IFn k) s))
      [length (ds @ [c]) ..< length (ds @ [c]) + length todo] s2 =
    s2\<lparr>m_inputs := clause_inputs 0 ((ds @ [c]) @ todo) el, loose := fold remove1 (clause_blocks todo) (loose s2)\<rparr>"
  proof (rule Cons.IH)
    show "m_inputs s2 = clause_inputs 0 ((ds @ [c]) @ ?rest) el" by (simp add: s2_def c)
    show "vs ! (length (ds @ [c]) + i) = fst (todo ! i) \<and> ss ! (length (ds @ [c]) + i) = snd (todo ! i)" if "i < length todo" for i
      using Cons.prems(2) [of "Suc i"] that by simp
    show "set (clause_blocks todo) \<subseteq> set (loose s2)"
      using Cons.prems(3,4) by (auto simp: s2_def c fold_append [symmetric] simp del: fold_append intro!: fold_remove1_keeps)
  qed (use Cons.prems(3,5,6) in \<open>auto simp: c\<close>)
  moreover have "[?k ..< Suc (?k + length todo)] = ?k # [Suc ?k ..< Suc (?k + length todo)]" by (simp add: upt_conv_Cons del: upt_Suc)
  ultimately show ?case by (simp add: c at s2_def del: upt_Suc)
qed simp

section \<open>The stack of items\<close>

fun stack_ok :: "mitem list \<Rightarrow> bool" where
  \<comment> \<open>what the connections of the items allow: \<open>else\<close> has no next connection\<close>
  "stack_ok [] \<longleftrightarrow> True"
| "stack_ok (a # as) \<longleftrightarrow>
     (if isInsertionMarker a \<or> mtype a = ''controls_if_elseif'' then stack_ok as
      else mtype a = ''controls_if_else'' \<and> list_all isInsertionMarker as)"

lemma stack_ok_cases:
  assumes "stack_ok (a # as)"
  obtains (marker) "isInsertionMarker a" "stack_ok as"
    | (elseif) "\<not> isInsertionMarker a" "mtype a = ''controls_if_elseif''" "stack_ok as"
    | (els) "\<not> isInsertionMarker a" "mtype a = ''controls_if_else''" "list_all isInsertionMarker as"
  using assms by (cases "isInsertionMarker a"; cases "mtype a = ''controls_if_elseif''") simp_all

fun stack_clauses :: "mitem list \<Rightarrow> clause list" where
  "stack_clauses [] = []"
| "stack_clauses (a # as) =
     (if \<not> isInsertionMarker a \<and> mtype a = ''controls_if_elseif'' then (valueConnection a, statementConnection a) # stack_clauses as
      else stack_clauses as)"

fun stack_else :: "mitem list \<Rightarrow> block option option" where
  "stack_else [] = None"
| "stack_else (a # as) =
     (if \<not> isInsertionMarker a \<and> mtype a = ''controls_if_else'' then Some (statementConnection a) else stack_else as)"

definition else_connection :: "block option option \<Rightarrow> block option" where
  "else_connection el = (case el of None \<Rightarrow> None | Some d \<Rightarrow> d)"

lemma markers_only:
  assumes "list_all isInsertionMarker items"
  shows "compose_items items acc = Inr acc" and "stack_clauses items = []" and "stack_else items = None"
proof -
  show "compose_items items acc = Inr acc" using assms by (induction items) (cases acc; simp)+
  show "stack_clauses items = []" "stack_else items = None" using assms by (induction items) auto
qed

lemma compose_items_spec:
  "stack_ok items \<Longrightarrow> compose_items items (n, 0, b, c, None) =
     Inr (n + length (stack_clauses items), if stack_else items = None then 0 else 1, b @ map fst (stack_clauses items),
       c @ map snd (stack_clauses items), else_connection (stack_else items))"
proof (induction items arbitrary: n b c)
  case (Cons a items)
  then show ?case by (auto simp: markers_only else_connection_def)
qed (simp add: else_connection_def)

lemma compose_spec:
  assumes ins: "m_inputs s = clause_inputs 0 (c # cs) el" and ok: "stack_ok items" and dist: "distinct (children (m_inputs s) @ loose s)"
    and conns: "distinct (clause_blocks (stack_clauses items) @ else_blocks (stack_else items))"
      "set (clause_blocks (stack_clauses items) @ else_blocks (stack_else items)) \<subseteq> set (loose s @ else_blocks el @ clause_blocks cs)"
    and fit: "list_all (clause_fits Sh) (stack_clauses items)" "list_all (fits Sh STATEMENT None) (else_blocks (stack_else items))"
  shows "compose Sh items s =
    Inr (s\<lparr>elseifCount := length (stack_clauses items), elseCount := (if stack_else items = None then 0 else 1),
      m_inputs := clause_inputs 0 (c # stack_clauses items) (stack_else items),
      loose := filter (\<lambda>b. b \<notin> set (clause_blocks (stack_clauses items) @ else_blocks (stack_else items)))
        (loose s @ else_blocks el @ clause_blocks cs)\<rparr>)"
proof -
  let ?es = "stack_clauses items" and ?d = "stack_else items"
  let ?L = "loose s @ else_blocks el @ clause_blocks cs" and ?el = "if ?d = None then None else Some None"
  define s1 where "s1 = s\<lparr>elseifCount := length ?es, elseCount := (if ?d = None then 0 else 1),
    m_inputs := clause_inputs 0 (c # replicate (length ?es) (None, None)) ?el, loose := ?L\<rparr>"
  define s2 where "s2 = s1\<lparr>m_inputs := clause_inputs 0 (c # ?es) ?el, loose := fold remove1 (clause_blocks ?es) ?L\<rparr>"
  have shape: "updateShape (s\<lparr>elseifCount := length ?es, elseCount := (if ?d = None then 0 else 1)\<rparr>) = Inr s1"
    by (subst updateShape_spec [of _ c cs el]) (simp_all add: ins s1_def else_blocks_def)
  have c0: "set (clause_blocks [c]) \<inter> set ?L = {}" "distinct ?L" using dist by (cases c; auto simp: ins)+
  have "fold (\<lambda>k s. reconnect_opt Sh if_check ((None # map snd ?es) ! k) (DOn k) (reconnect_opt Sh if_check ((None # map fst ?es) ! k) (IFn k) s))
      [length [c] ..< length [c] + length ?es] s1 =
    s1\<lparr>m_inputs := clause_inputs 0 ([c] @ ?es) ?el, loose := fold remove1 (clause_blocks ?es) (loose s1)\<rparr>"
    by (rule reconnect_clauses) (use conns c0 fit(1) in \<open>auto simp: s1_def\<close>)
  then have clauses: "fold (\<lambda>k s. reconnect_opt Sh if_check ((None # map snd ?es) ! k) (DOn k) (reconnect_opt Sh if_check ((None # map fst ?es) ! k) (IFn k) s))
      [1 ..< Suc (elseifCount s1)] s1 = s2"
    by (simp add: s1_def s2_def del: upt_Suc)
  have last: "reconnect_opt Sh if_check (else_connection ?d) ''ELSE'' s2 =
    s\<lparr>elseifCount := length ?es, elseCount := (if ?d = None then 0 else 1), m_inputs := clause_inputs 0 (c # ?es) ?d,
      loose := fold remove1 (clause_blocks ?es @ else_blocks ?d) ?L\<rparr>"
  proof (cases ?d)
    case None
    then show ?thesis by (simp add: reconnect_opt_def else_connection_def s2_def s1_def)
  next
    case (Some d)
    have "input_named (m_inputs s2) ''ELSE'' = Some (Input ''ELSE'' STATEMENT None)"
      "put_child ''ELSE'' d' (m_inputs s2) = clause_inputs 0 (c # ?es) (Some d')" for d'
      by (simp_all add: s2_def clause_inputs_lookup(3) clause_inputs_set(3) Some)
    moreover have "x \<in> set (loose s2) \<and> x \<notin> set (children (m_inputs s2)) \<and> fits Sh STATEMENT (if_check ''ELSE'') x" if "d = Some x" for x
      using conns c0 fit(2) that Some by (cases c) (auto simp: s2_def s1_def if_check_simps intro!: fold_remove1_keeps)
    ultimately show ?thesis
      using Some by (subst reconnect_opt_loose [where t = STATEMENT]) (simp_all add: else_connection_def s2_def s1_def)
  qed
  from shape clauses last [unfolded fold_remove1_filter [OF c0(2)]] show ?thesis
    by (simp add: compose_def compose_items_spec [OF ok] reconnectChildBlocks_def del: upt_Suc)
qed

section \<open>Saving connections\<close>

lemma target_at:
  assumes "m_inputs s = clause_inputs 0 (pre @ (v, d) # ds) el" and "b = length pre"
  shows "child_at (m_inputs s) (IFn b) = v" and "child_at (m_inputs s) (DOn b) = d"
  using clause_inputs_at(1,2) [OF assms(2), of v d ds el] assms(1) by (simp_all add: child_at_def)

lemma target_else: "m_inputs s = clause_inputs 0 cs (Some d) \<Longrightarrow> child_at (m_inputs s) ''ELSE'' = d"
  using clause_inputs_lookup(3) [of 0 cs "Some d"] by (simp add: child_at_def)

lemma markers_saved: "list_all isInsertionMarker items \<Longrightarrow> saveConnections s b items = Inr items"
  by (induction items) auto

lemma saveConnections_spec:
  assumes "m_inputs s = clause_inputs 0 (pre @ ds) el" and "stack_ok items" and "length (stack_clauses items) = length ds"
    and "stack_else items = None \<longleftrightarrow> el = None"
  shows "\<exists>items'. saveConnections s (length pre) items = Inr items' \<and> stack_ok items' \<and> stack_clauses items' = ds \<and> stack_else items' = el \<and>
    map mtype items' = map mtype items \<and> map isInsertionMarker items' = map isInsertionMarker items \<and>
    (stack_clauses items = ds \<longrightarrow> stack_else items = el \<longrightarrow> items' = items)"
  using assms
proof (induction items arbitrary: pre ds)
  case Nil
  then show ?case by simp
next
  case (Cons a items)
  from Cons.prems(2) show ?case
  proof (cases rule: stack_ok_cases)
    case marker
    have "stack_ok items" "length (stack_clauses items) = length ds" "stack_else items = None \<longleftrightarrow> el = None" using Cons.prems marker by auto
    from Cons.IH [OF Cons.prems(1) this] obtain items' where "saveConnections s (length pre) items = Inr items'" "stack_ok items'"
      "stack_clauses items' = ds" "stack_else items' = el" "map mtype items' = map mtype items"
      "map isInsertionMarker items' = map isInsertionMarker items" "stack_clauses items = ds \<longrightarrow> stack_else items = el \<longrightarrow> items' = items" by blast
    with marker show ?thesis by (intro exI [of _ "a # items'"]) simp
  next
    case elseif
    with Cons.prems obtain v d ds' where ds: "ds = (v, d) # ds'" "length (stack_clauses items) = length ds'" by (cases ds) auto
    have "\<exists>items'. saveConnections s (length (pre @ [(v, d)])) items = Inr items' \<and> stack_ok items' \<and> stack_clauses items' = ds' \<and> stack_else items' = el \<and>
        map mtype items' = map mtype items \<and> map isInsertionMarker items' = map isInsertionMarker items \<and>
        (stack_clauses items = ds' \<longrightarrow> stack_else items = el \<longrightarrow> items' = items)"
      by (rule Cons.IH) (use Cons.prems elseif ds in auto)
    moreover have "child_at (m_inputs s) (IFn (length pre)) = v" "child_at (m_inputs s) (DOn (length pre)) = d"
      using target_at [of s pre v d ds' el] Cons.prems(1) ds(1) by simp_all
    ultimately show ?thesis using elseif ds by auto
  next
    case els
    with Cons.prems have m: "list_all isInsertionMarker items" "ds = []" and el: "el \<noteq> None" by (auto simp: markers_only)
    then obtain d where d: "el = Some d" by auto
    have "child_at (m_inputs s) ''ELSE'' = d" using target_else Cons.prems(1) d by blast
    with els m d show ?thesis by (auto simp: markers_saved markers_only)
  qed
qed

section \<open>Rounds of the dialogue\<close>

record dialogue =
  dblock :: mblock
  stack :: "mitem list"
  aside :: "mitem list"  \<comment> \<open>items that are not connected to the stack\<close>

definition item_blocks :: "mitem \<Rightarrow> block list" where
  "item_blocks a = opt_list (valueConnection a) @ opt_list (statementConnection a)"

definition fresh_item :: "mitem \<Rightarrow> bool" where
  \<comment> \<open>from the toolbox of the dialogue, or the preview of a drag\<close>
  "fresh_item a \<longleftrightarrow> valueConnection a = None \<and> statementConnection a = None"

definition rearranged :: "dialogue \<Rightarrow> mitem list \<Rightarrow> mitem list \<Rightarrow> bool" where
  \<comment> \<open>items have been moved, deleted or added\<close>
  "rearranged D items rest \<longleftrightarrow> stack_ok items \<and>
     (\<exists>new. list_all fresh_item new \<and> mset (items @ rest) \<subseteq># mset (stack D @ aside D @ new))"

inductive mutator :: "shapes \<Rightarrow> mblock \<Rightarrow> dialogue \<Rightarrow> bool" for Sh s0 where
  opened: "saveConnections s0 1 (decompose s0) = Inr items \<Longrightarrow> mutator Sh s0 \<lparr>dblock = s0, stack = items, aside = []\<rparr>"
| round: "mutator Sh s0 D \<Longrightarrow> rearranged D items rest \<Longrightarrow> compose Sh items (dblock D) = Inr s \<Longrightarrow> saveConnections s 1 items = Inr items' \<Longrightarrow>
    mutator Sh s0 \<lparr>dblock = s, stack = items', aside = rest\<rparr>"

definition item_ok :: "shapes \<Rightarrow> mitem \<Rightarrow> bool" where
  "item_ok Sh a \<longleftrightarrow> clause_fits Sh (valueConnection a, statementConnection a) \<and>
     (valueConnection a \<noteq> None \<longrightarrow> mtype a = ''controls_if_elseif'') \<and> (isInsertionMarker a \<longrightarrow> fresh_item a)"

definition items_blocks :: "mitem list \<Rightarrow> block list" where
  "items_blocks items = concat (map item_blocks items)"

lemma items_blocks_simps [simp]:
  "items_blocks [] = []" "items_blocks (a # as) = item_blocks a @ items_blocks as" "items_blocks (as @ bs) = items_blocks as @ items_blocks bs"
  by (simp_all add: items_blocks_def)

lemma fresh_blocks: "fresh_item a \<Longrightarrow> item_blocks a = []" "list_all fresh_item as \<Longrightarrow> items_blocks as = []"
proof -
  show "fresh_item a \<Longrightarrow> item_blocks a = []" for a by (simp add: fresh_item_def item_blocks_def)
  then show "list_all fresh_item as \<Longrightarrow> items_blocks as = []" by (induction as) simp_all
qed

lemma stack_blocks:
  "stack_ok items \<Longrightarrow> list_all (item_ok Sh) items \<Longrightarrow>
   items_blocks items = clause_blocks (stack_clauses items) @ else_blocks (stack_else items)"
proof (induction items)
  case (Cons a items)
  have marked: "items_blocks as = []" if "list_all isInsertionMarker as" "list_all (item_ok Sh) as" for as
    using that by (intro fresh_blocks) (auto simp: list_all_iff item_ok_def)
  from Cons.prems(1) show ?case
  proof (cases rule: stack_ok_cases)
    case marker
    with Cons show ?thesis by (simp add: item_ok_def fresh_blocks)
  next
    case elseif
    with Cons show ?thesis by (simp add: item_blocks_def)
  next
    case els
    have "items_blocks items = []" using marked els(3) Cons.prems(2) by simp
    moreover have "valueConnection a = None" using Cons.prems(2) els(2) by (auto simp: item_ok_def)
    ultimately show ?thesis using els by (simp add: item_blocks_def markers_only)
  qed
qed simp

lemma items_blocks_mono:
  assumes "mset as \<subseteq># mset bs"
  shows "mset (items_blocks as) \<subseteq># mset (items_blocks bs)"
proof -
  have "mset (items_blocks xs) = (\<Sum>a\<in>#mset xs. mset (item_blocks a))" for xs by (induction xs) simp_all
  moreover from assms obtain C where "mset bs = mset as + C" by (auto simp: subset_mset.le_iff_add)
  ultimately show ?thesis by simp
qed

lemma stack_fits:
  "stack_ok items \<Longrightarrow> list_all (item_ok Sh) items \<Longrightarrow>
   list_all (clause_fits Sh) (stack_clauses items) \<and> list_all (fits Sh STATEMENT None) (else_blocks (stack_else items))"
proof (induction items)
  case (Cons a items)
  from Cons.prems(1) show ?case
    by (cases rule: stack_ok_cases) (use Cons in \<open>simp_all add: item_ok_def clause_fits_def markers_only\<close>)
qed simp

lemma distinct_sub: "mset xs \<subseteq># mset ys \<Longrightarrow> distinct ys \<Longrightarrow> distinct xs"
proof -
  assume "mset xs \<subseteq># mset ys"
  then obtain C where "mset ys = mset xs + C" by (auto simp: subset_mset.le_iff_add)
  moreover obtain zs where "C = mset zs" using ex_mset by metis
  ultimately have "mset ys = mset (xs @ zs)" by simp
  then show "distinct ys \<Longrightarrow> distinct xs" using mset_eq_imp_distinct_iff by fastforce
qed

definition all_blocks :: "mblock \<Rightarrow> block list" where
  "all_blocks s = children (m_inputs s) @ loose s"

definition dialogue_inv :: "shapes \<Rightarrow> mblock \<Rightarrow> dialogue \<Rightarrow> bool" where
  \<comment> \<open>the clauses of the block are the items of the stack, below the first clause, which no item stands for\<close>
  "dialogue_inv Sh s0 D \<longleftrightarrow>
     (\<exists>c cs el. m_inputs (dblock D) = clause_inputs 0 (c # cs) el \<and> stack_clauses (stack D) = cs \<and> stack_else (stack D) = el \<and>
        elseifCount (dblock D) = length cs \<and> elseCount (dblock D) = (if el = None then 0 else 1) \<and>
        child_at (m_inputs s0) (IFn 0) = fst c \<and> child_at (m_inputs s0) (DOn 0) = snd c \<and> clause_fits Sh c) \<and>
     stack_ok (stack D) \<and> mset (all_blocks (dblock D)) = mset (all_blocks s0) \<and> distinct (all_blocks s0) \<and>
     list_all (item_ok Sh) (stack D @ aside D) \<and> distinct (items_blocks (stack D @ aside D)) \<and>
     set (items_blocks (aside D)) \<subseteq> set (loose (dblock D))"

lemma edit_items:
  assumes "dialogue_inv Sh s0 D" and "rearranged D items rest"
  shows "list_all (item_ok Sh) (items @ rest)" and "distinct (items_blocks (items @ rest))"
    and "set (items_blocks (items @ rest)) \<subseteq> set (items_blocks (stack D @ aside D))"
proof -
  from assms(2) obtain new where new: "list_all fresh_item new" "mset (items @ rest) \<subseteq># mset (stack D @ aside D @ new)"
    by (auto simp: rearranged_def)
  have "list_all (item_ok Sh) new" using new(1) by (auto simp: list_all_iff fresh_item_def item_ok_def clause_fits_def)
  moreover have "set (items @ rest) \<subseteq> set (stack D @ aside D @ new)" using set_mset_mono [OF new(2)] by simp
  ultimately show "list_all (item_ok Sh) (items @ rest)" using assms(1) by (auto simp: dialogue_inv_def list_all_iff)
  have sub: "mset (items_blocks (items @ rest)) \<subseteq># mset (items_blocks (stack D @ aside D))"
    using items_blocks_mono [OF new(2)] fresh_blocks(2) [OF new(1)] by simp
  then show "set (items_blocks (items @ rest)) \<subseteq> set (items_blocks (stack D @ aside D))" using set_mset_mono by fastforce
  have "distinct (items_blocks (stack D @ aside D))" using assms(1) by (simp add: dialogue_inv_def)
  with sub show "distinct (items_blocks (items @ rest))" by (rule distinct_sub)
qed

lemma filter_conserves:
  assumes "distinct L" and "distinct cs" and "set cs \<subseteq> set L"
  shows "mset cs + mset (filter (\<lambda>b. b \<notin> set cs) L) = mset L"
proof -
  have "mset (filter (\<lambda>b. b \<in> set cs) L) = mset cs"
    using assms by (intro set_eq_iff_mset_eq_distinct [THEN iffD1]) auto
  then show ?thesis using multiset_partition [of "mset L" "\<lambda>b. b \<in> set cs"] by (simp add: mset_filter)
qed

lemma round_keeps:
  assumes inv: "dialogue_inv Sh s0 D" and ed: "rearranged D items rest"
  shows "\<exists>s. compose Sh items (dblock D) = Inr s \<and> saveConnections s 1 items = Inr items \<and>
    dialogue_inv Sh s0 \<lparr>dblock = s, stack = items, aside = rest\<rparr>"
proof -
  let ?s = "dblock D" and ?es = "stack_clauses items" and ?e = "stack_else items"
  from inv obtain c cs el where D: "m_inputs ?s = clause_inputs 0 (c # cs) el" "stack_clauses (stack D) = cs" "stack_else (stack D) = el"
    and first: "child_at (m_inputs s0) (IFn 0) = fst c" "child_at (m_inputs s0) (DOn 0) = snd c" "clause_fits Sh c"
    and all: "mset (all_blocks ?s) = mset (all_blocks s0)" "distinct (all_blocks s0)"
    and stack: "stack_ok (stack D)" "list_all (item_ok Sh) (stack D)" and apart: "set (items_blocks (aside D)) \<subseteq> set (loose ?s)"
    unfolding dialogue_inv_def by auto
  let ?L = "loose ?s @ else_blocks el @ clause_blocks cs" and ?b = "clause_blocks ?es @ else_blocks ?e"
  have ok: "stack_ok items" using ed by (simp add: rearranged_def)
  note items = edit_items [OF inv ed]
  have dist: "distinct (children (m_inputs ?s) @ loose ?s)"
    using all mset_eq_imp_distinct_iff [OF all(1)] by (simp add: all_blocks_def)
  have b: "items_blocks items = ?b" by (rule stack_blocks [OF ok, of Sh]) (use items(1) in simp)
  have "items_blocks (stack D) = clause_blocks cs @ else_blocks el" using stack_blocks [OF stack] D by simp
  then have sub: "set (items_blocks (items @ rest)) \<subseteq> set ?L" using items(3) apart by auto
  then have bL: "set ?b \<subseteq> set ?L" "distinct ?b" using items(2) unfolding items_blocks_simps b distinct_append by auto
  define s where "s = ?s\<lparr>elseifCount := length ?es, elseCount := (if ?e = None then 0 else 1),
      m_inputs := clause_inputs 0 (c # ?es) ?e, loose := filter (\<lambda>x. x \<notin> set ?b) ?L\<rparr>"
  have comp: "compose Sh items ?s = Inr s"
    unfolding s_def by (rule compose_spec [OF D(1) ok dist bL(2,1)]) (use stack_fits [OF ok] items(1) in simp_all)
  have saved: "saveConnections s 1 items = Inr items"
    using saveConnections_spec [of s "[c]" ?es ?e items] ok by (auto simp: s_def)
  have "distinct ?L" using dist by (cases c) (auto simp: D(1))
  then have "mset ?b + mset (filter (\<lambda>x. x \<notin> set ?b) ?L) = mset ?L" by (rule filter_conserves) (use bL in auto)
  then have "mset (all_blocks s) = mset (all_blocks ?s)"
    by (cases c) (simp add: all_blocks_def s_def D(1) ac_simps)
  moreover have "set (items_blocks rest) \<subseteq> set (loose s)" using sub items(2) by (auto simp: s_def b)
  moreover have "\<exists>c cs el. m_inputs s = clause_inputs 0 (c # cs) el \<and> ?es = cs \<and> ?e = el \<and>
        elseifCount s = length cs \<and> elseCount s = (if el = None then 0 else 1) \<and>
        child_at (m_inputs s0) (IFn 0) = fst c \<and> child_at (m_inputs s0) (DOn 0) = snd c \<and> clause_fits Sh c"
    by (intro exI [of _ c] exI [of _ ?es] exI [of _ ?e]) (simp add: s_def first)
  ultimately have "dialogue_inv Sh s0 \<lparr>dblock = s, stack = items, aside = rest\<rparr>"
    unfolding dialogue_inv_def dialogue.simps using all ok items(1,2) by metis
  with comp saved show ?thesis by blast
qed

section \<open>Opening the dialogue\<close>

definition if_start :: "binput list \<Rightarrow> block list \<Rightarrow> mblock" where
  \<comment> \<open>the counts that belong to the inputs\<close>
  "if_start ins L = \<lparr>elseifCount = length ins div 2 - 1, elseCount = (if odd (length ins) then 1 else 0), m_inputs = ins, loose = L\<rparr>"

lemma if_input_names: "if_input (IFn k) = (IFn k, VALUE, Some [''Boolean''])" "if_input (DOn k) = (DOn k, STATEMENT, None)"
  "if_input ''ELSE'' = (''ELSE'', STATEMENT, None)"
  by (simp_all add: if_input_def IFn_def DOn_def)

lemma clause_inputs_exist:
  assumes "map iname ins = concat (map (\<lambda>k. [IFn k, DOn k]) [k ..< k + m]) @ (if e then [''ELSE''] else [])"
    and "wf_inputs Sh ins (map if_input (map iname ins))"
  shows "\<exists>cs el. ins = clause_inputs k cs el \<and> length cs = m \<and> (el \<noteq> None \<longleftrightarrow> e) \<and> list_all (clause_fits Sh) cs \<and>
    list_all (fits Sh STATEMENT None) (else_blocks el) \<and> list_all (wf_block Sh) (children ins)"
  using assms
proof (induction m arbitrary: k ins)
  case 0
  show ?case
  proof (cases e)
    case True
    with 0 obtain t d where "ins = [Input ''ELSE'' t d]" by (cases ins) (auto simp: map_eq_Cons_conv, metis binput.collapse)
    with 0(2) show ?thesis
      by (intro exI [of _ "[]"] exI [of _ "Some d"]) (auto simp: True if_input_names opt_list_def split: option.splits)
  next
    case False
    with 0 show ?thesis by (intro exI [of _ "[]"] exI [of _ None]) simp
  qed
next
  case (Suc m)
  from Suc.prems(1) have names: "map iname ins = IFn k # DOn k # concat (map (\<lambda>k. [IFn k, DOn k]) [Suc k ..< Suc k + m]) @ (if e then [''ELSE''] else [])"
    unfolding upt_first by simp
  then obtain i j js where ins: "ins = i # j # js" and ij: "iname i = IFn k" "iname j = DOn k"
    and js: "map iname js = concat (map (\<lambda>k. [IFn k, DOn k]) [Suc k ..< Suc k + m]) @ (if e then [''ELSE''] else [])"
    by (auto simp: map_eq_Cons_conv)
  obtain v d where i: "i = Input (IFn k) VALUE v" and j: "j = Input (DOn k) STATEMENT d"
    and fit: "list_all (\<lambda>b. fits Sh VALUE (Some [''Boolean'']) b \<and> wf_block Sh b) (opt_list v)"
      "list_all (\<lambda>b. fits Sh STATEMENT None b \<and> wf_block Sh b) (opt_list d)"
    and wf: "wf_inputs Sh js (map if_input (map iname js))"
    using Suc.prems(2) ij by (cases i; cases j) (auto simp: ins if_input_names opt_list_def split: option.splits)
  from Suc.IH [OF js wf] obtain cs el where "js = clause_inputs (Suc k) cs el" "length cs = m" "el \<noteq> None \<longleftrightarrow> e" "list_all (clause_fits Sh) cs"
    "list_all (fits Sh STATEMENT None) (else_blocks el)" "list_all (wf_block Sh) (children js)" by blast
  with fit show ?case
    by (intro exI [of _ "(v, d) # cs"] exI [of _ el]) (auto simp: ins i j clause_fits_def list_all_iff)
qed

lemma clause_count: "length (clause_inputs k cs el) = 2 * length cs + (if el = None then 0 else 1)"
  by (induction k cs el rule: clause_inputs.induct) (auto split: option.splits)

lemma wf_clause_inputs:
  assumes "list_all (clause_fits Sh) cs" and "list_all (fits Sh STATEMENT None) (else_blocks el)"
    and "list_all (wf_block Sh) (clause_blocks cs @ else_blocks el)"
  shows "wf_inputs Sh (clause_inputs k cs el) (map if_input (map iname (clause_inputs k cs el)))"
  using assms
  by (induction k cs el rule: clause_inputs.induct)
    (auto simp: if_input_names clause_fits_def opt_list_def split: option.splits)

definition own_item :: "mitem \<Rightarrow> bool" where
  "own_item a \<longleftrightarrow> \<not> isInsertionMarker a \<and> (mtype a \<noteq> ''controls_if_elseif'' \<longrightarrow> valueConnection a = None)"

lemma saveConnections_own: "saveConnections s b items = Inr items' \<Longrightarrow> list_all own_item items \<Longrightarrow> list_all own_item items'"
proof (induction items arbitrary: b items')
  case (Cons a items)
  show ?case
  proof (cases "mtype a = ''controls_if_elseif''")
    case True
    with Cons show ?thesis by (auto simp: own_item_def bind_result_def split: sum.splits)
  next
    case False
    with Cons show ?thesis by (auto simp: own_item_def bind_result_def split: sum.splits if_splits)
  qed
qed simp

lemma own_items_ok:
  "stack_ok items \<Longrightarrow> list_all own_item items \<Longrightarrow> list_all (clause_fits Sh) (stack_clauses items) \<Longrightarrow>
   list_all (fits Sh STATEMENT None) (else_blocks (stack_else items)) \<Longrightarrow> list_all (item_ok Sh) items"
proof (induction items)
  case (Cons a items)
  from Cons.prems(1) show ?case
  proof (cases rule: stack_ok_cases)
    case els
    then have "items = []" using Cons.prems(2) by (cases items) (auto simp: own_item_def)
    with els Cons.prems show ?thesis by (simp add: own_item_def item_ok_def clause_fits_def)
  qed (use Cons in \<open>auto simp: own_item_def item_ok_def\<close>)
qed simp

lemma decompose_items:
  "stack_ok (decompose s)" "stack_clauses (decompose s) = replicate (elseifCount s) (None, None)"
  "stack_else (decompose s) = (if elseCount s = 0 then None else Some None)" "list_all own_item (decompose s)"
proof -
  have "stack_ok (replicate n (newItem ''controls_if_elseif'') @ as) \<longleftrightarrow> stack_ok as"
    "stack_clauses (replicate n (newItem ''controls_if_elseif'') @ as) = replicate n (None, None) @ stack_clauses as"
    "stack_else (replicate n (newItem ''controls_if_elseif'') @ as) = stack_else as" for n as
    by (induction n) (simp_all add: newItem_def)
  then show "stack_ok (decompose s)" "stack_clauses (decompose s) = replicate (elseifCount s) (None, None)"
    "stack_else (decompose s) = (if elseCount s = 0 then None else Some None)"
    by (simp_all add: decompose_def newItem_def)
  show "list_all own_item (decompose s)" by (auto simp: decompose_def newItem_def own_item_def list_all_iff)
qed

lemma dialogue_opened:
  assumes "ins = clause_inputs 0 (c # cs) el" and "list_all (clause_fits Sh) (c # cs)" and "list_all (fits Sh STATEMENT None) (else_blocks el)"
    and "distinct (children ins @ L)" and "saveConnections (if_start ins L) 1 (decompose (if_start ins L)) = Inr items"
  shows "dialogue_inv Sh (if_start ins L) \<lparr>dblock = if_start ins L, stack = items, aside = []\<rparr>"
proof -
  let ?s = "if_start ins L"
  have counts: "elseifCount ?s = length cs" "elseCount ?s = (if el = None then 0 else 1)"
    by (simp_all add: if_start_def assms(1) clause_count del: clause_inputs.simps)
  have "\<exists>items'. saveConnections ?s (length [c]) (decompose ?s) = Inr items' \<and> stack_ok items' \<and> stack_clauses items' = cs \<and> stack_else items' = el"
    using saveConnections_spec [of ?s "[c]" cs el "decompose ?s"] assms(1) counts by (auto simp: decompose_items if_start_def)
  with assms(5) have items: "stack_ok items" "stack_clauses items = cs" "stack_else items = el" by auto
  have own: "list_all (item_ok Sh) items"
    by (rule own_items_ok [OF items(1) saveConnections_own [OF assms(5) decompose_items(4)]]) (use items assms(2,3) in simp_all)
  have distinct: "distinct (items_blocks items)"
    using stack_blocks [OF items(1) own] assms(1,4) items by (cases c) auto
  have "child_at ins (IFn 0) = fst c" "child_at ins (DOn 0) = snd c"
    using assms(1) by (cases c; simp add: child_at_def)+
  then have "\<exists>c cs el. m_inputs ?s = clause_inputs 0 (c # cs) el \<and> stack_clauses items = cs \<and> stack_else items = el \<and>
        elseifCount ?s = length cs \<and> elseCount ?s = (if el = None then 0 else 1) \<and>
        child_at (m_inputs ?s) (IFn 0) = fst c \<and> child_at (m_inputs ?s) (DOn 0) = snd c \<and> clause_fits Sh c"
    using assms(1,2) items counts by (intro exI [of _ c] exI [of _ cs] exI [of _ el]) (simp add: if_start_def)
  moreover have "distinct (all_blocks ?s)" using assms(4) by (simp add: all_blocks_def if_start_def)
  ultimately show ?thesis
    unfolding dialogue_inv_def dialogue.simps using items(1) own distinct by simp
qed

lemma mutator_inv:
  assumes "ins = clause_inputs 0 (c # cs) el" and "list_all (clause_fits Sh) (c # cs)" and "list_all (fits Sh STATEMENT None) (else_blocks el)"
    and "distinct (children ins @ L)" and "mutator Sh (if_start ins L) D"
  shows "dialogue_inv Sh (if_start ins L) D"
  using assms(5)
proof (induction rule: mutator.induct)
  case (opened items)
  then show ?case by (rule dialogue_opened [OF assms(1-4)])
next
  case (round D items rest s items')
  from round_keeps [OF round.IH round.hyps(2)] round.hyps(3,4) show ?case by auto
qed

lemma if_shape_of_clauses:
  "controls_if_shape (map iname (clause_inputs 0 (c # cs) el)) =
     Some (empty_shape\<lparr>sh_previous := Some None, sh_next := Some None, sh_inputs := map if_input (map iname (clause_inputs 0 (c # cs) el))\<rparr>)"
proof -
  let ?ns = "map iname (clause_inputs 0 (c # cs) el)"
  have "length ?ns div 2 = Suc (length cs)" "odd (length ?ns) \<longleftrightarrow> el \<noteq> None"
    by (simp_all only: length_map clause_count) (auto simp: clause_count)
  then show ?thesis using clause_names [of c cs el] by (simp add: controls_if_shape_def del: list.map clause_inputs.simps)
qed

lemma if_clauses:
  assumes "wf_block rules_shapes (Block ''controls_if'' i en cm fs ins nx)"
  shows "\<exists>c cs el. ins = clause_inputs 0 (c # cs) el \<and> list_all (clause_fits rules_shapes) (c # cs) \<and>
    list_all (fits rules_shapes STATEMENT None) (else_blocks el) \<and> list_all (wf_block rules_shapes) (children ins)"
proof -
  from assms obtain sh where sh: "controls_if_shape (map iname ins) = Some sh" and wf: "wf_inputs rules_shapes ins (sh_inputs sh)"
    by (auto simp: rules_shapes_def split: option.splits)
  then obtain m e where names: "map iname ins = controls_if_names m e" and "sh_inputs sh = map if_input (map iname ins)"
    by (auto simp: controls_if_shape_def Let_def split: if_splits simp del: map_map)
  with wf clause_inputs_exist [of ins 0 "Suc m" e rules_shapes] obtain cs el where "ins = clause_inputs 0 cs el" "length cs = Suc m"
    "list_all (clause_fits rules_shapes) cs" "list_all (fits rules_shapes STATEMENT None) (else_blocks el)" "list_all (wf_block rules_shapes) (children ins)"
    by (auto simp: controls_if_names_def simp del: upt_Suc)
  moreover from this obtain c cs' where "cs = c # cs'" by (cases cs) auto
  ultimately show ?thesis by blast
qed

text \<open>
  C39. The dialogue of an if block keeps the rules whole. Open the dialogue of a well-formed if block, then move, delete and add its items in any
  way the connections of the items allow, any number of times. The block is well-formed after every round, so its code can be generated;
  the condition and the statements of each clause are the ones that belong to its item, wherever the item has been moved, and the first
  clause, which has no item, keeps its own; the children of deleted items lie loose in the workspace, so that no block is ever lost or doubled; and no
  further change of the items makes the rebuilding fail.
\<close>

theorem mutator_keeps_rules:
  assumes "wf_block rules_shapes (Block ''controls_if'' i en cm fs ins nx)" and "list_all (wf_block rules_shapes) L" and "distinct (children ins @ L)"
    and "mutator rules_shapes (if_start ins L) D"
  shows "wf_block rules_shapes (Block ''controls_if'' i en cm fs (m_inputs (dblock D)) nx) \<and>
    mset (all_blocks (dblock D)) = mset (children ins @ L) \<and>
    child_at (m_inputs (dblock D)) (IFn 0) = child_at ins (IFn 0) \<and> child_at (m_inputs (dblock D)) (DOn 0) = child_at ins (DOn 0) \<and>
    (\<forall>k < length (stack_clauses (stack D)). child_at (m_inputs (dblock D)) (IFn (Suc k)) = fst (stack_clauses (stack D) ! k) \<and>
       child_at (m_inputs (dblock D)) (DOn (Suc k)) = snd (stack_clauses (stack D) ! k)) \<and>
    child_at (m_inputs (dblock D)) ''ELSE'' = else_connection (stack_else (stack D)) \<and>
    (\<forall>items rest. rearranged D items rest \<longrightarrow>
       (\<exists>s. compose rules_shapes items (dblock D) = Inr s \<and> saveConnections s 1 items = Inr items))"
proof -
  let ?s = "dblock D" and ?start = "if_start ins L"
  obtain c cs el where ins: "ins = clause_inputs 0 (c # cs) el" "list_all (clause_fits rules_shapes) (c # cs)"
    "list_all (fits rules_shapes STATEMENT None) (else_blocks el)" "list_all (wf_block rules_shapes) (children ins)"
    using if_clauses [OF assms(1)] by blast
  have inv: "dialogue_inv rules_shapes ?start D" by (rule mutator_inv [OF ins(1-3) assms(3,4)])
  then obtain c' where D: "m_inputs ?s = clause_inputs 0 (c' # stack_clauses (stack D)) (stack_else (stack D))"
    and c': "child_at (m_inputs ?start) (IFn 0) = fst c'" "child_at (m_inputs ?start) (DOn 0) = snd c'" "clause_fits rules_shapes c'"
    and all0: "mset (all_blocks ?s) = mset (all_blocks ?start)" and items: "stack_ok (stack D)" "list_all (item_ok rules_shapes) (stack D)"
    unfolding dialogue_inv_def list_all_append by blast
  have s0: "m_inputs ?start = ins" "all_blocks ?start = children ins @ L" by (simp_all add: if_start_def all_blocks_def)
  have all: "mset (all_blocks ?s) = mset (children ins @ L)" using all0 unfolding s0 .
  have "set (all_blocks ?s) = set (children ins @ L)" using mset_eq_setD [OF all] .
  then have "list_all (wf_block rules_shapes) (children (m_inputs ?s))" using ins(4) assms(2) by (auto simp: list_all_iff all_blocks_def)
  then have "wf_inputs rules_shapes (m_inputs ?s) (map if_input (map iname (m_inputs ?s)))"
    unfolding D by (intro wf_clause_inputs) (use c'(3) stack_fits [OF items] in simp_all)
  then have "wf_block rules_shapes (Block ''controls_if'' i en cm fs (m_inputs ?s) nx)"
    using assms(1) by (simp add: D if_shape_of_clauses ins(1) del: list.map clause_inputs.simps split: option.splits)
  moreover have "child_at (m_inputs ?s) (IFn k) = fst ((c' # stack_clauses (stack D)) ! k) \<and> child_at (m_inputs ?s) (DOn k) = snd ((c' # stack_clauses (stack D)) ! k)"
    if "k \<le> length (stack_clauses (stack D))" for k
    using clause_inputs_lookup(1,2) [of 0 "c' # stack_clauses (stack D)" "stack_else (stack D)" k] that by (simp add: D child_at_def)
  moreover have "child_at (m_inputs ?s) ''ELSE'' = else_connection (stack_else (stack D))"
    unfolding D child_at_def clause_inputs_lookup else_connection_def by (simp split: option.splits)
  ultimately show ?thesis using c'(1,2) [unfolded s0] all round_keeps [OF inv] by fastforce
qed

definition sample_note :: "string \<Rightarrow> block" where
  "sample_note m = Block ''thesada_notify'' m True None [(''MSG'', FText m)] [] None"

definition sample_if :: "binput list" where
  \<comment> \<open>\<open>if .. else if .. do a else if .. do b\<close>\<close>
  "sample_if = clause_inputs 0 [(None, None), (None, Some (sample_note ''a'')), (None, Some (sample_note ''b''))] None"

definition sample_item :: "string \<Rightarrow> mitem" where
  "sample_item m = (newItem ''controls_if_elseif'')\<lparr>statementConnection := Some (sample_note m)\<rparr>"

theorem mutator_keeps_rules_witness:
  "\<exists>s. compose rules_shapes [sample_item ''b'', sample_item ''a''] (if_start sample_if []) = Inr s \<and>
     child_at (m_inputs s) (DOn 1) = Some (sample_note ''b'') \<and> child_at (m_inputs s) (DOn 2) = Some (sample_note ''a'') \<and>
     wf_block rules_shapes (Block ''controls_if'' ''i'' True None [] (m_inputs s) None)"
proof -
  let ?start = "if_start sample_if []" and ?items = "[sample_item ''b'', sample_item ''a'']"
  let ?D = "\<lparr>dblock = ?start, stack = [sample_item ''a'', sample_item ''b''], aside = []\<rparr>"
  have "list_all (clause_fits rules_shapes) [(None, None), (None, Some (sample_note ''a'')), (None, Some (sample_note ''b''))]"
    "list_all (wf_block rules_shapes) [sample_note ''a'', sample_note ''b'']"
    by (simp_all add: clause_fits_def sample_note_def fits_def block_shape_def doTypeChecks_def wf_fields_def field_ok_def shape_defs)
  then have "wf_inputs rules_shapes sample_if (map if_input (map iname sample_if))"
    unfolding sample_if_def by (intro wf_clause_inputs) simp_all
  then have wf: "wf_block rules_shapes (Block ''controls_if'' ''i'' True None [] sample_if None)"
    using if_shape_of_clauses [of _ _ None] by (simp add: sample_if_def wf_fields_def empty_shape_def del: clause_inputs.simps list.map)
  have other: "list_all (wf_block rules_shapes) []" "distinct (children sample_if @ [])"
    by (simp_all add: sample_if_def sample_note_def)
  have start: "?start = \<lparr>elseifCount = Suc 1, elseCount = 0, m_inputs = sample_if, loose = []\<rparr>" by (simp add: if_start_def sample_if_def)
  have "saveConnections ?start 1 (decompose ?start) = Inr [sample_item ''a'', sample_item ''b'']"
    unfolding start by (simp add: decompose_def sample_if_def child_at_def newItem_def sample_item_def)
  then have D: "mutator rules_shapes ?start ?D" by (rule mutator.opened)
  have ed: "rearranged ?D ?items []"
    by (auto simp: rearranged_def sample_item_def newItem_def intro: exI [of _ "[]"])
  with mutator_keeps_rules [OF wf other D] obtain s where s: "compose rules_shapes ?items ?start = Inr s" "saveConnections s 1 ?items = Inr ?items"
    by auto
  have "mutator rules_shapes ?start \<lparr>dblock = s, stack = ?items, aside = []\<rparr>" by (rule mutator.round [OF D ed]) (use s in simp_all)
  from mutator_keeps_rules [OF wf other this] have "wf_block rules_shapes (Block ''controls_if'' ''i'' True None [] (m_inputs s) None)"
    "\<forall>k < 2. child_at (m_inputs s) (DOn (Suc k)) = snd (stack_clauses ?items ! k)"
    by (simp_all add: sample_item_def newItem_def)
  from this(1) this(2) [rule_format, of 0] this(2) [rule_format, of 1] s(1) show ?thesis
    by (simp add: sample_item_def newItem_def numeral_2_eq_2)
qed

end
