(* ===== verification/Blockly_Serial.thy ===== *)
theory Blockly_Serial
  imports Rules_Blocks
begin

text \<open>
  Saving and loading workspaces (\<open>Blockly.serialization\<close>, \<open>serializeWorkspace\<close>, \<open>loadWorkspace\<close>
  and \<open>init\<close> of \<open>blockly-rules.js\<close>). A saved block is a \<open>bstate\<close>: the JSON object with its
  keys as components. Loading builds the block from its definition, sets its fields through the
  field classes and connects the children through the connection checker, so a state that does not
  fit is refused. The generator of fresh ids is a parameter.
\<close>

section \<open>Saved states\<close>

type_synonym extra = "nat \<times> bool"  \<comment> \<open>\<open>elseIfCount\<close> and \<open>hasElse\<close>\<close>

datatype bstate =
  BState (s_type: string) (s_id: "string option") (s_enabled: bool) (s_extra: extra)
    (s_comment: "string option") (s_fields: "(string \<times> fval) list") (s_inputs: "bconn list")
    (s_next: "bstate option")
and bconn = BConn string bstate

record registry =
  reg_shape :: shapes
  reg_names :: "string \<Rightarrow> extra \<Rightarrow> string list"  \<comment> \<open>the inputs after \<open>loadExtraState\<close>\<close>
  reg_extra :: "string \<Rightarrow> string list \<Rightarrow> extra"  \<comment> \<open>\<open>saveExtraState\<close> of a block with these inputs\<close>

fun save_block :: "registry \<Rightarrow> block \<Rightarrow> bstate" and save_input :: "registry \<Rightarrow> binput \<Rightarrow> bconn list" where
  \<comment> \<open>a comment icon without text is not saved\<close>
  "save_block R (Block ty i en cm fs ins nx) =
     BState ty (Some i) en (reg_extra R ty (map iname ins))
       (case cm of Some c \<Rightarrow> if c = '''' then None else Some c | None \<Rightarrow> None)
       fs (concat (map (save_input R) ins))
       (case nx of None \<Rightarrow> None | Some b \<Rightarrow> Some (save_block R b))"
| "save_input R (Input n t None) = []"
| "save_input R (Input n t (Some b)) = [BConn n (save_block R b)]"

section \<open>Loading\<close>

definition new_id :: "(string list \<Rightarrow> string) \<Rightarrow> string list \<Rightarrow> string option \<Rightarrow> string" where
  \<comment> \<open>\<open>this.id = id && !workspace.getBlockById(id) ? id : genUid()\<close>\<close>
  "new_id uid used i =
     (case i of Some s \<Rightarrow> if s \<noteq> '''' \<and> s \<notin> set used then s else uid used | None \<Rightarrow> uid used)"

definition tryToConnectParent :: "(input_type \<times> check) option \<Rightarrow> shape \<Rightarrow> unit result" where
  "tryToConnectParent parent sh =
     (case parent of
        None \<Rightarrow> Inr ()
      | Some (t, c) \<Rightarrow>
          (case (if t = VALUE then sh_output sh else sh_previous sh) of
             None \<Rightarrow> Inl (DeserializationError ''MissingConnection'')
           | Some c' \<Rightarrow>
               if doTypeChecks c c' then Inr () else Inl (DeserializationError ''BadConnectionCheck'')))"

definition loadFields :: "(string \<times> field_class \<times> fval) list \<Rightarrow> (string \<times> fval) list \<Rightarrow> (string \<times> fval) list" where
  \<comment> \<open>unknown names are ignored with a warning; a value that the field refuses leaves the initial one\<close>
  "loadFields cs fs =
     map (\<lambda>(n, c, d). (n, case map_of fs n of Some v \<Rightarrow> setValue c d v | None \<Rightarrow> d)) cs"

definition set_target :: "string \<Rightarrow> block \<Rightarrow> binput \<Rightarrow> binput" where
  "set_target n b x = (case x of Input m t tgt \<Rightarrow> if m = n then Input m t (Some b) else x)"

lemma set_target_Input [simp]:
  "set_target n b (Input m t tgt) = (if m = n then Input m t (Some b) else Input m t tgt)"
  by (simp add: set_target_def)

fun load_block :: "registry \<Rightarrow> (string list \<Rightarrow> string) \<Rightarrow> (input_type \<times> check) option \<Rightarrow> string list \<Rightarrow>
      bstate \<Rightarrow> (block \<times> string list) result"
  and load_conns :: "registry \<Rightarrow> (string list \<Rightarrow> string) \<Rightarrow> (string \<times> input_type \<times> check) list \<Rightarrow> string list \<Rightarrow>
      bconn list \<Rightarrow> binput list \<Rightarrow> (binput list \<times> string list) result" where
  \<comment> \<open>\<open>appendPrivate\<close>; \<open>used\<close> are the ids of the workspace, given back with those of the new blocks\<close>
  "load_block R uid parent used (BState ty i en ex cm fs cs nx) =
     (if ty = '''' then Inl (DeserializationError ''MissingBlockType'')
      else case reg_shape R ty (reg_names R ty ex) of
        None \<Rightarrow> Inl (TypeError (''Invalid block definition for type: '' @ ty))
      | Some sh \<Rightarrow>
          (let bid = new_id uid used i
           in bind_result (tryToConnectParent parent sh) (\<lambda>_.
              bind_result (load_conns R uid (sh_inputs sh) (used @ [bid]) cs
                             (map (\<lambda>(n, t, c). Input n t None) (sh_inputs sh))) (\<lambda>(ins, used).
              case nx of
                None \<Rightarrow> Inr (Block ty bid en cm (loadFields (sh_fields sh) fs) ins None, used)
              | Some n \<Rightarrow>
                  (case sh_next sh of
                     None \<Rightarrow> Inl (DeserializationError ''MissingConnection'')
                   | Some c \<Rightarrow>
                       bind_result (load_block R uid (Some (STATEMENT, c)) used n) (\<lambda>(b, used).
                         Inr (Block ty bid en cm (loadFields (sh_fields sh) fs) ins (Some b), used)))))))"
| "load_conns R uid shs used [] ins = Inr (ins, used)"
| "load_conns R uid shs used (BConn n st # cs) ins =
     (case map_of shs n of
        None \<Rightarrow> Inl (DeserializationError ''MissingConnection'')
      | Some (t, c) \<Rightarrow>
          bind_result (load_block R uid (Some (t, c)) used st) (\<lambda>(b, used).
            load_conns R uid shs used cs (map (set_target n b) ins)))"

lemma wf_fields_names: "wf_fields fs cs \<Longrightarrow> map fst fs = map fst cs"
  unfolding wf_fields_def by (induction fs cs rule: list_all2_induct) auto

lemma wf_inputs_names: "wf_inputs Sh ins shs \<Longrightarrow> map iname ins = map fst shs"
proof (induction ins arbitrary: shs)
  case Nil
  then show ?case by (cases shs) simp_all
next
  case (Cons x ins)
  then show ?case by (cases x; cases shs) auto
qed

lemma wf_inputs_empty: "wf_inputs Sh (map (\<lambda>(n, t, c). Input n t None) shs) shs"
  by (induction shs) auto

lemma wf_inputs_set_target:
  assumes "wf_inputs Sh ins shs" and "map_of shs n = Some (t, c)" and "distinct (map fst shs)"
    and "fits Sh t c b" and "wf_block Sh b"
  shows "wf_inputs Sh (map (set_target n b) ins) shs"
  using assms
proof (induction ins arbitrary: shs)
  case Nil
  then show ?case by simp
next
  case (Cons x ins)
  from Cons.prems(1) obtain m u tgt c' shs' where x: "x = Input m u tgt" and shs: "shs = (m, u, c') # shs'"
    and wf: "wf_inputs Sh ins shs'"
    and tgt: "case tgt of None \<Rightarrow> True | Some b \<Rightarrow> fits Sh u c' b \<and> wf_block Sh b"
    by (cases x; cases shs) auto
  show ?case
  proof (cases "m = n")
    case True
    have "n \<notin> set (map iname ins)" using wf_inputs_names [OF wf] Cons.prems(3) shs True by simp
    then have "map (set_target n b) ins = ins"
      by (intro map_idI) (force simp: set_target_def split: binput.split)
    then show ?thesis using Cons.prems(2,4,5) wf True by (simp add: x shs)
  next
    case False
    have "map_of shs' n = Some (t, c)" "distinct (map fst shs')" using Cons.prems(2,3) shs False by simp_all
    from Cons.IH [OF wf this Cons.prems(4,5)] show ?thesis using False tgt by (simp add: x shs)
  qed
qed

fun block_ids :: "block \<Rightarrow> string list" and input_ids :: "binput \<Rightarrow> string list" where
  \<comment> \<open>in the order in which loading creates the blocks\<close>
  "block_ids (Block ty i en cm fs ins nx) =
     i # concat (map input_ids ins) @ (case nx of None \<Rightarrow> [] | Some b \<Rightarrow> block_ids b)"
| "input_ids (Input n t None) = []"
| "input_ids (Input n t (Some b)) = block_ids b"

fun comments_ok :: "block \<Rightarrow> bool" and input_comments_ok :: "binput \<Rightarrow> bool" where
  \<comment> \<open>no empty comment\<close>
  "comments_ok (Block ty i en cm fs ins nx) \<longleftrightarrow>
     cm \<noteq> Some '''' \<and> (\<forall>x \<in> set ins. input_comments_ok x) \<and> (case nx of None \<Rightarrow> True | Some b \<Rightarrow> comments_ok b)"
| "input_comments_ok (Input n t None) \<longleftrightarrow> True"
| "input_comments_ok (Input n t (Some b)) \<longleftrightarrow> comments_ok b"

definition clear_target :: "binput \<Rightarrow> binput" where
  "clear_target x = Input (iname x) (itype x) None"

lemma wf_inputs_clear:
  "wf_inputs Sh ins shs \<Longrightarrow> map (\<lambda>(n, t, c). Input n t None) shs = map clear_target ins"
proof (induction ins arbitrary: shs)
  case Nil
  then show ?case by (cases shs) simp_all
next
  case (Cons x ins)
  then show ?case by (cases x; cases shs) (auto simp: clear_target_def)
qed

definition connects :: "shapes \<Rightarrow> (input_type \<times> check) option \<Rightarrow> block \<Rightarrow> bool" where
  "connects Sh parent b = (case parent of None \<Rightarrow> True | Some (t, c) \<Rightarrow> fits Sh t c b)"

lemma tryToConnectParent_fits:
  assumes "block_shape Sh b = Some sh"
  shows "tryToConnectParent parent sh = Inr () \<longleftrightarrow> connects Sh parent b"
  using assms by (auto simp: tryToConnectParent_def connects_def fits_def split: option.splits)

lemma wf_inputs_target:
  assumes "wf_inputs Sh ins shs" and "distinct (map fst shs)" and "Input n t (Some b) \<in> set ins"
  shows "\<exists>c. map_of shs n = Some (t, c) \<and> fits Sh t c b \<and> wf_block Sh b"
  using assms
proof (induction ins arbitrary: shs)
  case (Cons x ins)
  from Cons.prems(1) obtain m u tgt c shs' where x: "x = Input m u tgt" and shs: "shs = (m, u, c) # shs'"
    and wf: "wf_inputs Sh ins shs'"
    and tgt: "case tgt of None \<Rightarrow> True | Some b \<Rightarrow> fits Sh u c b \<and> wf_block Sh b"
    by (cases x; cases shs) auto
  show ?case
  proof (cases "x = Input n t (Some b)")
    case True
    with x shs tgt show ?thesis by auto
  next
    case False
    then obtain c' where c': "map_of shs' n = Some (t, c')" "fits Sh t c' b" "wf_block Sh b"
      using Cons.IH [OF wf] Cons.prems(2,3) shs by auto
    moreover have "m \<noteq> n" using map_of_SomeD [OF c'(1)] Cons.prems(2) shs by force
    ultimately show ?thesis by (simp add: shs)
  qed
qed simp

lemma set_target_other: "n \<notin> iname ` set ins \<Longrightarrow> map (set_target n b) ins = ins"
  by (intro map_idI) (force simp: set_target_def split: binput.split)

lemma iname_clear [simp]: "iname (clear_target x) = iname x" "iname ` clear_target ` A = iname ` A"
  by (simp_all add: clear_target_def image_image)

lemma clear_target_Input [simp]: "clear_target (Input n t tgt) = Input n t None"
  by (simp add: clear_target_def)

section \<open>Interface: a registry of block types\<close>

locale block_registry =
  fixes R :: registry
  assumes names_loaded: "reg_shape R ty (reg_names R ty ex) = Some sh \<Longrightarrow> map fst (sh_inputs sh) = reg_names R ty ex"
    and names_saved: "reg_shape R ty ns = Some sh \<Longrightarrow> map fst (sh_inputs sh) = ns \<Longrightarrow>
      reg_names R ty (reg_extra R ty ns) = ns"
    and inputs_distinct: "reg_shape R ty ns = Some sh \<Longrightarrow> distinct (map fst (sh_inputs sh))"
    and fields_distinct: "reg_shape R ty ns = Some sh \<Longrightarrow> distinct (map fst (sh_fields sh))"
    and fields_ok: "reg_shape R ty ns = Some sh \<Longrightarrow> (n, c, d) \<in> set (sh_fields sh) \<Longrightarrow> field_ok c d"
    and fields_kept: "reg_shape R ty ns = Some sh \<Longrightarrow> (n, c, d) \<in> set (sh_fields sh) \<Longrightarrow> field_ok c v \<Longrightarrow>
      doClassValidation c v = Some v"
    and fields_safe: "reg_shape R ty ns = Some sh \<Longrightarrow> (n, c, d) \<in> set (sh_fields sh) \<Longrightarrow>
      doClassValidation c v = Some w \<Longrightarrow> field_ok c w"
    and types_named: "reg_shape R ty ns = Some sh \<Longrightarrow> ty \<noteq> ''''"
begin

lemma loadFields_wf: "reg_shape R ty ns = Some sh \<Longrightarrow> wf_fields (loadFields (sh_fields sh) fs) (sh_fields sh)"
  unfolding wf_fields_def loadFields_def list_all2_map1
  by (rule list.rel_refl_strong)
    (auto simp: setValue_def dest: fields_ok fields_safe split: option.split)

lemma loadFields_id:
  assumes sh: "reg_shape R ty ns = Some sh" and wf: "wf_fields fs (sh_fields sh)"
  shows "loadFields (sh_fields sh) fs = fs"
proof -
  have len: "length fs = length (sh_fields sh)" using wf by (simp add: wf_fields_def list_all2_lengthD)
  have dist: "distinct (map fst fs)" using fields_distinct [OF sh] wf_fields_names [OF wf] by simp
  show ?thesis
  proof (rule nth_equalityI)
    show "length (loadFields (sh_fields sh) fs) = length fs" using len by (simp add: loadFields_def)
    fix i assume "i < length (loadFields (sh_fields sh) fs)"
    then have i: "i < length fs" "i < length (sh_fields sh)" using len by (simp_all add: loadFields_def)
    obtain n c d where f: "sh_fields sh ! i = (n, c, d)" by (cases "sh_fields sh ! i") auto
    obtain v where v: "fs ! i = (n, v)" "field_ok c v"
      using wf i f by (cases "fs ! i") (auto simp: wf_fields_def list_all2_conv_all_nth)
    have "map_of fs n = Some v" using dist v(1) i(1) by (metis map_of_is_SomeI nth_mem)
    moreover have "(n, c, d) \<in> set (sh_fields sh)" using f i(2) by (metis nth_mem)
    ultimately show "loadFields (sh_fields sh) fs ! i = fs ! i"
      using fields_kept [OF sh _ v(2)] f v(1) i by (simp add: loadFields_def setValue_def)
  qed
qed

lemma load_wf:
  "load_block R uid parent used st = Inr (b, used') \<Longrightarrow>
     wf_block (reg_shape R) b \<and> connects (reg_shape R) parent b"
  "load_conns R uid shs used cs ins = Inr (ins', used') \<Longrightarrow> distinct (map fst shs) \<Longrightarrow>
     wf_inputs (reg_shape R) ins shs \<Longrightarrow> wf_inputs (reg_shape R) ins' shs"
proof (induction R\<equiv>R uid parent used st and R\<equiv>R uid shs used cs ins
    arbitrary: b used' and ins' used' rule: load_block_load_conns.induct)
  case (1 uid parent used ty i en ex cm fs cs nx)
  let ?id = "new_id uid used i"
  from "1.prems" obtain sh where ty: "ty \<noteq> ''''" and sh: "reg_shape R ty (reg_names R ty ex) = Some sh"
    by (auto split: if_splits option.splits)
  let ?empty = "map (\<lambda>(n, t, c). Input n t None) (sh_inputs sh)"
  from "1.prems" ty sh obtain ins used2 where par: "tryToConnectParent parent sh = Inr ()"
    and ins: "load_conns R uid (sh_inputs sh) (used @ [?id]) cs ?empty = Inr (ins, used2)"
    by (auto simp: bind_result_Inr_iff Let_def)
  have wi: "wf_inputs (reg_shape R) ins (sh_inputs sh)"
    using "1.hyps"(1) [OF ty sh refl par ins inputs_distinct [OF sh] wf_inputs_empty] .
  have names: "map iname ins = reg_names R ty ex" using wf_inputs_names [OF wi] names_loaded [OF sh] by simp
  obtain nx' where b: "b = Block ty ?id en cm (loadFields (sh_fields sh) fs) ins nx'"
    and nx': "case nx' of None \<Rightarrow> True | Some b' \<Rightarrow> (case sh_next sh of None \<Rightarrow> False
      | Some c \<Rightarrow> fits (reg_shape R) STATEMENT c b' \<and> wf_block (reg_shape R) b')"
  proof (cases nx)
    case None
    show ?thesis by (rule that [of None]) (use "1.prems" ty sh par ins None in \<open>simp_all add: Let_def\<close>)
  next
    case (Some n)
    with "1.prems" ty sh par ins obtain c b' used3 where c: "sh_next sh = Some c"
      and n: "load_block R uid (Some (STATEMENT, c)) used2 n = Inr (b', used3)"
      and b: "b = Block ty ?id en cm (loadFields (sh_fields sh) fs) ins (Some b')"
      by (auto simp: bind_result_Inr_iff Let_def split: option.splits)
    have "wf_block (reg_shape R) b'" "connects (reg_shape R) (Some (STATEMENT, c)) b'"
      using "1.hyps"(2) [OF ty sh refl par ins refl Some c n] by simp_all
    then show ?thesis by (intro that [of "Some b'"]) (simp_all add: b c connects_def)
  qed
  have "wf_block (reg_shape R) b" using wi nx' loadFields_wf [OF sh] sh names by (simp add: b)
  moreover have "connects (reg_shape R) parent b"
    using tryToConnectParent_fits [of "reg_shape R" b sh parent] par sh names by (simp add: b block_shape_def)
  ultimately show ?case ..
next
  case (2 uid shs used ins)
  then show ?case by simp
next
  case (3 uid shs used n st cs ins)
  from "3.prems"(1) obtain t c b used2 where c: "map_of shs n = Some (t, c)"
    and st: "load_block R uid (Some (t, c)) used st = Inr (b, used2)"
    and cs: "load_conns R uid shs used2 cs (map (set_target n b) ins) = Inr (ins', used')"
    by (auto simp: bind_result_Inr_iff split: option.splits)
  have "wf_block (reg_shape R) b" "fits (reg_shape R) t c b"
    using "3.hyps"(1) [OF c refl st] by (simp_all add: connects_def)
  then have "wf_inputs (reg_shape R) (map (set_target n b) ins) shs"
    using wf_inputs_set_target "3.prems"(2,3) c by blast
  then show ?case using "3.hyps"(2) [OF c refl st refl cs "3.prems"(2)] by blast
qed

lemma load_saved_conns:
  assumes "distinct (map iname (ins1 @ ins2))" and "distinct (used @ concat (map input_ids ins2))"
    and "\<And>n t b. Input n t (Some b) \<in> set ins2 \<Longrightarrow> \<exists>c. map_of shs n = Some (t, c) \<and>
      (\<forall>used. distinct (used @ block_ids b) \<longrightarrow>
        load_block R uid (Some (t, c)) used (save_block R b) = Inr (b, used @ block_ids b))"
  shows "load_conns R uid shs used (concat (map (save_input R) ins2)) (ins1 @ map clear_target ins2) =
    Inr (ins1 @ ins2, used @ concat (map input_ids ins2))"
  using assms
proof (induction ins2 arbitrary: ins1 used)
  case (Cons x ins2)
  obtain n t tgt where x: "x = Input n t tgt" by (cases x)
  have IH: "load_conns R uid shs used' (concat (map (save_input R) ins2)) ((ins1 @ [x]) @ map clear_target ins2) =
      Inr ((ins1 @ [x]) @ ins2, used' @ concat (map input_ids ins2))"
    if "distinct (used' @ concat (map input_ids ins2))" for used'
    by (rule Cons.IH) (use Cons.prems(1,3) that in auto)
  show ?case
  proof (cases tgt)
    case None
    with IH [of used] Cons.prems(2) show ?thesis by (simp add: x)
  next
    case (Some b)
    obtain c where c: "map_of shs n = Some (t, c)" and
      b: "\<forall>used. distinct (used @ block_ids b) \<longrightarrow>
        load_block R uid (Some (t, c)) used (save_block R b) = Inr (b, used @ block_ids b)"
      using Cons.prems(3) [of n t b] x Some by auto
    have "distinct (used @ block_ids b)" "distinct ((used @ block_ids b) @ concat (map input_ids ins2))"
      using Cons.prems(2) by (auto simp: x Some)
    moreover have "n \<notin> iname ` set ins1" "n \<notin> iname ` set ins2" using Cons.prems(1) by (auto simp: x)
    then have t1: "map (set_target n b) ins1 = ins1"
      and t2: "map (set_target n b) (map clear_target ins2) = map clear_target ins2"
      by (simp_all only: set_target_other set_map iname_clear not_False_eq_True)
    have "map (set_target n b) (ins1 @ map clear_target (x # ins2)) = (ins1 @ [x]) @ map clear_target ins2"
      unfolding map_append list.map t1 t2 by (simp add: x Some)
    ultimately show ?thesis using b c IH [of "used @ block_ids b"] by (simp add: x Some del: map_map)
  qed
qed simp

lemma load_saved_block:
  assumes "wf_block (reg_shape R) b" and "connects (reg_shape R) parent b" and "comments_ok b"
    and "distinct (used @ block_ids b)" and "'''' \<notin> set (block_ids b)"
  shows "load_block R uid parent used (save_block R b) = Inr (b, used @ block_ids b)"
  using assms
proof (induction b arbitrary: parent used rule: block.induct
    [where ?P2.0 = "\<lambda>x. \<forall>b parent used. itarget x = Some b \<longrightarrow> wf_block (reg_shape R) b \<longrightarrow>
      connects (reg_shape R) parent b \<longrightarrow> comments_ok b \<longrightarrow> distinct (used @ block_ids b) \<longrightarrow>
      '''' \<notin> set (block_ids b) \<longrightarrow> load_block R uid parent used (save_block R b) = Inr (b, used @ block_ids b)"])
  case (Block ty i en cm fs ins nx)
  from Block.prems(1) obtain sh where sh: "reg_shape R ty (map iname ins) = Some sh"
    and fs: "wf_fields fs (sh_fields sh)" and wi: "wf_inputs (reg_shape R) ins (sh_inputs sh)"
    and nxt: "\<And>b. nx = Some b \<Longrightarrow>
      \<exists>c. sh_next sh = Some c \<and> fits (reg_shape R) STATEMENT c b \<and> wf_block (reg_shape R) b"
    by (auto split: option.splits)
  have names: "map fst (sh_inputs sh) = map iname ins" using wf_inputs_names [OF wi] by simp
  have ex: "reg_names R ty (reg_extra R ty (map iname ins)) = map iname ins" by (rule names_saved [OF sh names])
  have par: "tryToConnectParent parent sh = Inr ()"
    using tryToConnectParent_fits [of "reg_shape R" "Block ty i en cm fs ins nx" sh] Block.prems(2) sh
    by (simp add: block_shape_def)
  have bid: "new_id uid used (Some i) = i" using Block.prems(4,5) by (auto simp: new_id_def)
  have child: "\<exists>c. map_of (sh_inputs sh) n = Some (t, c) \<and> (\<forall>used. distinct (used @ block_ids b) \<longrightarrow>
        load_block R uid (Some (t, c)) used (save_block R b) = Inr (b, used @ block_ids b))"
    if x: "Input n t (Some b) \<in> set ins" for n t b
  proof -
    from wf_inputs_target [OF wi inputs_distinct [OF sh] x] obtain c where
      c: "map_of (sh_inputs sh) n = Some (t, c)" "fits (reg_shape R) t c b" "wf_block (reg_shape R) b" by blast
    have "input_comments_ok (Input n t (Some b))" using Block.prems(3) x unfolding comments_ok.simps by blast
    moreover have "'''' \<notin> set (block_ids b)" using Block.prems(5) x by force
    ultimately show ?thesis using Block.hyps(1) [OF x] c by (auto simp: connects_def)
  qed
  have dist: "distinct ((used @ [i]) @ concat (map input_ids ins))" using Block.prems(4) by (auto split: option.splits)
  have dn: "distinct (map iname ([] @ ins))" using inputs_distinct [OF sh] names by simp
  note conns = load_saved_conns [OF dn dist child]
  have ins: "load_conns R uid (sh_inputs sh) (used @ [i]) (concat (map (save_input R) ins))
      (map (\<lambda>(n, t, c). Input n t None) (sh_inputs sh)) = Inr (ins, (used @ [i]) @ concat (map input_ids ins))"
    using conns by (simp add: wf_inputs_clear [OF wi])
  have cm: "(case cm of Some c \<Rightarrow> if c = '''' then None else Some c | None \<Rightarrow> None) = cm"
    using Block.prems(3) by (auto split: option.split)
  show ?case
  proof (cases nx)
    case None
    with ins par bid cm sh ex show ?thesis
      by (simp add: Let_def types_named [OF sh] loadFields_id [OF sh fs])
  next
    case (Some b)
    from nxt [OF Some] obtain c where c: "sh_next sh = Some c" "fits (reg_shape R) STATEMENT c b"
      "wf_block (reg_shape R) b" by blast
    have "load_block R uid (Some (STATEMENT, c)) ((used @ [i]) @ concat (map input_ids ins)) (save_block R b) =
        Inr (b, ((used @ [i]) @ concat (map input_ids ins)) @ block_ids b)"
      by (rule Block.IH(1) [of b]) (use Block.prems(3-5) c Some in \<open>auto simp: connects_def\<close>)
    with ins par bid cm sh ex Some c(1) show ?thesis
      by (simp add: Let_def types_named [OF sh] loadFields_id [OF sh fs])
  qed
next
  case (Input n t tgt)
  then show ?case by auto
qed

end

section \<open>The registry of the rules page\<close>

text \<open>
  The types that the rules are made of: the rule blocks and the blocks of the toolbox. The page also loads
  \<open>blocks_compressed.js\<close> and \<open>lua_compressed.js\<close>, which register all standard blocks and their
  generators; what is registered beside the rule types is a parameter of the page's registry and generator.
  A state that names only rule types is loaded and generated the same way whatever that parameter is.
\<close>

definition rules_registry :: registry where
  "rules_registry =
     \<lparr>reg_shape = rules_shapes,
      reg_names = (\<lambda>ty (n, e). if ty = ''controls_if'' then controls_if_names n e
        else (case rules_shapes ty [] of Some sh \<Rightarrow> map fst (sh_inputs sh) | None \<Rightarrow> [])),
      reg_extra = (\<lambda>ty ns. if ty = ''controls_if'' then (length ns div 2 - 1, odd (length ns)) else (0, False))\<rparr>"

lemma fst_if_input [simp]: "fst (if_input m) = m" "fst \<circ> if_input = id"
  by (auto simp: if_input_def)

lemma length_controls_if_names: "length (controls_if_names n e) = 2 * Suc n + (if e then 1 else 0)"
proof -
  have "length (concat (map (\<lambda>k. [IFn k, DOn k]) [0 ..< m])) = 2 * m" for m by (induction m) simp_all
  then show ?thesis by (simp add: controls_if_names_def)
qed

lemma distinct_controls_if_names: "distinct (controls_if_names n e)"
proof -
  have neq: "IFn k \<noteq> DOn l" "IFn k \<noteq> ''ELSE''" "DOn k \<noteq> ''ELSE''" for k l
    by (simp_all add: IFn_def DOn_def)
  have inj: "IFn k = IFn l \<longleftrightarrow> k = l" "DOn k = DOn l \<longleftrightarrow> k = l" for k l by (simp_all add: IFn_def DOn_def)
  have "distinct (concat (map (\<lambda>k. [IFn k, DOn k]) [0 ..< m]))" for m
    by (induction m) (use neq(1) neq(1) [symmetric] inj in auto)
  moreover have "''ELSE'' \<notin> set (concat (map (\<lambda>k. [IFn k, DOn k]) [0 ..< m]))" for m
    using neq(2,3) by (auto dest: sym)
  ultimately show ?thesis
    unfolding controls_if_names_def distinct_append by (simp del: upt_Suc set_concat)
qed

lemma controls_if_shape_Some:
  assumes "controls_if_shape ns = Some sh"
  shows "ns = controls_if_names (length ns div 2 - 1) (odd (length ns))" and "sh_fields sh = []"
    and "map fst (sh_inputs sh) = ns"
  using assms by (auto simp: controls_if_shape_def Let_def empty_shape_def split: if_splits)

lemma controls_if_shape_names: "controls_if_shape (controls_if_names n e) \<noteq> None"
  by (cases e) (simp_all add: controls_if_shape_def length_controls_if_names Let_def)

lemma doClassValidation_keeps:
  assumes "field_ok c v" and "\<And>mn mx prec. c = FieldNumber mn mx prec \<Longrightarrow> 0 < prec"
  shows "doClassValidation c v = Some v"
proof (cases c)
  case (FieldNumber mn mx prec)
  then obtain k where v: "v = FNum (prec * k)" "mn \<le> prec * k" "prec * k \<le> mx"
    using assms(1) by (auto simp: field_ok_cases dvd_def)
  have p: "0 < prec" by (rule assms(2) [OF FieldNumber])
  have "(2 * (prec * k) + prec) div (2 * prec) = (prec + k * (2 * prec)) div (2 * prec)"
    by (simp add: algebra_simps)
  also have "\<dots> = k" using p by (simp add: div_pos_pos_trivial)
  finally show ?thesis using FieldNumber v p
    by (simp add: doClassValidation_def number_value_def min_def max_def mult.commute)
qed (use assms(1) in \<open>auto simp: doClassValidation_def field_ok_cases\<close>)

lemma rules_shape_fields:
  assumes "rules_shapes ty ns = Some sh"
  shows "distinct (map fst (sh_fields sh))"
    and "ty \<noteq> ''controls_if'' \<Longrightarrow> distinct (map fst (sh_inputs sh))"
    and "(n, c, d) \<in> set (sh_fields sh) \<Longrightarrow> field_ok c d"
    and "(n, FieldNumber mn mx prec, d) \<in> set (sh_fields sh) \<Longrightarrow>
      0 < prec \<and> prec dvd mn \<and> prec dvd mx \<and> mn \<le> mx"
proof -
  have "ty \<in> rule_types \<or> ty \<in> value_types \<or> ty = ''controls_if''" using rules_shapes_types assms by blast
  then have all: "distinct (map fst (sh_fields sh)) \<and> (ty \<noteq> ''controls_if'' \<longrightarrow> distinct (map fst (sh_inputs sh))) \<and>
    list_all (\<lambda>(n, c, d). field_ok c d \<and> (case c of FieldNumber mn mx prec \<Rightarrow>
      0 < prec \<and> prec dvd mn \<and> prec dvd mx \<and> mn \<le> mx | _ \<Rightarrow> True)) (sh_fields sh)"
  proof (elim disjE)
    assume "ty = ''controls_if''"
    then show ?thesis using assms controls_if_shape_Some(2) [of ns sh] by (simp add: rules_shapes_def)
  next
    assume "ty \<in> rule_types"
    then show ?thesis using assms unfolding rule_types_def
      by (elim insertE emptyE) (auto simp: shape_defs field_ok_def)
  next
    assume "ty \<in> value_types"
    then show ?thesis using assms unfolding value_types_def
      by (elim insertE emptyE) (auto simp: shape_defs field_ok_def)
  qed
  then show "distinct (map fst (sh_fields sh))" "ty \<noteq> ''controls_if'' \<Longrightarrow> distinct (map fst (sh_inputs sh))"
    by blast+
  show "(n, c, d) \<in> set (sh_fields sh) \<Longrightarrow> field_ok c d"
    and "(n, FieldNumber mn mx prec, d) \<in> set (sh_fields sh) \<Longrightarrow>
      0 < prec \<and> prec dvd mn \<and> prec dvd mx \<and> mn \<le> mx"
    using all by (auto simp: list_all_iff)
qed

lemma rules_shape_other: "ty \<noteq> ''controls_if'' \<Longrightarrow> rules_shapes ty ns = rules_shapes ty []"
  by (simp add: rules_shapes_def)

interpretation rules_reg: block_registry rules_registry
proof
  fix ty :: string and ns :: "string list" and sh ex
  let ?R = rules_registry
  have R: "reg_shape ?R = rules_shapes" by (simp add: rules_registry_def)
  show "map fst (sh_inputs sh) = reg_names ?R ty ex" if "reg_shape ?R ty (reg_names ?R ty ex) = Some sh"
  proof (cases "ty = ''controls_if''")
    case True
    with that show ?thesis using controls_if_shape_Some(3) by (simp add: R rules_shapes_def)
  next
    case False
    have "rules_shapes ty [] = Some sh" using that rules_shape_other [OF False, of "reg_names ?R ty ex"] by (simp add: R)
    with False show ?thesis by (cases ex) (simp add: rules_registry_def)
  qed
  assume sh: "reg_shape ?R ty ns = Some sh"
  show "reg_names ?R ty (reg_extra ?R ty ns) = ns" if "map fst (sh_inputs sh) = ns"
  proof (cases "ty = ''controls_if''")
    case True
    with sh have "ns = controls_if_names (length ns div 2 - 1) (odd (length ns))"
      using controls_if_shape_Some(1) by (simp add: R rules_shapes_def)
    with True show ?thesis by (simp add: rules_registry_def)
  next
    case False
    with that sh rules_shape_other [OF False, of ns] show ?thesis by (simp add: rules_registry_def)
  qed
  show "distinct (map fst (sh_inputs sh))"
  proof (cases "ty = ''controls_if''")
    case True
    with sh have c: "controls_if_shape ns = Some sh" by (simp add: R rules_shapes_def)
    show ?thesis using controls_if_shape_Some(1,3) [OF c] distinct_controls_if_names by metis
  qed (use sh rules_shape_fields(2) in \<open>simp add: R\<close>)
  note f = rules_shape_fields [OF sh [unfolded R]]
  show "distinct (map fst (sh_fields sh))" by (rule f(1))
  show "ty \<noteq> ''''" using sh by (auto simp: R rules_shapes_def)
  fix n c d v w
  assume n: "(n, c, d) \<in> set (sh_fields sh)"
  then show "field_ok c d" by (rule f(3))
  show "doClassValidation c v = Some v" if "field_ok c v"
    by (rule doClassValidation_keeps [OF that]) (use f(4) n in blast)
  show "field_ok c w" if "doClassValidation c v = Some w"
    by (rule doClassValidation_ok [OF that]) (use f(4) n in blast)
qed

section \<open>The page with all registered types\<close>

definition rules_type :: "string \<Rightarrow> bool" where
  "rules_type ty \<longleftrightarrow> ty \<in> rule_types \<or> ty \<in> value_types \<or> ty = ''controls_if''"

definition page_registry :: "registry \<Rightarrow> registry" where
  "page_registry others =
     \<lparr>reg_shape = (\<lambda>ty. if rules_type ty then rules_shapes ty else reg_shape others ty),
      reg_names = (\<lambda>ty. if rules_type ty then reg_names rules_registry ty else reg_names others ty),
      reg_extra = (\<lambda>ty. if rules_type ty then reg_extra rules_registry ty else reg_extra others ty)\<rparr>"

definition page_lua :: "lua_generator \<Rightarrow> (string \<Rightarrow> string) \<Rightarrow> lua_generator" where
  "page_lua others wrap =
     \<lparr>forBlock = (\<lambda>ty. if rules_type ty then rules_generators ty else forBlock others ty),
      has_output = (\<lambda>ty. if rules_type ty then has_output (rules_lua wrap) ty else has_output others ty),
      wrap_text = wrap\<rparr>"

lemma rules_type_shape: "rules_shapes ty ns = Some sh \<Longrightarrow> rules_type ty"
  using rules_shapes_types by (simp add: rules_type_def)

lemma page_registry_simps [simp]:
  "rules_type ty \<Longrightarrow> reg_shape (page_registry O') ty = rules_shapes ty"
  "rules_type ty \<Longrightarrow> reg_names (page_registry O') ty = reg_names rules_registry ty"
  "rules_type ty \<Longrightarrow> reg_extra (page_registry O') ty = reg_extra rules_registry ty"
  "reg_shape rules_registry = rules_shapes"
  by (simp_all add: page_registry_def rules_registry_def)

lemma page_lua_simps [simp]:
  "rules_type ty \<Longrightarrow> forBlock (page_lua G wrap) ty = rules_generators ty"
  "rules_type ty \<Longrightarrow> has_output (page_lua G wrap) ty = has_output (rules_lua wrap) ty"
  "wrap_text (page_lua G wrap) = wrap" "wrap_text (rules_lua wrap) = wrap" "forBlock (rules_lua wrap) = rules_generators"
  by (simp_all add: page_lua_def rules_lua_def)

fun rules_state :: "bstate \<Rightarrow> bool" and rules_conn :: "bconn \<Rightarrow> bool" where
  \<comment> \<open>every block of the state is of a rule type\<close>
  "rules_state (BState ty i en ex cm fs cs nx) \<longleftrightarrow>
     rules_type ty \<and> (\<forall>x \<in> set cs. rules_conn x) \<and> (case nx of None \<Rightarrow> True | Some st \<Rightarrow> rules_state st)"
| "rules_conn (BConn n st) \<longleftrightarrow> rules_state st"

lemma load_page_rules:
  "rules_state st \<Longrightarrow> load_block (page_registry O') uid parent used st = load_block rules_registry uid parent used st"
  "list_all rules_conn cs \<Longrightarrow>
     load_conns (page_registry O') uid shs used cs ins = load_conns rules_registry uid shs used cs ins"
proof (induction R\<equiv>rules_registry uid parent used st and R\<equiv>rules_registry uid shs used cs ins
    rule: load_block_load_conns.induct)
  case (1 uid parent used ty i en ex cm fs cs nx)
  show ?case
  proof (cases "ty = ''''")
    case False
    show ?thesis
    proof (cases "rules_shapes ty (reg_names rules_registry ty ex)")
      case (Some sh)
      let ?id = "new_id uid used i"
      let ?empty = "map (\<lambda>(n, t, c). Input n t None) (sh_inputs sh)"
      have sh: "reg_shape rules_registry ty (reg_names rules_registry ty ex) = Some sh" using Some by simp
      show ?thesis
      proof (cases "tryToConnectParent parent sh")
        case (Inr u)
        then have par: "tryToConnectParent parent sh = Inr ()" by simp
        have conns: "load_conns (page_registry O') uid (sh_inputs sh) (used @ [?id]) cs ?empty =
            load_conns rules_registry uid (sh_inputs sh) (used @ [?id]) cs ?empty"
          by (rule "1.hyps"(1) [OF False sh refl par]) (use "1.prems" in \<open>simp add: list_all_iff\<close>)
        have "load_block (page_registry O') uid (Some (STATEMENT, c)) used2 n =
            load_block rules_registry uid (Some (STATEMENT, c)) used2 n"
          if "load_conns rules_registry uid (sh_inputs sh) (used @ [?id]) cs ?empty = Inr (ins, used2)"
            and "nx = Some n" and "sh_next sh = Some c" for ins used2 n c
          by (rule "1.hyps"(2) [OF False sh refl par that(1) refl that(2,3)]) (use "1.prems" that(2) in simp)
        with "1.prems" False Some par conns show ?thesis
          by (auto simp: Let_def bind_result_def split: sum.split option.split)
      qed (use "1.prems" False Some in \<open>simp add: Let_def\<close>)
    qed (use "1.prems" False in simp)
  qed simp
next
  case (3 uid shs used n st cs ins)
  show ?case
  proof (cases "map_of shs n")
    case (Some tc)
    obtain t c where tc: "tc = (t, c)" by fastforce
    have st: "load_block (page_registry O') uid (Some (t, c)) used st = load_block rules_registry uid (Some (t, c)) used st"
      by (rule "3.hyps"(1) [OF Some tc [symmetric]]) (use "3.prems" in simp)
    have "load_conns (page_registry O') uid shs used2 cs (map (set_target n b) ins) =
        load_conns rules_registry uid shs used2 cs (map (set_target n b) ins)"
      if "load_block rules_registry uid (Some (t, c)) used st = Inr (b, used2)" for b used2
      by (rule "3.hyps"(2) [OF Some tc [symmetric] that refl]) (use "3.prems" in simp)
    with st Some tc show ?thesis by (auto simp: bind_result_def split: sum.split)
  qed simp
qed simp

lemma save_page_rules:
  "wf_block rules_shapes b \<Longrightarrow>
   save_block (page_registry O') b = save_block rules_registry b \<and> rules_state (save_block rules_registry b)"
proof (induction b rule: block.induct
    [where ?P2.0 = "\<lambda>x. \<forall>b. itarget x = Some b \<longrightarrow> wf_block rules_shapes b \<longrightarrow>
      save_block (page_registry O') b = save_block rules_registry b \<and> rules_state (save_block rules_registry b)"])
  case (Block ty i en cm fs ins nx)
  from Block.prems obtain sh where sh: "rules_shapes ty (map iname ins) = Some sh"
    and wi: "wf_inputs rules_shapes ins (sh_inputs sh)"
    and nxt: "\<And>b. nx = Some b \<Longrightarrow> wf_block rules_shapes b"
    by (auto split: option.splits)
  have dist: "distinct (map fst (sh_inputs sh))" using rules_reg.inputs_distinct [of ty "map iname ins" sh] sh by simp
  have child: "save_input (page_registry O') x = save_input rules_registry x \<and>
      list_all rules_conn (save_input rules_registry x)" if "x \<in> set ins" for x
  proof (cases x)
    case (Input n t tgt)
    show ?thesis
    proof (cases tgt)
      case (Some b)
      with Input that wf_inputs_target [OF wi dist, of n t b] have "wf_block rules_shapes b" by blast
      then show ?thesis using Block.hyps(1) [OF that] Input Some by simp
    qed (simp add: Input)
  qed
  have "map (save_input (page_registry O')) ins = map (save_input rules_registry) ins" using child by simp
  moreover have "\<forall>x \<in> set (concat (map (save_input rules_registry) ins)). rules_conn x"
    using child by (auto simp: list_all_iff)
  ultimately show ?case
    using rules_type_shape [OF sh] nxt Block.IH by (auto simp del: map_eq_conv split: option.splits)
qed auto

lemma page_lua_rules:
  "wf_block rules_shapes b \<Longrightarrow> blockToCode (page_lua G wrap) b = blockToCode (rules_lua wrap) b"
proof (induction b rule: block.induct
    [where ?P2.0 = "\<lambda>x. \<forall>b. itarget x = Some b \<longrightarrow> wf_block rules_shapes b \<longrightarrow>
      blockToCode (page_lua G wrap) b = blockToCode (rules_lua wrap) b"])
  case (Block ty i en cm fs ins nx)
  from Block.prems obtain sh where sh: "rules_shapes ty (map iname ins) = Some sh"
    and wi: "wf_inputs rules_shapes ins (sh_inputs sh)"
    and nxt: "\<And>b. nx = Some b \<Longrightarrow> wf_block rules_shapes b"
    by (auto split: option.splits)
  have dist: "distinct (map fst (sh_inputs sh))" using rules_reg.inputs_distinct [of ty "map iname ins" sh] sh by simp
  have "inputToCode (page_lua G wrap) x = inputToCode (rules_lua wrap) x" if "x \<in> set ins" for x
  proof (cases x)
    case (Input n t tgt)
    show ?thesis
    proof (cases tgt)
      case (Some b)
      with Input that wf_inputs_target [OF wi dist, of n t b] have "wf_block rules_shapes b" by blast
      then show ?thesis using Block.hyps(1) [OF that] Input Some by simp
    qed (simp add: Input)
  qed
  then have ins: "map (inputToCode (page_lua G wrap)) ins = map (inputToCode (rules_lua wrap)) ins" by simp
  have nx: "(case nx of None \<Rightarrow> Inr (CStr '''') | Some b \<Rightarrow> blockToCode (page_lua G wrap) b) =
      (case nx of None \<Rightarrow> Inr (CStr '''') | Some b \<Rightarrow> blockToCode (rules_lua wrap) b)"
    using nxt Block.IH by (auto split: option.split)
  have ty: "rules_type ty" by (rule rules_type_shape [OF sh])
  show ?case
    unfolding blockToCode.simps ins nx page_lua_simps(1,2) [OF ty] page_lua_simps(3-5) ..
qed auto

section \<open>Workspaces\<close>

record saved_top =
  st_block :: bstate
  st_x :: int
  st_y :: int

definition js_round :: "rat \<Rightarrow> int" where
  "js_round x = \<lfloor>x + 1 / 2\<rfloor>"

definition save_workspace :: "registry \<Rightarrow> workspace \<Rightarrow> saved_top list option" where
  \<comment> \<open>the value under \<open>blocks\<close>; an empty workspace saves nothing\<close>
  "save_workspace R ws =
     (if ws = [] then None
      else Some (map (\<lambda>t. \<lparr>st_block = save_block R (tblock t), st_x = js_round (top_x t),
                            st_y = js_round (top_y t)\<rparr>) ws))"

fun load_tops :: "registry \<Rightarrow> (string list \<Rightarrow> string) \<Rightarrow> string list \<Rightarrow> saved_top list \<Rightarrow> workspace result" where
  "load_tops R uid used [] = Inr []"
| "load_tops R uid used (t # ts) =
     bind_result (load_block R uid None used (st_block t)) (\<lambda>(b, used).
     bind_result (load_tops R uid used ts) (\<lambda>ws.
       Inr (\<lparr>tblock = b, top_x = of_int (st_x t), top_y = of_int (st_y t)\<rparr> # ws)))"

definition serializeWorkspace :: "registry \<Rightarrow> workspace \<Rightarrow> saved_top list option" where
  "serializeWorkspace R ws = save_workspace R ws"

definition loadWorkspace :: "registry \<Rightarrow> (string list \<Rightarrow> string) \<Rightarrow> saved_top list option \<Rightarrow> workspace result" where
  \<comment> \<open>the workspace is cleared first\<close>
  "loadWorkspace R uid state = (case state of None \<Rightarrow> Inr [] | Some ts \<Rightarrow> load_tops R uid [] ts)"

definition init_workspace ::
  "registry \<Rightarrow> (string list \<Rightarrow> string) \<Rightarrow> bool option \<Rightarrow> saved_top list option option \<Rightarrow> workspace result" where
  \<comment> \<open>the option \<open>seed\<close> may be missing; a saved state is an object, so it is truthy even when empty\<close>
  "init_workspace R uid seed savedState =
     (if seed = Some True \<or> (seed \<noteq> Some False \<and> savedState = None) then Inr seedWorkspace
      else case savedState of Some state \<Rightarrow> loadWorkspace R uid state | None \<Rightarrow> Inr [])"

definition rules_saved :: "saved_top list option \<Rightarrow> bool" where
  \<comment> \<open>a saved workspace with blocks of rule types only\<close>
  "rules_saved state = (case state of None \<Rightarrow> True | Some ts \<Rightarrow> list_all (\<lambda>t. rules_state (st_block t)) ts)"

lemma load_tops_page:
  "list_all (\<lambda>t. rules_state (st_block t)) ts \<Longrightarrow>
   load_tops (page_registry O') uid used ts = load_tops rules_registry uid used ts"
  by (induction ts arbitrary: used) (auto simp: load_page_rules bind_result_def split: sum.split)

lemma loadWorkspace_page:
  "rules_saved state \<Longrightarrow> loadWorkspace (page_registry O') uid state = loadWorkspace rules_registry uid state"
  by (auto simp: rules_saved_def loadWorkspace_def load_tops_page split: option.splits)

lemma serializeWorkspace_page:
  assumes "\<forall>t \<in> set ws. wf_block rules_shapes (tblock t)"
  shows "serializeWorkspace (page_registry O') ws = serializeWorkspace rules_registry ws"
    and "rules_saved (serializeWorkspace rules_registry ws)"
  using assms save_page_rules
  by (auto simp: serializeWorkspace_def save_workspace_def rules_saved_def list_all_iff)

lemma root_codes_page:
  "\<forall>b \<in> set bs. wf_block rules_shapes b \<Longrightarrow> root_codes (page_lua G wrap) bs = root_codes (rules_lua wrap) bs"
  by (induction bs) (auto simp: page_lua_rules)

lemma generateLua_rules:
  assumes "\<forall>t \<in> set ws. wf_block rules_shapes (tblock t)"
  shows "\<exists>lua. generateLua (page_lua G wrap) sc ws = Inr lua"
proof -
  have "\<forall>b \<in> set (getTopBlocks sc ws). wf_block rules_shapes b" using assms by (auto simp: getTopBlocks_def)
  then obtain out where "root_codes (page_lua G wrap) (getTopBlocks sc ws) = Inr out"
    using root_codes_total root_codes_page by metis
  then show ?thesis by (simp add: generateLua_def)
qed

lemma load_tops_wf:
  "load_tops rules_registry uid used ts = Inr ws \<Longrightarrow> \<forall>t \<in> set ws. wf_block rules_shapes (tblock t)"
proof (induction ts arbitrary: used ws)
  case (Cons t ts)
  then obtain b used' ws' where b: "load_block rules_registry uid None used (st_block t) = Inr (b, used')"
    and ws': "load_tops rules_registry uid used' ts = Inr ws'" "ws = \<lparr>tblock = b, top_x = of_int (st_x t), top_y = of_int (st_y t)\<rparr> # ws'"
    by (auto simp: bind_result_Inr_iff)
  have "wf_block rules_shapes b" using rules_reg.load_wf(1) [OF b] by simp
  with Cons.IH [OF ws'(1)] ws'(2) show ?case by simp
qed simp

lemma loadWorkspace_wf:
  "loadWorkspace (page_registry O') uid state = Inr ws \<Longrightarrow> rules_saved state \<Longrightarrow>
   \<forall>t \<in> set ws. wf_block rules_shapes (tblock t)"
  unfolding loadWorkspace_page using load_tops_wf by (auto simp: loadWorkspace_def split: option.splits)

lemma seedWorkspace_wf: "\<forall>t \<in> set seedWorkspace. wf_block rules_shapes (tblock t)"
  by (simp add: seedWorkspace_top seed_root_wf)

lemma init_workspace_wf:
  assumes "init_workspace (page_registry O') uid seed savedState = Inr ws"
    and "\<And>state. savedState = Some state \<Longrightarrow> rules_saved state"
  shows "\<forall>t \<in> set ws. wf_block rules_shapes (tblock t)"
  using assms loadWorkspace_wf seedWorkspace_wf
  by (auto simp: init_workspace_def split: if_splits option.splits)

definition placed :: "top_block \<Rightarrow> bool" where
  \<comment> \<open>coordinates are whole pixels\<close>
  "placed t \<longleftrightarrow> top_x t \<in> \<int> \<and> top_y t \<in> \<int>"

definition sound_workspace :: "workspace \<Rightarrow> bool" where
  "sound_workspace ws \<longleftrightarrow>
     list_all (\<lambda>t. wf_block rules_shapes (tblock t) \<and> comments_ok (tblock t) \<and> placed t) ws \<and>
     distinct (concat (map (block_ids \<circ> tblock) ws)) \<and> '''' \<notin> set (concat (map (block_ids \<circ> tblock) ws))"

lemma js_round_int: "x \<in> \<int> \<Longrightarrow> of_int (js_round x) = x"
proof (elim Ints_cases)
  fix k assume "x = of_int k"
  moreover have "\<lfloor>of_int k + 1 / 2 :: rat\<rfloor> = k" by linarith
  ultimately show ?thesis by (simp add: js_round_def)
qed

lemma load_saved_tops:
  assumes "list_all (\<lambda>t. wf_block rules_shapes (tblock t) \<and> comments_ok (tblock t) \<and> placed t) ws"
    and "distinct (used @ concat (map (block_ids \<circ> tblock) ws))"
    and "'''' \<notin> set (concat (map (block_ids \<circ> tblock) ws))"
  shows "load_tops rules_registry uid used (map (\<lambda>t. \<lparr>st_block = save_block rules_registry (tblock t),
    st_x = js_round (top_x t), st_y = js_round (top_y t)\<rparr>) ws) = Inr ws"
  using assms
proof (induction ws arbitrary: used)
  case (Cons t ws)
  have b: "load_block rules_registry uid None used (save_block rules_registry (tblock t)) =
      Inr (tblock t, used @ block_ids (tblock t))"
    by (rule rules_reg.load_saved_block) (use Cons.prems in \<open>auto simp: connects_def\<close>)
  have "load_tops rules_registry uid (used @ block_ids (tblock t)) (map (\<lambda>t. \<lparr>st_block =
      save_block rules_registry (tblock t), st_x = js_round (top_x t), st_y = js_round (top_y t)\<rparr>) ws) = Inr ws"
    by (rule Cons.IH) (use Cons.prems in auto)
  with b Cons.prems(1) show ?case by (simp add: placed_def js_round_int)
qed simp

text \<open>
  C27. Saving a workspace and loading it again gives the same workspace: for every workspace of rules that the editor
  can hold (blocks fit together, ids are unique, blocks stand on whole pixels, no empty comment
  bubbles) \<open>loadWorkspace\<close> of \<open>serializeWorkspace\<close> restores every block with its id, fields,
  comment, enabled state, the inputs of \<open>controls_if\<close> and all connections, whatever other block types the page
  has registered.
\<close>

theorem workspace_roundtrip:
  assumes "sound_workspace ws"
  shows "loadWorkspace (page_registry others) uid (serializeWorkspace (page_registry others) ws) = Inr ws"
proof -
  have wf: "\<forall>t \<in> set ws. wf_block rules_shapes (tblock t)"
    using assms by (simp add: sound_workspace_def list_all_iff)
  show ?thesis
    unfolding serializeWorkspace_page(1) [OF wf] loadWorkspace_page [OF serializeWorkspace_page(2) [OF wf]]
    using load_saved_tops [of ws "[]" uid] assms
    by (simp add: sound_workspace_def loadWorkspace_def serializeWorkspace_def save_workspace_def)
qed

theorem workspace_roundtrip_witness:
  "seedWorkspace \<noteq> [] \<and>
   loadWorkspace (page_registry rules_registry) concat (serializeWorkspace (page_registry rules_registry) seedWorkspace) =
     Inr seedWorkspace"
proof
  show "seedWorkspace \<noteq> []" by (simp add: seedWorkspace_top)
  show "loadWorkspace (page_registry rules_registry) concat
      (serializeWorkspace (page_registry rules_registry) seedWorkspace) = Inr seedWorkspace"
    by (rule workspace_roundtrip)
      (simp add: sound_workspace_def seedWorkspace_top seed_root_wf placed_def, simp add: seed_root_eq)
qed

text \<open>
  C28. However the editor is started, with the starter rules, empty, or from any saved state whose blocks are of the rule
  types (rule blocks and blocks of the toolbox), either loading reports an error or every block on the canvas
  is well-formed and the Lua file can be generated, whatever other block types and generators the page has registered. Such a
  state cannot smuggle in a value that a field would refuse or a connection that the checker would refuse. The condition on
  the types is needed: the page also registers the standard blocks, a saved state with one of them loads, and
  generating its code can throw, since \<open>generateLua\<close> never calls the generator's \<open>init\<close>.
\<close>

theorem started_editor_generates:
  assumes "init_workspace (page_registry others) uid seed savedState = Inr ws"
    and "\<And>state. savedState = Some state \<Longrightarrow> rules_saved state"
  shows "(\<forall>t \<in> set ws. wf_block rules_shapes (tblock t)) \<and>
    (\<exists>lua. generateLua (page_lua gens wrap) sc ws = Inr lua)"
  using init_workspace_wf [OF assms] generateLua_rules by blast

definition tampered :: saved_top where
  \<comment> \<open>a threshold out of range, an operator that the dropdown does not have\<close>
  "tampered = \<lparr>st_block = BState ''thesada_if_temp'' None True (0, False) None
     [(''OP'', FText ''or true or''), (''THRESH'', FNum 99999)] [] None, st_x = 0, st_y = 0\<rparr>"

definition list_repeat_registry :: registry where
  \<comment> \<open>the standard block \<open>lists_repeat\<close>, which has no fields\<close>
  "list_repeat_registry =
     \<lparr>reg_shape = (\<lambda>ty ns. if ty = ''lists_repeat'' then Some (empty_shape\<lparr>
          sh_inputs := [(''ITEM'', VALUE, None), (''NUM'', VALUE, Some [''Number''])],
          sh_output := Some (Some [''Array''])\<rparr>) else None),
      reg_names = (\<lambda>ty ex. [''ITEM'', ''NUM'']), reg_extra = (\<lambda>ty ns. (0, False))\<rparr>"

definition list_repeat_lua :: lua_generator where
  \<comment> \<open>its generator asks for a helper function, and there is no name database before \<open>init\<close>\<close>
  "list_repeat_lua =
     \<lparr>forBlock = (\<lambda>ty. if ty = ''lists_repeat''
          then Some (\<lambda>fs ins. Inl (TypeError ''Cannot read properties of undefined'')) else None),
      has_output = (\<lambda>ty. ty = ''lists_repeat''), wrap_text = id\<rparr>"

definition with_standard_block :: saved_top where
  "with_standard_block =
     \<lparr>st_block = BState ''thesada_rules_root'' None True (0, False) None [] [BConn ''BODY''
        (BState ''controls_if'' None True (0, False) None [] [BConn ''IF0''
           (BState ''logic_compare'' None True (0, False) None [] [BConn ''A''
              (BState ''lists_repeat'' None True (0, False) None [] [] None)] None)] None)] None,
      st_x = 0, st_y = 0\<rparr>"

theorem started_editor_generates_witness:
  "\<exists>b. init_workspace (page_registry list_repeat_registry) (\<lambda>u. ''x'') (Some False) (Some (Some [tampered])) =
       Inr [\<lparr>tblock = b, top_x = 0, top_y = 0\<rparr>] \<and>
     getFieldValue (block.fields b) ''OP'' = Some (FText ''>='') \<and>
     getFieldValue (block.fields b) ''THRESH'' = Some (FNum 5000) \<and>
     (\<exists>lua. generateLua (page_lua list_repeat_lua id) (1/20) [\<lparr>tblock = b, top_x = 0, top_y = 0\<rparr>] = Inr lua)"
proof -
  let ?b = "Block ''thesada_if_temp'' ''x'' True None [(''SENSOR'', FText ''supply''), (''OP'', FText ''>=''),
    (''THRESH'', FNum 5000), (''SUSTAIN'', FText ''YES'')] [Input ''DO'' STATEMENT None] None"
  have ty: "rules_type ''thesada_if_temp''" by (simp add: rules_type_def rule_types_def)
  have i: "init_workspace (page_registry list_repeat_registry) (\<lambda>u. ''x'') (Some False) (Some (Some [tampered])) =
      Inr [\<lparr>tblock = ?b, top_x = 0, top_y = 0\<rparr>]"
    using ty by (simp add: init_workspace_def loadWorkspace_def tampered_def page_registry_def rules_registry_def
        shape_defs new_id_def tryToConnectParent_def loadFields_def setValue_def doClassValidation_def
        number_value_def Let_def)
  have s: "rules_saved state" if "Some (Some [tampered]) = Some state" for state
    using that ty by (auto simp: rules_saved_def tampered_def)
  show ?thesis
    by (intro exI [of _ ?b])
      (use i started_editor_generates [OF i s, of list_repeat_lua id "1/20"] in \<open>simp add: getFieldValue_def\<close>)
qed

text \<open>
  Without the condition on the types: a saved rule whose condition compares a list loads without an error, and
  the generator throws.
\<close>

lemma standard_block_throws:
  "\<exists>ws e. init_workspace (page_registry list_repeat_registry) (\<lambda>u. ''x'' @ concat u) (Some False)
       (Some (Some [with_standard_block])) = Inr ws \<and>
     generateLua (page_lua list_repeat_lua id) (1/20) ws = Inl e"
proof -
  have ty: "rules_type ''thesada_rules_root''" "rules_type ''controls_if''" "rules_type ''logic_compare''"
    "\<not> rules_type ''lists_repeat''"
    by (simp_all add: rules_type_def rule_types_def value_types_def)
  have names: "controls_if_names 0 False = [''IF0'', ''DO0'']" by code_simp
  have shape: "controls_if_shape [''IF0'', ''DO0''] =
      Some (empty_shape\<lparr>sh_previous := Some None, sh_next := Some None,
        sh_inputs := [(''IF0'', VALUE, Some [''Boolean'']), (''DO0'', STATEMENT, None)]\<rparr>)"
    by code_simp
  let ?list = "Block ''lists_repeat'' ''xxxxxxxx'' True None [] [Input ''ITEM'' VALUE None, Input ''NUM'' VALUE None] None"
  let ?cmp = "Block ''logic_compare'' ''xxxx'' True None [(''OP'', FText ''EQ'')]
    [Input ''A'' VALUE (Some ?list), Input ''B'' VALUE None] None"
  let ?if = "Block ''controls_if'' ''xx'' True None [] [Input ''IF0'' VALUE (Some ?cmp), Input ''DO0'' STATEMENT None] None"
  let ?root = "Block ''thesada_rules_root'' ''x'' True None [] [Input ''BODY'' STATEMENT (Some ?if)] None"
  have "init_workspace (page_registry list_repeat_registry) (\<lambda>u. ''x'' @ concat u) (Some False)
       (Some (Some [with_standard_block])) = Inr [\<lparr>tblock = ?root, top_x = 0, top_y = 0\<rparr>]"
    using ty by (simp add: init_workspace_def loadWorkspace_def with_standard_block_def page_registry_def rules_registry_def
        list_repeat_registry_def names shape shape_defs new_id_def tryToConnectParent_def loadFields_def setValue_def
        doTypeChecks_def Let_def)
  moreover have "generateLua (page_lua list_repeat_lua id) (1/20) [\<lparr>tblock = ?root, top_x = 0, top_y = 0\<rparr>] =
      Inl (TypeError ''Cannot read properties of undefined'')"
    by code_simp
  ultimately show ?thesis by blast
qed

end
