(* ===== verification/Rules_Page.thy ===== *)
theory Rules_Page
  imports Blockly_Serial
begin

text \<open>
  The rules page (script of \<open>admin-device-rules.html\<close>): restoring the saved workspace, the lock
  around writes, and the chain of requests that saves, pushes and reloads a rules file. A
  promise chain is a \<open>task\<close>: what it waits for next. The server's replies are inputs; \<open>None\<close>
  is a rejected fetch or a body that is not JSON. The state keeps the requests and replies of the
  guarded chain in a log, newest first.
\<close>

section \<open>Requests, replies and tasks\<close>

datatype req =
    SaveReq "saved_top list option" string string  \<comment> \<open>state, Lua text, source\<close>
  | WriteReq string string  \<comment> \<open>path, content\<close>
  | CmdReq string
  | PollReq string
  | TemplateReq string "saved_top list option" string
  | TemplateListReq

record reply =
  r_ok :: bool
  request_id :: string  \<comment> \<open>empty when missing\<close>
  timeout_seconds :: int  \<comment> \<open>0 when missing\<close>
  r_status :: string
  device_ok :: bool  \<comment> \<open>\<open>res.response && res.response.ok === true\<close>\<close>

datatype traffic = Sent req | Got "reply option"

datatype task =
    NoTask
  | Saving
  | PushSaving string bool  \<comment> \<open>the Lua text, reload afterwards\<close>
  | PushWriting bool
  | PushPolling string int bool  \<comment> \<open>request id, deadline\<close>
  | Reloading
  | ReloadPolling string int
  | TemplateSaving
  | TemplateListing

definition final_status :: "reply \<Rightarrow> bool" where
  "final_status r \<longleftrightarrow> r_status r \<in> {''done'', ''error'', ''timeout'', ''expired''}"

definition assertDeviceOK :: "reply \<Rightarrow> bool" where
  \<comment> \<open>whether it returns without throwing\<close>
  "assertDeviceOK r \<longleftrightarrow> r_status r = ''done'' \<and> device_ok r"

definition poll_deadline :: "int \<Rightarrow> int \<Rightarrow> reply \<Rightarrow> int" where
  \<comment> \<open>\<open>enq.timeout_seconds || cliTimeoutSeconds\<close>\<close>
  "poll_deadline cli now r = now + (if timeout_seconds r = 0 then cli else timeout_seconds r) * 1000"

definition advance :: "int \<Rightarrow> string \<Rightarrow> int \<Rightarrow> reply option \<Rightarrow> task \<Rightarrow> task \<times> req list" where
  \<comment> \<open>the reply to the last request of a chain arrives at time \<open>now\<close>: the rest of the chain and the
    next request; an error goes to the \<open>catch\<close> and ends the chain\<close>
  "advance cli path now reply t =
     (case reply of
        None \<Rightarrow> (NoTask, [])
      | Some r \<Rightarrow>
          (case t of
             NoTask \<Rightarrow> (NoTask, [])
           | Saving \<Rightarrow> (NoTask, [])
           | PushSaving lua rl \<Rightarrow> if r_ok r then (PushWriting rl, [WriteReq path lua]) else (NoTask, [])
           | PushWriting rl \<Rightarrow>
               if request_id r = '''' then (NoTask, [])
               else (PushPolling (request_id r) (poll_deadline cli now r) rl, [PollReq (request_id r)])
           | PushPolling rid dl rl \<Rightarrow>
               if final_status r then
                 (if \<not> assertDeviceOK r then (NoTask, [])
                  else if rl then (Reloading, [CmdReq ''lua.reload'']) else (NoTask, []))
               else if now > dl then (NoTask, [])
               else (t, [PollReq rid])
           | Reloading \<Rightarrow>
               if request_id r = '''' then (NoTask, [])
               else (ReloadPolling (request_id r) (poll_deadline cli now r), [PollReq (request_id r)])
           | ReloadPolling rid dl \<Rightarrow>
               if final_status r \<or> now > dl then (NoTask, []) else (t, [PollReq rid])
           | TemplateSaving \<Rightarrow> if r_ok r then (TemplateListing, [TemplateListReq]) else (NoTask, [])
           | TemplateListing \<Rightarrow> (NoTask, [])))"

section \<open>The page\<close>

record rules_page =
  canvas :: "workspace option"  \<comment> \<open>\<open>workspace\<close>; none until the page has loaded\<close>
  writesAllowed :: bool
  writeBusy :: bool
  write_controls :: bool  \<comment> \<open>the write buttons are enabled\<close>
  starter_shown :: bool  \<comment> \<open>the button \<open>btn-use-starter\<close> is visible\<close>
  task :: task  \<comment> \<open>the chain that holds the lock\<close>
  log :: "traffic list"
  reload_tasks :: "task list"  \<comment> \<open>chains of \<open>btn-reload\<close>, which takes no lock\<close>

definition page_start :: rules_page where
  "page_start = \<lparr>canvas = None, writesAllowed = True, writeBusy = False, write_controls = True,
     starter_shown = False, task = NoTask, log = [], reload_tasks = []\<rparr>"

definition beginWrite :: "rules_page \<Rightarrow> (bool \<times> rules_page)" where
  "beginWrite p =
     (if \<not> writesAllowed p \<or> writeBusy p then (False, p)
      else (True, p\<lparr>writeBusy := True, write_controls := False\<rparr>))"

definition endWrite :: "rules_page \<Rightarrow> rules_page" where
  "endWrite p =
     (let p = p\<lparr>writeBusy := False\<rparr> in if writesAllowed p then p\<lparr>write_controls := True\<rparr> else p)"

definition send :: "req \<Rightarrow> task \<Rightarrow> rules_page \<Rightarrow> rules_page" where
  "send q t p = p\<lparr>task := t, log := Sent q # log p\<rparr>"

definition is_blank :: "string \<Rightarrow> bool" where
  \<comment> \<open>\<open>!s.trim()\<close>, on ASCII white space\<close>
  "is_blank s \<longleftrightarrow> list_all (\<lambda>c. (of_char c :: nat) \<in> {9, 10, 11, 12, 13, 32}) s"

definition click_save :: "registry \<Rightarrow> lua_generator \<Rightarrow> rat \<Rightarrow> rules_page \<Rightarrow> rules_page" where
  \<comment> \<open>an exception of the generator leaves the handler after \<open>beginWrite\<close>\<close>
  "click_save R G sc p =
     (case canvas p of
        None \<Rightarrow> p
      | Some ws \<Rightarrow>
          (let (ok, p) = beginWrite p
           in if \<not> ok then p
              else (case generateLua G sc ws of
                      Inl e \<Rightarrow> p
                    | Inr lua \<Rightarrow> send (SaveReq (serializeWorkspace R ws) lua ''editor'') Saving p)))"

definition pushRules :: "registry \<Rightarrow> lua_generator \<Rightarrow> rat \<Rightarrow> bool \<Rightarrow> rules_page \<Rightarrow> rules_page" where
  "pushRules R G sc thenReload p =
     (case canvas p of
        None \<Rightarrow> p
      | Some ws \<Rightarrow>
          (case generateLua G sc ws of
             Inl e \<Rightarrow> p
           | Inr lua \<Rightarrow>
               if is_blank lua then p
               else (let (ok, p) = beginWrite p
                     in if \<not> ok then p
                        else send (SaveReq (serializeWorkspace R ws) lua ''push'') (PushSaving lua thenReload) p)))"

definition click_save_template ::
  "registry \<Rightarrow> lua_generator \<Rightarrow> rat \<Rightarrow> string \<Rightarrow> rules_page \<Rightarrow> rules_page" where
  "click_save_template R G sc name p =
     (case canvas p of
        None \<Rightarrow> p
      | Some ws \<Rightarrow>
          if is_blank name then p
          else (let (ok, p) = beginWrite p
                in if \<not> ok then p
                   else (case generateLua G sc ws of
                           Inl e \<Rightarrow> p
                         | Inr lua \<Rightarrow> send (TemplateReq name (serializeWorkspace R ws) lua) TemplateSaving p)))"

definition got_reply :: "int \<Rightarrow> string \<Rightarrow> int \<Rightarrow> reply option \<Rightarrow> rules_page \<Rightarrow> rules_page" where
  \<comment> \<open>a reply for the chain that holds the lock; the chain ends with \<open>finally(endWrite)\<close>\<close>
  "got_reply cli path now r p =
     (if task p = NoTask then p
      else (let (t, qs) = advance cli path now r (task p);
                p = p\<lparr>task := t, log := map Sent (rev qs) @ Got r # log p\<rparr>
            in if t = NoTask then endWrite p else p))"

definition click_reload :: "rules_page \<Rightarrow> rules_page" where
  "click_reload p = (if canvas p = None then p else p\<lparr>reload_tasks := Reloading # reload_tasks p\<rparr>)"

definition got_reload_reply :: "int \<Rightarrow> string \<Rightarrow> int \<Rightarrow> reply option \<Rightarrow> nat \<Rightarrow> rules_page \<Rightarrow> rules_page" where
  "got_reload_reply cli path now r i p =
     (if i < length (reload_tasks p)
      then p\<lparr>reload_tasks := (reload_tasks p)[i := fst (advance cli path now r (reload_tasks p ! i))]\<rparr>
      else p)"

definition click_use_starter :: "rules_page \<Rightarrow> rules_page" where
  "click_use_starter p =
     (if starter_shown p
      then p\<lparr>writesAllowed := True, write_controls := True, starter_shown := False\<rparr> else p)"

datatype restore =
    RestoreFailed  \<comment> \<open>no answer, or a saved workspace that is not JSON\<close>
  | Restored "saved_top list option option"  \<comment> \<open>the saved state, if there is one\<close>

definition restore_failed :: "rules_page \<Rightarrow> rules_page" where
  "restore_failed p =
     p\<lparr>canvas := Some seedWorkspace, writesAllowed := False, write_controls := False, starter_shown := True\<rparr>"

definition page_loaded ::
  "registry \<Rightarrow> lua_generator \<Rightarrow> rat \<Rightarrow> (string list \<Rightarrow> string) \<Rightarrow> restore \<Rightarrow> rules_page \<Rightarrow> rules_page" where
  \<comment> \<open>\<open>wireWorkspace\<close> ends with \<open>refreshPreview\<close>, whose exception also goes to the \<open>catch\<close>; that the
    listeners are then added to the buttons a second time is not part of the state\<close>
  "page_loaded R G sc uid res p =
     (case res of
        RestoreFailed \<Rightarrow> restore_failed p
      | Restored saved \<Rightarrow>
          (case init_workspace R uid (Some (saved = None)) saved of
             Inl e \<Rightarrow> restore_failed p
           | Inr ws \<Rightarrow>
               (case generateLua G sc ws of
                  Inl e \<Rightarrow> restore_failed p
                | Inr lua \<Rightarrow> p\<lparr>canvas := Some ws\<rparr>)))"

definition load_template ::
  "registry \<Rightarrow> (string list \<Rightarrow> string) \<Rightarrow> saved_top list option \<Rightarrow> workspace \<Rightarrow> rules_page \<Rightarrow> rules_page" where
  \<comment> \<open>\<open>rest\<close>: what a load that fails leaves on the cleared canvas\<close>
  "load_template R uid state rest p =
     (case canvas p of
        None \<Rightarrow> p
      | Some ws \<Rightarrow> p\<lparr>canvas := Some (case loadWorkspace R uid state of Inr ws' \<Rightarrow> ws' | Inl e \<Rightarrow> rest)\<rparr>)"

definition edit :: "workspace \<Rightarrow> rules_page \<Rightarrow> rules_page" where
  "edit ws p = (if canvas p = None then p else p\<lparr>canvas := Some ws\<rparr>)"

section \<open>The page as a state machine\<close>

text \<open>
  The parameters are the block types and generators that are registered beside the rule types, the comment wrapper
  and the scan angle of the generator, the id generator, the default timeout and the path of the rules file.
  The workspace that the user edits stays well-formed, and the states that the server sends
  (the saved workspace, a template) name only blocks of rule types: what the page itself saves. For a
  state with other standard blocks, which only a request made by other means can have stored,
  \<open>throwing_generator_keeps_lock\<close> shows what goes wrong.
\<close>

record page_config =
  s_others :: registry
  s_gens :: lua_generator
  s_wrap :: "string \<Rightarrow> string"
  s_sc :: rat
  s_uid :: "string list \<Rightarrow> string"
  s_cli :: int
  s_path :: string

abbreviation page_reg :: "page_config \<Rightarrow> registry" where
  "page_reg S \<equiv> page_registry (s_others S)"

abbreviation page_gen :: "page_config \<Rightarrow> lua_generator" where
  "page_gen S \<equiv> page_lua (s_gens S) (s_wrap S)"

definition wf_workspace :: "workspace \<Rightarrow> bool" where
  "wf_workspace ws \<longleftrightarrow> (\<forall>t \<in> set ws. wf_block rules_shapes (tblock t))"

definition rules_restore :: "restore \<Rightarrow> bool" where
  "rules_restore res = (case res of Restored (Some state) \<Rightarrow> rules_saved state | _ \<Rightarrow> True)"

inductive rp_step :: "page_config \<Rightarrow> rules_page \<Rightarrow> rules_page \<Rightarrow> bool" for S where
  loaded: "canvas p = None \<Longrightarrow> rules_restore res \<Longrightarrow>
    rp_step S p (page_loaded (page_reg S) (page_gen S) (s_sc S) (s_uid S) res p)"
| save: "rp_step S p (click_save (page_reg S) (page_gen S) (s_sc S) p)"
| push: "rp_step S p (pushRules (page_reg S) (page_gen S) (s_sc S) rl p)"
| save_template: "rp_step S p (click_save_template (page_reg S) (page_gen S) (s_sc S) name p)"
| reply: "rp_step S p (got_reply (s_cli S) (s_path S) now r p)"
| reload: "rp_step S p (click_reload p)"
| reload_reply: "rp_step S p (got_reload_reply (s_cli S) (s_path S) now r i p)"
| starter: "rp_step S p (click_use_starter p)"
| template: "wf_workspace rest \<Longrightarrow> rules_saved state \<Longrightarrow> rp_step S p (load_template (page_reg S) (s_uid S) state rest p)"
| edited: "wf_workspace ws \<Longrightarrow> rp_step S p (edit ws p)"

inductive rp_reachable :: "page_config \<Rightarrow> rules_page \<Rightarrow> bool" for S where
  start: "rp_reachable S page_start"
| step: "rp_reachable S p \<Longrightarrow> rp_step S p p' \<Longrightarrow> rp_reachable S p'"

definition lock_inv :: "rules_page \<Rightarrow> bool" where
  "lock_inv p \<longleftrightarrow>
     (case canvas p of None \<Rightarrow> task p = NoTask \<and> log p = [] \<and> \<not> starter_shown p \<and> writesAllowed p
      | Some ws \<Rightarrow> wf_workspace ws) \<and>
     (writeBusy p \<longleftrightarrow> task p \<noteq> NoTask) \<and>
     (write_controls p \<longleftrightarrow> writesAllowed p \<and> \<not> writeBusy p) \<and>
     (\<not> writesAllowed p \<longrightarrow> task p = NoTask \<and> log p = []) \<and>
     (starter_shown p \<longrightarrow> \<not> writesAllowed p)"

lemma generateLua_wf: "wf_workspace ws \<Longrightarrow> \<exists>lua. generateLua (page_lua gens wrap) sc ws = Inr lua"
  using generateLua_rules by (simp add: wf_workspace_def)

lemma seed_wf: "wf_workspace seedWorkspace"
  using seedWorkspace_wf by (simp add: wf_workspace_def)

lemma lock_inv_start: "lock_inv page_start"
  by (simp add: lock_inv_def page_start_def)

lemma lock_inv_loaded:
  assumes "lock_inv p" and "canvas p = None" and "rules_restore res"
  shows "lock_inv (page_loaded (page_registry others) G sc uid res p)"
proof (cases res)
  case RestoreFailed
  with assms show ?thesis by (simp add: lock_inv_def page_loaded_def restore_failed_def seed_wf)
next
  case (Restored saved)
  have "wf_workspace ws" if "init_workspace (page_registry others) uid (Some (saved = None)) saved = Inr ws" for ws
    using init_workspace_wf [OF that] assms(3) unfolding Restored rules_restore_def wf_workspace_def
    by (cases saved) simp_all
  with assms Restored show ?thesis
    by (auto simp: lock_inv_def page_loaded_def restore_failed_def seed_wf split: sum.split)
qed

lemma lock_inv_send:
  assumes "lock_inv p" and "canvas p = Some ws" and "beginWrite p = (True, p')" and "t \<noteq> NoTask"
  shows "lock_inv (send q t p')"
  using assms by (auto simp: lock_inv_def send_def beginWrite_def split: if_splits)

lemma lock_inv_clicks:
  assumes "lock_inv p"
  shows "lock_inv (click_save R (page_lua gens wrap) sc p)" "lock_inv (pushRules R (page_lua gens wrap) sc rl p)"
    "lock_inv (click_save_template R (page_lua gens wrap) sc name p)"
proof -
  have wf: "canvas p = Some ws \<Longrightarrow> \<exists>lua. generateLua (page_lua gens wrap) sc ws = Inr lua" for ws
    using assms generateLua_wf by (auto simp: lock_inv_def)
  have beg: "beginWrite p = (False, p) \<or> (\<exists>p'. beginWrite p = (True, p'))" by (auto simp: beginWrite_def)
  show "lock_inv (click_save R (page_lua gens wrap) sc p)"
    using assms wf beg by (fastforce simp: click_save_def split: option.split intro: lock_inv_send)
  show "lock_inv (pushRules R (page_lua gens wrap) sc rl p)"
    using assms wf beg by (fastforce simp: pushRules_def split: option.split sum.split intro: lock_inv_send)
  show "lock_inv (click_save_template R (page_lua gens wrap) sc name p)"
    using assms wf beg by (fastforce simp: click_save_template_def split: option.split intro: lock_inv_send)
qed

lemma lock_inv_reply: "lock_inv p \<Longrightarrow> lock_inv (got_reply cli path now r p)"
  by (auto simp: lock_inv_def got_reply_def endWrite_def Let_def split: prod.split option.splits if_splits)

lemma lock_inv_step: "rp_step S p p' \<Longrightarrow> lock_inv p \<Longrightarrow> lock_inv p'"
proof (induction rule: rp_step.induct)
  case (template rest p state)
  then show ?case
    using loadWorkspace_wf
    by (auto simp: lock_inv_def load_template_def wf_workspace_def split: option.splits sum.splits)
qed (auto intro: lock_inv_loaded lock_inv_clicks lock_inv_reply,
    auto simp: lock_inv_def click_reload_def got_reload_reply_def click_use_starter_def edit_def
      split: option.splits)

lemma lock_inv_reachable: "rp_reachable S p \<Longrightarrow> lock_inv p"
  by (induction rule: rp_reachable.induct) (auto intro: lock_inv_start lock_inv_step)

text \<open>
  C29. A page that could not restore the saved workspace writes nothing until the user opts into the starter
  rules: while the writes are locked no request of a write has ever been sent, and the save, push
  and save-template buttons do nothing. So the starter rules cannot overwrite the device's real rules by accident.
\<close>

theorem locked_page_writes_nothing:
  assumes "rp_reachable S p" and "\<not> writesAllowed p"
  shows "log p = [] \<and> task p = NoTask \<and> \<not> write_controls p \<and>
    click_save R G sc p = p \<and> pushRules R G sc rl p = p \<and> click_save_template R G sc name p = p"
proof -
  have "log p = [] \<and> task p = NoTask \<and> \<not> write_controls p"
    using lock_inv_reachable [OF assms(1)] assms(2) by (simp add: lock_inv_def)
  moreover have "beginWrite p = (False, p)" using assms(2) by (simp add: beginWrite_def)
  ultimately show ?thesis
    by (simp add: click_save_def pushRules_def click_save_template_def split: option.split sum.split)
qed

abbreviation sample_reg :: registry where "sample_reg \<equiv> page_registry list_repeat_registry"

abbreviation sample_gen :: lua_generator where "sample_gen \<equiv> page_lua list_repeat_lua id"

definition sample_config :: page_config where
  "sample_config = \<lparr>s_others = list_repeat_registry, s_gens = list_repeat_lua, s_wrap = id, s_sc = 1/20, s_uid = concat, s_cli = 30, s_path = ''/scripts/rules.lua''\<rparr>"

definition locked_page :: rules_page where
  "locked_page = page_loaded sample_reg sample_gen (1/20) concat RestoreFailed page_start"

lemma locked_page_reachable: "rp_reachable sample_config locked_page"
proof -
  have "rp_step sample_config page_start (page_loaded (page_reg sample_config) (page_gen sample_config) (s_sc sample_config)
      (s_uid sample_config) RestoreFailed page_start)"
    by (rule rp_step.loaded) (simp_all add: page_start_def rules_restore_def)
  then show ?thesis
    using rp_reachable.step [OF rp_reachable.start] by (simp add: locked_page_def sample_config_def)
qed

theorem locked_page_writes_nothing_witness:
  "log locked_page = [] \<and> task locked_page = NoTask \<and> \<not> write_controls locked_page \<and>
   click_save sample_reg sample_gen (1/20) locked_page = locked_page \<and> pushRules sample_reg sample_gen (1/20) True locked_page = locked_page \<and>
   click_save_template sample_reg sample_gen (1/20) ''t'' locked_page = locked_page"
  by (rule locked_page_writes_nothing [OF locked_page_reachable])
    (simp add: locked_page_def page_loaded_def restore_failed_def)

section \<open>One write at a time\<close>

definition is_sent :: "traffic \<Rightarrow> bool" where
  "is_sent e = (case e of Sent q \<Rightarrow> True | Got r \<Rightarrow> False)"

lemma is_sent_simps [simp]: "is_sent (Sent q)" "\<not> is_sent (Got r)"
  by (simp_all add: is_sent_def)

definition outstanding :: "rules_page \<Rightarrow> int" where
  "outstanding p = int (length (filter is_sent (log p))) - int (length (filter (Not \<circ> is_sent) (log p)))"

lemma advance_requests:
  "advance cli path now r t = (t', qs) \<Longrightarrow> length qs = (if t' = NoTask then 0 else 1)"
  by (cases t) (auto simp: advance_def split: option.splits if_splits)

definition starts_write :: "page_config \<Rightarrow> rules_page \<Rightarrow> rules_page \<Rightarrow> bool" where
  \<comment> \<open>a click has taken the lock and sent the first request of a chain, made from the canvas\<close>
  "starts_write S p p' \<longleftrightarrow>
     task p = NoTask \<and> task p' \<noteq> NoTask \<and> (\<exists>ws lua q. canvas p = Some ws \<and>
       generateLua (page_gen S) (s_sc S) ws = Inr lua \<and> log p' = Sent q # log p \<and>
       (q = SaveReq (serializeWorkspace (page_reg S) ws) lua ''editor'' \<and> task p' = Saving \<or>
        (\<exists>rl. q = SaveReq (serializeWorkspace (page_reg S) ws) lua ''push'' \<and> task p' = PushSaving lua rl) \<or>
        (\<exists>name. q = TemplateReq name (serializeWorkspace (page_reg S) ws) lua \<and> task p' = TemplateSaving)))"

lemma click_effect:
  assumes "lock_inv p" and "p' = click_save (page_reg S) (page_gen S) (s_sc S) p \<or> p' = pushRules (page_reg S) (page_gen S) (s_sc S) rl p \<or>
    p' = click_save_template (page_reg S) (page_gen S) (s_sc S) name p"
  shows "p' = p \<or> starts_write S p p'"
proof -
  have beg: "beginWrite p = (False, p) \<or> (task p = NoTask \<and>
      beginWrite p = (True, p\<lparr>writeBusy := True, write_controls := False\<rparr>))"
    using assms(1) by (auto simp: beginWrite_def lock_inv_def)
  show ?thesis
  proof (cases "canvas p")
    case None
    with assms(2) show ?thesis by (auto simp: click_save_def pushRules_def click_save_template_def)
  next
    case (Some ws)
    with assms(1) have "wf_workspace ws" by (simp add: lock_inv_def)
    then obtain lua where lua: "generateLua (page_gen S) (s_sc S) ws = Inr lua"
      using generateLua_wf by blast
    from beg show ?thesis
      using assms(2)
      by (elim disjE) (auto simp: click_save_def pushRules_def click_save_template_def Some lua send_def starts_write_def)
  qed
qed

lemma rp_step_effect:
  assumes "rp_step S p p'" and "lock_inv p"
  shows "(task p' = task p \<and> log p' = log p) \<or> starts_write S p p' \<or>
    (\<exists>now r. p' = got_reply (s_cli S) (s_path S) now r p)"
  using assms
proof (cases rule: rp_step.cases)
  case (loaded res)
  then show ?thesis by (auto simp: page_loaded_def restore_failed_def split: restore.split sum.split)
next
  case save
  then show ?thesis using click_effect [OF assms(2), of p' S] by auto
next
  case (push rl)
  then show ?thesis using click_effect [OF assms(2), of p' S rl] by auto
next
  case (save_template name)
  then show ?thesis using click_effect [OF assms(2), of p' S _ name] by auto
qed (auto simp: click_reload_def got_reload_reply_def click_use_starter_def edit_def load_template_def
    split: option.split)

lemma got_reply_log:
  assumes "task p \<noteq> NoTask" and "advance cli path now r (task p) = (t, qs)"
  shows "task (got_reply cli path now r p) = t"
    and "log (got_reply cli path now r p) = map Sent (rev qs) @ Got r # log p"
  using assms by (auto simp: got_reply_def endWrite_def Let_def)

definition log_inv :: "rules_page \<Rightarrow> bool" where
  "log_inv p \<longleftrightarrow> outstanding p = (if task p = NoTask then 0 else 1)"

lemma log_inv_reply: "log_inv p \<Longrightarrow> log_inv (got_reply cli path now r p)"
proof (cases "task p = NoTask")
  case True
  then show "log_inv p \<Longrightarrow> ?thesis" by (simp add: got_reply_def)
next
  case False
  assume inv: "log_inv p"
  obtain t qs where a: "advance cli path now r (task p) = (t, qs)" by fastforce
  have s: "filter is_sent (map Sent (rev qs)) = map Sent (rev qs)" "filter (Not \<circ> is_sent) (map Sent (rev qs)) = []"
    by (auto simp: filter_empty_conv filter_id_conv)
  show ?thesis
    using inv advance_requests [OF a] s False
    unfolding log_inv_def outstanding_def got_reply_log [OF False a] filter_append by simp
qed

lemma log_inv_reachable: "rp_reachable S p \<Longrightarrow> log_inv p"
proof (induction rule: rp_reachable.induct)
  case start
  then show ?case by (simp add: log_inv_def outstanding_def page_start_def)
next
  case (step p p')
  have "task p' = task p \<and> log p' = log p \<Longrightarrow> log_inv p'" "starts_write S p p' \<Longrightarrow> log_inv p'"
    using step.IH by (auto simp: log_inv_def outstanding_def starts_write_def)
  with rp_step_effect [OF step.hyps(2) lock_inv_reachable [OF step.hyps(1)]] log_inv_reply [OF step.IH]
  show ?case by blast
qed

text \<open>
  C30. One write at a time: in every reachable state the lock is held exactly while a chain of requests is running,
  the write buttons are enabled exactly when writes are allowed and the lock is free, at most one request
  of a guarded chain is unanswered, and while the lock is held clicking a write button changes nothing.
\<close>

theorem one_write_at_a_time:
  assumes "rp_reachable S p"
  shows "(writeBusy p \<longleftrightarrow> task p \<noteq> NoTask) \<and> (write_controls p \<longleftrightarrow> writesAllowed p \<and> \<not> writeBusy p) \<and>
    outstanding p = (if writeBusy p then 1 else 0) \<and>
    (writeBusy p \<longrightarrow> click_save R G sc p = p \<and> pushRules R G sc rl p = p \<and> click_save_template R G sc name p = p)"
proof -
  have inv: "(writeBusy p \<longleftrightarrow> task p \<noteq> NoTask) \<and> (write_controls p \<longleftrightarrow> writesAllowed p \<and> \<not> writeBusy p)"
    using lock_inv_reachable [OF assms] by (simp add: lock_inv_def)
  moreover have "outstanding p = (if writeBusy p then 1 else 0)"
    using log_inv_reachable [OF assms] inv by (simp add: log_inv_def)
  moreover have "writeBusy p \<Longrightarrow> beginWrite p = (False, p)" by (simp add: beginWrite_def)
  ultimately show ?thesis
    by (simp add: click_save_def pushRules_def click_save_template_def split: option.split sum.split)
qed

definition pushing_page :: rules_page where
  "pushing_page = pushRules sample_reg sample_gen (1/20) True (page_loaded sample_reg sample_gen (1/20) concat (Restored None) page_start)"

lemma pushing_page_reachable: "rp_reachable sample_config pushing_page"
proof -
  have "rp_step sample_config page_start (page_loaded (page_reg sample_config) (page_gen sample_config) (s_sc sample_config)
      (s_uid sample_config) (Restored None) page_start)"
    by (rule rp_step.loaded) (simp_all add: page_start_def rules_restore_def)
  from rp_reachable.step [OF rp_reachable.step [OF rp_reachable.start this] rp_step.push [of _ _ True]]
  show ?thesis by (simp add: pushing_page_def sample_config_def)
qed

theorem one_write_at_a_time_witness:
  "outstanding pushing_page = (if writeBusy pushing_page then 1 else 0) \<and>
   (writeBusy pushing_page \<longleftrightarrow> task pushing_page \<noteq> NoTask)"
  using one_write_at_a_time [OF pushing_page_reachable] by blast

section \<open>Order of a push\<close>

definition is_poll :: "traffic \<Rightarrow> bool" where
  "is_poll e = (case e of Sent (PollReq i) \<Rightarrow> True | Sent q \<Rightarrow> False | Got r \<Rightarrow> True)"

definition last_request :: "traffic list \<Rightarrow> traffic option" where
  \<comment> \<open>the newest request that is not a poll\<close>
  "last_request es = find (\<lambda>e. \<not> is_poll e) es"

lemma last_request_simps [simp]:
  "last_request (Got r # es) = last_request es" "last_request (Sent (PollReq i) # es) = last_request es"
  "last_request (Sent (WriteReq a b) # es) = Some (Sent (WriteReq a b))"
  by (simp_all add: last_request_def is_poll_def)

definition from_canvas :: "page_config \<Rightarrow> saved_top list option \<Rightarrow> string \<Rightarrow> bool" where
  \<comment> \<open>the saved state and the Lua text come from the same workspace\<close>
  "from_canvas S st lua \<longleftrightarrow> (\<exists>ws. st = serializeWorkspace (page_reg S) ws \<and> generateLua (page_gen S) (s_sc S) ws = Inr lua)"

definition sent_ok :: "page_config \<Rightarrow> req \<Rightarrow> traffic list \<Rightarrow> bool" where
  \<comment> \<open>what must have happened before a request\<close>
  "sent_ok S q es =
     (case q of
        SaveReq st lua src \<Rightarrow> from_canvas S st lua
      | WriteReq path c \<Rightarrow> path = s_path S \<and>
          (\<exists>r st zs. es = Got (Some r) # Sent (SaveReq st c ''push'') # zs \<and> r_ok r)
      | CmdReq x \<Rightarrow> (\<exists>r zs c. es = Got (Some r) # zs \<and> assertDeviceOK r \<and>
          last_request zs = Some (Sent (WriteReq (s_path S) c)))
      | _ \<Rightarrow> True)"

fun log_ok :: "page_config \<Rightarrow> traffic list \<Rightarrow> bool" where
  "log_ok S [] = True"
| "log_ok S (Sent q # es) = (sent_ok S q es \<and> log_ok S es)"
| "log_ok S (Got r # es) = log_ok S es"

fun task_ok :: "page_config \<Rightarrow> task \<Rightarrow> traffic list \<Rightarrow> bool" where
  "task_ok S (PushSaving lua rl) es = (\<exists>st es'. es = Sent (SaveReq st lua ''push'') # es')"
| "task_ok S (PushWriting rl) es = (\<exists>c. last_request es = Some (Sent (WriteReq (s_path S) c)))"
| "task_ok S (PushPolling i d rl) es = (\<exists>c. last_request es = Some (Sent (WriteReq (s_path S) c)))"
| "task_ok S t es = True"

lemma order_advance:
  assumes "log_ok S es" and "task_ok S t es" and "advance cli (s_path S) now r t = (t', qs)"
  shows "log_ok S (map Sent (rev qs) @ Got r # es) \<and> task_ok S t' (map Sent (rev qs) @ Got r # es)"
  using assms
  by (cases t) (auto simp: advance_def sent_ok_def split: option.splits if_splits)

lemma order_reply:
  assumes "log_ok S (log p)" and "task_ok S (task p) (log p)" and "p' = got_reply cli (s_path S) now r p"
  shows "log_ok S (log p') \<and> task_ok S (task p') (log p')"
proof (cases "task p = NoTask")
  case True
  with assms show ?thesis by (simp add: got_reply_def)
next
  case False
  obtain t qs where a: "advance cli (s_path S) now r (task p) = (t, qs)" by fastforce
  show ?thesis unfolding assms(3) got_reply_log [OF False a] by (rule order_advance [OF assms(1,2) a])
qed

lemma order_reachable: "rp_reachable S p \<Longrightarrow> log_ok S (log p) \<and> task_ok S (task p) (log p)"
proof (induction rule: rp_reachable.induct)
  case start
  then show ?case by (simp add: page_start_def)
next
  case (step p p')
  have "task p' = task p \<and> log p' = log p \<Longrightarrow> log_ok S (log p') \<and> task_ok S (task p') (log p')"
    using step.IH by simp
  moreover have "starts_write S p p' \<Longrightarrow> log_ok S (log p') \<and> task_ok S (task p') (log p')"
    using step.IH by (auto simp: starts_write_def sent_ok_def from_canvas_def)
  moreover note order_reply
  ultimately show ?case
    using rp_step_effect [OF step.hyps(2) lock_inv_reachable [OF step.hyps(1)]] step.IH by blast
qed

lemma log_ok_append: "log_ok S (xs @ ys) \<Longrightarrow> log_ok S ys"
proof (induction xs)
  case (Cons x xs)
  then show ?case by (cases x) auto
qed simp

text \<open>
  C31. A push happens in order: the page writes a text to the device only right after the server has confirmed
  the save of a workspace with exactly this Lua text, which is the text generated from the saved
  workspace, and it sends the reload of a push only right after the device has confirmed that
  write. No failure in between is skipped.
\<close>

theorem push_in_order:
  assumes "rp_reachable S p" and "log p = newer @ Sent q # older"
  shows "(\<forall>path c. q = WriteReq path c \<longrightarrow> path = s_path S \<and>
      (\<exists>r st ws older'. older = Got (Some r) # Sent (SaveReq st c ''push'') # older' \<and> r_ok r \<and>
        st = serializeWorkspace (page_reg S) ws \<and> generateLua (page_gen S) (s_sc S) ws = Inr c)) \<and>
    (\<forall>x. q = CmdReq x \<longrightarrow> (\<exists>r older' c. older = Got (Some r) # older' \<and> assertDeviceOK r \<and>
        last_request older' = Some (Sent (WriteReq (s_path S) c))))"
proof -
  have ok: "log_ok S (Sent q # older)" using order_reachable [OF assms(1)] log_ok_append assms(2) by metis
  then show ?thesis by (auto simp: sent_ok_def from_canvas_def)
qed

definition saved_reply :: reply where
  "saved_reply = \<lparr>r_ok = True, request_id = '''', timeout_seconds = 0, r_status = '''', device_ok = False\<rparr>"

lemma generated_not_blank:
  assumes "generateLua G sc ws = Inr lua"
  shows "\<not> is_blank lua"
proof -
  from assms obtain out where lua: "lua = one_final_newline (PREAMBLE @ js_join [NL] out)"
    by (auto simp: generateLua_def bind_result_Inr_iff)
  obtain p where p: "PREAMBLE = p @ ''en'' @ [CHR ''d'', NL]" using PREAMBLE_end by auto
  obtain y where "lua = (p @ ''en'') @ [CHR ''d'', NL] @ y"
    unfolding lua p using one_final_newline_keeps [of "CHR ''d''" "p @ ''en''" "js_join [NL] out"] by auto
  then show ?thesis by (simp add: is_blank_def)
qed

lemma pushing_page_task:
  "\<exists>lua. generateLua sample_gen (1/20) seedWorkspace = Inr lua \<and> task pushing_page = PushSaving lua True \<and>
     log pushing_page = [Sent (SaveReq (serializeWorkspace sample_reg seedWorkspace) lua ''push'')]"
proof -
  obtain lua where lua: "generateLua sample_gen (1/20) seedWorkspace = Inr lua"
    using generateLua_wf [OF seed_wf] by blast
  have "\<not> is_blank lua" by (rule generated_not_blank [OF lua])
  with lua show ?thesis
    by (simp add: pushing_page_def pushRules_def page_loaded_def init_workspace_def page_start_def beginWrite_def send_def)
qed

theorem push_in_order_witness:
  "\<exists>c older. log (got_reply 30 ''/scripts/rules.lua'' 0 (Some saved_reply) pushing_page) =
       Sent (WriteReq ''/scripts/rules.lua'' c) # older \<and>
     (\<exists>r st ws older'. older = Got (Some r) # Sent (SaveReq st c ''push'') # older' \<and> r_ok r \<and>
        st = serializeWorkspace sample_reg ws \<and> generateLua sample_gen (1/20) ws = Inr c)"
proof -
  let ?p = "got_reply 30 ''/scripts/rules.lua'' 0 (Some saved_reply) pushing_page"
  have r: "rp_reachable sample_config ?p"
    using rp_reachable.step [OF pushing_page_reachable rp_step.reply [of sample_config pushing_page 0 "Some saved_reply"]]
    by (simp add: sample_config_def)
  obtain lua where lua: "task pushing_page = PushSaving lua True" using pushing_page_task by blast
  have l: "log ?p = [] @ Sent (WriteReq ''/scripts/rules.lua'' lua) # Got (Some saved_reply) # log pushing_page"
    using lua by (simp add: got_reply_def advance_def saved_reply_def)
  from push_in_order [OF r l] l show ?thesis by (auto simp: sample_config_def)
qed

section \<open>The lock is released\<close>

fun rank :: "task \<Rightarrow> nat" where
  "rank NoTask = 0"
| "rank Saving = 1"
| "rank (PushSaving lua rl) = 5"
| "rank (PushWriting rl) = 4"
| "rank (PushPolling i d rl) = 3"
| "rank Reloading = 2"
| "rank (ReloadPolling i d) = 1"
| "rank TemplateSaving = 2"
| "rank TemplateListing = 1"

lemma rank_0 [simp]: "rank t = 0 \<longleftrightarrow> t = NoTask"
  by (cases t) simp_all

fun pending :: "task \<Rightarrow> int \<Rightarrow> reply option \<Rightarrow> bool" where
  \<comment> \<open>a poll before the deadline that finds the command still running\<close>
  "pending (PushPolling i d rl) now (Some r) = (\<not> final_status r \<and> now \<le> d)"
| "pending (ReloadPolling i d) now (Some r) = (\<not> final_status r \<and> now \<le> d)"
| "pending t now r = False"

lemma advance_rank:
  assumes "t \<noteq> NoTask" and "advance cli path now r t = (t', qs)"
  shows "if pending t now r then t' = t else rank t' < rank t"
  using assms by (cases t; cases r) (auto simp: advance_def split: if_splits)

fun replies :: "int \<Rightarrow> string \<Rightarrow> (int \<times> reply option) list \<Rightarrow> rules_page \<Rightarrow> rules_page" where
  "replies cli path [] p = p"
| "replies cli path ((now, r) # rs) p = replies cli path rs (got_reply cli path now r p)"

fun settled :: "int \<Rightarrow> string \<Rightarrow> (int \<times> reply option) list \<Rightarrow> rules_page \<Rightarrow> nat" where
  \<comment> \<open>how many of the replies are not polls that find the command still running\<close>
  "settled cli path [] p = 0"
| "settled cli path ((now, r) # rs) p =
     (if pending (task p) now r then 0 else 1) + settled cli path rs (got_reply cli path now r p)"

lemma replies_rank:
  "task (replies cli path rs p) = NoTask \<or> rank (task (replies cli path rs p)) + settled cli path rs p \<le> rank (task p)"
proof (induction cli path rs p rule: replies.induct)
  case (2 cli path now r rs p)
  show ?case
  proof (cases "task p = NoTask")
    case True
    then have "got_reply cli path now r p = p" by (simp add: got_reply_def)
    moreover have "rank (task p) = 0" using True by simp
    moreover have "task (replies cli path rs p) = NoTask" using 2 calculation by (metis add_is_0 le_zero_eq rank_0)
    ultimately show ?thesis by simp
  next
    case False
    obtain t qs where a: "advance cli path now r (task p) = (t, qs)" by fastforce
    with advance_rank [OF False a] got_reply_log(1) [OF False a] 2 show ?thesis
      by (auto split: if_splits)
  qed
qed simp

lemma replies_reachable:
  "rp_reachable S p \<Longrightarrow> rp_reachable S (replies (s_cli S) (s_path S) rs p)"
proof (induction rs arbitrary: p)
  case (Cons x rs)
  then show ?case using rp_reachable.step [OF Cons.prems rp_step.reply] by (cases x) simp
qed simp

text \<open>
  C32. The lock is always released: from every reachable state, once the running chain has received five replies (or
  errors) that are not polls within the deadline of a command that is still running, it has ended, the lock
  is free and the buttons are enabled again; no reply leaves the page stuck. A click that takes the lock
  always starts a chain, because the Lua text of rule blocks can always be generated.
\<close>

theorem lock_released:
  assumes "rp_reachable S p" and "settled (s_cli S) (s_path S) rs p \<ge> 5"
    and "p' = replies (s_cli S) (s_path S) rs p"
  shows "task p' = NoTask \<and> \<not> writeBusy p' \<and> write_controls p' = writesAllowed p'"
proof -
  have "rank t \<le> 5" for t by (cases t) simp_all
  then have "task p' = NoTask \<or> rank (task p') = 0"
    using replies_rank [of "s_cli S" "s_path S" rs p] assms(2,3) by (metis add_diff_cancel_right' diff_is_0_eq le_trans)
  then have "task p' = NoTask" by simp
  with lock_inv_reachable [OF replies_reachable [OF assms(1), of rs]] assms(3) show ?thesis
    by (auto simp: lock_inv_def)
qed

theorem lock_released_witness:
  "let p' = replies 30 ''/scripts/rules.lua'' (replicate 5 (0, None)) pushing_page
   in writeBusy pushing_page \<and> task p' = NoTask \<and> \<not> writeBusy p' \<and> write_controls p' = writesAllowed p'"
proof -
  let ?p = "replies 30 ''/scripts/rules.lua'' (replicate 5 (0, None)) pushing_page"
  have n: "settled cli path (replicate m (0, None)) p = m" for cli path m p
  proof (induction m arbitrary: p)
    case (Suc m)
    have "\<not> pending (task p) 0 None" by (cases "task p") simp_all
    with Suc show ?case by simp
  qed simp
  have "task ?p = NoTask \<and> \<not> writeBusy ?p \<and> write_controls ?p = writesAllowed ?p"
    by (rule lock_released [OF pushing_page_reachable, of "replicate 5 (0, None)"])
      (simp_all add: n sample_config_def)
  moreover have "writeBusy pushing_page"
    using lock_inv_reachable [OF pushing_page_reachable] pushing_page_task by (auto simp: lock_inv_def)
  ultimately show ?thesis by (simp add: Let_def)
qed

text \<open>
  What a canvas with a block whose generator throws does to the page (\<open>standard_block_throws\<close> gives one that a
  template can hold): the first click on save takes the lock and leaves the handler by the exception,
  before there is a chain whose end would release the lock; every reply leaves the page as it is, and so does every
  further click on a write button. Only loading the page again helps.
\<close>

lemma throwing_generator_keeps_lock:
  assumes "canvas p = Some ws" and "generateLua G sc ws = Inl e" and "writesAllowed p" and "\<not> writeBusy p"
    and "task p = NoTask" and "p' = click_save R G sc p"
  shows "writeBusy p' \<and> \<not> write_controls p' \<and> task p' = NoTask \<and> log p' = log p \<and>
    got_reply cli path now r p' = p' \<and> click_save R' G' sc' p' = p' \<and> pushRules R' G' sc' rl p' = p' \<and>
    click_save_template R' G' sc' name p' = p'"
proof -
  have p': "p' = p\<lparr>writeBusy := True, write_controls := False\<rparr>"
    using assms by (simp add: click_save_def beginWrite_def)
  then have "beginWrite p' = (False, p')" by (simp add: beginWrite_def)
  with p' assms(5) show ?thesis
    by (simp add: got_reply_def click_save_def pushRules_def click_save_template_def split: option.split sum.split)
qed

end
