(* ===== verification/Lua_Syntax.thy ===== *)
theory Lua_Syntax
  imports Lua_Strings
begin

text \<open>
  How Lua reads an expression: the scanner and the operator-precedence parser of the language (Lua 5.3, sections 3.1
  and 3.4; the priorities are those of the table in the reference implementation's parser). They are the reference
  against which generated expressions are checked. Numerals are digits with points only; numerals with an
  exponent, long strings and comments, which no generated expression contains, are refused. The fuel of the parser bounds the depth
  of its calls; what it accepts it accepts with any larger fuel.
\<close>

section \<open>Tokens\<close>

datatype lua_token = TName string | TNum string | TStr string | TSym string

definition name_start :: "char \<Rightarrow> bool" where
  "name_start c \<longleftrightarrow> (let n = (of_char c :: nat) in 65 \<le> n \<and> n \<le> 90 \<or> 97 \<le> n \<and> n \<le> 122 \<or> n = 95)"

definition name_char :: "char \<Rightarrow> bool" where
  "name_char c \<longleftrightarrow> name_start c \<or> is_digit c"

definition lua_keywords :: "string list" where
  "lua_keywords = [''and'', ''break'', ''do'', ''else'', ''elseif'', ''end'', ''for'', ''function'', ''goto'', ''if'', ''in'',
     ''local'', ''not'', ''or'', ''repeat'', ''return'', ''then'', ''until'', ''while'']"

definition word_token :: "string \<Rightarrow> lua_token" where
  "word_token w = (if w \<in> set lua_keywords then TSym w else TName w)"

definition long_symbols :: "string list" where
  "long_symbols = [''...'', ''..'', ''=='', ''~='', ''<='', ''>='', ''//'', ''::'', ''<<'', ''>>'']"

definition symbol_token :: "string \<Rightarrow> string option" where
  \<comment> \<open>the longest symbol at the start of the text\<close>
  "symbol_token s =
     (case find (\<lambda>y. take (length y) s = y) long_symbols of
        Some y \<Rightarrow> Some y
      | None \<Rightarrow> if s \<noteq> [] \<and> hd s \<in> set ''+-*/%^#<>=(){}[];:,.'' then Some [hd s] else None)"

definition lua_blank :: "char \<Rightarrow> bool" where
  "lua_blank c \<longleftrightarrow> is_white c"

definition cons_token :: "lua_token \<Rightarrow> lua_token list option \<Rightarrow> lua_token list option" where
  "cons_token t r = map_option ((@) [t]) r"

lemma symbol_token_nonempty: "symbol_token s = Some y \<Longrightarrow> y \<noteq> [] \<and> (s \<noteq> [] \<longrightarrow> length (drop (length y) s) < length s)"
  by (auto simp: symbol_token_def long_symbols_def split: if_splits option.splits)

lemma lua_read_shorter: "lua_read q s = Some (v, t) \<Longrightarrow> length t < length s"
proof (induction "length s" arbitrary: s v rule: less_induct)
  case less
  have emitted: "length t < length s" if "emit x (lua_read q s') = Some (v, t)" "length s' < length s" for x s'
  proof -
    from that(1) obtain w where "lua_read q s' = Some (w, t)" by (auto simp: emit_Some_iff)
    with less.hyps [OF that(2)] that(2) show ?thesis by simp
  qed
  obtain c u where s: "s = c # u" using less.prems by (cases s) (auto simp: lua_read.simps)
  have read: "lua_read q (c # u) = Some (v, t)" using less.prems by (simp only: s)
  show ?case
  proof (cases "c = q \<or> c = NL \<or> c = CR \<or> c \<noteq> BSL")
    case True
    then show ?thesis using read emitted [of "[c]" u] by (auto simp: lua_read.simps(2) s split: if_splits)
  next
    case False
    show ?thesis
    proof (cases u)
      case Nil
      with read False show ?thesis by (auto simp: lua_read.simps(2))
    next
      case (Cons e u')
      show ?thesis
      proof (cases "simple_escape e")
        case (Some x)
        then have "emit [x] (lua_read q u') = Some (v, t)" using read False Cons lua_read_simple_escape [of q e x u'] by auto
        then show ?thesis by (rule emitted) (simp add: s Cons)
      next
        case None
        then obtain x w where d: "decimal_escape u = Some (x, w)" and e: "emit [x] (lua_read q w) = Some (v, t)"
          using read False Cons lua_read.simps(2) [of q BSL u] by (auto split: option.splits if_splits)
        from e show ?thesis by (rule emitted) (use decimal_escape_shorter [OF d] in \<open>simp add: s\<close>)
      qed
    qed
  qed
qed

function lua_lex :: "string \<Rightarrow> lua_token list option" where
  "lua_lex [] = Some []"
| "lua_lex (c # s) =
     (if lua_blank c then lua_lex s
      else if name_start c then
        cons_token (word_token (takeWhile name_char (c # s))) (lua_lex (dropWhile name_char s))
      else if is_digit c \<or> c = CHR ''.'' \<and> s \<noteq> [] \<and> is_digit (hd s) then
        (let w = takeWhile (\<lambda>d. name_char d \<or> d = CHR ''.'') s
         in if list_all (\<lambda>d. is_digit d \<or> d = CHR ''.'') w
            then cons_token (TNum (c # w)) (lua_lex (dropWhile (\<lambda>d. name_char d \<or> d = CHR ''.'') s)) else None)
      else if c = DQ \<or> c = CHR 0x27 then
        (case lua_read c s of None \<Rightarrow> None | Some (v, t) \<Rightarrow> cons_token (TStr v) (lua_lex t))
      else if c = CHR ''-'' \<and> s \<noteq> [] \<and> hd s = CHR ''-'' then None
      else (case symbol_token (c # s) of
              None \<Rightarrow> None
            | Some y \<Rightarrow> cons_token (TSym y) (lua_lex (drop (length y) (c # s)))))"
  by pat_completeness auto

termination
  by (relation "measure length")
    (auto dest: lua_read_shorter symbol_token_nonempty simp: length_dropWhile_le le_imp_less_Suc)


declare lua_lex.simps(2) [simp del]

section \<open>Expressions\<close>

datatype lexp =
    ENil | ETrue | EFalse
  | ENum string
  | EStr string
  | EVar string
  | EUn string lexp
  | EBin string lexp lexp
  | EIndex lexp lexp
  | ECall lexp "lexp list"
  | ETable "lexp list"

definition unary_ops :: "string list" where
  "unary_ops = [''not'', ''-'', ''#'']"

definition UNARY_PRIORITY :: nat where "UNARY_PRIORITY = 12"

definition priorities :: "(string \<times> nat \<times> nat) list" where
  \<comment> \<open>left and right priority of the binary operators\<close>
  "priorities =
    [(''+'', 10, 10), (''-'', 10, 10), (''*'', 11, 11), (''%'', 11, 11), (''^'', 14, 13), (''/'', 11, 11),
     (''//'', 11, 11), (''..'', 9, 8), (''=='', 3, 3), (''<'', 3, 3), (''<='', 3, 3), (''~='', 3, 3), (''>'', 3, 3),
     (''>='', 3, 3), (''and'', 2, 2), (''or'', 1, 1)]"

definition name_exp :: "string \<Rightarrow> lexp" where
  "name_exp w = (if w = ''nil'' then ENil else if w = ''true'' then ETrue else if w = ''false'' then EFalse else EVar w)"

type_synonym 'a parse = "('a \<times> lua_token list) option"

function (sequential) subexp :: "nat \<Rightarrow> nat \<Rightarrow> lua_token list \<Rightarrow> lexp parse"
  and oploop :: "nat \<Rightarrow> nat \<Rightarrow> lexp \<Rightarrow> lua_token list \<Rightarrow> lexp parse"
  and simpleexp :: "nat \<Rightarrow> lua_token list \<Rightarrow> lexp parse"
  and suffixedexp :: "nat \<Rightarrow> lexp \<Rightarrow> lua_token list \<Rightarrow> lexp parse"
  and explist :: "nat \<Rightarrow> string \<Rightarrow> lua_token list \<Rightarrow> lexp list parse" where
  "subexp 0 limit ts = None"
| "subexp (Suc n) limit ts =
     (case ts of
        TSym u # ts' \<Rightarrow>
          if u \<in> set unary_ops
          then Option.bind (subexp n UNARY_PRIORITY ts') (\<lambda>(e, r). oploop n limit (EUn u e) r)
          else Option.bind (simpleexp n ts) (\<lambda>(e, r). oploop n limit e r)
      | _ \<Rightarrow> Option.bind (simpleexp n ts) (\<lambda>(e, r). oploop n limit e r))"
| "oploop 0 limit e ts = None"
| "oploop (Suc n) limit e ts =
     (case ts of
        TSym y # ts' \<Rightarrow>
          (case map_of priorities y of
             Some (left, right) \<Rightarrow>
               if limit < left
               then Option.bind (subexp n right ts') (\<lambda>(e', r). oploop n limit (EBin y e e') r)
               else Some (e, ts)
           | None \<Rightarrow> Some (e, ts))
      | _ \<Rightarrow> Some (e, ts))"
| "simpleexp 0 ts = None"
| "simpleexp (Suc n) ts =
     (case ts of
        TNum s # r \<Rightarrow> Some (ENum s, r)
      | TStr s # r \<Rightarrow> Some (EStr s, r)
      | TName w # r \<Rightarrow>
          if w \<in> {''nil'', ''true'', ''false''} then Some (name_exp w, r) else suffixedexp n (EVar w) r
      | TSym y # r \<Rightarrow>
          if y = ''('' then
            Option.bind (subexp n 0 r) (\<lambda>(e, r). case r of TSym z # r \<Rightarrow> if z = '')'' then suffixedexp n e r else None | _ \<Rightarrow> None)
          else if y = ''{'' then Option.bind (explist n ''}'' r) (\<lambda>(es, r). Some (ETable es, r))
          else None
      | [] \<Rightarrow> None)"
| "suffixedexp 0 e ts = None"
| "suffixedexp (Suc n) e ts =
     (case ts of
        TSym y # r \<Rightarrow>
          if y = ''('' then Option.bind (explist n '')'' r) (\<lambda>(es, r). suffixedexp n (ECall e es) r)
          else if y = ''['' then
            Option.bind (subexp n 0 r)
              (\<lambda>(i, r). case r of TSym z # r \<Rightarrow> if z = '']'' then suffixedexp n (EIndex e i) r else None | _ \<Rightarrow> None)
          else if y = ''.'' then (case r of TName w # r \<Rightarrow> suffixedexp n (EIndex e (EStr w)) r | _ \<Rightarrow> None)
          else if y = ''{'' then Option.bind (explist n ''}'' r) (\<lambda>(es, r). suffixedexp n (ECall e [ETable es]) r)
          else Some (e, ts)
      | TStr s # r \<Rightarrow> suffixedexp n (ECall e [EStr s]) r
      | _ \<Rightarrow> Some (e, ts))"
| "explist 0 close ts = None"
| "explist (Suc n) close ts =
     (if ts \<noteq> [] \<and> hd ts = TSym close then Some ([], tl ts)
      else Option.bind (subexp n 0 ts)
        (\<lambda>(e, r). case r of
           TSym z # r \<Rightarrow>
             if z = close then Some ([e], r)
             else if z = '','' then Option.bind (explist n close r) (\<lambda>(es, r). if es = [] then None else Some (e # es, r))
             else None
         | _ \<Rightarrow> None))"
  by pat_completeness auto

termination
  by (relation "measure (\<lambda>x. case x of Inl (Inl (n, _)) \<Rightarrow> n | Inl (Inr (n, _)) \<Rightarrow> n | Inr (Inl (n, _)) \<Rightarrow> n
      | Inr (Inr (Inl (n, _))) \<Rightarrow> n | Inr (Inr (Inr (n, _))) \<Rightarrow> n)") auto

declare subexp.simps [simp del] oploop.simps [simp del] simpleexp.simps [simp del] suffixedexp.simps [simp del]
  explist.simps [simp del]

definition le_opt :: "'a option \<Rightarrow> 'a option \<Rightarrow> bool" where
  "le_opt x y \<longleftrightarrow> x = None \<or> x = y"

lemma le_opt_simps [simp]: "le_opt None y" "le_opt x x"
  by (simp_all add: le_opt_def)

lemma le_opt_bind:
  "le_opt x y \<Longrightarrow> (\<And>v. le_opt (f v) (g v)) \<Longrightarrow> le_opt (Option.bind x f) (Option.bind y g)"
  by (cases x) (simp_all add: le_opt_def, metis bind.simps(2))

lemma le_opt_Some: "le_opt x y \<Longrightarrow> x = Some v \<Longrightarrow> y = Some v"
  by (auto simp: le_opt_def)

lemma parse_mono:
  assumes "n \<le> m"
  shows "le_opt (subexp n limit ts) (subexp m limit ts)" "le_opt (oploop n limit e ts) (oploop m limit e ts)"
    "le_opt (simpleexp n ts) (simpleexp m ts)" "le_opt (suffixedexp n e ts) (suffixedexp m e ts)"
    "le_opt (explist n close ts) (explist m close ts)"
  using assms
proof (induction n arbitrary: m limit ts e close)
  case 0
  {
    case 1 show ?case by (simp add: subexp.simps) next
    case 2 show ?case by (simp add: oploop.simps) next
    case 3 show ?case by (simp add: simpleexp.simps) next
    case 4 show ?case by (simp add: suffixedexp.simps) next
    case 5 show ?case by (simp add: explist.simps)
  }
next
  case (Suc n)
  {
    fix m' limit ts e close
    assume "n \<le> m'"
    note IH = Suc [OF this]
    have "le_opt (subexp (Suc n) limit ts) (subexp (Suc m') limit ts)"
      unfolding subexp.simps
      by (auto intro!: le_opt_bind IH split: list.splits lua_token.splits if_splits)
    moreover have "le_opt (oploop (Suc n) limit e ts) (oploop (Suc m') limit e ts)"
      unfolding oploop.simps
      by (auto intro!: le_opt_bind IH split: list.splits lua_token.splits option.splits if_splits)
    moreover have "le_opt (simpleexp (Suc n) ts) (simpleexp (Suc m') ts)"
      unfolding simpleexp.simps
      by (auto intro!: le_opt_bind IH split: list.splits lua_token.splits if_splits)
    moreover have "le_opt (suffixedexp (Suc n) e ts) (suffixedexp (Suc m') e ts)"
      unfolding suffixedexp.simps
      by (auto intro!: le_opt_bind IH split: list.splits lua_token.splits if_splits)
    moreover have "le_opt (explist (Suc n) close ts) (explist (Suc m') close ts)"
      unfolding explist.simps
      by (auto intro!: le_opt_bind IH split: list.splits lua_token.splits if_splits)
    note calculation this
  }
  note step = this
  {
    case 1 then show ?case by (cases m) (auto intro: step(1)) next
    case 2 then show ?case by (cases m) (auto intro: step(2)) next
    case 3 then show ?case by (cases m) (auto intro: step(3)) next
    case 4 then show ?case by (cases m) (auto intro: step(4)) next
    case 5 then show ?case by (cases m) (auto intro: step(5))
  }
qed


definition lua_parse :: "nat \<Rightarrow> string \<Rightarrow> lexp option" where
  \<comment> \<open>the expression that a whole text is\<close>
  "lua_parse n s =
     (case lua_lex s of
        None \<Rightarrow> None
      | Some ts \<Rightarrow> (case subexp n 0 ts of Some (e, []) \<Rightarrow> Some e | _ \<Rightarrow> None))"

lemma lua_parse_mono: "lua_parse n s = Some e \<Longrightarrow> n \<le> m \<Longrightarrow> lua_parse m s = Some e"
  using parse_mono(1) [of n m 0 "the (lua_lex s)"]
  by (auto simp: lua_parse_def le_opt_def split: option.splits prod.splits list.splits)

section \<open>Scanning piece by piece\<close>

definition stop :: "string \<Rightarrow> bool" where
  \<comment> \<open>what may follow a piece of an expression so that its last token ends there\<close>
  "stop rest \<longleftrightarrow> rest = [] \<or> hd rest \<in> set '' ),]}(['' "

definition lexes :: "string \<Rightarrow> lua_token list \<Rightarrow> bool" where
  "lexes s ts \<longleftrightarrow> (\<forall>rest. stop rest \<longrightarrow> lua_lex (s @ rest) = map_option ((@) ts) (lua_lex rest))"

lemma lexesD: "lexes s ts \<Longrightarrow> stop rest \<Longrightarrow> lua_lex (s @ rest) = map_option ((@) ts) (lua_lex rest)"
  by (simp add: lexes_def)

lemma stop_simps [simp]:
  "stop []" "stop (CHR '' '' # s)" "stop (CHR '')'' # s)" "stop (CHR '','' # s)" "stop (CHR '']'' # s)"
  "stop (CHR ''}'' # s)" "stop (CHR ''('' # s)" "stop (CHR ''['' # s)"
  by (simp_all add: stop_def)

lemma stop_char: "stop (c # s) \<Longrightarrow> \<not> name_char c \<and> c \<noteq> CHR ''.'' \<and> c \<noteq> CHR ''='' \<and> c \<noteq> CHR ''-'' \<and> c \<noteq> CHR ''<'' \<and> c \<noteq> CHR ''>'' \<and> c \<noteq> CHR ''/''"
  by (auto simp: stop_def name_char_def name_start_def is_digit_def)

lemma map_option_append: "map_option ((@) ts) (map_option ((@) us) r) = map_option ((@) (ts @ us)) r"
  by (cases r) auto

lemma lexes_append:
  assumes "lexes a ts" and "lexes b us" and "b \<noteq> [] \<Longrightarrow> stop b"
  shows "lexes (a @ b) (ts @ us)"
  unfolding lexes_def
proof (intro allI impI)
  fix rest assume rest: "stop rest"
  then have "stop (b @ rest)" using assms(3) by (cases b) (auto simp: stop_def)
  then show "lua_lex ((a @ b) @ rest) = map_option ((@) (ts @ us)) (lua_lex rest)"
    using lexesD [OF assms(1), of "b @ rest"] lexesD [OF assms(2) rest] by (simp add: map_option_append)
qed

lemma lexes_Nil: "lexes [] []"
proof -
  have "map_option ((@) []) r = r" for r :: "lua_token list option" by (cases r) simp_all
  then show ?thesis by (simp add: lexes_def)
qed

lemma lexes_space:
  assumes "lexes b us"
  shows "lexes (CHR '' '' # b) us"
proof -
  have "lua_blank CHR '' ''" by (simp add: lua_blank_def is_white_def)
  then show ?thesis using assms by (simp add: lexes_def lua_lex.simps(2))
qed

lemma lexes_name:
  assumes "w \<noteq> []" and "name_start (hd w)" and "list_all name_char w"
  shows "lexes w [word_token w]"
  unfolding lexes_def
proof (intro allI impI)
  fix rest assume rest: "stop rest"
  obtain c s where w: "w = c # s" using assms(1) by (cases w) auto
  have c: "name_start c" "\<not> lua_blank c" using assms(2) by (auto simp: w name_start_def lua_blank_def is_white_def Let_def)
  have nr: "takeWhile name_char rest = [] \<and> dropWhile name_char rest = rest"
    using rest stop_char by (cases rest) auto
  have all: "list_all name_char s" "name_char c" using assms(3) by (auto simp: w)
  have "takeWhile name_char (w @ rest) = w" "dropWhile name_char (s @ rest) = rest"
    using nr all by (auto simp: w list_all_iff takeWhile_append dropWhile_append)
  then show "lua_lex (w @ rest) = map_option ((@) [word_token w]) (lua_lex rest)"
    using c by (simp add: w lua_lex.simps(2) cons_token_def)
qed

lemma lexes_num:
  assumes "w \<noteq> []" and "is_digit (hd w)" and "list_all (\<lambda>d. is_digit d \<or> d = CHR ''.'') w"
  shows "lexes w [TNum w]"
  unfolding lexes_def
proof (intro allI impI)
  fix rest assume rest: "stop rest"
  obtain c s where w: "w = c # s" using assms(1) by (cases w) auto
  have c: "is_digit c" "\<not> lua_blank c" "\<not> name_start c"
    using assms(2) by (auto simp: w name_start_def lua_blank_def is_white_def is_digit_def Let_def)
  let ?P = "\<lambda>d. name_char d \<or> d = CHR ''.''"
  have nr: "takeWhile ?P rest = [] \<and> dropWhile ?P rest = rest"
    using rest stop_char by (cases rest) auto
  have all: "list_all (\<lambda>d. is_digit d \<or> d = CHR ''.'') s" using assms(3) by (simp add: w)
  then have "takeWhile ?P (s @ rest) = s" "dropWhile ?P (s @ rest) = rest"
    using nr by (auto simp: list_all_iff takeWhile_append dropWhile_append name_char_def)
  then show "lua_lex (w @ rest) = map_option ((@) [TNum w]) (lua_lex rest)"
    using c all by (simp add: w lua_lex.simps(2) cons_token_def)
qed

lemma lexes_quote:
  assumes "CR \<notin> set s"
  shows "lexes (lua_quote s) [TStr s]"
  unfolding lexes_def
proof (intro allI impI)
  fix rest
  obtain t where t: "lua_quote s = CHR 0x27 # t" by (simp add: lua_quote_def Let_def)
  have "lua_literal (lua_quote s @ rest) = Some (s, rest)" by (rule lua_literal_quote [OF assms])
  then have "lua_read (CHR 0x27) (t @ rest) = Some (s, rest)" by (simp add: t lua_literal_def)
  moreover have "\<not> lua_blank (CHR 0x27)" "\<not> name_start (CHR 0x27)" "\<not> is_digit (CHR 0x27)"
    by (simp_all add: lua_blank_def is_white_def name_start_def is_digit_def)
  ultimately show "lua_lex (lua_quote s @ rest) = map_option ((@) [TStr s]) (lua_lex rest)"
    by (simp add: t lua_lex.simps(2) cons_token_def)
qed

lemma lex_symbol:
  assumes "symbol_token (y @ rest) = Some y" and "y \<noteq> []" and "\<not> lua_blank (hd y)" and "\<not> name_start (hd y)"
    and "\<not> is_digit (hd y)" and "hd y \<noteq> DQ" and "hd y \<noteq> CHR 0x27"
    and "\<not> (hd y = CHR ''.'' \<and> tl y @ rest \<noteq> [] \<and> is_digit (hd (tl y @ rest)))"
    and "\<not> (hd y = CHR ''-'' \<and> tl y @ rest \<noteq> [] \<and> hd (tl y @ rest) = CHR ''-'')"
  shows "lua_lex (y @ rest) = map_option ((@) [TSym y]) (lua_lex rest)"
proof -
  obtain c s where y: "y = c # s" using assms(2) by (cases y) auto
  have "drop (length y) (y @ rest) = rest" by simp
  then show ?thesis using assms by (auto simp: y lua_lex.simps(2) cons_token_def)
qed


definition operator_symbols :: "string list" where
  "operator_symbols =
    [''+'', ''-'', ''*'', ''%'', ''^'', ''/'', ''..'', ''=='', ''<'', ''<='', ''~='', ''>'', ''>='', ''('', '')'', ''['', '']'', ''{'', ''}'',
     '','', ''#'']"

lemma lexes_symbol:
  assumes "y \<in> set operator_symbols"
  shows "lexes y [TSym y]"
  unfolding lexes_def
proof (intro allI impI)
  fix rest assume rest: "stop rest"
  have take_stop: "take (Suc 0) rest \<noteq> ''.''" "take (Suc 0) rest \<noteq> ''=''" "take (Suc 0) rest \<noteq> ''<''"
    "take (Suc 0) rest \<noteq> ''>''" "take (Suc 0) rest \<noteq> ''/''" "rest \<noteq> [] \<longrightarrow> hd rest \<noteq> CHR ''-''"
    using rest stop_char by (cases rest; auto)+
  have "symbol_token (y @ rest) = Some y"
    using assms take_stop(1-5) unfolding operator_symbols_def list.set insert_iff empty_iff
    by (elim disjE; simp add: symbol_token_def long_symbols_def)
  moreover have "y \<noteq> []" "\<not> lua_blank (hd y)" "\<not> name_start (hd y)" "\<not> is_digit (hd y)" "hd y \<noteq> DQ" "hd y \<noteq> CHR 0x27"
    using assms by (auto simp: operator_symbols_def lua_blank_def is_white_def name_start_def is_digit_def)
  moreover have "\<not> (hd y = CHR ''.'' \<and> tl y @ rest \<noteq> [] \<and> is_digit (hd (tl y @ rest)))"
    "\<not> (hd y = CHR ''-'' \<and> tl y @ rest \<noteq> [] \<and> hd (tl y @ rest) = CHR ''-'')"
    using assms take_stop by (auto simp: operator_symbols_def is_digit_def)
  ultimately show "lua_lex (y @ rest) = map_option ((@) [TSym y]) (lua_lex rest)" by (rule lex_symbol)
qed


section \<open>Parsing piece by piece\<close>

text \<open>
  The orders of the code generator and the priorities of the parser: an expression of an order can be read under every limit below
  \<open>left_of\<close> of the order, and ends in front of every operator whose left priority is at most \<open>right_of\<close>.
\<close>

definition left_of :: "nat \<Rightarrow> nat" where
  "left_of k = (if k = 2 then 14 else if k \<le> 3 then 100 else if k = 4 then 11 else if k = 5 then 10 else if k = 6 then 9
     else if k = 7 then 3 else if k = 8 then 2 else if k = 9 then 1 else 0)"

definition right_of :: "nat \<Rightarrow> nat" where
  "right_of k = (if k \<le> 1 then 99 else if k = 2 then 13 else if k = 3 then 12 else if k = 4 then 11 else if k = 5 then 10
     else if k = 6 then 8 else if k = 7 then 3 else if k = 8 then 2 else if k = 9 then 1 else 0)"

lemma order_cases: "k < (10 :: nat) \<Longrightarrow> k = 0 \<or> k = 1 \<or> k = 2 \<or> k = 3 \<or> k = 4 \<or> k = 5 \<or> k = 6 \<or> k = 7 \<or> k = 8 \<or> k = 9"
  by presburger

lemma order_inner:
  assumes "k' < k" and "k < 10" and "1 < k \<and> k \<noteq> 3"
  shows "left_of k \<le> left_of k'" and "left_of k \<le> right_of k'" and "right_of k \<le> right_of k'" and "right_of k < left_of k'"
  using order_cases [OF assms(2)] order_cases [of k'] assms by (auto simp: left_of_def right_of_def)

definition next_prio :: "lua_token list \<Rightarrow> nat" where
  "next_prio ts =
     (case ts of TSym y # _ \<Rightarrow> (case map_of priorities y of Some (l, r) \<Rightarrow> l | None \<Rightarrow> 0) | _ \<Rightarrow> 0)"

definition follows :: "lua_token list \<Rightarrow> bool" where
  \<comment> \<open>what may stand behind an expression: nothing, an operator or a closing symbol\<close>
  "follows ts \<longleftrightarrow> ts = [] \<or> (\<exists>y r. ts = TSym y # r \<and> y \<notin> {''('', ''['', ''.'', ''{''})"

definition good :: "nat \<Rightarrow> lua_token list \<Rightarrow> lexp \<Rightarrow> bool" where
  "good k ts e \<longleftrightarrow>
     (\<exists>f. \<forall>n limit rest r. limit < left_of k \<longrightarrow> follows rest \<longrightarrow> next_prio rest \<le> right_of k \<longrightarrow>
        oploop n limit e rest = Some r \<longrightarrow> subexp (n + f) limit (ts @ rest) = Some r)"

lemma oploop_stop: "next_prio rest \<le> limit \<Longrightarrow> oploop (Suc n) limit e rest = Some (e, rest)"
  by (auto simp: oploop.simps(2) next_prio_def split: list.split lua_token.split option.split)

lemma suffixedexp_stop: "follows rest \<Longrightarrow> suffixedexp (Suc n) e rest = Some (e, rest)"
  by (auto simp: suffixedexp.simps follows_def)

lemma oploop_raise: "oploop n limit e rest = Some r \<Longrightarrow> n \<le> m \<Longrightarrow> oploop m limit e rest = Some r"
  by (rule le_opt_Some [OF parse_mono(2)])

lemma goodE:
  assumes "good k ts e"
  obtains f where "\<And>n limit rest r. limit < left_of k \<Longrightarrow> follows rest \<Longrightarrow> next_prio rest \<le> right_of k \<Longrightarrow>
    oploop n limit e rest = Some r \<Longrightarrow> subexp (n + f) limit (ts @ rest) = Some r"
  using assms unfolding good_def by blast

lemma good_simple:
  \<comment> \<open>an expression that \<open>simpleexp\<close> reads on its own\<close>
  assumes "\<And>n rest. follows rest \<Longrightarrow> simpleexp (n + f) (ts @ rest) = Some (e, rest)"
    and "\<And>u r. ts = TSym u # r \<Longrightarrow> u \<notin> set unary_ops" and "ts \<noteq> []"
  shows "good k ts e"
proof -
  have "subexp (n + Suc f) limit (ts @ rest) = Some r" if "follows rest" "oploop n limit e rest = Some r" for n limit rest r
  proof -
    have "subexp (n + Suc f) limit (ts @ rest) = Option.bind (simpleexp (n + f) (ts @ rest)) (\<lambda>(e, r). oploop (n + f) limit e r)"
      using assms(2,3) by (cases ts) (auto simp: subexp.simps split: lua_token.splits)
    then show ?thesis using assms(1) [OF that(1)] oploop_raise [OF that(2)] by simp
  qed
  then show ?thesis unfolding good_def by blast
qed

lemma good_atoms:
  "good k [TNum s] (ENum s)" "good k [TStr s] (EStr s)" "good k [TName w] (name_exp w)"
proof -
  have "simpleexp (n + 2) ([TName w] @ rest) = Some (name_exp w, rest)" if "follows rest" for n rest
    using suffixedexp_stop [OF that, of n "EVar w"] by (auto simp: simpleexp.simps name_exp_def numeral_2_eq_2)
  then show "good k [TName w] (name_exp w)" by (rule good_simple) auto
  show "good k [TNum s] (ENum s)" "good k [TStr s] (EStr s)"
    by (rule good_simple [of 1]; simp add: simpleexp.simps)+
qed

lemma good_paren:
  assumes "good k ts e" and "k < 10"
  shows "good k' (TSym ''('' # ts @ [TSym '')'']) e"
proof -
  from assms(1) obtain f where f: "\<And>n limit rest r. limit < left_of k \<Longrightarrow> follows rest \<Longrightarrow>
    next_prio rest \<le> right_of k \<Longrightarrow> oploop n limit e rest = Some r \<Longrightarrow> subexp (n + f) limit (ts @ rest) = Some r"
    by (rule goodE) blast
  have "simpleexp (n + (f + 2)) ((TSym ''('' # ts @ [TSym '')'']) @ rest) = Some (e, rest)" if "follows rest" for n rest
  proof -
    have "0 < left_of k" using order_cases [OF assms(2)] by (auto simp: left_of_def)
    moreover have "follows (TSym '')'' # rest)" "next_prio (TSym '')'' # rest) = 0"
      by (simp_all add: follows_def next_prio_def priorities_def)
    moreover have "oploop (Suc n) 0 e (TSym '')'' # rest) = Some (e, TSym '')'' # rest)"
      by (rule oploop_stop) (simp add: next_prio_def priorities_def)
    ultimately have "subexp (Suc n + f) 0 (ts @ TSym '')'' # rest) = Some (e, TSym '')'' # rest)" by (intro f) simp_all
    then show ?thesis using suffixedexp_stop [OF that, of "n + f" e] by (simp add: simpleexp.simps)
  qed
  then show ?thesis by (rule good_simple) (auto simp: unary_ops_def)
qed

lemma good_binary:
  assumes "good k1 ts1 e1" and "good k2 ts2 e2" and "k1 < k" and "k2 < k" and "k < 10" and "1 < k \<and> k \<noteq> 3"
    and op: "map_of priorities y = Some (left_of k, right_of k)"
  shows "good k (ts1 @ TSym y # ts2) (EBin y e1 e2)"
proof -
  from assms(1) obtain f1 where f1: "\<And>n limit rest r. limit < left_of k1 \<Longrightarrow> follows rest \<Longrightarrow>
    next_prio rest \<le> right_of k1 \<Longrightarrow> oploop n limit e1 rest = Some r \<Longrightarrow> subexp (n + f1) limit (ts1 @ rest) = Some r"
    by (rule goodE) blast
  from assms(2) obtain f2 where f2: "\<And>n limit rest r. limit < left_of k2 \<Longrightarrow> follows rest \<Longrightarrow>
    next_prio rest \<le> right_of k2 \<Longrightarrow> oploop n limit e2 rest = Some r \<Longrightarrow> subexp (n + f2) limit (ts2 @ rest) = Some r"
    by (rule goodE) blast
  note o1 = order_inner [OF assms(3,5,6)] and o2 = order_inner [OF assms(4,5,6)]
  have y: "y \<notin> {''('', ''['', ''.'', ''{''}" using op by (auto simp: priorities_def)
  have "subexp (n + (f2 + 2 + f1)) limit ((ts1 @ TSym y # ts2) @ rest) = Some r"
    if "limit < left_of k" "follows rest" "next_prio rest \<le> right_of k" "oploop n limit (EBin y e1 e2) rest = Some r"
    for n limit rest r
  proof -
    have "oploop (Suc n) (right_of k) e2 rest = Some (e2, rest)" using that(3) by (rule oploop_stop)
    then have "subexp (Suc n + f2) (right_of k) (ts2 @ rest) = Some (e2, rest)"
      using o2 that by (intro f2) simp_all
    moreover have "oploop (Suc n + f2) limit (EBin y e1 e2) rest = Some r" by (rule oploop_raise [OF that(4)]) simp
    ultimately have "oploop (Suc (Suc n + f2)) limit e1 (TSym y # ts2 @ rest) = Some r"
      using op that(1) by (simp add: oploop.simps)
    then have "subexp (Suc (Suc n + f2) + f1) limit (ts1 @ TSym y # ts2 @ rest) = Some r"
      using o1 that(1) y op by (intro f1) (auto simp: follows_def next_prio_def)
    then show ?thesis by (simp add: algebra_simps)
  qed
  then show ?thesis unfolding good_def by blast
qed

lemma good_unary:
  assumes "good k ts e" and "k < 3" and "y \<in> set unary_ops"
  shows "good 3 (TSym y # ts) (EUn y e)"
proof -
  from assms(1) obtain f where f: "\<And>n limit rest r. limit < left_of k \<Longrightarrow> follows rest \<Longrightarrow>
    next_prio rest \<le> right_of k \<Longrightarrow> oploop n limit e rest = Some r \<Longrightarrow> subexp (n + f) limit (ts @ rest) = Some r"
    by (rule goodE) blast
  have k: "UNARY_PRIORITY < left_of k" "right_of 3 \<le> right_of k" "right_of 3 = UNARY_PRIORITY"
    using assms(2) by (auto simp: left_of_def right_of_def UNARY_PRIORITY_def)
  have "subexp (n + (f + 2)) limit ((TSym y # ts) @ rest) = Some r"
    if "follows rest" "next_prio rest \<le> right_of 3" "oploop n limit (EUn y e) rest = Some r" for n limit rest r
  proof -
    have "oploop (Suc n) UNARY_PRIORITY e rest = Some (e, rest)" using that(2) k(3) by (intro oploop_stop) simp
    then have "subexp (Suc n + f) UNARY_PRIORITY (ts @ rest) = Some (e, rest)" using k that by (intro f) simp_all
    moreover have "oploop (Suc n + f) limit (EUn y e) rest = Some r" by (rule oploop_raise [OF that(3)]) simp
    ultimately show ?thesis using assms(3) by (simp add: subexp.simps)
  qed
  then show ?thesis unfolding good_def by blast
qed


section \<open>Texts that read as an expression\<close>

definition reads :: "string \<Rightarrow> nat \<Rightarrow> lexp \<Rightarrow> bool" where
  \<comment> \<open>the text, generated with this order, is read as the expression wherever its order allows it to stand\<close>
  "reads s k e \<longleftrightarrow> (\<exists>ts. lexes s ts \<and> good k ts e)"

lemma reads_number:
  "w \<noteq> [] \<Longrightarrow> is_digit (hd w) \<Longrightarrow> list_all (\<lambda>d. is_digit d \<or> d = CHR ''.'') w \<Longrightarrow> reads w k (ENum w)"
  unfolding reads_def using lexes_num good_atoms(1) by blast

lemma reads_quote: "CR \<notin> set s \<Longrightarrow> reads (lua_quote s) k (EStr s)"
  unfolding reads_def using lexes_quote good_atoms(2) by blast

lemma reads_name:
  assumes "w \<noteq> []" and "name_start (hd w)" and "list_all name_char w" and "w \<notin> set lua_keywords"
  shows "reads w k (name_exp w)"
  unfolding reads_def using lexes_name [OF assms(1-3)] good_atoms(3) assms(4) by (auto simp: word_token_def)

lemma reads_paren:
  assumes "reads s k e" and "k < 10"
  shows "reads (''('' @ s @ '')'') k' e"
proof -
  from assms obtain ts where ts: "lexes s ts" "good k ts e" by (auto simp: reads_def)
  have close: "lexes '')'' [TSym '')'']" by (rule lexes_symbol) (simp add: operator_symbols_def)
  have "lexes (s @ '')'') (ts @ [TSym '')''])" by (rule lexes_append [OF ts(1) close]) simp
  have open_sym: "lua_lex (CHR ''('' # t) = map_option ((@) [TSym ''('']) (lua_lex t)" for t
    using lex_symbol [of "''(''" t]
    by (simp add: symbol_token_def long_symbols_def lua_blank_def is_white_def name_start_def is_digit_def)
  have "lexes (''('' @ s @ '')'') ([TSym ''(''] @ ts @ [TSym '')''])"
    using \<open>lexes (s @ '')'') (ts @ [TSym '')''])\<close> by (simp add: lexes_def open_sym map_option_append)
  with good_paren [OF ts(2) assms(2), of k'] show ?thesis unfolding reads_def by auto
qed

lemma lexes_operator:
  assumes "y \<in> set operator_symbols \<or> y \<in> {''and'', ''or''}"
  shows "lexes y [TSym y]"
proof -
  have "lexes w [TSym w]" if "w \<in> {''and'', ''or''}" for w
  proof -
    have "word_token w = TSym w" "w \<noteq> []" "name_start (hd w)" "list_all name_char w"
      using that by (auto simp: word_token_def lua_keywords_def name_start_def name_char_def)
    then show ?thesis using lexes_name [of w] by simp
  qed
  with assms lexes_symbol show ?thesis by blast
qed

lemma reads_binary:
  assumes "reads a k1 e1" and "reads b k2 e2" and "k1 < k" and "k2 < k" and "k < 10" and "1 < k \<and> k \<noteq> 3"
    and "map_of priorities y = Some (left_of k, right_of k)" and "y \<in> set operator_symbols \<or> y \<in> {''and'', ''or''}"
  shows "reads (a @ '' '' @ y @ '' '' @ b) k (EBin y e1 e2)"
proof -
  from assms(1,2) obtain ts us where ts: "lexes a ts" "good k1 ts e1" and us: "lexes b us" "good k2 us e2"
    by (auto simp: reads_def)
  have "lexes (y @ CHR '' '' # b) ([TSym y] @ us)"
    by (rule lexes_append [OF lexes_operator [OF assms(8)] lexes_space [OF us(1)]]) simp
  then have "lexes (a @ CHR '' '' # y @ CHR '' '' # b) (ts @ [TSym y] @ us)"
    by (intro lexes_append [OF ts(1)] lexes_space) simp_all
  with good_binary [OF ts(2) us(2) assms(3-7)] show ?thesis unfolding reads_def by auto
qed

lemma reads_not:
  assumes "reads s k e" and "k < 3"
  shows "reads (''not '' @ s) 3 (EUn ''not'' e)"
proof -
  from assms obtain ts where ts: "lexes s ts" "good k ts e" by (auto simp: reads_def)
  have "lexes ''not'' [TSym ''not'']"
    using lexes_name [of "''not''"] by (simp add: word_token_def lua_keywords_def name_start_def name_char_def)
  then have "lexes (''not'' @ CHR '' '' # s) ([TSym ''not''] @ ts)"
    by (rule lexes_append) (simp_all add: lexes_space ts)
  with good_unary [OF ts(2) assms(2), of "''not''"] show ?thesis
    unfolding reads_def by (auto simp: unary_ops_def)
qed

lemma reads_parse:
  assumes "reads s k e" and "k < 10"
  shows "\<exists>n. lua_parse n s = Some e"
proof -
  from assms obtain ts where ts: "lexes s ts" "good k ts e" by (auto simp: reads_def)
  from lexesD [OF ts(1), of "[]"] have lex: "lua_lex s = Some ts" by simp
  from ts(2) obtain f where f: "\<And>n limit rest r. limit < left_of k \<Longrightarrow> follows rest \<Longrightarrow>
    next_prio rest \<le> right_of k \<Longrightarrow> oploop n limit e rest = Some r \<Longrightarrow> subexp (n + f) limit (ts @ rest) = Some r"
    by (rule goodE) blast
  have "0 < left_of k" using order_cases [OF assms(2)] by (auto simp: left_of_def)
  moreover have "oploop (Suc 0) 0 e [] = Some (e, [])" by (rule oploop_stop) (simp add: next_prio_def)
  ultimately have "subexp (Suc 0 + f) 0 (ts @ []) = Some (e, [])"
    by (intro f) (simp_all add: follows_def next_prio_def)
  then show ?thesis by (intro exI [of _ "Suc 0 + f"]) (simp add: lua_parse_def lex)
qed

end
