(* ===== verification/Conditions.thy ===== *)
theory Conditions
  imports Lua_Syntax Rules_Blocks
begin

text \<open>
  What the conditions of the logic blocks mean. \<open>block_ast\<close> is the expression that a tree of value blocks shows
  to the user, with the defaults that the generators put into empty inputs; the code generated for the tree,
  with its parentheses, is read by Lua as exactly this expression.
\<close>

section \<open>The expression of a tree of blocks\<close>

definition arg :: "(string \<times> lexp option) list \<Rightarrow> string \<Rightarrow> lexp option" where
  "arg es n = (case map_of es n of Some r \<Rightarrow> r | None \<Rightarrow> None)"

definition or_exp :: "lexp option \<Rightarrow> lexp \<Rightarrow> lexp" where
  "or_exp r d = (case r of Some e \<Rightarrow> e | None \<Rightarrow> d)"

definition value_ast :: "string \<Rightarrow> (string \<times> fval) list \<Rightarrow> (string \<times> lexp option) list \<Rightarrow> lexp" where
  "value_ast ty fs es =
     (if ty = ''logic_compare'' then
        EBin (compare_op (js_String (getFieldValue fs ''OP''))) (or_exp (arg es ''A'') (ENum ''0'')) (or_exp (arg es ''B'') (ENum ''0''))
      else if ty = ''logic_operation'' then
        (let conj = (getFieldValue fs ''OP'' = Some (FText ''AND''));
             d = (if arg es ''A'' = None \<and> arg es ''B'' = None then EFalse else if conj then ETrue else EFalse)
         in EBin (if conj then ''and'' else ''or'') (or_exp (arg es ''A'') d) (or_exp (arg es ''B'') d))
      else if ty = ''logic_negate'' then EUn ''not'' (or_exp (arg es ''BOOL'') ETrue)
      else EStr (js_String (getFieldValue fs ''TEXT'')))"

fun block_ast :: "block \<Rightarrow> lexp option" and input_ast :: "binput \<Rightarrow> string \<times> lexp option" where
  \<comment> \<open>a disabled block counts as an empty input\<close>
  "block_ast (Block ty i en cm fs ins nx) = (if en then Some (value_ast ty fs (map input_ast ins)) else None)"
| "input_ast (Input n t None) = (n, None)"
| "input_ast (Input n t (Some b)) = (n, block_ast b)"

fun no_return_char :: "block \<Rightarrow> bool" and input_no_return :: "binput \<Rightarrow> bool" where
  \<comment> \<open>no text in the tree holds a carriage return, which no text field lets through\<close>
  "no_return_char (Block ty i en cm fs ins nx) \<longleftrightarrow>
     (\<forall>s. (''TEXT'', FText s) \<in> set fs \<longrightarrow> CR \<notin> set s) \<and> list_all input_no_return ins"
| "input_no_return (Input n t None) \<longleftrightarrow> True"
| "input_no_return (Input n t (Some b)) \<longleftrightarrow> no_return_char b"

section \<open>Operands\<close>

definition codes_as :: "code result \<Rightarrow> lexp option \<Rightarrow> bool" where
  "codes_as c r =
     (case r of
        None \<Rightarrow> c = Inr (CStr '''')
      | Some e \<Rightarrow> (\<exists>s k. c = Inr (CTuple s k) \<and> s \<noteq> [] \<and> k < 10 \<and> reads s k e))"

definition inputs_as :: "input_code list \<Rightarrow> (string \<times> lexp option) list \<Rightarrow> bool" where
  "inputs_as ics es \<longleftrightarrow>
     list_all2 (\<lambda>(n, t, c) (m, r). n = m \<and> (case c of None \<Rightarrow> r = None | Some c \<Rightarrow> codes_as c r)) ics es"

lemma inputs_asD:
  assumes "inputs_as ics es"
  shows "case getInputTarget ics n of None \<Rightarrow> arg es n = None | Some c \<Rightarrow> codes_as c (arg es n)"
  using assms unfolding inputs_as_def
  by (induction ics es rule: list_all2_induct) (auto simp: getInputTarget_def arg_def split: option.splits)

lemma operand:
  \<comment> \<open>the parentheses of \<open>valueToCode\<close> are those that the parser needs\<close>
  assumes "inputs_as ics es" and "0 < k" and "k < 10"
  shows "case arg es n of
      None \<Rightarrow> valueToCode ics n k = Inr ''''
    | Some e \<Rightarrow> (\<exists>s k'. valueToCode ics n k = Inr s \<and> s \<noteq> [] \<and> k' < k \<and> reads s k' e)"
proof (cases "getInputTarget ics n")
  case None
  with inputs_asD [OF assms(1), of n] show ?thesis by (simp add: valueToCode_def)
next
  case (Some c)
  with inputs_asD [OF assms(1), of n] have c: "codes_as c (arg es n)" by simp
  show ?thesis
  proof (cases "arg es n")
    case None
    with c Some show ?thesis by (simp add: codes_as_def valueToCode_def)
  next
    case (Some e)
    with c obtain s j where s: "c = Inr (CTuple s j)" "s \<noteq> []" "j < 10" "reads s j e" by (auto simp: codes_as_def)
    show ?thesis
    proof (cases "k \<le> j")
      case True
      then have "valueToCode ics n k = Inr (''('' @ s @ '')'')"
        using s \<open>getInputTarget ics n = Some c\<close> assms(2,3) by (simp add: valueToCode_def needs_parens_def)
      moreover have "reads (''('' @ s @ '')'') 0 e" using s by (intro reads_paren)
      ultimately show ?thesis using Some assms(2) by auto
    next
      case False
      then have "valueToCode ics n k = Inr s"
        using s \<open>getInputTarget ics n = Some c\<close> by (simp add: valueToCode_def needs_parens_def)
      moreover have "j < k" using False by simp
      ultimately show ?thesis using Some s by auto
    qed
  qed
qed

lemma operand_or:
  \<comment> \<open>an operand with its default\<close>
  assumes "inputs_as ics es" and "0 < k" and "k < 10" and "reads d 0 e0" and "d \<noteq> []"
  shows "\<exists>s k'. valueToCode ics n k = Inr s \<and> (s = [] \<longleftrightarrow> arg es n = None) \<and> k' < k \<and>
    reads (or_else s d) k' (or_exp (arg es n) e0)"
proof (cases "arg es n")
  case None
  with operand [OF assms(1-3), of n] assms(2,4) show ?thesis by (auto simp: or_else_def or_exp_def)
next
  case (Some e)
  with operand [OF assms(1-3), of n] show ?thesis by (auto simp: or_else_def or_exp_def)
qed

lemma reads_words: "reads ''true'' 0 ETrue" "reads ''false'' 0 EFalse" "reads ''0'' 0 (ENum ''0'')"
  using reads_name [of "''true''" 0] reads_name [of "''false''" 0] reads_number [of "''0''" 0]
  by (simp_all add: name_start_def name_char_def lua_keywords_def name_exp_def is_digit_def)


section \<open>Generators\<close>

definition values_as :: "code result \<Rightarrow> lexp \<Rightarrow> bool" where
  "values_as c e \<longleftrightarrow> (\<exists>s k. c = Inr (CTuple s k) \<and> s \<noteq> [] \<and> k < 10 \<and> reads s k e)"

lemma compare_op_symbol:
  assumes "op \<in> {''EQ'', ''NEQ'', ''LT'', ''LTE'', ''GT'', ''GTE''}"
  shows "compare_op op \<in> set operator_symbols" and "map_of priorities (compare_op op) = Some (left_of 7, right_of 7)"
  using assms by (auto simp: compare_op_def operator_symbols_def priorities_def left_of_def right_of_def)

lemma logic_compare_as:
  assumes "inputs_as ics es" and "getFieldValue fs ''OP'' = Some (FText op)"
    and "op \<in> {''EQ'', ''NEQ'', ''LT'', ''LTE'', ''GT'', ''GTE''}"
  shows "values_as (logic_compare fs ics) (value_ast ''logic_compare'' fs es)"
proof -
  obtain a ka where a: "valueToCode ics ''A'' 7 = Inr a" "ka < 7" "reads (or_else a ''0'') ka (or_exp (arg es ''A'') (ENum ''0''))"
    using operand_or [OF assms(1) _ _ reads_words(3), of 7 "''A''"] by auto
  obtain b kb where b: "valueToCode ics ''B'' 7 = Inr b" "kb < 7" "reads (or_else b ''0'') kb (or_exp (arg es ''B'') (ENum ''0''))"
    using operand_or [OF assms(1) _ _ reads_words(3), of 7 "''B''"] by auto
  from reads_binary [OF a(3) b(3) a(2) b(2), of "compare_op op"] compare_op_symbol [OF assms(3)]
  have "reads (or_else a ''0'' @ '' '' @ compare_op op @ '' '' @ or_else b ''0'') 7
      (EBin (compare_op op) (or_exp (arg es ''A'') (ENum ''0'')) (or_exp (arg es ''B'') (ENum ''0'')))"
    by simp
  then show ?thesis
    using a(1) b(1) assms(2) by (simp add: values_as_def logic_compare_def value_ast_def)
qed

lemma logic_operation_as:
  assumes "inputs_as ics es"
  shows "values_as (logic_operation fs ics) (value_ast ''logic_operation'' fs es)"
proof -
  define c where "c = (getFieldValue fs ''OP'' = Some (FText ''AND''))"
  define k :: nat where "k = (if c then 8 else 9)"
  define y where "y = (if c then ''and'' else ''or'')"
  define none where "none = (arg es ''A'' = None \<and> arg es ''B'' = None)"
  define d where "d = (if none then ''false'' else if c then ''true'' else ''false'')"
  define e where "e = (if none then EFalse else if c then ETrue else EFalse)"
  have d: "reads d 0 e" "d \<noteq> []" using reads_words by (auto simp: d_def e_def)
  have k: "0 < k" "k < 10" "1 < k \<and> k \<noteq> 3" by (auto simp: k_def)
  have y: "map_of priorities y = Some (left_of k, right_of k)" "y \<in> {''and'', ''or''}"
    by (auto simp: y_def k_def priorities_def left_of_def right_of_def)
  obtain a ka where a: "valueToCode ics ''A'' k = Inr a" "a = [] \<longleftrightarrow> arg es ''A'' = None" "ka < k"
    "reads (or_else a d) ka (or_exp (arg es ''A'') e)"
    using operand_or [OF assms k(1,2) d, of "''A''"] by metis
  obtain b kb where b: "valueToCode ics ''B'' k = Inr b" "b = [] \<longleftrightarrow> arg es ''B'' = None" "kb < k"
    "reads (or_else b d) kb (or_exp (arg es ''B'') e)"
    using operand_or [OF assms k(1,2) d, of "''B''"] by metis
  have "reads (or_else a d @ '' '' @ y @ '' '' @ or_else b d) k (EBin y (or_exp (arg es ''A'') e) (or_exp (arg es ''B'') e))"
    using reads_binary [OF a(4) b(4) a(3) b(3) k(2,3) y(1)] y(2) by blast
  moreover have "logic_operation fs ics = Inr (CTuple (or_else a d @ '' '' @ y @ '' '' @ or_else b d) k)"
    using a(1,2) b(1,2)
    by (auto simp: logic_operation_def Let_def c_def [symmetric] k_def y_def d_def none_def or_else_def)
  moreover have "value_ast ''logic_operation'' fs es = EBin y (or_exp (arg es ''A'') e) (or_exp (arg es ''B'') e)"
    by (simp add: value_ast_def Let_def c_def [symmetric] y_def e_def none_def)
  ultimately show ?thesis using k(2) by (simp add: values_as_def)
qed

lemma logic_negate_as:
  assumes "inputs_as ics es"
  shows "values_as (logic_negate fs ics) (value_ast ''logic_negate'' fs es)"
proof -
  obtain a ka where a: "valueToCode ics ''BOOL'' 3 = Inr a" "ka < 3" "reads (or_else a ''true'') ka (or_exp (arg es ''BOOL'') ETrue)"
    using operand_or [OF assms _ _ reads_words(1), of 3 "''BOOL''"] by auto
  from reads_not [OF a(3,2)] show ?thesis
    using a(1) by (simp add: values_as_def logic_negate_def value_ast_def)
qed

lemma text_as:
  assumes "getFieldValue fs ''TEXT'' = Some (FText s)" and "CR \<notin> set s"
  shows "values_as (text_generator fs ics) (value_ast ''text'' fs es)"
  using reads_quote [OF assms(2), of 0] assms(1)
  by (simp add: values_as_def text_generator_def value_ast_def) (simp add: lua_quote_def Let_def)

lemma value_generator_as:
  assumes "rules_shapes ty ns = Some sh" and "ty \<in> value_types" and "wf_fields fs (sh_fields sh)" and "inputs_as ics es"
    and "\<forall>s. (''TEXT'', FText s) \<in> set fs \<longrightarrow> CR \<notin> set s"
  shows "\<exists>g. rules_generators ty = Some g \<and> values_as (g fs ics) (value_ast ty fs es)"
proof -
  consider "ty = ''logic_compare''" | "ty = ''logic_operation''" | "ty = ''logic_negate''" | "ty = ''text''"
    using assms(2) by (auto simp: value_types_def)
  then show ?thesis
  proof cases
    case 1
    with assms(1) have "sh = logic_compare_shape" by (simp add: rules_shapes_def)
    with wf_fieldsD [OF assms(3), of "''OP''"] obtain op where "getFieldValue fs ''OP'' = Some (FText op)"
      "op \<in> {''EQ'', ''NEQ'', ''LT'', ''LTE'', ''GT'', ''GTE''}"
      by (auto simp: logic_compare_shape_def field_ok_cases)
    from logic_compare_as [OF assms(4) this] 1 show ?thesis by (simp add: rules_generators_def)
  next
    case 2
    with logic_operation_as [OF assms(4)] show ?thesis by (simp add: rules_generators_def)
  next
    case 3
    with logic_negate_as [OF assms(4)] show ?thesis by (simp add: rules_generators_def)
  next
    case 4
    with assms(1) have "sh = text_shape" by (simp add: rules_shapes_def)
    with wf_fieldsD [OF assms(3), of "''TEXT''"] obtain s where s: "getFieldValue fs ''TEXT'' = Some (FText s)"
      by (auto simp: text_shape_def field_ok_cases)
    then have "CR \<notin> set s" using assms(5) by (auto simp: getFieldValue_def dest: map_of_SomeD)
    from text_as [OF s this] 4 show ?thesis by (simp add: rules_generators_def)
  qed
qed


section \<open>Trees\<close>

lemma value_block_ends:
  \<comment> \<open>no block follows a value block\<close>
  assumes "wf_block rules_shapes (Block ty i en cm fs ins nx)" and "ty \<in> value_types"
  shows "nx = None"
  using assms value_type_sides [of ty "map iname ins"] by (auto split: option.splits)

lemma block_codes_as:
  "wf_block rules_shapes b \<Longrightarrow> btype b \<in> value_types \<Longrightarrow> no_return_char b \<Longrightarrow>
   codes_as (blockToCode (rules_lua wrap) b) (block_ast b)"
proof (induction b rule: block.induct
    [where ?P2.0 = "\<lambda>i. \<forall>b. itarget i = Some b \<longrightarrow> wf_block rules_shapes b \<longrightarrow> btype b \<in> value_types \<longrightarrow>
       no_return_char b \<longrightarrow> codes_as (blockToCode (rules_lua wrap) b) (block_ast b)"])
  case (Block ty i en cm fs ins nx)
  from Block.prems(1) obtain sh where sh: "rules_shapes ty (map iname ins) = Some sh"
    and fs: "wf_fields fs (sh_fields sh)" and wi: "wf_inputs rules_shapes ins (sh_inputs sh)"
    by (auto split: option.splits)
  have ty: "ty \<in> value_types" using Block.prems(2) by simp
  have nx: "nx = None" using value_block_ends [OF Block.prems(1) ty] .
  have only_values: "\<forall>(n, t, c) \<in> set (sh_inputs sh). t = VALUE"
    using ty sh unfolding value_types_def by (elim insertE emptyE) (auto simp: shape_defs)
  have "inputs_as (map (inputToCode (rules_lua wrap)) js) (map input_ast js)"
    if "wf_inputs rules_shapes js cs" "\<forall>(n, t, c) \<in> set cs. t = VALUE" "set js \<subseteq> set ins" for js cs
    using that
  proof (induction js arbitrary: cs)
    case Nil
    show ?case by (simp add: inputs_as_def)
  next
    case (Cons j js)
    obtain n t tgt where j: "j = Input n t tgt" by (cases j)
    from Cons.prems(1) j obtain c cs' where cs: "cs = (n, t, c) # cs'" and wf: "wf_inputs rules_shapes js cs'"
      and tgt: "case tgt of None \<Rightarrow> True | Some b \<Rightarrow> fits rules_shapes t c b \<and> wf_block rules_shapes b"
      by (cases cs) auto
    have rest: "inputs_as (map (inputToCode (rules_lua wrap)) js) (map input_ast js)"
      using Cons.IH [OF wf] Cons.prems by (auto simp: cs)
    show ?case
    proof (cases tgt)
      case None
      with rest show ?thesis by (simp add: inputs_as_def j)
    next
      case (Some b)
      have "t = VALUE" using Cons.prems(2) by (simp add: cs)
      with tgt Some obtain sh' where sh': "rules_shapes (btype b) (map iname (inputs b)) = Some sh'" "sh_output sh' \<noteq> None"
        by (auto simp: fits_def block_shape_def split: option.splits)
      then have "btype b \<in> value_types" using rules_shapes_sides [OF sh'(1)] by (auto split: if_splits)
      moreover have "no_return_char b" using Block.prems(3) Cons.prems(3) by (auto simp: j Some list_all_iff)
      moreover have mem: "j \<in> set ins" using Cons.prems(3) by simp
      ultimately have "codes_as (blockToCode (rules_lua wrap) b) (block_ast b)"
        using Block.hyps [OF mem] tgt by (auto simp: j Some)
      with rest show ?thesis by (simp add: inputs_as_def j Some)
    qed
  qed
  from this [OF wi only_values order.refl]
  have ins: "inputs_as (map (inputToCode (rules_lua wrap)) ins) (map input_ast ins)" .
  have cr: "\<forall>s. (''TEXT'', FText s) \<in> set fs \<longrightarrow> CR \<notin> set s" using Block.prems(3) by simp
  from value_generator_as [OF sh ty fs ins cr] obtain g where g: "rules_generators ty = Some g"
    "values_as (g fs (map (inputToCode (rules_lua wrap)) ins)) (value_ast ty fs (map input_ast ins))" by blast
  have out: "ty = ''logic_compare'' \<or> ty = ''logic_operation'' \<or> ty = ''logic_negate'' \<or> ty = ''text''"
    using ty by (auto simp: value_types_def)
  show ?case
  proof (cases en)
    case True
    with g out nx show ?thesis by (auto simp: codes_as_def values_as_def rules_lua_def)
  next
    case False
    with nx show ?thesis by (simp add: codes_as_def)
  qed
next
  case (Input n t tgt)
  then show ?case by auto
qed

text \<open>
  C3. A condition means what its blocks show: for every tree of comparison, \<open>and\<close>/\<open>or\<close>, negation and text blocks that the editor
  accepts, the generated code is read by Lua as exactly the expression of the tree, with the default of the generator
  in every empty or disabled input. The parentheses that the generator writes are enough for every nesting, and with more
  fuel the parser gives the same result.
\<close>

theorem condition_reads_back:
  assumes "wf_block rules_shapes b" and "btype b \<in> value_types" and "no_return_char b" and "enabled b"
  shows "\<exists>s k n e. blockToCode (rules_lua wrap) b = Inr (CTuple s k) \<and> block_ast b = Some e \<and>
    (\<forall>m \<ge> n. lua_parse m s = Some e)"
proof -
  obtain e where e: "block_ast b = Some e" using assms(4) by (cases b) auto
  with block_codes_as [OF assms(1-3), of wrap] obtain s k
    where s: "blockToCode (rules_lua wrap) b = Inr (CTuple s k)" "k < 10" "reads s k e"
    by (auto simp: codes_as_def)
  from reads_parse [OF s(3,2)] obtain n where "lua_parse n s = Some e" ..
  then have "\<forall>m \<ge> n. lua_parse m s = Some e" using lua_parse_mono by blast
  with s(1) e show ?thesis by blast
qed

definition sample_condition :: block where
  \<comment> \<open>\<open>not (a == b and (a == b or empty))\<close>\<close>
  "sample_condition =
    (let cmp = Block ''logic_compare'' ''c'' True None [(''OP'', FText ''EQ'')]
           [Input ''A'' VALUE (Some (Block ''text'' ''a'' True None [(''TEXT'', FText ''a'')] [] None)),
            Input ''B'' VALUE (Some (Block ''text'' ''b'' True None [(''TEXT'', FText ''b'')] [] None))] None;
         disj = Block ''logic_operation'' ''o'' True None [(''OP'', FText ''OR'')] [Input ''A'' VALUE (Some cmp), Input ''B'' VALUE None] None;
         conj = Block ''logic_operation'' ''d'' True None [(''OP'', FText ''AND'')] [Input ''A'' VALUE (Some cmp), Input ''B'' VALUE (Some disj)] None
     in Block ''logic_negate'' ''n'' True None [] [Input ''BOOL'' VALUE (Some conj)] None)"

theorem condition_reads_back_witness:
  "\<exists>s k n. blockToCode (rules_lua id) sample_condition = Inr (CTuple s k) \<and>
     lua_parse n s = Some (EUn ''not'' (EBin ''and'' (EBin ''=='' (EStr ''a'') (EStr ''b''))
       (EBin ''or'' (EBin ''=='' (EStr ''a'') (EStr ''b'')) EFalse)))"
proof -
  have "wf_block rules_shapes sample_condition" "btype sample_condition \<in> value_types" "no_return_char sample_condition"
    "enabled sample_condition"
    by (simp_all add: sample_condition_def Let_def shape_defs fits_def block_shape_def doTypeChecks_def wf_fields_def field_ok_def
        value_types_def)
  from condition_reads_back [OF this, of id] obtain s k n e
    where r: "blockToCode (rules_lua id) sample_condition = Inr (CTuple s k)" "block_ast sample_condition = Some e"
      "lua_parse n s = Some e" by blast
  have "block_ast sample_condition = Some (EUn ''not'' (EBin ''and'' (EBin ''=='' (EStr ''a'') (EStr ''b''))
       (EBin ''or'' (EBin ''=='' (EStr ''a'') (EStr ''b'')) EFalse)))"
    by (simp add: sample_condition_def Let_def value_ast_def arg_def or_exp_def getFieldValue_def compare_op_def)
  with r show ?thesis by auto
qed

end
