(* ===== verification/Msg_En.thy ===== *)
theory Msg_En
  imports Prelude "HOL-Library.Multiset"
begin

text \<open>
  The English messages of Blockly (\<open>pkg/web/static/js/blockly/msg/en.js\<close>): the assignments of
  the file in order, as tables of the literal messages, of the messages that copy an earlier one
  and of the hues, and \<open>en_Msg\<close>, the object \<open>Blockly.Msg\<close> after the file has run. A character
  outside ASCII is written as the bytes of its UTF-8 encoding. The keys of the file are distinct,
  which is shown by their order, so that every message of the tables is found under its key:
  the facts of the collection \<open>msg_lookups\<close> rewrite each lookup to its text.
\<close>

named_theorems msg_lookups \<open>each message under its key\<close>

section \<open>The tables\<close>

definition en_general_1 :: "(string \<times> string) list" where
  \<open>en_general_1 = [
     (''ADD_COMMENT'', ''Add Comment''),
     (''CANNOT_DELETE_VARIABLE_PROCEDURE'', ''Can't delete the variable '%1' because it's part of the definition of the function '%2'' @ [CHR 0x27]),
     (''CHANGE_VALUE_TITLE'', ''Change value:''),
     (''CLEAN_UP'', ''Clean up Blocks''),
     (''COLLAPSED_WARNINGS_WARNING'', ''Collapsed blocks contain warnings.''),
     (''COLLAPSE_ALL'', ''Collapse Blocks''),
     (''COLLAPSE_BLOCK'', ''Collapse Block'')]\<close>

definition en_colour :: "(string \<times> string) list" where
  \<open>en_colour = [
     (''COLOUR_BLEND_COLOUR1'', ''colour 1''),
     (''COLOUR_BLEND_COLOUR2'', ''colour 2''),
     (''COLOUR_BLEND_HELPURL'', ''https://meyerweb.com/eric/tools/color-blend/#:::rgbp''),
     (''COLOUR_BLEND_RATIO'', ''ratio''),
     (''COLOUR_BLEND_TITLE'', ''blend''),
     (''COLOUR_BLEND_TOOLTIP'', ''Blends two colours together with a given ratio (0.0 - 1.0).''),
     (''COLOUR_PICKER_HELPURL'', ''https://en.wikipedia.org/wiki/Color''),
     (''COLOUR_PICKER_TOOLTIP'', ''Choose a colour from the palette.''),
     (''COLOUR_RANDOM_HELPURL'', ''http://randomcolour.com''),
     (''COLOUR_RANDOM_TITLE'', ''random colour''),
     (''COLOUR_RANDOM_TOOLTIP'', ''Choose a colour at random.''),
     (''COLOUR_RGB_BLUE'', ''blue''),
     (''COLOUR_RGB_GREEN'', ''green''),
     (''COLOUR_RGB_HELPURL'', ''https://www.december.com/html/spec/colorpercompact.html''),
     (''COLOUR_RGB_RED'', ''red''),
     (''COLOUR_RGB_TITLE'', ''colour with''),
     (''COLOUR_RGB_TOOLTIP'', ''Create a colour with the specified amount of red, green, and blue. All values must be between 0 and 100.'')]\<close>

definition en_controls_1 :: "(string \<times> string) list" where
  \<open>en_controls_1 = [
     (''CONTROLS_FLOW_STATEMENTS_HELPURL'', ''https://github.com/google/blockly/wiki/Loops#loop-termination-blocks''),
     (''CONTROLS_FLOW_STATEMENTS_OPERATOR_BREAK'', ''break out of loop''),
     (''CONTROLS_FLOW_STATEMENTS_OPERATOR_CONTINUE'', ''continue with next iteration of loop''),
     (''CONTROLS_FLOW_STATEMENTS_TOOLTIP_BREAK'', ''Break out of the containing loop.''),
     (''CONTROLS_FLOW_STATEMENTS_TOOLTIP_CONTINUE'', ''Skip the rest of this loop, and continue with the next iteration.''),
     (''CONTROLS_FLOW_STATEMENTS_WARNING'', ''Warning: This block may only be used within a loop.''),
     (''CONTROLS_FOREACH_HELPURL'', ''https://github.com/google/blockly/wiki/Loops#for-each''),
     (''CONTROLS_FOREACH_TITLE'', ''for each item %1 in list %2''),
     (''CONTROLS_FOREACH_TOOLTIP'', ''For each item in a list, set the variable '%1' to the item, and then do some statements.''),
     (''CONTROLS_FOR_HELPURL'', ''https://github.com/google/blockly/wiki/Loops#count-with''),
     (''CONTROLS_FOR_TITLE'', ''count with %1 from %2 to %3 by %4''),
     (''CONTROLS_FOR_TOOLTIP'', ''Have the variable '%1' take on the values from the start number to the end number, counting by the specified interval, and do the specified blocks.''),
     (''CONTROLS_IF_ELSEIF_TOOLTIP'', ''Add a condition to the if block.''),
     (''CONTROLS_IF_ELSE_TOOLTIP'', ''Add a final, catch-all condition to the if block.''),
     (''CONTROLS_IF_HELPURL'', ''https://github.com/google/blockly/wiki/IfElse''),
     (''CONTROLS_IF_IF_TOOLTIP'', ''Add, remove, or reorder sections to reconfigure this if block.''),
     (''CONTROLS_IF_MSG_ELSE'', ''else''),
     (''CONTROLS_IF_MSG_ELSEIF'', ''else if''),
     (''CONTROLS_IF_MSG_IF'', ''if''),
     (''CONTROLS_IF_TOOLTIP_1'', ''If a value is true, then do some statements.'')]\<close>

definition en_controls_2 :: "(string \<times> string) list" where
  \<open>en_controls_2 = [
     (''CONTROLS_IF_TOOLTIP_2'', ''If a value is true, then do the first block of statements. Otherwise, do the second block of statements.''),
     (''CONTROLS_IF_TOOLTIP_3'', ''If the first value is true, then do the first block of statements. Otherwise, if the second value is true, do the second block of statements.''),
     (''CONTROLS_IF_TOOLTIP_4'', ''If the first value is true, then do the first block of statements. Otherwise, if the second value is true, do the second block of statements. If none of the values are true, do the last block of statements.''),
     (''CONTROLS_REPEAT_HELPURL'', ''https://en.wikipedia.org/wiki/For_loop''),
     (''CONTROLS_REPEAT_INPUT_DO'', ''do''),
     (''CONTROLS_REPEAT_TITLE'', ''repeat %1 times''),
     (''CONTROLS_REPEAT_TOOLTIP'', ''Do some statements several times.''),
     (''CONTROLS_WHILEUNTIL_HELPURL'', ''https://github.com/google/blockly/wiki/Loops#repeat''),
     (''CONTROLS_WHILEUNTIL_OPERATOR_UNTIL'', ''repeat until''),
     (''CONTROLS_WHILEUNTIL_OPERATOR_WHILE'', ''repeat while''),
     (''CONTROLS_WHILEUNTIL_TOOLTIP_UNTIL'', ''While a value is false, then do some statements.''),
     (''CONTROLS_WHILEUNTIL_TOOLTIP_WHILE'', ''While a value is true, then do some statements.'')]\<close>

definition en_general_2 :: "(string \<times> string) list" where
  \<open>en_general_2 = [
     (''DELETE_ALL_BLOCKS'', ''Delete all %1 blocks?''),
     (''DELETE_BLOCK'', ''Delete Block''),
     (''DELETE_VARIABLE'', ''Delete the '%1' variable''),
     (''DELETE_VARIABLE_CONFIRMATION'', ''Delete %1 uses of the '%2' variable?''),
     (''DELETE_X_BLOCKS'', ''Delete %1 Blocks''),
     (''DIALOG_CANCEL'', ''Cancel''),
     (''DIALOG_OK'', ''OK''),
     (''DISABLE_BLOCK'', ''Disable Block''),
     (''DUPLICATE_BLOCK'', ''Duplicate''),
     (''DUPLICATE_COMMENT'', ''Duplicate Comment''),
     (''ENABLE_BLOCK'', ''Enable Block''),
     (''EXPAND_ALL'', ''Expand Blocks''),
     (''EXPAND_BLOCK'', ''Expand Block''),
     (''EXTERNAL_INPUTS'', ''External Inputs'')]\<close>

definition en_general_3 :: "(string \<times> string) list" where
  \<open>en_general_3 = [
     (''HELP'', ''Help''),
     (''INLINE_INPUTS'', ''Inline Inputs'')]\<close>

definition en_lists_1 :: "(string \<times> string) list" where
  \<open>en_lists_1 = [
     (''LISTS_CREATE_EMPTY_HELPURL'', ''https://github.com/google/blockly/wiki/Lists#create-empty-list''),
     (''LISTS_CREATE_EMPTY_TITLE'', ''create empty list''),
     (''LISTS_CREATE_EMPTY_TOOLTIP'', ''Returns a list, of length 0, containing no data records''),
     (''LISTS_CREATE_WITH_CONTAINER_TITLE_ADD'', ''list''),
     (''LISTS_CREATE_WITH_CONTAINER_TOOLTIP'', ''Add, remove, or reorder sections to reconfigure this list block.''),
     (''LISTS_CREATE_WITH_HELPURL'', ''https://github.com/google/blockly/wiki/Lists#create-list-with''),
     (''LISTS_CREATE_WITH_INPUT_WITH'', ''create list with''),
     (''LISTS_CREATE_WITH_ITEM_TOOLTIP'', ''Add an item to the list.''),
     (''LISTS_CREATE_WITH_TOOLTIP'', ''Create a list with any number of items.''),
     (''LISTS_GET_INDEX_FIRST'', ''first''),
     (''LISTS_GET_INDEX_FROM_END'', ''# from end''),
     (''LISTS_GET_INDEX_FROM_START'', ''#''),
     (''LISTS_GET_INDEX_GET'', ''get''),
     (''LISTS_GET_INDEX_GET_REMOVE'', ''get and remove''),
     (''LISTS_GET_INDEX_LAST'', ''last''),
     (''LISTS_GET_INDEX_RANDOM'', ''random''),
     (''LISTS_GET_INDEX_REMOVE'', ''remove''),
     (''LISTS_GET_INDEX_TAIL'', ''''),
     (''LISTS_GET_INDEX_TOOLTIP_GET_FIRST'', ''Returns the first item in a list.''),
     (''LISTS_GET_INDEX_TOOLTIP_GET_FROM'', ''Returns the item at the specified position in a list.'')]\<close>

definition en_lists_2 :: "(string \<times> string) list" where
  \<open>en_lists_2 = [
     (''LISTS_GET_INDEX_TOOLTIP_GET_LAST'', ''Returns the last item in a list.''),
     (''LISTS_GET_INDEX_TOOLTIP_GET_RANDOM'', ''Returns a random item in a list.''),
     (''LISTS_GET_INDEX_TOOLTIP_GET_REMOVE_FIRST'', ''Removes and returns the first item in a list.''),
     (''LISTS_GET_INDEX_TOOLTIP_GET_REMOVE_FROM'', ''Removes and returns the item at the specified position in a list.''),
     (''LISTS_GET_INDEX_TOOLTIP_GET_REMOVE_LAST'', ''Removes and returns the last item in a list.''),
     (''LISTS_GET_INDEX_TOOLTIP_GET_REMOVE_RANDOM'', ''Removes and returns a random item in a list.''),
     (''LISTS_GET_INDEX_TOOLTIP_REMOVE_FIRST'', ''Removes the first item in a list.''),
     (''LISTS_GET_INDEX_TOOLTIP_REMOVE_FROM'', ''Removes the item at the specified position in a list.''),
     (''LISTS_GET_INDEX_TOOLTIP_REMOVE_LAST'', ''Removes the last item in a list.''),
     (''LISTS_GET_INDEX_TOOLTIP_REMOVE_RANDOM'', ''Removes a random item in a list.''),
     (''LISTS_GET_SUBLIST_END_FROM_END'', ''to # from end''),
     (''LISTS_GET_SUBLIST_END_FROM_START'', ''to #''),
     (''LISTS_GET_SUBLIST_END_LAST'', ''to last''),
     (''LISTS_GET_SUBLIST_HELPURL'', ''https://github.com/google/blockly/wiki/Lists#getting-a-sublist''),
     (''LISTS_GET_SUBLIST_START_FIRST'', ''get sub-list from first''),
     (''LISTS_GET_SUBLIST_START_FROM_END'', ''get sub-list from # from end''),
     (''LISTS_GET_SUBLIST_START_FROM_START'', ''get sub-list from #''),
     (''LISTS_GET_SUBLIST_TAIL'', ''''),
     (''LISTS_GET_SUBLIST_TOOLTIP'', ''Creates a copy of the specified portion of a list.'')]\<close>

definition en_lists_3 :: "(string \<times> string) list" where
  \<open>en_lists_3 = [
     (''LISTS_INDEX_FROM_END_TOOLTIP'', ''%1 is the last item.''),
     (''LISTS_INDEX_FROM_START_TOOLTIP'', ''%1 is the first item.''),
     (''LISTS_INDEX_OF_FIRST'', ''find first occurrence of item''),
     (''LISTS_INDEX_OF_HELPURL'', ''https://github.com/google/blockly/wiki/Lists#getting-items-from-a-list''),
     (''LISTS_INDEX_OF_LAST'', ''find last occurrence of item''),
     (''LISTS_INDEX_OF_TOOLTIP'', ''Returns the index of the first/last occurrence of the item in the list. Returns %1 if item is not found.''),
     (''LISTS_INLIST'', ''in list''),
     (''LISTS_ISEMPTY_HELPURL'', ''https://github.com/google/blockly/wiki/Lists#is-empty''),
     (''LISTS_ISEMPTY_TITLE'', ''%1 is empty''),
     (''LISTS_ISEMPTY_TOOLTIP'', ''Returns true if the list is empty.''),
     (''LISTS_LENGTH_HELPURL'', ''https://github.com/google/blockly/wiki/Lists#length-of''),
     (''LISTS_LENGTH_TITLE'', ''length of %1''),
     (''LISTS_LENGTH_TOOLTIP'', ''Returns the length of a list.''),
     (''LISTS_REPEAT_HELPURL'', ''https://github.com/google/blockly/wiki/Lists#create-list-with''),
     (''LISTS_REPEAT_TITLE'', ''create list with item %1 repeated %2 times''),
     (''LISTS_REPEAT_TOOLTIP'', ''Creates a list consisting of the given value repeated the specified number of times.'')]\<close>

definition en_lists_4 :: "(string \<times> string) list" where
  \<open>en_lists_4 = [
     (''LISTS_REVERSE_HELPURL'', ''https://github.com/google/blockly/wiki/Lists#reversing-a-list''),
     (''LISTS_REVERSE_MESSAGE0'', ''reverse %1''),
     (''LISTS_REVERSE_TOOLTIP'', ''Reverse a copy of a list.''),
     (''LISTS_SET_INDEX_HELPURL'', ''https://github.com/google/blockly/wiki/Lists#in-list--set''),
     (''LISTS_SET_INDEX_INPUT_TO'', ''as''),
     (''LISTS_SET_INDEX_INSERT'', ''insert at''),
     (''LISTS_SET_INDEX_SET'', ''set''),
     (''LISTS_SET_INDEX_TOOLTIP_INSERT_FIRST'', ''Inserts the item at the start of a list.''),
     (''LISTS_SET_INDEX_TOOLTIP_INSERT_FROM'', ''Inserts the item at the specified position in a list.''),
     (''LISTS_SET_INDEX_TOOLTIP_INSERT_LAST'', ''Append the item to the end of a list.''),
     (''LISTS_SET_INDEX_TOOLTIP_INSERT_RANDOM'', ''Inserts the item randomly in a list.''),
     (''LISTS_SET_INDEX_TOOLTIP_SET_FIRST'', ''Sets the first item in a list.''),
     (''LISTS_SET_INDEX_TOOLTIP_SET_FROM'', ''Sets the item at the specified position in a list.''),
     (''LISTS_SET_INDEX_TOOLTIP_SET_LAST'', ''Sets the last item in a list.''),
     (''LISTS_SET_INDEX_TOOLTIP_SET_RANDOM'', ''Sets a random item in a list.'')]\<close>

definition en_lists_5 :: "(string \<times> string) list" where
  \<open>en_lists_5 = [
     (''LISTS_SORT_HELPURL'', ''https://github.com/google/blockly/wiki/Lists#sorting-a-list''),
     (''LISTS_SORT_ORDER_ASCENDING'', ''ascending''),
     (''LISTS_SORT_ORDER_DESCENDING'', ''descending''),
     (''LISTS_SORT_TITLE'', ''sort %1 %2 %3''),
     (''LISTS_SORT_TOOLTIP'', ''Sort a copy of a list.''),
     (''LISTS_SORT_TYPE_IGNORECASE'', ''alphabetic, ignore case''),
     (''LISTS_SORT_TYPE_NUMERIC'', ''numeric''),
     (''LISTS_SORT_TYPE_TEXT'', ''alphabetic''),
     (''LISTS_SPLIT_HELPURL'', ''https://github.com/google/blockly/wiki/Lists#splitting-strings-and-joining-lists''),
     (''LISTS_SPLIT_LIST_FROM_TEXT'', ''make list from text''),
     (''LISTS_SPLIT_TEXT_FROM_LIST'', ''make text from list''),
     (''LISTS_SPLIT_TOOLTIP_JOIN'', ''Join a list of texts into one text, separated by a delimiter.''),
     (''LISTS_SPLIT_TOOLTIP_SPLIT'', ''Split text into a list of texts, breaking at each delimiter.''),
     (''LISTS_SPLIT_WITH_DELIMITER'', ''with delimiter'')]\<close>

definition en_logic_1 :: "(string \<times> string) list" where
  \<open>en_logic_1 = [
     (''LOGIC_BOOLEAN_FALSE'', ''false''),
     (''LOGIC_BOOLEAN_HELPURL'', ''https://github.com/google/blockly/wiki/Logic#values''),
     (''LOGIC_BOOLEAN_TOOLTIP'', ''Returns either true or false.''),
     (''LOGIC_BOOLEAN_TRUE'', ''true''),
     (''LOGIC_COMPARE_HELPURL'', ''https://en.wikipedia.org/wiki/Inequality_(mathematics)''),
     (''LOGIC_COMPARE_TOOLTIP_EQ'', ''Return true if both inputs equal each other.''),
     (''LOGIC_COMPARE_TOOLTIP_GT'', ''Return true if the first input is greater than the second input.''),
     (''LOGIC_COMPARE_TOOLTIP_GTE'', ''Return true if the first input is greater than or equal to the second input.''),
     (''LOGIC_COMPARE_TOOLTIP_LT'', ''Return true if the first input is smaller than the second input.''),
     (''LOGIC_COMPARE_TOOLTIP_LTE'', ''Return true if the first input is smaller than or equal to the second input.''),
     (''LOGIC_COMPARE_TOOLTIP_NEQ'', ''Return true if both inputs are not equal to each other.''),
     (''LOGIC_NEGATE_HELPURL'', ''https://github.com/google/blockly/wiki/Logic#not''),
     (''LOGIC_NEGATE_TITLE'', ''not %1''),
     (''LOGIC_NEGATE_TOOLTIP'', ''Returns true if the input is false. Returns false if the input is true.'')]\<close>

definition en_logic_2 :: "(string \<times> string) list" where
  \<open>en_logic_2 = [
     (''LOGIC_NULL'', ''null''),
     (''LOGIC_NULL_HELPURL'', ''https://en.wikipedia.org/wiki/Nullable_type''),
     (''LOGIC_NULL_TOOLTIP'', ''Returns null.''),
     (''LOGIC_OPERATION_AND'', ''and''),
     (''LOGIC_OPERATION_HELPURL'', ''https://github.com/google/blockly/wiki/Logic#logical-operations''),
     (''LOGIC_OPERATION_OR'', ''or''),
     (''LOGIC_OPERATION_TOOLTIP_AND'', ''Return true if both inputs are true.''),
     (''LOGIC_OPERATION_TOOLTIP_OR'', ''Return true if at least one of the inputs is true.''),
     (''LOGIC_TERNARY_CONDITION'', ''test''),
     (''LOGIC_TERNARY_HELPURL'', ''https://en.wikipedia.org/wiki/%3F:''),
     (''LOGIC_TERNARY_IF_FALSE'', ''if false''),
     (''LOGIC_TERNARY_IF_TRUE'', ''if true''),
     (''LOGIC_TERNARY_TOOLTIP'', ''Check the condition in 'test'. If the condition is true, returns the 'if true' value; otherwise returns the 'if false' value.'')]\<close>

definition en_math_1 :: "(string \<times> string) list" where
  \<open>en_math_1 = [
     (''MATH_ADDITION_SYMBOL'', ''+''),
     (''MATH_ARITHMETIC_HELPURL'', ''https://en.wikipedia.org/wiki/Arithmetic''),
     (''MATH_ARITHMETIC_TOOLTIP_ADD'', ''Return the sum of the two numbers.''),
     (''MATH_ARITHMETIC_TOOLTIP_DIVIDE'', ''Return the quotient of the two numbers.''),
     (''MATH_ARITHMETIC_TOOLTIP_MINUS'', ''Return the difference of the two numbers.''),
     (''MATH_ARITHMETIC_TOOLTIP_MULTIPLY'', ''Return the product of the two numbers.''),
     (''MATH_ARITHMETIC_TOOLTIP_POWER'', ''Return the first number raised to the power of the second number.''),
     (''MATH_ATAN2_HELPURL'', ''https://en.wikipedia.org/wiki/Atan2''),
     (''MATH_ATAN2_TITLE'', ''atan2 of X:%1 Y:%2''),
     (''MATH_ATAN2_TOOLTIP'', ''Return the arctangent of point (X, Y) in degrees from -180 to 180.''),
     (''MATH_CHANGE_HELPURL'', ''https://en.wikipedia.org/wiki/Programming_idiom#Incrementing_a_counter''),
     (''MATH_CHANGE_TITLE'', ''change %1 by %2''),
     (''MATH_CHANGE_TOOLTIP'', ''Add a number to variable '%1'.''),
     (''MATH_CONSTANT_HELPURL'', ''https://en.wikipedia.org/wiki/Mathematical_constant''),
     (''MATH_CONSTANT_TOOLTIP'', ''Return one of the common constants: '' @ [CHR 0xCF, CHR 0x80] @ '' (3.141'' @ [CHR 0xE2, CHR 0x80, CHR 0xA6] @ ''), e (2.718'' @ [CHR 0xE2, CHR 0x80, CHR 0xA6] @ ''), '' @ [CHR 0xCF, CHR 0x86] @ '' (1.618'' @ [CHR 0xE2, CHR 0x80, CHR 0xA6] @ ''), sqrt(2) (1.414'' @ [CHR 0xE2, CHR 0x80, CHR 0xA6] @ ''), sqrt('' @ [CHR 0xC2, CHR 0xBD] @ '') (0.707'' @ [CHR 0xE2, CHR 0x80, CHR 0xA6] @ ''), or '' @ [CHR 0xE2, CHR 0x88, CHR 0x9E] @ '' (infinity).'')]\<close>

definition en_math_2 :: "(string \<times> string) list" where
  \<open>en_math_2 = [
     (''MATH_CONSTRAIN_HELPURL'', ''https://en.wikipedia.org/wiki/Clamping_(graphics)''),
     (''MATH_CONSTRAIN_TITLE'', ''constrain %1 low %2 high %3''),
     (''MATH_CONSTRAIN_TOOLTIP'', ''Constrain a number to be between the specified limits (inclusive).''),
     (''MATH_DIVISION_SYMBOL'', [CHR 0xC3, CHR 0xB7]),
     (''MATH_IS_DIVISIBLE_BY'', ''is divisible by''),
     (''MATH_IS_EVEN'', ''is even''),
     (''MATH_IS_NEGATIVE'', ''is negative''),
     (''MATH_IS_ODD'', ''is odd''),
     (''MATH_IS_POSITIVE'', ''is positive''),
     (''MATH_IS_PRIME'', ''is prime''),
     (''MATH_IS_TOOLTIP'', ''Check if a number is an even, odd, prime, whole, positive, negative, or if it is divisible by certain number. Returns true or false.''),
     (''MATH_IS_WHOLE'', ''is whole''),
     (''MATH_MODULO_HELPURL'', ''https://en.wikipedia.org/wiki/Modulo_operation''),
     (''MATH_MODULO_TITLE'', ''remainder of %1 '' @ [CHR 0xC3, CHR 0xB7] @ '' %2''),
     (''MATH_MODULO_TOOLTIP'', ''Return the remainder from dividing the two numbers.'')]\<close>

definition en_math_3 :: "(string \<times> string) list" where
  \<open>en_math_3 = [
     (''MATH_MULTIPLICATION_SYMBOL'', [CHR 0xC3, CHR 0x97]),
     (''MATH_NUMBER_HELPURL'', ''https://en.wikipedia.org/wiki/Number''),
     (''MATH_NUMBER_TOOLTIP'', ''A number.''),
     (''MATH_ONLIST_HELPURL'', ''''),
     (''MATH_ONLIST_OPERATOR_AVERAGE'', ''average of list''),
     (''MATH_ONLIST_OPERATOR_MAX'', ''max of list''),
     (''MATH_ONLIST_OPERATOR_MEDIAN'', ''median of list''),
     (''MATH_ONLIST_OPERATOR_MIN'', ''min of list''),
     (''MATH_ONLIST_OPERATOR_MODE'', ''modes of list''),
     (''MATH_ONLIST_OPERATOR_RANDOM'', ''random item of list''),
     (''MATH_ONLIST_OPERATOR_STD_DEV'', ''standard deviation of list''),
     (''MATH_ONLIST_OPERATOR_SUM'', ''sum of list''),
     (''MATH_ONLIST_TOOLTIP_AVERAGE'', ''Return the average (arithmetic mean) of the numeric values in the list.''),
     (''MATH_ONLIST_TOOLTIP_MAX'', ''Return the largest number in the list.''),
     (''MATH_ONLIST_TOOLTIP_MEDIAN'', ''Return the median number in the list.''),
     (''MATH_ONLIST_TOOLTIP_MIN'', ''Return the smallest number in the list.''),
     (''MATH_ONLIST_TOOLTIP_MODE'', ''Return a list of the most common item(s) in the list.''),
     (''MATH_ONLIST_TOOLTIP_RANDOM'', ''Return a random element from the list.''),
     (''MATH_ONLIST_TOOLTIP_STD_DEV'', ''Return the standard deviation of the list.''),
     (''MATH_ONLIST_TOOLTIP_SUM'', ''Return the sum of all the numbers in the list.'')]\<close>

definition en_math_4 :: "(string \<times> string) list" where
  \<open>en_math_4 = [
     (''MATH_POWER_SYMBOL'', ''^''),
     (''MATH_RANDOM_FLOAT_HELPURL'', ''https://en.wikipedia.org/wiki/Random_number_generation''),
     (''MATH_RANDOM_FLOAT_TITLE_RANDOM'', ''random fraction''),
     (''MATH_RANDOM_FLOAT_TOOLTIP'', ''Return a random fraction between 0.0 (inclusive) and 1.0 (exclusive).''),
     (''MATH_RANDOM_INT_HELPURL'', ''https://en.wikipedia.org/wiki/Random_number_generation''),
     (''MATH_RANDOM_INT_TITLE'', ''random integer from %1 to %2''),
     (''MATH_RANDOM_INT_TOOLTIP'', ''Return a random integer between the two specified limits, inclusive.''),
     (''MATH_ROUND_HELPURL'', ''https://en.wikipedia.org/wiki/Rounding''),
     (''MATH_ROUND_OPERATOR_ROUND'', ''round''),
     (''MATH_ROUND_OPERATOR_ROUNDDOWN'', ''round down''),
     (''MATH_ROUND_OPERATOR_ROUNDUP'', ''round up''),
     (''MATH_ROUND_TOOLTIP'', ''Round a number up or down.''),
     (''MATH_SINGLE_HELPURL'', ''https://en.wikipedia.org/wiki/Square_root''),
     (''MATH_SINGLE_OP_ABSOLUTE'', ''absolute''),
     (''MATH_SINGLE_OP_ROOT'', ''square root''),
     (''MATH_SINGLE_TOOLTIP_ABS'', ''Return the absolute value of a number.''),
     (''MATH_SINGLE_TOOLTIP_EXP'', ''Return e to the power of a number.''),
     (''MATH_SINGLE_TOOLTIP_LN'', ''Return the natural logarithm of a number.''),
     (''MATH_SINGLE_TOOLTIP_LOG10'', ''Return the base 10 logarithm of a number.''),
     (''MATH_SINGLE_TOOLTIP_NEG'', ''Return the negation of a number.'')]\<close>

definition en_math_5 :: "(string \<times> string) list" where
  \<open>en_math_5 = [
     (''MATH_SINGLE_TOOLTIP_POW10'', ''Return 10 to the power of a number.''),
     (''MATH_SINGLE_TOOLTIP_ROOT'', ''Return the square root of a number.''),
     (''MATH_SUBTRACTION_SYMBOL'', ''-''),
     (''MATH_TRIG_ACOS'', ''acos''),
     (''MATH_TRIG_ASIN'', ''asin''),
     (''MATH_TRIG_ATAN'', ''atan''),
     (''MATH_TRIG_COS'', ''cos''),
     (''MATH_TRIG_HELPURL'', ''https://en.wikipedia.org/wiki/Trigonometric_functions''),
     (''MATH_TRIG_SIN'', ''sin''),
     (''MATH_TRIG_TAN'', ''tan''),
     (''MATH_TRIG_TOOLTIP_ACOS'', ''Return the arccosine of a number.''),
     (''MATH_TRIG_TOOLTIP_ASIN'', ''Return the arcsine of a number.''),
     (''MATH_TRIG_TOOLTIP_ATAN'', ''Return the arctangent of a number.''),
     (''MATH_TRIG_TOOLTIP_COS'', ''Return the cosine of a degree (not radian).''),
     (''MATH_TRIG_TOOLTIP_SIN'', ''Return the sine of a degree (not radian).''),
     (''MATH_TRIG_TOOLTIP_TAN'', ''Return the tangent of a degree (not radian).'')]\<close>

definition en_general_4 :: "(string \<times> string) list" where
  \<open>en_general_4 = [
     (''NEW_COLOUR_VARIABLE'', ''Create colour variable...''),
     (''NEW_NUMBER_VARIABLE'', ''Create number variable...''),
     (''NEW_STRING_VARIABLE'', ''Create string variable...''),
     (''NEW_VARIABLE'', ''Create variable...''),
     (''NEW_VARIABLE_TITLE'', ''New variable name:''),
     (''NEW_VARIABLE_TYPE_TITLE'', ''New variable type:''),
     (''ORDINAL_NUMBER_SUFFIX'', '''')]\<close>

definition en_procedures_1 :: "(string \<times> string) list" where
  \<open>en_procedures_1 = [
     (''PROCEDURES_ALLOW_STATEMENTS'', ''allow statements''),
     (''PROCEDURES_BEFORE_PARAMS'', ''with:''),
     (''PROCEDURES_CALLNORETURN_HELPURL'', ''https://en.wikipedia.org/wiki/Subroutine''),
     (''PROCEDURES_CALLNORETURN_TOOLTIP'', ''Run the user-defined function '%1'.''),
     (''PROCEDURES_CALLRETURN_HELPURL'', ''https://en.wikipedia.org/wiki/Subroutine''),
     (''PROCEDURES_CALLRETURN_TOOLTIP'', ''Run the user-defined function '%1' and use its output.''),
     (''PROCEDURES_CALL_BEFORE_PARAMS'', ''with:''),
     (''PROCEDURES_CREATE_DO'', ''Create '%1'' @ [CHR 0x27]),
     (''PROCEDURES_DEFNORETURN_COMMENT'', ''Describe this function...''),
     (''PROCEDURES_DEFNORETURN_DO'', ''''),
     (''PROCEDURES_DEFNORETURN_HELPURL'', ''https://en.wikipedia.org/wiki/Subroutine''),
     (''PROCEDURES_DEFNORETURN_PROCEDURE'', ''do something''),
     (''PROCEDURES_DEFNORETURN_TITLE'', ''to''),
     (''PROCEDURES_DEFNORETURN_TOOLTIP'', ''Creates a function with no output.'')]\<close>

definition en_procedures_2 :: "(string \<times> string) list" where
  \<open>en_procedures_2 = [
     (''PROCEDURES_DEFRETURN_HELPURL'', ''https://en.wikipedia.org/wiki/Subroutine''),
     (''PROCEDURES_DEFRETURN_RETURN'', ''return''),
     (''PROCEDURES_DEFRETURN_TOOLTIP'', ''Creates a function with an output.''),
     (''PROCEDURES_DEF_DUPLICATE_WARNING'', ''Warning: This function has duplicate parameters.''),
     (''PROCEDURES_HIGHLIGHT_DEF'', ''Highlight function definition''),
     (''PROCEDURES_IFRETURN_HELPURL'', ''https://c2.com/cgi/wiki?GuardClause''),
     (''PROCEDURES_IFRETURN_TOOLTIP'', ''If a value is true, then return a second value.''),
     (''PROCEDURES_IFRETURN_WARNING'', ''Warning: This block may be used only within a function definition.''),
     (''PROCEDURES_MUTATORARG_TITLE'', ''input name:''),
     (''PROCEDURES_MUTATORARG_TOOLTIP'', ''Add an input to the function.''),
     (''PROCEDURES_MUTATORCONTAINER_TITLE'', ''inputs''),
     (''PROCEDURES_MUTATORCONTAINER_TOOLTIP'', ''Add, remove, or reorder inputs to this function.'')]\<close>

definition en_general_5 :: "(string \<times> string) list" where
  \<open>en_general_5 = [
     (''REDO'', ''Redo''),
     (''REMOVE_COMMENT'', ''Remove Comment''),
     (''RENAME_VARIABLE'', ''Rename variable...''),
     (''RENAME_VARIABLE_TITLE'', ''Rename all '%1' variables to:'')]\<close>

definition en_text_1 :: "(string \<times> string) list" where
  \<open>en_text_1 = [
     (''TEXT_APPEND_HELPURL'', ''https://github.com/google/blockly/wiki/Text#text-modification''),
     (''TEXT_APPEND_TITLE'', ''to %1 append text %2''),
     (''TEXT_APPEND_TOOLTIP'', ''Append some text to variable '%1'.''),
     (''TEXT_CHANGECASE_HELPURL'', ''https://github.com/google/blockly/wiki/Text#adjusting-text-case''),
     (''TEXT_CHANGECASE_OPERATOR_LOWERCASE'', ''to lower case''),
     (''TEXT_CHANGECASE_OPERATOR_TITLECASE'', ''to Title Case''),
     (''TEXT_CHANGECASE_OPERATOR_UPPERCASE'', ''to UPPER CASE''),
     (''TEXT_CHANGECASE_TOOLTIP'', ''Return a copy of the text in a different case.''),
     (''TEXT_CHARAT_FIRST'', ''get first letter''),
     (''TEXT_CHARAT_FROM_END'', ''get letter # from end''),
     (''TEXT_CHARAT_FROM_START'', ''get letter #''),
     (''TEXT_CHARAT_HELPURL'', ''https://github.com/google/blockly/wiki/Text#extracting-text''),
     (''TEXT_CHARAT_LAST'', ''get last letter''),
     (''TEXT_CHARAT_RANDOM'', ''get random letter''),
     (''TEXT_CHARAT_TAIL'', ''''),
     (''TEXT_CHARAT_TITLE'', ''in text %1 %2''),
     (''TEXT_CHARAT_TOOLTIP'', ''Returns the letter at the specified position.'')]\<close>

definition en_text_2 :: "(string \<times> string) list" where
  \<open>en_text_2 = [
     (''TEXT_COUNT_HELPURL'', ''https://github.com/google/blockly/wiki/Text#counting-substrings''),
     (''TEXT_COUNT_MESSAGE0'', ''count %1 in %2''),
     (''TEXT_COUNT_TOOLTIP'', ''Count how many times some text occurs within some other text.''),
     (''TEXT_CREATE_JOIN_ITEM_TOOLTIP'', ''Add an item to the text.''),
     (''TEXT_CREATE_JOIN_TITLE_JOIN'', ''join''),
     (''TEXT_CREATE_JOIN_TOOLTIP'', ''Add, remove, or reorder sections to reconfigure this text block.''),
     (''TEXT_GET_SUBSTRING_END_FROM_END'', ''to letter # from end''),
     (''TEXT_GET_SUBSTRING_END_FROM_START'', ''to letter #''),
     (''TEXT_GET_SUBSTRING_END_LAST'', ''to last letter''),
     (''TEXT_GET_SUBSTRING_HELPURL'', ''https://github.com/google/blockly/wiki/Text#extracting-a-region-of-text''),
     (''TEXT_GET_SUBSTRING_INPUT_IN_TEXT'', ''in text''),
     (''TEXT_GET_SUBSTRING_START_FIRST'', ''get substring from first letter''),
     (''TEXT_GET_SUBSTRING_START_FROM_END'', ''get substring from letter # from end''),
     (''TEXT_GET_SUBSTRING_START_FROM_START'', ''get substring from letter #''),
     (''TEXT_GET_SUBSTRING_TAIL'', ''''),
     (''TEXT_GET_SUBSTRING_TOOLTIP'', ''Returns a specified portion of the text.'')]\<close>

definition en_text_3 :: "(string \<times> string) list" where
  \<open>en_text_3 = [
     (''TEXT_INDEXOF_HELPURL'', ''https://github.com/google/blockly/wiki/Text#finding-text''),
     (''TEXT_INDEXOF_OPERATOR_FIRST'', ''find first occurrence of text''),
     (''TEXT_INDEXOF_OPERATOR_LAST'', ''find last occurrence of text''),
     (''TEXT_INDEXOF_TITLE'', ''in text %1 %2 %3''),
     (''TEXT_INDEXOF_TOOLTIP'', ''Returns the index of the first/last occurrence of the first text in the second text. Returns %1 if text is not found.''),
     (''TEXT_ISEMPTY_HELPURL'', ''https://github.com/google/blockly/wiki/Text#checking-for-empty-text''),
     (''TEXT_ISEMPTY_TITLE'', ''%1 is empty''),
     (''TEXT_ISEMPTY_TOOLTIP'', ''Returns true if the provided text is empty.''),
     (''TEXT_JOIN_HELPURL'', ''https://github.com/google/blockly/wiki/Text#text-creation''),
     (''TEXT_JOIN_TITLE_CREATEWITH'', ''create text with''),
     (''TEXT_JOIN_TOOLTIP'', ''Create a piece of text by joining together any number of items.''),
     (''TEXT_LENGTH_HELPURL'', ''https://github.com/google/blockly/wiki/Text#text-modification''),
     (''TEXT_LENGTH_TITLE'', ''length of %1''),
     (''TEXT_LENGTH_TOOLTIP'', ''Returns the number of letters (including spaces) in the provided text.'')]\<close>

definition en_text_4 :: "(string \<times> string) list" where
  \<open>en_text_4 = [
     (''TEXT_PRINT_HELPURL'', ''https://github.com/google/blockly/wiki/Text#printing-text''),
     (''TEXT_PRINT_TITLE'', ''print %1''),
     (''TEXT_PRINT_TOOLTIP'', ''Print the specified text, number or other value.''),
     (''TEXT_PROMPT_HELPURL'', ''https://github.com/google/blockly/wiki/Text#getting-input-from-the-user''),
     (''TEXT_PROMPT_TOOLTIP_NUMBER'', ''Prompt for user for a number.''),
     (''TEXT_PROMPT_TOOLTIP_TEXT'', ''Prompt for user for some text.''),
     (''TEXT_PROMPT_TYPE_NUMBER'', ''prompt for number with message''),
     (''TEXT_PROMPT_TYPE_TEXT'', ''prompt for text with message''),
     (''TEXT_REPLACE_HELPURL'', ''https://github.com/google/blockly/wiki/Text#replacing-substrings''),
     (''TEXT_REPLACE_MESSAGE0'', ''replace %1 with %2 in %3''),
     (''TEXT_REPLACE_TOOLTIP'', ''Replace all occurances of some text within some other text.''),
     (''TEXT_REVERSE_HELPURL'', ''https://github.com/google/blockly/wiki/Text#reversing-text''),
     (''TEXT_REVERSE_MESSAGE0'', ''reverse %1''),
     (''TEXT_REVERSE_TOOLTIP'', ''Reverses the order of the characters in the text.'')]\<close>

definition en_text_5 :: "(string \<times> string) list" where
  \<open>en_text_5 = [
     (''TEXT_TEXT_HELPURL'', ''https://en.wikipedia.org/wiki/String_(computer_science)''),
     (''TEXT_TEXT_TOOLTIP'', ''A letter, word, or line of text.''),
     (''TEXT_TRIM_HELPURL'', ''https://github.com/google/blockly/wiki/Text#trimming-removing-spaces''),
     (''TEXT_TRIM_OPERATOR_BOTH'', ''trim spaces from both sides of''),
     (''TEXT_TRIM_OPERATOR_LEFT'', ''trim spaces from left side of''),
     (''TEXT_TRIM_OPERATOR_RIGHT'', ''trim spaces from right side of''),
     (''TEXT_TRIM_TOOLTIP'', ''Return a copy of the text with spaces removed from one or both ends.'')]\<close>

definition en_general_6 :: "(string \<times> string) list" where
  \<open>en_general_6 = [
     (''TODAY'', ''Today''),
     (''UNDO'', ''Undo''),
     (''UNNAMED_KEY'', ''unnamed''),
     (''VARIABLES_DEFAULT_NAME'', ''item''),
     (''VARIABLES_GET_CREATE_SET'', ''Create 'set %1'' @ [CHR 0x27]),
     (''VARIABLES_GET_HELPURL'', ''https://github.com/google/blockly/wiki/Variables#get''),
     (''VARIABLES_GET_TOOLTIP'', ''Returns the value of this variable.''),
     (''VARIABLES_SET'', ''set %1 to %2''),
     (''VARIABLES_SET_CREATE_GET'', ''Create 'get %1'' @ [CHR 0x27]),
     (''VARIABLES_SET_HELPURL'', ''https://github.com/google/blockly/wiki/Variables#set''),
     (''VARIABLES_SET_TOOLTIP'', ''Sets this variable to be equal to the input.''),
     (''VARIABLE_ALREADY_EXISTS'', ''A variable named '%1' already exists.''),
     (''VARIABLE_ALREADY_EXISTS_FOR_ANOTHER_TYPE'', ''A variable named '%1' already exists for another type: '%2'.''),
     (''VARIABLE_ALREADY_EXISTS_FOR_A_PARAMETER'', ''A variable named '%1' already exists as a parameter in the procedure '%2'.'')]\<close>

definition en_general_7 :: "(string \<times> string) list" where
  \<open>en_general_7 = [
     (''WORKSPACE_ARIA_LABEL'', ''Blockly Workspace''),
     (''WORKSPACE_COMMENT_DEFAULT_TEXT'', ''Say something...'')]\<close>

definition en_aliases :: "(string \<times> string) list" where
  \<open>en_aliases = [
     (''CONTROLS_FOREACH_INPUT_DO'', ''CONTROLS_REPEAT_INPUT_DO''),
     (''CONTROLS_FOR_INPUT_DO'', ''CONTROLS_REPEAT_INPUT_DO''),
     (''CONTROLS_IF_ELSEIF_TITLE_ELSEIF'', ''CONTROLS_IF_MSG_ELSEIF''),
     (''CONTROLS_IF_ELSE_TITLE_ELSE'', ''CONTROLS_IF_MSG_ELSE''),
     (''CONTROLS_IF_IF_TITLE_IF'', ''CONTROLS_IF_MSG_IF''),
     (''CONTROLS_IF_MSG_THEN'', ''CONTROLS_REPEAT_INPUT_DO''),
     (''CONTROLS_WHILEUNTIL_INPUT_DO'', ''CONTROLS_REPEAT_INPUT_DO''),
     (''LISTS_CREATE_WITH_ITEM_TITLE'', ''VARIABLES_DEFAULT_NAME''),
     (''LISTS_GET_INDEX_HELPURL'', ''LISTS_INDEX_OF_HELPURL''),
     (''LISTS_GET_INDEX_INPUT_IN_LIST'', ''LISTS_INLIST''),
     (''LISTS_GET_SUBLIST_INPUT_IN_LIST'', ''LISTS_INLIST''),
     (''LISTS_INDEX_OF_INPUT_IN_LIST'', ''LISTS_INLIST''),
     (''LISTS_SET_INDEX_INPUT_IN_LIST'', ''LISTS_INLIST''),
     (''MATH_CHANGE_TITLE_ITEM'', ''VARIABLES_DEFAULT_NAME''),
     (''PROCEDURES_DEFRETURN_COMMENT'', ''PROCEDURES_DEFNORETURN_COMMENT''),
     (''PROCEDURES_DEFRETURN_DO'', ''PROCEDURES_DEFNORETURN_DO''),
     (''PROCEDURES_DEFRETURN_PROCEDURE'', ''PROCEDURES_DEFNORETURN_PROCEDURE''),
     (''PROCEDURES_DEFRETURN_TITLE'', ''PROCEDURES_DEFNORETURN_TITLE''),
     (''TEXT_APPEND_VARIABLE'', ''VARIABLES_DEFAULT_NAME''),
     (''TEXT_CREATE_JOIN_ITEM_TITLE_ITEM'', ''VARIABLES_DEFAULT_NAME'')]\<close>

definition en_hues :: "(string \<times> string) list" where
  \<open>en_hues = [
     (''MATH_HUE'', ''230''),
     (''LOOPS_HUE'', ''120''),
     (''LISTS_HUE'', ''260''),
     (''LOGIC_HUE'', ''210''),
     (''VARIABLES_HUE'', ''330''),
     (''TEXTS_HUE'', ''160''),
     (''PROCEDURES_HUE'', ''290''),
     (''COLOUR_HUE'', ''20''),
     (''VARIABLES_DYNAMIC_HUE'', ''310'')]\<close>


section \<open>The object Blockly.Msg\<close>

type_synonym msgs = "string \<rightharpoonup> string"

definition assign_msg :: "msgs \<Rightarrow> string \<times> string \<Rightarrow> msgs" where
  "assign_msg m = (\<lambda>(k, v). m(k \<mapsto> v))"

definition copy_msg :: "msgs \<Rightarrow> string \<times> string \<Rightarrow> msgs" where
  \<comment> \<open>\<open>Msg[k] = Msg[k']\<close>\<close>
  "copy_msg m = (\<lambda>(k, k'). m(k := m k'))"

definition en_tables :: "(string \<times> string) list list" where
  "en_tables = [en_general_1, en_colour, en_controls_1, en_controls_2, en_general_2, en_general_3, en_lists_1,
     en_lists_2, en_lists_3, en_lists_4, en_lists_5, en_logic_1, en_logic_2, en_math_1, en_math_2,
     en_math_3, en_math_4, en_math_5, en_general_4, en_procedures_1, en_procedures_2, en_general_5,
     en_text_1, en_text_2, en_text_3, en_text_4, en_text_5, en_general_6, en_general_7]"

definition en_messages :: "(string \<times> string) list" where
  "en_messages = concat en_tables"

definition en_Msg :: msgs where
  "en_Msg = foldl assign_msg (foldl copy_msg (foldl assign_msg Map.empty en_messages) en_aliases) en_hues"

lemmas en_messages_defs = en_messages_def en_tables_def concat.simps
  en_general_1_def en_colour_def en_controls_1_def en_controls_2_def en_general_2_def en_general_3_def
  en_lists_1_def en_lists_2_def en_lists_3_def en_lists_4_def en_lists_5_def en_logic_1_def
  en_logic_2_def en_math_1_def en_math_2_def en_math_3_def en_math_4_def en_math_5_def
  en_general_4_def en_procedures_1_def en_procedures_2_def en_general_5_def en_text_1_def
  en_text_2_def en_text_3_def en_text_4_def en_text_5_def en_general_6_def en_general_7_def

section \<open>Lookups\<close>

fun ascending :: "string list \<Rightarrow> bool" where
  "ascending [] = True"
| "ascending [x] = True"
| "ascending (x # y # zs) = (str_less x y \<and> ascending (y # zs))"

lemma ascending_less: "ascending (x # xs) \<Longrightarrow> y \<in> set xs \<Longrightarrow> str_less x y"
proof (induction xs arbitrary: x)
  case (Cons z zs)
  then show ?case by (metis ascending.simps(3) set_ConsD str_less_trans)
qed simp

lemma ascending_distinct: "ascending xs \<Longrightarrow> distinct xs"
proof (induction xs rule: ascending.induct)
  case (3 x y zs)
  then show ?case using ascending_less [of x "y # zs" x] by auto
qed auto

fun weave :: "nat list \<Rightarrow> 'a list \<Rightarrow> 'a list \<Rightarrow> 'a list" where
  \<comment> \<open>put the second list into the gaps that the numbers leave in the first\<close>
  "weave (0 # ns) xs (y # ys) = y # weave ns xs ys"
| "weave (Suc n # ns) (x # xs) ys = x # weave (n # ns) xs ys"
| "weave ns xs ys = xs @ ys"

lemma mset_weave: "mset (weave ns xs ys) = mset xs + mset ys"
  by (induction ns xs ys rule: weave.induct) auto

lemma weave_distinct: "distinct (weave ns xs ys) \<longleftrightarrow> distinct (xs @ ys)"
  by (metis mset_append mset_eq_imp_distinct_iff mset_weave)

definition later_keys :: "string list" where
  \<comment> \<open>the keys of the copies and the hues, in order\<close>
  "later_keys = [''COLOUR_HUE'', ''CONTROLS_FOREACH_INPUT_DO'', ''CONTROLS_FOR_INPUT_DO'',
     ''CONTROLS_IF_ELSEIF_TITLE_ELSEIF'', ''CONTROLS_IF_ELSE_TITLE_ELSE'', ''CONTROLS_IF_IF_TITLE_IF'',
     ''CONTROLS_IF_MSG_THEN'', ''CONTROLS_WHILEUNTIL_INPUT_DO'', ''LISTS_CREATE_WITH_ITEM_TITLE'',
     ''LISTS_GET_INDEX_HELPURL'', ''LISTS_GET_INDEX_INPUT_IN_LIST'', ''LISTS_GET_SUBLIST_INPUT_IN_LIST'',
     ''LISTS_HUE'', ''LISTS_INDEX_OF_INPUT_IN_LIST'', ''LISTS_SET_INDEX_INPUT_IN_LIST'', ''LOGIC_HUE'',
     ''LOOPS_HUE'', ''MATH_CHANGE_TITLE_ITEM'', ''MATH_HUE'', ''PROCEDURES_DEFRETURN_COMMENT'',
     ''PROCEDURES_DEFRETURN_DO'', ''PROCEDURES_DEFRETURN_PROCEDURE'', ''PROCEDURES_DEFRETURN_TITLE'',
     ''PROCEDURES_HUE'', ''TEXTS_HUE'', ''TEXT_APPEND_VARIABLE'', ''TEXT_CREATE_JOIN_ITEM_TITLE_ITEM'',
     ''VARIABLES_DYNAMIC_HUE'', ''VARIABLES_HUE'']"

lemma later_keys_all: "list_all (\<lambda>k. k \<in> set later_keys) (map fst (en_aliases @ en_hues))"
  by (simp add: later_keys_def en_aliases_def en_hues_def)

lemma keys_distinct: "distinct (map fst en_messages @ later_keys)"
proof -
  have "ascending (weave
    [13, 18, 3, 2, 1, 2, 4, 9, 27, 7, 0, 20, 5, 4, 16, 36, 16, 12, 7, 88, 0, 1, 1, 3, 11, 3, 17, 52, 3]
    (map fst en_messages) later_keys)"
    apply (simp only: en_messages_defs later_keys_def list.map fst_conv append_Cons append_Nil)
    apply (simp only: weave.simps append_Nil2 numeral_eq_Suc pred_numeral_simps One_nat_def BitM.simps numerals)
    apply (simp only: ascending.simps)
    apply (intro conjI TrueI)
    apply (simp_all only: str_less.simps(1,2,3) str_less_Cons char.inject if_True if_False simp_thms)
    apply simp_all
    done
  then show ?thesis using ascending_distinct weave_distinct by metis
qed

lemma later_subset: "fst ` set en_aliases \<union> fst ` set en_hues \<subseteq> set later_keys"
  using later_keys_all unfolding list_all_iff set_map set_append image_Un by blast

lemma message_not_later: "k \<in> fst ` set en_messages \<Longrightarrow> k \<notin> set later_keys"
  using keys_distinct unfolding distinct_append set_map by blast

lemma foldl_assign: "foldl assign_msg m kvs = m ++ map_of (rev kvs)"
  by (induction kvs arbitrary: m) (auto simp: assign_msg_def)

lemma assign_other: "k \<notin> fst ` set kvs \<Longrightarrow> foldl assign_msg m kvs k = m k"
  by (induction kvs arbitrary: m) (auto simp: assign_msg_def)

lemma copy_msg_apply: "copy_msg m (k, k') = m(k := m k')"
  by (simp add: copy_msg_def)

lemma copy_other: "k \<notin> fst ` set kks \<Longrightarrow> foldl copy_msg m kks k = m k"
  by (induction kks arbitrary: m) (auto simp: copy_msg_def)

lemma copy_value:
  assumes "(k, k') \<in> set kks" and "distinct (map fst kks)" and "fst ` set kks \<inter> snd ` set kks = {}"
  shows "foldl copy_msg m kks k = m k'"
  using assms
proof (induction kks arbitrary: m)
  case (Cons x kks)
  obtain j j' where x: "x = (j, j')" by fastforce
  show ?case
  proof (cases "j = k")
    case True
    then have "k \<notin> fst ` set kks" using Cons.prems(2) x by simp
    moreover have "(k, k') \<notin> set kks" using calculation by (metis fst_conv image_eqI)
    then have "j' = k'" using Cons.prems(1) x by simp
    ultimately show ?thesis using True x by (simp add: copy_msg_apply copy_other)
  next
    case False
    then have "(k, k') \<in> set kks" using Cons.prems(1) x by simp
    moreover have "j \<noteq> k'" using Cons.prems(3) calculation x by (auto simp: image_iff)
    moreover have "distinct (map fst kks)" "fst ` set kks \<inter> snd ` set kks = {}" using Cons.prems(2,3) by auto
    ultimately show ?thesis using Cons.IH [of "copy_msg m x"] x by (simp add: copy_msg_apply fun_upd_def)
  qed
qed simp

lemma en_Msg_message:
  assumes "(k, v) \<in> set en_messages"
  shows "en_Msg k = Some v"
proof -
  have "distinct (map fst en_messages)" using keys_distinct unfolding distinct_append by blast
  then have "map_of (rev en_messages) k = Some v"
    using assms by (simp add: map_of_is_SomeI flip: rev_map)
  moreover have "k \<in> fst ` set en_messages" using assms by force
  then have "k \<notin> fst ` set en_aliases \<and> k \<notin> fst ` set en_hues"
    using later_subset message_not_later by blast
  ultimately show ?thesis
    by (simp add: en_Msg_def assign_other copy_other) (simp add: foldl_assign)
qed

lemma aliases_distinct: "distinct (map fst en_aliases)"
  by (rule ascending_distinct) (simp add: en_aliases_def)

lemma alias_sources: "list_all (\<lambda>k. k \<notin> set later_keys) (map snd en_aliases)"
  by (simp add: en_aliases_def later_keys_def)

lemma hues_distinct: "distinct (map fst en_aliases @ map fst en_hues)"
  by (simp add: en_aliases_def en_hues_def)

lemma en_Msg_alias:
  assumes "(k, k') \<in> set en_aliases"
  shows "en_Msg k = en_Msg k'"
proof -
  have src: "snd ` set en_aliases \<inter> set later_keys = {}"
    using alias_sources unfolding list_all_iff set_map by blast
  have "k' \<in> snd ` set en_aliases" using assms by force
  with src have k': "k' \<notin> fst ` set en_aliases \<and> k' \<notin> fst ` set en_hues" using later_subset by blast
  have "k \<in> fst ` set en_aliases" using assms by force
  then have k: "k \<notin> fst ` set en_hues"
    using hues_distinct unfolding distinct_append set_map by blast
  have "fst ` set en_aliases \<inter> snd ` set en_aliases = {}" using src later_subset by blast
  then have "foldl copy_msg m en_aliases k = m k'" for m
    using copy_value [OF assms aliases_distinct] by blast
  with k k' show ?thesis by (simp add: en_Msg_def assign_other copy_other)
qed

lemma en_Msg_hue: "(k, v) \<in> set en_hues \<Longrightarrow> en_Msg k = Some v"
  using hues_distinct by (simp add: en_Msg_def foldl_assign map_add_def map_of_is_SomeI flip: rev_map)

lemma en_table_found:
  assumes "tab \<in> set en_tables"
  shows "list_all (\<lambda>(k, v). en_Msg k = Some v) tab"
proof -
  have "set tab \<subseteq> set en_messages" using assms by (auto simp: en_messages_def)
  then show ?thesis using en_Msg_message by (auto simp: list_all_iff)
qed

lemma en_aliases_found: "list_all (\<lambda>(k, k'). en_Msg k = en_Msg k') en_aliases"
  using en_Msg_alias by (auto simp: list_all_iff)

lemma en_hues_found: "list_all (\<lambda>(k, v). en_Msg k = Some v) en_hues"
  using en_Msg_hue by (auto simp: list_all_iff)

lemmas lookup_unfold = list.pred_inject prod.case append_Cons append_Nil simp_thms

lemma table_in:
  "en_general_1 \<in> set en_tables"
  "en_colour \<in> set en_tables"
  "en_controls_1 \<in> set en_tables"
  "en_controls_2 \<in> set en_tables"
  "en_general_2 \<in> set en_tables"
  "en_general_3 \<in> set en_tables"
  "en_lists_1 \<in> set en_tables"
  "en_lists_2 \<in> set en_tables"
  "en_lists_3 \<in> set en_tables"
  "en_lists_4 \<in> set en_tables"
  "en_lists_5 \<in> set en_tables"
  "en_logic_1 \<in> set en_tables"
  "en_logic_2 \<in> set en_tables"
  "en_math_1 \<in> set en_tables"
  "en_math_2 \<in> set en_tables"
  "en_math_3 \<in> set en_tables"
  "en_math_4 \<in> set en_tables"
  "en_math_5 \<in> set en_tables"
  "en_general_4 \<in> set en_tables"
  "en_procedures_1 \<in> set en_tables"
  "en_procedures_2 \<in> set en_tables"
  "en_general_5 \<in> set en_tables"
  "en_text_1 \<in> set en_tables"
  "en_text_2 \<in> set en_tables"
  "en_text_3 \<in> set en_tables"
  "en_text_4 \<in> set en_tables"
  "en_text_5 \<in> set en_tables"
  "en_general_6 \<in> set en_tables"
  "en_general_7 \<in> set en_tables"
  by (simp_all add: en_tables_def)

lemmas en_general_1_lookups [msg_lookups] =
  en_table_found [OF table_in(1), unfolded en_general_1_def lookup_unfold]
lemmas en_colour_lookups [msg_lookups] =
  en_table_found [OF table_in(2), unfolded en_colour_def lookup_unfold]
lemmas en_controls_1_lookups [msg_lookups] =
  en_table_found [OF table_in(3), unfolded en_controls_1_def lookup_unfold]
lemmas en_controls_2_lookups [msg_lookups] =
  en_table_found [OF table_in(4), unfolded en_controls_2_def lookup_unfold]
lemmas en_general_2_lookups [msg_lookups] =
  en_table_found [OF table_in(5), unfolded en_general_2_def lookup_unfold]
lemmas en_general_3_lookups [msg_lookups] =
  en_table_found [OF table_in(6), unfolded en_general_3_def lookup_unfold]
lemmas en_lists_1_lookups [msg_lookups] =
  en_table_found [OF table_in(7), unfolded en_lists_1_def lookup_unfold]
lemmas en_lists_2_lookups [msg_lookups] =
  en_table_found [OF table_in(8), unfolded en_lists_2_def lookup_unfold]
lemmas en_lists_3_lookups [msg_lookups] =
  en_table_found [OF table_in(9), unfolded en_lists_3_def lookup_unfold]
lemmas en_lists_4_lookups [msg_lookups] =
  en_table_found [OF table_in(10), unfolded en_lists_4_def lookup_unfold]
lemmas en_lists_5_lookups [msg_lookups] =
  en_table_found [OF table_in(11), unfolded en_lists_5_def lookup_unfold]
lemmas en_logic_1_lookups [msg_lookups] =
  en_table_found [OF table_in(12), unfolded en_logic_1_def lookup_unfold]
lemmas en_logic_2_lookups [msg_lookups] =
  en_table_found [OF table_in(13), unfolded en_logic_2_def lookup_unfold]
lemmas en_math_1_lookups [msg_lookups] =
  en_table_found [OF table_in(14), unfolded en_math_1_def lookup_unfold]
lemmas en_math_2_lookups [msg_lookups] =
  en_table_found [OF table_in(15), unfolded en_math_2_def lookup_unfold]
lemmas en_math_3_lookups [msg_lookups] =
  en_table_found [OF table_in(16), unfolded en_math_3_def lookup_unfold]
lemmas en_math_4_lookups [msg_lookups] =
  en_table_found [OF table_in(17), unfolded en_math_4_def lookup_unfold]
lemmas en_math_5_lookups [msg_lookups] =
  en_table_found [OF table_in(18), unfolded en_math_5_def lookup_unfold]
lemmas en_general_4_lookups [msg_lookups] =
  en_table_found [OF table_in(19), unfolded en_general_4_def lookup_unfold]
lemmas en_procedures_1_lookups [msg_lookups] =
  en_table_found [OF table_in(20), unfolded en_procedures_1_def lookup_unfold]
lemmas en_procedures_2_lookups [msg_lookups] =
  en_table_found [OF table_in(21), unfolded en_procedures_2_def lookup_unfold]
lemmas en_general_5_lookups [msg_lookups] =
  en_table_found [OF table_in(22), unfolded en_general_5_def lookup_unfold]
lemmas en_text_1_lookups [msg_lookups] =
  en_table_found [OF table_in(23), unfolded en_text_1_def lookup_unfold]
lemmas en_text_2_lookups [msg_lookups] =
  en_table_found [OF table_in(24), unfolded en_text_2_def lookup_unfold]
lemmas en_text_3_lookups [msg_lookups] =
  en_table_found [OF table_in(25), unfolded en_text_3_def lookup_unfold]
lemmas en_text_4_lookups [msg_lookups] =
  en_table_found [OF table_in(26), unfolded en_text_4_def lookup_unfold]
lemmas en_text_5_lookups [msg_lookups] =
  en_table_found [OF table_in(27), unfolded en_text_5_def lookup_unfold]
lemmas en_general_6_lookups [msg_lookups] =
  en_table_found [OF table_in(28), unfolded en_general_6_def lookup_unfold]
lemmas en_general_7_lookups [msg_lookups] =
  en_table_found [OF table_in(29), unfolded en_general_7_def lookup_unfold]

lemmas en_aliases_lookups [msg_lookups] = en_aliases_found [unfolded en_aliases_def lookup_unfold]
lemmas en_hues_lookups [msg_lookups] = en_hues_found [unfolded en_hues_def lookup_unfold]

end
