(* ===== verification/Interpolation.thy ===== *)
theory Interpolation
  imports Msg_En
begin

text \<open>
  Message interpolation (\<open>utils.parsing\<close> of \<open>blockly_compressed.js\<close>): the scanner
  \<open>tokenizeInterpolationInternal\<close> with its four states, which splits a message into texts and
  argument numbers and replaces the references \<open>%{BKY_...}\<close> by messages, and the functions on
  top of it. The scanner calls itself on the message that a reference names, without a bound: a
  table in which messages refer to each other in a circle makes it run for ever. The model
  counts the nested calls down from a fuel and is \<open>None\<close> when it is used up. The messages
  of a table are texts, as all messages of \<open>en.js\<close> are.
\<close>

section \<open>The scanner\<close>

datatype token = TStr string | TNum nat

datatype tstate =
    T0  \<comment> \<open>text\<close>
  | T1  \<comment> \<open>after a percent sign\<close>
  | T2 string  \<comment> \<open>in an argument number\<close>
  | T3  \<comment> \<open>in a reference\<close>

definition flush :: "string \<Rightarrow> token list" where
  \<comment> \<open>\<open>(b = buffer.join("")) && tokens.push(b)\<close>\<close>
  "flush buf = (if buf = [] then [] else [TStr buf])"

definition prepend :: "token list \<Rightarrow> token list option \<Rightarrow> token list option" where
  "prepend ts r = map_option (\<lambda>us. ts @ us) r"

function (sequential) scan ::
  "(string \<Rightarrow> token list option) \<Rightarrow> bool \<Rightarrow> bool \<Rightarrow> tstate \<Rightarrow> string \<Rightarrow> char option list \<Rightarrow> token list option" where
  \<comment> \<open>\<open>R\<close> gives the tokens of a reference; the text ends with \<open>None\<close>, the code's empty character\<close>
  "scan R b c st buf [] = Some (flush buf)"
| "scan R b c T0 buf (h # cs) =
     (if h = Some CHR ''%'' then prepend (flush buf) (scan R b c T1 [] cs)
      else if c \<and> h = Some NL then prepend (flush buf @ [TStr [NL]]) (scan R b c T0 [] cs)
      else scan R b c T0 (buf @ (case h of None \<Rightarrow> [] | Some x \<Rightarrow> [x])) cs)"
| "scan R b c T1 buf (h # cs) =
     (if h = Some CHR ''%'' then scan R b c T0 (buf @ ''%'') cs
      else if b \<and> (case h of None \<Rightarrow> False | Some x \<Rightarrow> is_digit x)
      then prepend (flush buf) (scan R b c (T2 [the h]) [] cs)
      else if h = Some CHR ''{'' then scan R b c T3 buf cs
      else scan R b c T0 (buf @ ''%'' @ (case h of None \<Rightarrow> [] | Some x \<Rightarrow> [x])) cs)"
| "scan R b c (T2 g) buf (h # cs) =
     (if (case h of None \<Rightarrow> False | Some x \<Rightarrow> is_digit x) then scan R b c (T2 (g @ [the h])) buf cs
      else prepend [TNum (read_nat g)] (scan R b c T0 buf (h # cs)))"
| "scan R b c T3 buf (h # cs) =
     (case h of
        None \<Rightarrow> scan R b c T0 (''%{'' @ buf) (h # cs)
      | Some x \<Rightarrow>
          if x \<noteq> CHR ''}'' then scan R b c T3 (buf @ [x]) cs
          else (case R buf of None \<Rightarrow> None | Some ts \<Rightarrow> prepend ts (scan R b c T0 [] cs)))"
  by pat_completeness auto

termination
  by (relation "measure (\<lambda>(R, b, c, st, buf, cs). 2 * length cs + (if st = T0 then 0 else 1))") auto

fun merge :: "bool \<Rightarrow> string \<Rightarrow> token list \<Rightarrow> token list" where
  \<comment> \<open>neighbouring texts become one; a line break stays a token of its own\<close>
  "merge c buf [] = flush buf"
| "merge c buf (TNum n # ts) = flush buf @ TNum n # merge c [] ts"
| "merge c buf (TStr s # ts) =
     (if c \<and> s = [NL] then flush buf @ TStr s # merge c [] ts else merge c (buf @ s) ts)"

section \<open>References\<close>

definition is_letter :: "char \<Rightarrow> bool" where
  "is_letter x \<longleftrightarrow> (let n = (of_char x :: nat) in 65 \<le> n \<and> n \<le> 90 \<or> 97 \<le> n \<and> n \<le> 122)"

definition upper :: "char \<Rightarrow> char" where
  \<comment> \<open>\<open>toUpperCase\<close>, on ASCII letters; the keys of the messages have no others\<close>
  "upper x = (let n = (of_char x :: nat) in if 97 \<le> n \<and> n \<le> 122 then char_of (n - 32) else x)"

definition ref_key :: "msgs \<Rightarrow> string \<Rightarrow> string option" where
  \<comment> \<open>the key that the text between the braces names, if the table has it\<close>
  "ref_key msgs name =
     (let h = map upper name
      in if list_ex is_letter name \<and> take 4 h = ''BKY_'' \<and> drop 4 h \<noteq> [] \<and> msgs (drop 4 h) \<noteq> None
         then Some (drop 4 h) else None)"

lemma upper_simps:
  "upper CHR ''A'' = CHR ''A''" "upper CHR ''B'' = CHR ''B''" "upper CHR ''C'' = CHR ''C''"
  "upper CHR ''D'' = CHR ''D''" "upper CHR ''E'' = CHR ''E''" "upper CHR ''F'' = CHR ''F''"
  "upper CHR ''G'' = CHR ''G''" "upper CHR ''H'' = CHR ''H''" "upper CHR ''I'' = CHR ''I''"
  "upper CHR ''J'' = CHR ''J''" "upper CHR ''K'' = CHR ''K''" "upper CHR ''L'' = CHR ''L''"
  "upper CHR ''M'' = CHR ''M''" "upper CHR ''N'' = CHR ''N''" "upper CHR ''O'' = CHR ''O''"
  "upper CHR ''P'' = CHR ''P''" "upper CHR ''Q'' = CHR ''Q''" "upper CHR ''R'' = CHR ''R''"
  "upper CHR ''S'' = CHR ''S''" "upper CHR ''T'' = CHR ''T''" "upper CHR ''U'' = CHR ''U''"
  "upper CHR ''V'' = CHR ''V''" "upper CHR ''W'' = CHR ''W''" "upper CHR ''X'' = CHR ''X''"
  "upper CHR ''Y'' = CHR ''Y''" "upper CHR ''Z'' = CHR ''Z''" "upper CHR ''_'' = CHR ''_''"
  "upper CHR ''0'' = CHR ''0''" "upper CHR ''1'' = CHR ''1''" "upper CHR ''2'' = CHR ''2''"
  "upper CHR ''3'' = CHR ''3''" "upper CHR ''4'' = CHR ''4''" "upper CHR ''5'' = CHR ''5''"
  "upper CHR ''6'' = CHR ''6''" "upper CHR ''7'' = CHR ''7''" "upper CHR ''8'' = CHR ''8''"
  "upper CHR ''9'' = CHR ''9''"
  by (simp_all add: upper_def)

lemma is_letter_simps:
  "is_letter CHR ''A''" "is_letter CHR ''B''" "is_letter CHR ''C''" "is_letter CHR ''D''"
  "is_letter CHR ''E''" "is_letter CHR ''F''" "is_letter CHR ''G''" "is_letter CHR ''H''"
  "is_letter CHR ''I''" "is_letter CHR ''J''" "is_letter CHR ''K''" "is_letter CHR ''L''"
  "is_letter CHR ''M''" "is_letter CHR ''N''" "is_letter CHR ''O''" "is_letter CHR ''P''"
  "is_letter CHR ''Q''" "is_letter CHR ''R''" "is_letter CHR ''S''" "is_letter CHR ''T''"
  "is_letter CHR ''U''" "is_letter CHR ''V''" "is_letter CHR ''W''" "is_letter CHR ''X''"
  "is_letter CHR ''Y''" "is_letter CHR ''Z''" "\<not> is_letter CHR ''_''" "\<not> is_letter CHR ''0''"
  "\<not> is_letter CHR ''1''" "\<not> is_letter CHR ''2''" "\<not> is_letter CHR ''3''"
  "\<not> is_letter CHR ''4''" "\<not> is_letter CHR ''5''" "\<not> is_letter CHR ''6''"
  "\<not> is_letter CHR ''7''" "\<not> is_letter CHR ''8''" "\<not> is_letter CHR ''9''"
  by (simp_all add: is_letter_def)

definition unresolved :: "string \<Rightarrow> string" where
  "unresolved name = ''%{'' @ name @ ''}''"

fun tokenizeInternal :: "nat \<Rightarrow> msgs \<Rightarrow> bool \<Rightarrow> bool \<Rightarrow> string \<Rightarrow> token list option" where
  "tokenizeInternal 0 msgs b c s = None"
| "tokenizeInternal (Suc n) msgs b c s =
     map_option (merge c [])
       (scan (\<lambda>name. case ref_key msgs name of
                 None \<Rightarrow> Some [TStr (unresolved name)]
               | Some k \<Rightarrow> tokenizeInternal n msgs b c (the (msgs k)))
          b c T0 [] (map Some s @ [None]))"

definition tokenizeInterpolation :: "nat \<Rightarrow> msgs \<Rightarrow> string \<Rightarrow> token list option" where
  "tokenizeInterpolation n msgs s = tokenizeInternal n msgs True True s"

definition js_String_token :: "token \<Rightarrow> string" where
  "js_String_token t = (case t of TStr s \<Rightarrow> s | TNum n \<Rightarrow> show_nat n)"

definition replaceMessageReferences :: "nat \<Rightarrow> msgs \<Rightarrow> string \<Rightarrow> string option" where
  "replaceMessageReferences n msgs s =
     map_option (\<lambda>ts. case ts of [] \<Rightarrow> '''' | t # _ \<Rightarrow> js_String_token t) (tokenizeInternal n msgs False False s)"

section \<open>A reference definition\<close>

text \<open>
  What a message says, without states and buffers: it is a sequence of pieces, each a text, the number of an
  argument or a reference.
\<close>

datatype piece = Lit string | Arg nat | Ref string

lemma length_after_brace: "dropWhile P s = z # rest \<Longrightarrow> length rest < length s"
  using length_dropWhile_le [of P s] by simp

function (sequential) pieces :: "bool \<Rightarrow> string \<Rightarrow> piece list" where
  "pieces b [] = []"
| "pieces b [x] = [Lit [x]]"
| "pieces b (x # y # s) =
     (if x \<noteq> CHR ''%'' then Lit [x] # pieces b (y # s)
      else if y = CHR ''%'' then Lit ''%'' # pieces b s
      else if b \<and> is_digit y
      then Arg (read_nat (y # takeWhile is_digit s)) # pieces b (dropWhile is_digit s)
      else if y = CHR ''{'' then
        (case dropWhile (\<lambda>z. z \<noteq> CHR ''}'') s of
           [] \<Rightarrow> [Lit (''%{'' @ s)]
         | _ # rest \<Rightarrow> Ref (takeWhile (\<lambda>z. z \<noteq> CHR ''}'') s) # pieces b rest)
      else Lit [x, y] # pieces b s)"
  by pat_completeness auto

termination
  by (relation "measure (\<lambda>(b, s). length s)")
    (auto simp: length_dropWhile_le less_Suc_eq_le le_SucI dest: length_after_brace)

fun piece_tokens :: "(string \<Rightarrow> token list option) \<Rightarrow> piece list \<Rightarrow> token list option" where
  "piece_tokens R [] = Some []"
| "piece_tokens R (Lit s # ps) = prepend [TStr s] (piece_tokens R ps)"
| "piece_tokens R (Arg n # ps) = prepend [TNum n] (piece_tokens R ps)"
| "piece_tokens R (Ref name # ps) = (case R name of None \<Rightarrow> None | Some ts \<Rightarrow> prepend ts (piece_tokens R ps))"

section \<open>The scanner implements the reference definition\<close>

lemma prepend_simps [simp]:
  "prepend ts None = None"
  "prepend ts (Some us) = Some (ts @ us)"
  "prepend [] r = r"
  "prepend ts (prepend us r) = prepend (ts @ us) r"
  "prepend ts r = None \<longleftrightarrow> r = None"
  by (cases r; simp add: prepend_def)+

lemma map_prepend: "map_option f (prepend ts r) = map_option (\<lambda>us. f (ts @ us)) r"
  by (cases r) simp_all

lemma flush_Nil [simp]: "flush [] = []"
  by (simp add: flush_def)

lemma merge_flush: "(c \<longrightarrow> buf \<noteq> [NL]) \<Longrightarrow> merge c acc (flush buf @ ts) = merge c (acc @ buf) ts"
  by (auto simp: flush_def)

lemma merge_append: "\<exists>pre acc'. \<forall>us. merge c acc (ts @ us) = pre @ merge c acc' us"
proof (induction c acc ts rule: merge.induct)
  case (1 c buf)
  have "\<forall>us. merge c buf ([] @ us) = [] @ merge c buf us" by simp
  then show ?case by blast
next
  case (2 c buf n ts)
  then obtain pre acc' where "\<forall>us. merge c [] (ts @ us) = pre @ merge c acc' us" by blast
  then have "\<forall>us. merge c buf ((TNum n # ts) @ us) = (flush buf @ TNum n # pre) @ merge c acc' us" by simp
  then show ?case by blast
next
  case (3 c buf s ts)
  show ?case
  proof (cases "c \<and> s = [NL]")
    case True
    with 3(1) obtain pre acc' where "\<forall>us. merge c [] (ts @ us) = pre @ merge c acc' us" by blast
    with True have "\<forall>us. merge c buf ((TStr s # ts) @ us) = (flush buf @ TStr s # pre) @ merge c acc' us" by simp
    then show ?thesis by blast
  next
    case False
    with 3(2) obtain pre acc' where "\<forall>us. merge c (buf @ s) (ts @ us) = pre @ merge c acc' us" by blast
    with False have "\<forall>us. merge c buf ((TStr s # ts) @ us) = pre @ merge c acc' us" by auto
    then show ?thesis by blast
  qed
qed

lemma merge_same_prefix:
  assumes "\<And>acc. map_option (merge c acc) x = map_option (merge c acc) y"
  shows "map_option (\<lambda>us. merge c acc (ts @ us)) x = map_option (\<lambda>us. merge c acc (ts @ us)) y"
proof -
  obtain pre acc' where m: "\<forall>us. merge c acc (ts @ us) = pre @ merge c acc' us"
    using merge_append by blast
  have "map_option ((@) pre) (map_option (merge c acc') x) = map_option ((@) pre) (map_option (merge c acc') y)"
    using assms by simp
  then show ?thesis by (simp add: option.map_comp comp_def m)
qed

lemma scan_number:
  "scan R b c (T2 g) buf (map Some s @ [None]) =
     prepend [TNum (read_nat (g @ takeWhile is_digit s))]
       (scan R b c T0 buf (map Some (dropWhile is_digit s) @ [None]))"
  by (induction s arbitrary: g) simp_all

lemma scan_reference:
  "scan R b c T3 buf (map Some s @ [None]) =
     (case dropWhile (\<lambda>z. z \<noteq> CHR ''}'') s of
        [] \<Rightarrow> Some [TStr (''%{'' @ buf @ s)]
      | _ # rest \<Rightarrow>
          (case R (buf @ takeWhile (\<lambda>z. z \<noteq> CHR ''}'') s) of
             None \<Rightarrow> None
           | Some ts \<Rightarrow> prepend ts (scan R b c T0 [] (map Some rest @ [None]))))"
proof (induction s arbitrary: buf)
  case (Cons a s)
  then show ?case by (cases "a = CHR ''}''"; cases "dropWhile (\<lambda>z. z \<noteq> CHR ''}'') s")
      (simp_all del: dropWhile_eq_Nil_conv)
qed (simp add: flush_def)

lemma brace_no_digit: "\<not> is_digit CHR ''{''"
  by (simp add: is_digit_def)

lemma scan_pieces:
  assumes "c \<longrightarrow> buf \<noteq> [NL]"
  shows "map_option (merge c acc) (scan R b c T0 buf (map Some s @ [None])) =
    map_option (merge c (acc @ buf)) (piece_tokens R (pieces b s))"
  using assms
proof (induction b s arbitrary: buf acc rule: pieces.induct)
  case (1 b)
  then show ?case using merge_flush [of c buf acc "[]"] by simp
next
  case (2 b x)
  show ?case
  proof (cases "x = CHR ''%''")
    case True
    with 2 show ?thesis using merge_flush [of c buf acc "[TStr ''%'']"] by (simp add: flush_def)
  next
    case False
    with 2 show ?thesis
      using merge_flush [of c buf acc "[TStr [x]]"] merge_flush [of c "buf @ [x]" acc "[]"]
      by (auto simp: flush_def append_eq_Cons_conv)
  qed
next
  case (3 b x y s)
  have pre: "map_option (\<lambda>us. merge c acc (flush buf @ us)) r = map_option (merge c (acc @ buf)) r" for r
    using 3(6) by (simp add: merge_flush)
  consider (plain) "x \<noteq> CHR ''%''" | (percent) "x = CHR ''%''" "y = CHR ''%''"
    | (arg) "x = CHR ''%''" "y \<noteq> CHR ''%''" "b \<and> is_digit y"
    | (ref) "x = CHR ''%''" "y = CHR ''{''" "\<not> (b \<and> is_digit y)"
    | (other) "x = CHR ''%''" "y \<noteq> CHR ''%''" "\<not> (b \<and> is_digit y)" "y \<noteq> CHR ''{''"
    by blast
  then show ?case
  proof cases
    case plain
    show ?thesis
    proof (cases "c \<and> x = NL")
      case True
      let ?ts = "flush buf @ [TStr [NL]]"
      have "map_option (merge c acc) (scan R b c T0 buf (map Some (x # y # s) @ [None])) =
          map_option (\<lambda>us. merge c acc (?ts @ us)) (scan R b c T0 [] (map Some (y # s) @ [None]))"
        using True plain by (simp add: map_prepend)
      also have "\<dots> = map_option (\<lambda>us. merge c acc (?ts @ us)) (piece_tokens R (pieces b (y # s)))"
        by (rule merge_same_prefix) (use 3(1) [OF plain, of "[]"] in simp)
      also have "\<dots> = map_option (merge c (acc @ buf)) (piece_tokens R (pieces b (x # y # s)))"
        using True plain pre [of "prepend [TStr [NL]] (piece_tokens R (pieces b (y # s)))"]
        by (simp add: map_prepend)
      finally show ?thesis .
    next
      case False
      then have "c \<longrightarrow> buf @ [x] \<noteq> [NL]" by auto
      from 3(1) [OF plain this, of acc] plain False show ?thesis by (auto simp: map_prepend)
    qed
  next
    case percent
    then show ?thesis using 3(2) [OF _ _, of "''%''" "acc @ buf"] by (simp add: map_prepend pre)
  next
    case arg
    then show ?thesis
      using merge_same_prefix [of c "scan R b c T0 [] (map Some (dropWhile is_digit s) @ [None])"
          "piece_tokens R (pieces b (dropWhile is_digit s))" "acc @ buf"
          "[TNum (read_nat (y # takeWhile is_digit s))]"] 3(3) [OF _ _ _, of "[]"]
      by (simp add: map_prepend merge_flush [OF 3(6)] scan_number)
  next
    case ref
    show ?thesis
    proof (cases "dropWhile (\<lambda>z. z \<noteq> CHR ''}'') s")
      case Nil
      with ref show ?thesis
        by (simp add: map_prepend merge_flush [OF 3(6)] scan_reference brace_no_digit del: dropWhile_eq_Nil_conv)
    next
      case (Cons z rest)
      then show ?thesis
        using ref merge_same_prefix [of c "scan R b c T0 [] (map Some rest @ [None])"
            "piece_tokens R (pieces b rest)" "acc @ buf"] 3(4) [OF _ _ _ _ Cons, of "[]"]
        by (simp add: map_prepend pre scan_reference brace_no_digit split: option.split)
    qed
  next
    case other
    then show ?thesis using 3(5) [OF _ _ _ _, of "[CHR ''%'', y]" "acc @ buf"]
      by (auto simp: map_prepend pre)
  qed
qed

definition resolve :: "nat \<Rightarrow> msgs \<Rightarrow> bool \<Rightarrow> bool \<Rightarrow> string \<Rightarrow> token list option" where
  "resolve n msgs b c name =
     (case ref_key msgs name of
        None \<Rightarrow> Some [TStr (unresolved name)]
      | Some k \<Rightarrow> tokenizeInternal n msgs b c (the (msgs k)))"

lemma tokenizeInternal_pieces:
  "tokenizeInternal (Suc n) msgs b c s = map_option (merge c []) (piece_tokens (resolve n msgs b c) (pieces b s))"
  using scan_pieces [of c "[]" "[]" "resolve n msgs b c" b s] by (simp add: resolve_def [abs_def])

declare tokenizeInternal.simps(2) [simp del]

section \<open>Termination\<close>

definition refs :: "msgs \<Rightarrow> bool \<Rightarrow> string \<Rightarrow> string set" where
  \<comment> \<open>the keys of the messages that a text refers to\<close>
  "refs msgs b s = {k. \<exists>name. Ref name \<in> set (pieces b s) \<and> ref_key msgs name = Some k}"

lemma piece_tokens_Some:
  "(\<And>name. Ref name \<in> set ps \<Longrightarrow> \<exists>ts. R name = Some ts) \<Longrightarrow> \<exists>ts. piece_tokens R ps = Some ts"
proof (induction R ps rule: piece_tokens.induct)
  case (4 R name ps)
  from 4(2) [of name] obtain ts where "R name = Some ts" by auto
  moreover from this 4 obtain us where "piece_tokens R ps = Some us" by auto
  ultimately show ?case by simp
qed auto

lemma tokenize_returns:
  assumes "\<And>k. k \<in> refs msgs b s \<Longrightarrow> \<exists>ts. tokenizeInternal n msgs b c (the (msgs k)) = Some ts"
  shows "\<exists>ts. tokenizeInternal (Suc n) msgs b c s = Some ts"
proof -
  have "\<exists>ts. resolve n msgs b c name = Some ts" if "Ref name \<in> set (pieces b s)" for name
    using assms that by (cases "ref_key msgs name") (auto simp: resolve_def refs_def)
  from piece_tokens_Some [OF this] show ?thesis by (auto simp: tokenizeInternal_pieces)
qed

text \<open>
  The interface between the scanner and the messages of a language: every reference leads to a message of
  smaller rank. A table without references has the rank 0 throughout.
\<close>

locale ranked_messages =
  fixes msgs :: msgs and r :: "string \<Rightarrow> nat"
  assumes ranked: "msgs k = Some v \<Longrightarrow> k' \<in> refs msgs b v \<Longrightarrow> r k' < r k"
begin

lemma returns:
  \<comment> \<open>fuel above the rank of the references is enough\<close>
  "(\<And>k. k \<in> refs msgs b s \<Longrightarrow> r k < n) \<Longrightarrow> \<exists>ts. tokenizeInternal (Suc n) msgs b c s = Some ts"
proof (induction n arbitrary: s)
  case 0
  then show ?case by (intro tokenize_returns) auto
next
  case (Suc n)
  show ?case
  proof (rule tokenize_returns)
    fix k assume k: "k \<in> refs msgs b s"
    then obtain v where v: "msgs k = Some v" by (auto simp: refs_def ref_key_def Let_def split: if_splits)
    have "r k' < n" if "k' \<in> refs msgs b v" for k'
      using ranked [OF v that] Suc.prems [OF k] by simp
    then show "\<exists>ts. tokenizeInternal (Suc n) msgs b c (the (msgs k)) = Some ts" using v Suc.IH by simp
  qed
qed

end

locale flat_messages =
  fixes msgs :: msgs
  assumes flat: "msgs k = Some v \<Longrightarrow> refs msgs b v = {}"
begin

lemma flat_ranked: "ranked_messages msgs (\<lambda>k. 0)"
  by unfold_locales (simp add: flat)

end

sublocale flat_messages \<subseteq> ranked_messages msgs "\<lambda>k. 0"
  by (rule flat_ranked)

lemma piece_tokens_mono:
  assumes "\<And>name ts. R name = Some ts \<Longrightarrow> R' name = Some ts"
  shows "piece_tokens R ps = Some us \<Longrightarrow> piece_tokens R' ps = Some us"
  using assms
proof (induction R ps arbitrary: us rule: piece_tokens.induct)
  case (4 R name ps)
  from 4(2) obtain ts ws where "R name = Some ts" "piece_tokens R ps = Some ws" "us = ts @ ws"
    by (cases "R name"; cases "piece_tokens R ps") auto
  with 4(1) [of ts ws] 4(3) show ?case by simp
qed (auto simp: prepend_def)

lemma tokenize_mono: "tokenizeInternal n msgs b c s = Some ts \<Longrightarrow> tokenizeInternal (Suc n) msgs b c s = Some ts"
proof (induction n arbitrary: s ts)
  case (Suc n)
  have "resolve (Suc n) msgs b c name = Some us" if "resolve n msgs b c name = Some us" for name us
    using that Suc.IH by (auto simp: resolve_def split: option.splits)
  with Suc.prems piece_tokens_mono [of "resolve n msgs b c" "resolve (Suc n) msgs b c"] show ?case
    by (auto simp: tokenizeInternal_pieces)
qed simp

lemma tokenize_fuel:
  "tokenizeInternal n msgs b c s = Some ts \<Longrightarrow> tokenizeInternal (m + n) msgs b c s = Some ts"
  by (induction m) (auto intro: tokenize_mono)

lemma no_brace_no_ref: "CHR ''{'' \<notin> set s \<Longrightarrow> Ref name \<notin> set (pieces b s)"
proof (induction b s rule: pieces.induct)
  case (3 b x y s)
  then show ?case by (auto split: list.split dest: set_dropWhileD)
qed auto

lemma en_Msg_range: "en_Msg k = Some v \<Longrightarrow> v \<in> snd ` set en_messages \<union> snd ` set en_hues"
proof -
  have copy: "ran (foldl copy_msg m kks) \<subseteq> ran m" for m kks
  proof (induction kks arbitrary: m)
    case (Cons x kks)
    have "ran (copy_msg m x) \<subseteq> ran m" by (auto simp: copy_msg_def ran_def split: prod.splits if_splits)
    with Cons show ?case by fastforce
  qed simp
  have ass: "ran (foldl assign_msg m kvs) \<subseteq> ran m \<union> snd ` set kvs" for m kvs
    by (force simp: foldl_assign ran_def map_add_Some_iff dest: map_of_SomeD)
  assume "en_Msg k = Some v"
  then have "v \<in> ran en_Msg" by (auto simp: ran_def)
  with ass [of Map.empty en_messages] copy [of "foldl assign_msg Map.empty en_messages" en_aliases]
    ass [of "foldl copy_msg (foldl assign_msg Map.empty en_messages) en_aliases" en_hues]
  show ?thesis by (auto simp: en_Msg_def)
qed

lemma en_messages_no_brace: "list_all (\<lambda>(k, v). CHR ''{'' \<notin> set v) en_messages"
  by (simp only: en_messages_defs append_Cons append_Nil list.pred_inject prod.case) (intro conjI; simp)

lemma en_hues_no_brace: "list_all (\<lambda>(k, v). CHR ''{'' \<notin> set v) en_hues"
  by (simp add: en_hues_def)

lemma en_no_refs: "en_Msg k = Some v \<Longrightarrow> refs msgs b v = {}"
  using en_Msg_range [of k v] en_messages_no_brace en_hues_no_brace no_brace_no_ref
  by (force simp: refs_def list_all_iff)

interpretation en: flat_messages en_Msg
  by unfold_locales (rule en_no_refs)

lemma en_returns: "\<exists>ts. tokenizeInternal 2 en_Msg b c s = Some ts"
  using en.returns [of b s 1 c] by (simp add: numeral_2_eq_2)

text \<open>
  C33. With the English messages the scanner ends on every text, with two nested calls at most: there
  is one list of tokens that the model returns for every fuel of at least two.
\<close>

theorem interpolation_terminates: "\<exists>ts. \<forall>n. tokenizeInternal (n + 2) en_Msg b c s = Some ts"
  using en_returns tokenize_fuel by metis

lemma circular_message_diverges:
  \<comment> \<open>no fuel is enough for a message that refers to itself\<close>
  assumes "msgs ''A'' = Some ''%{BKY_A}''"
  shows "tokenizeInternal n msgs b c ''%{BKY_A}'' = None"
proof (induction n)
  case (Suc n)
  have "ref_key msgs ''BKY_A'' = Some ''A''"
    using assms by (simp add: ref_key_def is_letter_def upper_def)
  with Suc assms show ?case by (simp add: tokenizeInternal_pieces resolve_def brace_no_digit)
qed simp

section \<open>The text of a message\<close>

definition literal_text :: "piece list \<Rightarrow> string" where
  "literal_text ps = concat (map (\<lambda>p. case p of Lit t \<Rightarrow> t | Arg n \<Rightarrow> [] | Ref name \<Rightarrow> unresolved name) ps)"

definition expand :: "msgs \<Rightarrow> string \<Rightarrow> string" where
  \<comment> \<open>the texts of the pieces, with each reference that the table resolves replaced by its message\<close>
  "expand msgs s =
     concat (map (\<lambda>p. case p of
         Lit t \<Rightarrow> t
       | Arg n \<Rightarrow> []
       | Ref name \<Rightarrow> (case ref_key msgs name of
             None \<Rightarrow> unresolved name
           | Some k \<Rightarrow> literal_text (pieces False (the (msgs k)))))
       (pieces False s))"

fun is_text :: "token \<Rightarrow> bool" where
  "is_text (TStr s) = True"
| "is_text (TNum n) = False"

definition texts :: "token list \<Rightarrow> string" where
  "texts ts = concat (map js_String_token ts)"

lemma merge_texts: "list_all is_text ts \<Longrightarrow> merge False buf ts = flush (buf @ texts ts)"
proof (induction ts arbitrary: buf)
  case (Cons t ts)
  then show ?case by (cases t) (simp_all add: texts_def js_String_token_def)
qed (simp add: texts_def)

lemma no_args: "Arg n \<notin> set (pieces False s)"
  by (induction False s rule: pieces.induct) (auto split: list.split)

lemma piece_tokens_texts:
  assumes "\<And>n. Arg n \<notin> set ps"
    and "\<And>name. Ref name \<in> set ps \<Longrightarrow> \<exists>ts. R name = Some ts \<and> list_all is_text ts \<and> texts ts = f name"
  shows "\<exists>ts. piece_tokens R ps = Some ts \<and> list_all is_text ts \<and>
    texts ts = concat (map (\<lambda>p. case p of Lit t \<Rightarrow> t | Arg n \<Rightarrow> [] | Ref name \<Rightarrow> f name) ps)"
  using assms
proof (induction ps)
  case (Cons p ps)
  then obtain ts where ts: "piece_tokens R ps = Some ts" "list_all is_text ts"
    "texts ts = concat (map (\<lambda>p. case p of Lit t \<Rightarrow> t | Arg n \<Rightarrow> [] | Ref name \<Rightarrow> f name) ps)"
    by (meson list.set_intros(2))
  show ?case
  proof (cases p)
    case (Ref name)
    with Cons.prems(2) [of name] obtain us where "R name = Some us" "list_all is_text us" "texts us = f name"
      by auto
    with ts Ref show ?thesis by (auto simp: texts_def)
  qed (use ts Cons.prems(1) in \<open>auto simp: texts_def js_String_token_def\<close>)
qed (simp add: texts_def)

lemma tokenize_texts:
  assumes "\<And>name. Ref name \<in> set (pieces False s) \<Longrightarrow>
      \<exists>ts. resolve n msgs False False name = Some ts \<and> list_all is_text ts \<and> texts ts = f name"
  shows "tokenizeInternal (Suc n) msgs False False s =
    Some (flush (concat (map (\<lambda>p. case p of Lit t \<Rightarrow> t | Arg n \<Rightarrow> [] | Ref name \<Rightarrow> f name) (pieces False s))))"
  using piece_tokens_texts [of "pieces False s" "resolve n msgs False False" f] no_args assms
  by (fastforce simp: tokenizeInternal_pieces merge_texts)

lemma texts_flush [simp]: "texts (flush s) = s" "list_all is_text (flush s)"
  by (simp_all add: flush_def texts_def js_String_token_def)

lemma tokenize_literal:
  assumes "refs msgs False s = {}"
  shows "tokenizeInternal (Suc n) msgs False False s = Some (flush (literal_text (pieces False s)))"
  unfolding literal_text_def
proof (rule tokenize_texts)
  fix name assume "Ref name \<in> set (pieces False s)"
  then have "ref_key msgs name = None" using assms by (cases "ref_key msgs name") (auto simp: refs_def)
  then show "\<exists>ts. resolve n msgs False False name = Some ts \<and> list_all is_text ts \<and> texts ts = unresolved name"
    by (simp add: resolve_def texts_def js_String_token_def)
qed

context flat_messages
begin

lemma tokenize_expand: "tokenizeInternal (n + 2) msgs False False s = Some (flush (expand msgs s))"
proof -
  have "tokenizeInternal (Suc (Suc n)) msgs False False s = Some (flush (expand msgs s))"
    unfolding expand_def
  proof (rule tokenize_texts)
    fix name
    show "\<exists>ts. resolve (Suc n) msgs False False name = Some ts \<and> list_all is_text ts \<and>
        texts ts = (case ref_key msgs name of None \<Rightarrow> unresolved name
          | Some k \<Rightarrow> literal_text (pieces False (the (msgs k))))"
    proof (cases "ref_key msgs name")
      case None
      then show ?thesis by (simp add: resolve_def texts_def js_String_token_def)
    next
      case (Some k)
      then obtain v where v: "msgs k = Some v" by (auto simp: ref_key_def Let_def split: if_splits)
      then have "refs msgs False v = {}" by (rule flat)
      with Some v tokenize_literal show ?thesis by (simp add: resolve_def)
    qed
  qed
  then show ?thesis by simp
qed

lemma replace_expand: "replaceMessageReferences (n + 2) msgs s = Some (expand msgs s)"
  using tokenize_expand [of n s]
  by (auto simp: replaceMessageReferences_def flush_def js_String_token_def)

end

text \<open>
  C34. On every text \<open>replaceMessageReferences\<close>, with its state machine, buffers and
  token lists, is the reference definition: each reference to an English message is replaced by the text of that
  message, every other reference stays as it is written, a doubled percent sign stands for one, and every other
  character is kept.
\<close>

theorem replace_is_expand: "replaceMessageReferences (n + 2) en_Msg s = Some (expand en_Msg s)"
  by (rule en.replace_expand)

end
