(* ===== verification/Block_Json.thy ===== *)
theory Block_Json
  imports Interpolation Rules_Blocks "HOL-Library.Multiset"
begin

text \<open>
  Blocks from definitions in JSON: \<open>Block.jsonInit\<close> and the functions it calls
  (\<open>blockly_compressed.js\<close>), and the definitions that \<open>blocks_compressed.js\<close> gives in this form,
  module by module. A message is split into texts and argument numbers, the numbers are checked
  against the arguments, and the pieces become inputs with their rows of fields. At the end the mutator and
  the extensions are looked up by name and applied: what they mix into the block, the field they need, and
  every error of applying them are modelled; the tooltips, validators and quotes that they set are not.
  The alignment of an input
  and the default value and range of a field other than a text field or a dropdown, which no
  connection depends on, are left out. The depth of the call stack bounds the nested references of
  a message: the fuel of the scanner, with the error that an overflow throws.
\<close>

section \<open>Definitions in JSON\<close>

datatype json_arg =
    InputValue string check
  | InputStatement string check
  | InputDummy
  | InputEndRow
  | LabelField string
  | DropdownField "string option" "(string \<times> string) list"
  | InputField "string option" string
  | OtherField string "string option"  \<comment> \<open>a field of another type, by its type\<close>

record block_json =
  j_type :: string
  j_messages :: "string list"  \<comment> \<open>\<open>message0\<close>, \<open>message1\<close>, ...\<close>
  j_args :: "json_arg list option list"  \<comment> \<open>\<open>args0\<close>, \<open>args1\<close>, ...\<close>
  j_output :: "check option"
  j_previous :: "check option"
  j_next :: "check option"
  j_style :: "string option"
  j_colour :: "string option"
  j_inline :: bool
  j_tooltip :: "string option"
  j_helpUrl :: "string option"
  j_mutator :: "string option"
  j_extensions :: "string list"

record built_block =
  b_inputs :: "(json_arg \<times> json_arg list) list"  \<comment> \<open>each input with its row of fields\<close>
  b_output :: "check option"
  b_previous :: "check option"
  b_next :: "check option"
  b_inline :: bool
  b_tooltip :: string
  b_helpUrl :: string
  b_members :: "string list"  \<comment> \<open>what the mutator and the extensions have mixed into the block\<close>

section \<open>Interpolation of a message\<close>

definition overflow :: "'a option \<Rightarrow> 'a result" where
  "overflow r = (case r of None \<Rightarrow> Inl (PlainError ''Maximum call stack size exceeded'') | Some x \<Rightarrow> Inr x)"

fun validateTokens :: "string \<Rightarrow> nat \<Rightarrow> nat list \<Rightarrow> token list \<Rightarrow> unit result" where
  \<comment> \<open>\<open>seen\<close>: the argument numbers so far\<close>
  \<open>validateTokens ty n seen [] =
     (if length seen \<noteq> n then Inl (PlainError (''Block "'' @ ty @ ''": Message does not reference all '' @ show_nat n @ '' arg(s).''))
      else Inr ())\<close>
| \<open>validateTokens ty n seen (TStr s # ts) = validateTokens ty n seen ts\<close>
| \<open>validateTokens ty n seen (TNum f # ts) =
     (if f < 1 \<or> n < f then Inl (PlainError (''Block "'' @ ty @ ''": Message index %'' @ show_nat f @ '' out of range.''))
      else if f \<in> set seen then Inl (PlainError (''Block "'' @ ty @ ''": Message index %'' @ show_nat f @ '' duplicated.''))
      else validateTokens ty n (f # seen) ts)\<close>

definition stringToFieldJson :: "string \<Rightarrow> json_arg option" where
  "stringToFieldJson s = (let s = js_trim s in if s = [] then None else Some (LabelField s))"

fun isInputKeyword :: "json_arg \<Rightarrow> bool" where
  "isInputKeyword (InputValue n c) = True"
| "isInputKeyword (InputStatement n c) = True"
| "isInputKeyword InputDummy = True"
| "isInputKeyword InputEndRow = True"
| "isInputKeyword a = False"

fun token_element :: "json_arg list \<Rightarrow> token \<Rightarrow> json_arg list" where
  "token_element args (TNum n) = [args ! (n - 1)]"
| "token_element args (TStr s) =
     (if s = [NL] then [InputEndRow]
      else (case stringToFieldJson s of None \<Rightarrow> [] | Some a \<Rightarrow> [a]))"

definition interpolateArguments :: "token list \<Rightarrow> json_arg list \<Rightarrow> json_arg list" where
  "interpolateArguments ts args =
     (let es = concat (map (token_element args) ts)
      in if es \<noteq> [] \<and> \<not> isInputKeyword (last es) then es @ [InputDummy] else es)"

fun input_rows :: "json_arg list \<Rightarrow> json_arg list \<Rightarrow> (json_arg \<times> json_arg list) list" where
  \<comment> \<open>the loop of \<open>interpolate_\<close>: the fields since the last input go into the row of the next\<close>
  "input_rows fs [] = []"
| "input_rows fs (e # es) = (if isInputKeyword e then (e, fs) # input_rows [] es else input_rows (fs @ [e]) es)"

definition interpolate ::
  "nat \<Rightarrow> msgs \<Rightarrow> string \<Rightarrow> string \<Rightarrow> json_arg list \<Rightarrow> (json_arg \<times> json_arg list) list result" where
  "interpolate n msgs ty message args =
     bind_result (overflow (tokenizeInterpolation n msgs message)) (\<lambda>ts.
     bind_result (validateTokens ty (length args) [] ts) (\<lambda>_.
     Inr (input_rows [] (interpolateArguments ts args))))"

section \<open>Extensions\<close>

record extension =
  e_mixins :: "string list list"  \<comment> \<open>the objects that it mixes in, by their members\<close>
  e_field :: "string option"  \<comment> \<open>the field whose validator it sets\<close>

type_synonym extensions = "(string \<times> extension) list"

definition mixin :: "string list \<Rightarrow> string list \<Rightarrow> string list result" where
  \<comment> \<open>\<open>members\<close> are the members that earlier mixins gave the block; none of the names is a member of every block\<close>
  "mixin members obj =
     (if list_ex (\<lambda>m. List.member members m) obj then Inl (PlainError ''Mixin will overwrite block members'')
      else Inr (members @ obj))"

fun mixin_all :: "string list \<Rightarrow> string list list \<Rightarrow> string list result" where
  "mixin_all members [] = Inr members"
| "mixin_all members (obj # objs) = bind_result (mixin members obj) (\<lambda>members. mixin_all members objs)"

definition getMutatorProperties :: "string list \<Rightarrow> string list" where
  "getMutatorProperties members =
     filter (List.member members)
       [''domToMutation'', ''mutationToDom'', ''saveExtraState'', ''loadExtraState'', ''compose'', ''decompose'']"

definition checkHasMutatorProperties :: "string list \<Rightarrow> bool" where
  \<comment> \<open>whether it returns: each pair of hooks is complete or missing, and one of the first two is there\<close>
  "checkHasMutatorProperties members \<longleftrightarrow>
     (let has = List.member members
      in has ''mutationToDom'' = has ''domToMutation'' \<and> has ''saveExtraState'' = has ''loadExtraState'' \<and>
         has ''compose'' = has ''decompose'' \<and> (has ''mutationToDom'' \<or> has ''saveExtraState''))"

definition apply_extension ::
  "extensions \<Rightarrow> string list \<Rightarrow> string \<Rightarrow> bool \<Rightarrow> string list \<Rightarrow> string list result" where
  \<comment> \<open>\<open>apply\<close>; \<open>fnames\<close> are the names of the fields of the block\<close>
  \<open>apply_extension exts fnames name isMutator members =
     (case map_of exts name of
        None \<Rightarrow> Inl (PlainError (''Error: Extension "'' @ name @ ''" not found.''))
      | Some e \<Rightarrow>
          if isMutator \<and> getMutatorProperties members \<noteq> []
          then Inl (PlainError (''Error: tried to apply mutation "'' @ name @
            ''" to a block that already has mutator functions.''))
          else
            bind_result (mixin_all members (e_mixins e)) (\<lambda>members'.
            if (case e_field e of None \<Rightarrow> False | Some f \<Rightarrow> \<not> List.member fnames f)
            then Inl (TypeError ''Cannot read properties of null'')
            else if isMutator then
              (if checkHasMutatorProperties members' then Inr members'
               else Inl (PlainError (''Error after applying mutator "'' @ name @ ''"'')))
            else if getMutatorProperties members' = getMutatorProperties members then Inr members'
            else Inl (PlainError (''Error when applying extension "'' @ name @
              ''": mutation properties changed when applying a non-mutator extension.''))))\<close>

fun apply_extensions :: "extensions \<Rightarrow> string list \<Rightarrow> string list \<Rightarrow> string list \<Rightarrow> string list result" where
  "apply_extensions exts fnames [] members = Inr members"
| "apply_extensions exts fnames (x # xs) members =
     bind_result (apply_extension exts fnames x False members) (apply_extensions exts fnames xs)"

fun arg_name :: "json_arg \<Rightarrow> string list" where
  "arg_name (DropdownField (Some n) opts) = [n]"
| "arg_name (InputField (Some n) s) = [n]"
| "arg_name (OtherField t (Some n)) = [n]"
| "arg_name a = []"

definition row_fields :: "(json_arg \<times> json_arg list) list \<Rightarrow> string list" where
  "row_fields rows = concat (map (\<lambda>(i, fs). concat (map arg_name fs)) rows)"

definition plain_ext :: extension where "plain_ext = \<lparr>e_mixins = [], e_field = None\<rparr>"

definition quote_image_members :: "string list" where
  "quote_image_members = [''QUOTE_IMAGE_LEFT_DATAURI'', ''QUOTE_IMAGE_RIGHT_DATAURI'', ''QUOTE_IMAGE_WIDTH'',
     ''QUOTE_IMAGE_HEIGHT'', ''quoteField_'', ''newQuote_'']"

definition allExtensions :: extensions where
  \<comment> \<open>the calls of \<open>register\<close>, \<open>registerMixin\<close> and \<open>registerMutator\<close>\<close>
  "allExtensions =
     [(''parent_tooltip_when_inline'', plain_ext),
      (''contextMenu_variableDynamicSetterGetter'', plain_ext\<lparr>e_mixins := [[''customContextMenu'', ''onchange'']]\<rparr>),
      (''contextMenu_variableSetterGetter'', plain_ext\<lparr>e_mixins := [[''customContextMenu'']]\<rparr>),
      (''text_append_tooltip'', plain_ext),
      (''text_indexOf_tooltip'', plain_ext),
      (''text_quotes'', plain_ext\<lparr>e_mixins := [quote_image_members]\<rparr>),
      (''quote_image_mixin'', plain_ext\<lparr>e_mixins := [quote_image_members]\<rparr>),
      (''text_join_mutator'', plain_ext\<lparr>e_mixins := [[''itemCount_'', ''mutationToDom'', ''domToMutation'',
         ''saveExtraState'', ''loadExtraState'', ''decompose'', ''compose'', ''saveConnections'', ''updateShape_''],
         quote_image_members]\<rparr>),
      (''text_charAt_mutator'', \<lparr>e_mixins = [[''isAt_'', ''mutationToDom'', ''domToMutation'', ''updateAt_'']],
         e_field = Some ''WHERE''\<rparr>),
      (''math_op_tooltip'', plain_ext),
      (''math_is_divisibleby_mutator'', \<lparr>e_mixins = [[''mutationToDom'', ''domToMutation'', ''updateShape_'']],
         e_field = Some ''PROPERTY''\<rparr>),
      (''math_change_tooltip'', plain_ext),
      (''math_modes_of_list_mutator'', \<lparr>e_mixins = [[''updateType_'', ''mutationToDom'', ''domToMutation'']],
         e_field = Some ''OP''\<rparr>),
      (''controls_whileUntil_tooltip'', plain_ext),
      (''controls_flow_tooltip'', plain_ext),
      (''contextMenu_newGetVariableBlock'', plain_ext\<lparr>e_mixins := [[''customContextMenu'']]\<rparr>),
      (''controls_for_tooltip'', plain_ext),
      (''controls_forEach_tooltip'', plain_ext),
      (''controls_flow_in_loop_check'', plain_ext\<lparr>e_mixins := [[''getSurroundLoop'', ''onchange'']]\<rparr>),
      (''logic_op_tooltip'', plain_ext),
      (''controls_if_mutator'', plain_ext\<lparr>e_mixins := [[''elseifCount_'', ''elseCount_'', ''mutationToDom'',
         ''domToMutation'', ''saveExtraState'', ''loadExtraState'', ''decompose'', ''compose'', ''saveConnections'',
         ''rebuildShape_'', ''updateShape_'', ''reconnectChildBlocks_'']]\<rparr>),
      (''controls_if_tooltip'', plain_ext),
      (''logic_compare'', plain_ext\<lparr>e_mixins := [[''onchange'']]\<rparr>),
      (''logic_ternary'', plain_ext\<lparr>e_mixins := [[''prevParentConnection_'', ''onchange'']]\<rparr>)]"

section \<open>jsonInit\<close>

fun check_args :: "string \<Rightarrow> nat \<Rightarrow> string list \<Rightarrow> json_arg list option list \<Rightarrow> unit result" where
  \<open>check_args ty c ms (Some as # rest) =
     (if ms = [] then Inl (PlainError (''Block "'' @ ty @ ''": args'' @ show_nat c @ '' must have a corresponding message (message'' @
        show_nat c @ '').''))
      else check_args ty (c + 1) (tl ms) rest)\<close>
| \<open>check_args ty c ms args = Inr ()\<close>

fun interpolate_all ::
  "nat \<Rightarrow> msgs \<Rightarrow> string \<Rightarrow> string list \<Rightarrow> json_arg list option list \<Rightarrow> (json_arg \<times> json_arg list) list result" where
  "interpolate_all n msgs ty [] args = Inr []"
| "interpolate_all n msgs ty (m # ms) args =
     bind_result (interpolate n msgs ty m (case args of Some as # _ \<Rightarrow> as | _ \<Rightarrow> [])) (\<lambda>rows.
     bind_result (interpolate_all n msgs ty ms (tl args)) (\<lambda>rest. Inr (rows @ rest)))"

definition replaced :: "nat \<Rightarrow> msgs \<Rightarrow> string option \<Rightarrow> string result" where
  \<comment> \<open>a tooltip or help URL; the empty text when the definition has none\<close>
  "replaced n msgs t = (case t of None \<Rightarrow> Inr '''' | Some s \<Rightarrow> overflow (replaceMessageReferences n msgs s))"

definition truthy_check :: "check option \<Rightarrow> bool" where
  "truthy_check c \<longleftrightarrow> (case c of Some (Some _) \<Rightarrow> True | _ \<Rightarrow> False)"

definition jsonInit :: "nat \<Rightarrow> msgs \<Rightarrow> extensions \<Rightarrow> block_json \<Rightarrow> built_block result" where
  \<open>jsonInit n msgs exts d =
     (if truthy_check (j_output d) \<and> truthy_check (j_previous d)
      then Inl (PlainError (''Block "'' @ j_type d @ ''": Must not have both an output and a previousStatement.''))
      else
        bind_result (check_args (j_type d) 0 (j_messages d) (j_args d)) (\<lambda>_.
        if j_style d \<noteq> None \<and> j_colour d \<noteq> None
        then Inl (PlainError (''Block "'' @ j_type d @ ''": Must not have both a colour and a style.''))
        else
          bind_result (interpolate_all n msgs (j_type d) (j_messages d) (j_args d)) (\<lambda>rows.
          bind_result (replaced n msgs (j_tooltip d)) (\<lambda>tip.
          bind_result (replaced n msgs (j_helpUrl d)) (\<lambda>url.
          bind_result (case j_mutator d of None \<Rightarrow> Inr [] | Some m \<Rightarrow> apply_extension exts (row_fields rows) m True [])
            (\<lambda>members.
          bind_result (apply_extensions exts (row_fields rows) (j_extensions d) members) (\<lambda>members.
          Inr \<lparr>b_inputs = rows, b_output = j_output d, b_previous = j_previous d, b_next = j_next d,
               b_inline = j_inline d, b_tooltip = tip, b_helpUrl = url, b_members = members\<rparr>)))))))\<close>

section \<open>The definitions of blocks-compressed\<close>

definition variables_dynamic_json :: "block_json list" where
  \<open>variables_dynamic_json = [
     \<lparr>j_type = ''variables_get_dynamic'', j_messages = [''%1''],
      j_args = [Some [OtherField ''field_variable'' (Some ''VAR'')]],
      j_output = Some None, j_previous = None, j_next = None,
      j_style = Some ''variable_dynamic_blocks'', j_colour = None, j_inline = False,
      j_tooltip = Some ''%{BKY_VARIABLES_GET_TOOLTIP}'',
      j_helpUrl = Some ''%{BKY_VARIABLES_GET_HELPURL}'',
      j_mutator = None, j_extensions = [''contextMenu_variableDynamicSetterGetter'']\<rparr>,
     \<lparr>j_type = ''variables_set_dynamic'', j_messages = [''%{BKY_VARIABLES_SET}''],
      j_args = [Some [OtherField ''field_variable'' (Some ''VAR''),
        InputValue ''VALUE'' None]],
      j_output = None, j_previous = Some None, j_next = Some None,
      j_style = Some ''variable_dynamic_blocks'', j_colour = None, j_inline = False,
      j_tooltip = Some ''%{BKY_VARIABLES_SET_TOOLTIP}'',
      j_helpUrl = Some ''%{BKY_VARIABLES_SET_HELPURL}'',
      j_mutator = None, j_extensions = [''contextMenu_variableDynamicSetterGetter'']\<rparr>]\<close>

definition variables_json :: "block_json list" where
  \<open>variables_json = [
     \<lparr>j_type = ''variables_get'', j_messages = [''%1''],
      j_args = [Some [OtherField ''field_variable'' (Some ''VAR'')]],
      j_output = Some None, j_previous = None, j_next = None,
      j_style = Some ''variable_blocks'', j_colour = None, j_inline = False,
      j_tooltip = Some ''%{BKY_VARIABLES_GET_TOOLTIP}'',
      j_helpUrl = Some ''%{BKY_VARIABLES_GET_HELPURL}'',
      j_mutator = None, j_extensions = [''contextMenu_variableSetterGetter'']\<rparr>,
     \<lparr>j_type = ''variables_set'', j_messages = [''%{BKY_VARIABLES_SET}''],
      j_args = [Some [OtherField ''field_variable'' (Some ''VAR''),
        InputValue ''VALUE'' None]],
      j_output = None, j_previous = Some None, j_next = Some None,
      j_style = Some ''variable_blocks'', j_colour = None, j_inline = False,
      j_tooltip = Some ''%{BKY_VARIABLES_SET_TOOLTIP}'',
      j_helpUrl = Some ''%{BKY_VARIABLES_SET_HELPURL}'',
      j_mutator = None, j_extensions = [''contextMenu_variableSetterGetter'']\<rparr>]\<close>

definition text_json :: "block_json list" where
  \<open>text_json = [
     \<lparr>j_type = ''text'', j_messages = [''%1''],
      j_args = [Some [InputField (Some ''TEXT'') '''']],
      j_output = Some (Some [''String'']), j_previous = None, j_next = None,
      j_style = Some ''text_blocks'', j_colour = None, j_inline = False,
      j_tooltip = Some ''%{BKY_TEXT_TEXT_TOOLTIP}'',
      j_helpUrl = Some ''%{BKY_TEXT_TEXT_HELPURL}'',
      j_mutator = None, j_extensions = [''text_quotes'', ''parent_tooltip_when_inline'']\<rparr>,
     \<lparr>j_type = ''text_multiline'', j_messages = [''%1 %2''],
      j_args = [Some [OtherField ''field_image'' None,
        OtherField ''field_multilinetext'' (Some ''TEXT'')]],
      j_output = Some (Some [''String'']), j_previous = None, j_next = None,
      j_style = Some ''text_blocks'', j_colour = None, j_inline = False,
      j_tooltip = Some ''%{BKY_TEXT_TEXT_TOOLTIP}'',
      j_helpUrl = Some ''%{BKY_TEXT_TEXT_HELPURL}'',
      j_mutator = None, j_extensions = [''parent_tooltip_when_inline'']\<rparr>,
     \<lparr>j_type = ''text_join'', j_messages = [''''],
      j_args = [None],
      j_output = Some (Some [''String'']), j_previous = None, j_next = None,
      j_style = Some ''text_blocks'', j_colour = None, j_inline = False,
      j_tooltip = Some ''%{BKY_TEXT_JOIN_TOOLTIP}'',
      j_helpUrl = Some ''%{BKY_TEXT_JOIN_HELPURL}'',
      j_mutator = Some ''text_join_mutator'', j_extensions = []\<rparr>,
     \<lparr>j_type = ''text_create_join_container'', j_messages = [''%{BKY_TEXT_CREATE_JOIN_TITLE_JOIN} %1 %2''],
      j_args = [Some [InputDummy,
        InputStatement ''STACK'' None]],
      j_output = None, j_previous = None, j_next = None,
      j_style = Some ''text_blocks'', j_colour = None, j_inline = False,
      j_tooltip = Some ''%{BKY_TEXT_CREATE_JOIN_TOOLTIP}'',
      j_helpUrl = None,
      j_mutator = None, j_extensions = []\<rparr>,
     \<lparr>j_type = ''text_create_join_item'', j_messages = [''%{BKY_TEXT_CREATE_JOIN_ITEM_TITLE_ITEM}''],
      j_args = [None],
      j_output = None, j_previous = Some None, j_next = Some None,
      j_style = Some ''text_blocks'', j_colour = None, j_inline = False,
      j_tooltip = Some ''%{BKY_TEXT_CREATE_JOIN_ITEM_TOOLTIP}'',
      j_helpUrl = None,
      j_mutator = None, j_extensions = []\<rparr>,
     \<lparr>j_type = ''text_append'', j_messages = [''%{BKY_TEXT_APPEND_TITLE}''],
      j_args = [Some [OtherField ''field_variable'' (Some ''VAR''),
        InputValue ''TEXT'' None]],
      j_output = None, j_previous = Some None, j_next = Some None,
      j_style = Some ''text_blocks'', j_colour = None, j_inline = False,
      j_tooltip = None,
      j_helpUrl = None,
      j_mutator = None, j_extensions = [''text_append_tooltip'']\<rparr>,
     \<lparr>j_type = ''text_length'', j_messages = [''%{BKY_TEXT_LENGTH_TITLE}''],
      j_args = [Some [InputValue ''VALUE'' (Some [''String'', ''Array''])]],
      j_output = Some (Some [''Number'']), j_previous = None, j_next = None,
      j_style = Some ''text_blocks'', j_colour = None, j_inline = False,
      j_tooltip = Some ''%{BKY_TEXT_LENGTH_TOOLTIP}'',
      j_helpUrl = Some ''%{BKY_TEXT_LENGTH_HELPURL}'',
      j_mutator = None, j_extensions = []\<rparr>,
     \<lparr>j_type = ''text_isEmpty'', j_messages = [''%{BKY_TEXT_ISEMPTY_TITLE}''],
      j_args = [Some [InputValue ''VALUE'' (Some [''String'', ''Array''])]],
      j_output = Some (Some [''Boolean'']), j_previous = None, j_next = None,
      j_style = Some ''text_blocks'', j_colour = None, j_inline = False,
      j_tooltip = Some ''%{BKY_TEXT_ISEMPTY_TOOLTIP}'',
      j_helpUrl = Some ''%{BKY_TEXT_ISEMPTY_HELPURL}'',
      j_mutator = None, j_extensions = []\<rparr>,
     \<lparr>j_type = ''text_indexOf'', j_messages = [''%{BKY_TEXT_INDEXOF_TITLE}''],
      j_args = [Some [InputValue ''VALUE'' (Some [''String'']),
        DropdownField (Some ''END'') [(''%{BKY_TEXT_INDEXOF_OPERATOR_FIRST}'', ''FIRST''), (''%{BKY_TEXT_INDEXOF_OPERATOR_LAST}'', ''LAST'')],
        InputValue ''FIND'' (Some [''String''])]],
      j_output = Some (Some [''Number'']), j_previous = None, j_next = None,
      j_style = Some ''text_blocks'', j_colour = None, j_inline = True,
      j_tooltip = None,
      j_helpUrl = Some ''%{BKY_TEXT_INDEXOF_HELPURL}'',
      j_mutator = None, j_extensions = [''text_indexOf_tooltip'']\<rparr>,
     \<lparr>j_type = ''text_charAt'', j_messages = [''%{BKY_TEXT_CHARAT_TITLE}''],
      j_args = [Some [InputValue ''VALUE'' (Some [''String'']),
        DropdownField (Some ''WHERE'') [(''%{BKY_TEXT_CHARAT_FROM_START}'', ''FROM_START''), (''%{BKY_TEXT_CHARAT_FROM_END}'', ''FROM_END''), (''%{BKY_TEXT_CHARAT_FIRST}'', ''FIRST''), (''%{BKY_TEXT_CHARAT_LAST}'', ''LAST''), (''%{BKY_TEXT_CHARAT_RANDOM}'', ''RANDOM'')]]],
      j_output = Some (Some [''String'']), j_previous = None, j_next = None,
      j_style = Some ''text_blocks'', j_colour = None, j_inline = True,
      j_tooltip = None,
      j_helpUrl = Some ''%{BKY_TEXT_CHARAT_HELPURL}'',
      j_mutator = Some ''text_charAt_mutator'', j_extensions = []\<rparr>]\<close>

definition math_json :: "block_json list" where
  \<open>math_json = [
     \<lparr>j_type = ''math_number'', j_messages = [''%1''],
      j_args = [Some [OtherField ''field_number'' (Some ''NUM'')]],
      j_output = Some (Some [''Number'']), j_previous = None, j_next = None,
      j_style = Some ''math_blocks'', j_colour = None, j_inline = False,
      j_tooltip = Some ''%{BKY_MATH_NUMBER_TOOLTIP}'',
      j_helpUrl = Some ''%{BKY_MATH_NUMBER_HELPURL}'',
      j_mutator = None, j_extensions = [''parent_tooltip_when_inline'']\<rparr>,
     \<lparr>j_type = ''math_arithmetic'', j_messages = [''%1 %2 %3''],
      j_args = [Some [InputValue ''A'' (Some [''Number'']),
        DropdownField (Some ''OP'') [(''%{BKY_MATH_ADDITION_SYMBOL}'', ''ADD''), (''%{BKY_MATH_SUBTRACTION_SYMBOL}'', ''MINUS''), (''%{BKY_MATH_MULTIPLICATION_SYMBOL}'', ''MULTIPLY''), (''%{BKY_MATH_DIVISION_SYMBOL}'', ''DIVIDE''), (''%{BKY_MATH_POWER_SYMBOL}'', ''POWER'')],
        InputValue ''B'' (Some [''Number''])]],
      j_output = Some (Some [''Number'']), j_previous = None, j_next = None,
      j_style = Some ''math_blocks'', j_colour = None, j_inline = True,
      j_tooltip = None,
      j_helpUrl = Some ''%{BKY_MATH_ARITHMETIC_HELPURL}'',
      j_mutator = None, j_extensions = [''math_op_tooltip'']\<rparr>,
     \<lparr>j_type = ''math_single'', j_messages = [''%1 %2''],
      j_args = [Some [DropdownField (Some ''OP'') [(''%{BKY_MATH_SINGLE_OP_ROOT}'', ''ROOT''), (''%{BKY_MATH_SINGLE_OP_ABSOLUTE}'', ''ABS''), (''-'', ''NEG''), (''ln'', ''LN''), (''log10'', ''LOG10''), (''e^'', ''EXP''), (''10^'', ''POW10'')],
        InputValue ''NUM'' (Some [''Number''])]],
      j_output = Some (Some [''Number'']), j_previous = None, j_next = None,
      j_style = Some ''math_blocks'', j_colour = None, j_inline = False,
      j_tooltip = None,
      j_helpUrl = Some ''%{BKY_MATH_SINGLE_HELPURL}'',
      j_mutator = None, j_extensions = [''math_op_tooltip'']\<rparr>,
     \<lparr>j_type = ''math_trig'', j_messages = [''%1 %2''],
      j_args = [Some [DropdownField (Some ''OP'') [(''%{BKY_MATH_TRIG_SIN}'', ''SIN''), (''%{BKY_MATH_TRIG_COS}'', ''COS''), (''%{BKY_MATH_TRIG_TAN}'', ''TAN''), (''%{BKY_MATH_TRIG_ASIN}'', ''ASIN''), (''%{BKY_MATH_TRIG_ACOS}'', ''ACOS''), (''%{BKY_MATH_TRIG_ATAN}'', ''ATAN'')],
        InputValue ''NUM'' (Some [''Number''])]],
      j_output = Some (Some [''Number'']), j_previous = None, j_next = None,
      j_style = Some ''math_blocks'', j_colour = None, j_inline = False,
      j_tooltip = None,
      j_helpUrl = Some ''%{BKY_MATH_TRIG_HELPURL}'',
      j_mutator = None, j_extensions = [''math_op_tooltip'']\<rparr>,
     \<lparr>j_type = ''math_constant'', j_messages = [''%1''],
      j_args = [Some [DropdownField (Some ''CONSTANT'') [([CHR 0xCF, CHR 0x80], ''PI''), (''e'', ''E''), ([CHR 0xCF, CHR 0x86], ''GOLDEN_RATIO''), (''sqrt(2)'', ''SQRT2''), (''sqrt('' @ [CHR 0xC2, CHR 0xBD] @ '')'', ''SQRT1_2''), ([CHR 0xE2, CHR 0x88, CHR 0x9E], ''INFINITY'')]]],
      j_output = Some (Some [''Number'']), j_previous = None, j_next = None,
      j_style = Some ''math_blocks'', j_colour = None, j_inline = False,
      j_tooltip = Some ''%{BKY_MATH_CONSTANT_TOOLTIP}'',
      j_helpUrl = Some ''%{BKY_MATH_CONSTANT_HELPURL}'',
      j_mutator = None, j_extensions = []\<rparr>,
     \<lparr>j_type = ''math_number_property'', j_messages = [''%1 %2''],
      j_args = [Some [InputValue ''NUMBER_TO_CHECK'' (Some [''Number'']),
        DropdownField (Some ''PROPERTY'') [(''%{BKY_MATH_IS_EVEN}'', ''EVEN''), (''%{BKY_MATH_IS_ODD}'', ''ODD''), (''%{BKY_MATH_IS_PRIME}'', ''PRIME''), (''%{BKY_MATH_IS_WHOLE}'', ''WHOLE''), (''%{BKY_MATH_IS_POSITIVE}'', ''POSITIVE''), (''%{BKY_MATH_IS_NEGATIVE}'', ''NEGATIVE''), (''%{BKY_MATH_IS_DIVISIBLE_BY}'', ''DIVISIBLE_BY'')]]],
      j_output = Some (Some [''Boolean'']), j_previous = None, j_next = None,
      j_style = Some ''math_blocks'', j_colour = None, j_inline = True,
      j_tooltip = Some ''%{BKY_MATH_IS_TOOLTIP}'',
      j_helpUrl = None,
      j_mutator = Some ''math_is_divisibleby_mutator'', j_extensions = []\<rparr>,
     \<lparr>j_type = ''math_change'', j_messages = [''%{BKY_MATH_CHANGE_TITLE}''],
      j_args = [Some [OtherField ''field_variable'' (Some ''VAR''),
        InputValue ''DELTA'' (Some [''Number''])]],
      j_output = None, j_previous = Some None, j_next = Some None,
      j_style = Some ''variable_blocks'', j_colour = None, j_inline = False,
      j_tooltip = None,
      j_helpUrl = Some ''%{BKY_MATH_CHANGE_HELPURL}'',
      j_mutator = None, j_extensions = [''math_change_tooltip'']\<rparr>,
     \<lparr>j_type = ''math_round'', j_messages = [''%1 %2''],
      j_args = [Some [DropdownField (Some ''OP'') [(''%{BKY_MATH_ROUND_OPERATOR_ROUND}'', ''ROUND''), (''%{BKY_MATH_ROUND_OPERATOR_ROUNDUP}'', ''ROUNDUP''), (''%{BKY_MATH_ROUND_OPERATOR_ROUNDDOWN}'', ''ROUNDDOWN'')],
        InputValue ''NUM'' (Some [''Number''])]],
      j_output = Some (Some [''Number'']), j_previous = None, j_next = None,
      j_style = Some ''math_blocks'', j_colour = None, j_inline = False,
      j_tooltip = Some ''%{BKY_MATH_ROUND_TOOLTIP}'',
      j_helpUrl = Some ''%{BKY_MATH_ROUND_HELPURL}'',
      j_mutator = None, j_extensions = []\<rparr>,
     \<lparr>j_type = ''math_on_list'', j_messages = [''%1 %2''],
      j_args = [Some [DropdownField (Some ''OP'') [(''%{BKY_MATH_ONLIST_OPERATOR_SUM}'', ''SUM''), (''%{BKY_MATH_ONLIST_OPERATOR_MIN}'', ''MIN''), (''%{BKY_MATH_ONLIST_OPERATOR_MAX}'', ''MAX''), (''%{BKY_MATH_ONLIST_OPERATOR_AVERAGE}'', ''AVERAGE''), (''%{BKY_MATH_ONLIST_OPERATOR_MEDIAN}'', ''MEDIAN''), (''%{BKY_MATH_ONLIST_OPERATOR_MODE}'', ''MODE''), (''%{BKY_MATH_ONLIST_OPERATOR_STD_DEV}'', ''STD_DEV''), (''%{BKY_MATH_ONLIST_OPERATOR_RANDOM}'', ''RANDOM'')],
        InputValue ''LIST'' (Some [''Array''])]],
      j_output = Some (Some [''Number'']), j_previous = None, j_next = None,
      j_style = Some ''math_blocks'', j_colour = None, j_inline = False,
      j_tooltip = None,
      j_helpUrl = Some ''%{BKY_MATH_ONLIST_HELPURL}'',
      j_mutator = Some ''math_modes_of_list_mutator'', j_extensions = [''math_op_tooltip'']\<rparr>,
     \<lparr>j_type = ''math_modulo'', j_messages = [''%{BKY_MATH_MODULO_TITLE}''],
      j_args = [Some [InputValue ''DIVIDEND'' (Some [''Number'']),
        InputValue ''DIVISOR'' (Some [''Number''])]],
      j_output = Some (Some [''Number'']), j_previous = None, j_next = None,
      j_style = Some ''math_blocks'', j_colour = None, j_inline = True,
      j_tooltip = Some ''%{BKY_MATH_MODULO_TOOLTIP}'',
      j_helpUrl = Some ''%{BKY_MATH_MODULO_HELPURL}'',
      j_mutator = None, j_extensions = []\<rparr>,
     \<lparr>j_type = ''math_constrain'', j_messages = [''%{BKY_MATH_CONSTRAIN_TITLE}''],
      j_args = [Some [InputValue ''VALUE'' (Some [''Number'']),
        InputValue ''LOW'' (Some [''Number'']),
        InputValue ''HIGH'' (Some [''Number''])]],
      j_output = Some (Some [''Number'']), j_previous = None, j_next = None,
      j_style = Some ''math_blocks'', j_colour = None, j_inline = True,
      j_tooltip = Some ''%{BKY_MATH_CONSTRAIN_TOOLTIP}'',
      j_helpUrl = Some ''%{BKY_MATH_CONSTRAIN_HELPURL}'',
      j_mutator = None, j_extensions = []\<rparr>,
     \<lparr>j_type = ''math_random_int'', j_messages = [''%{BKY_MATH_RANDOM_INT_TITLE}''],
      j_args = [Some [InputValue ''FROM'' (Some [''Number'']),
        InputValue ''TO'' (Some [''Number''])]],
      j_output = Some (Some [''Number'']), j_previous = None, j_next = None,
      j_style = Some ''math_blocks'', j_colour = None, j_inline = True,
      j_tooltip = Some ''%{BKY_MATH_RANDOM_INT_TOOLTIP}'',
      j_helpUrl = Some ''%{BKY_MATH_RANDOM_INT_HELPURL}'',
      j_mutator = None, j_extensions = []\<rparr>,
     \<lparr>j_type = ''math_random_float'', j_messages = [''%{BKY_MATH_RANDOM_FLOAT_TITLE_RANDOM}''],
      j_args = [None],
      j_output = Some (Some [''Number'']), j_previous = None, j_next = None,
      j_style = Some ''math_blocks'', j_colour = None, j_inline = False,
      j_tooltip = Some ''%{BKY_MATH_RANDOM_FLOAT_TOOLTIP}'',
      j_helpUrl = Some ''%{BKY_MATH_RANDOM_FLOAT_HELPURL}'',
      j_mutator = None, j_extensions = []\<rparr>,
     \<lparr>j_type = ''math_atan2'', j_messages = [''%{BKY_MATH_ATAN2_TITLE}''],
      j_args = [Some [InputValue ''X'' (Some [''Number'']),
        InputValue ''Y'' (Some [''Number''])]],
      j_output = Some (Some [''Number'']), j_previous = None, j_next = None,
      j_style = Some ''math_blocks'', j_colour = None, j_inline = True,
      j_tooltip = Some ''%{BKY_MATH_ATAN2_TOOLTIP}'',
      j_helpUrl = Some ''%{BKY_MATH_ATAN2_HELPURL}'',
      j_mutator = None, j_extensions = []\<rparr>]\<close>

definition loops_json :: "block_json list" where
  \<open>loops_json = [
     \<lparr>j_type = ''controls_repeat_ext'', j_messages = [''%{BKY_CONTROLS_REPEAT_TITLE}'', ''%{BKY_CONTROLS_REPEAT_INPUT_DO} %1''],
      j_args = [Some [InputValue ''TIMES'' (Some [''Number''])],
       Some [InputStatement ''DO'' None]],
      j_output = None, j_previous = Some None, j_next = Some None,
      j_style = Some ''loop_blocks'', j_colour = None, j_inline = False,
      j_tooltip = Some ''%{BKY_CONTROLS_REPEAT_TOOLTIP}'',
      j_helpUrl = Some ''%{BKY_CONTROLS_REPEAT_HELPURL}'',
      j_mutator = None, j_extensions = []\<rparr>,
     \<lparr>j_type = ''controls_repeat'', j_messages = [''%{BKY_CONTROLS_REPEAT_TITLE}'', ''%{BKY_CONTROLS_REPEAT_INPUT_DO} %1''],
      j_args = [Some [OtherField ''field_number'' (Some ''TIMES'')],
       Some [InputStatement ''DO'' None]],
      j_output = None, j_previous = Some None, j_next = Some None,
      j_style = Some ''loop_blocks'', j_colour = None, j_inline = False,
      j_tooltip = Some ''%{BKY_CONTROLS_REPEAT_TOOLTIP}'',
      j_helpUrl = Some ''%{BKY_CONTROLS_REPEAT_HELPURL}'',
      j_mutator = None, j_extensions = []\<rparr>,
     \<lparr>j_type = ''controls_whileUntil'', j_messages = [''%1 %2'', ''%{BKY_CONTROLS_REPEAT_INPUT_DO} %1''],
      j_args = [Some [DropdownField (Some ''MODE'') [(''%{BKY_CONTROLS_WHILEUNTIL_OPERATOR_WHILE}'', ''WHILE''), (''%{BKY_CONTROLS_WHILEUNTIL_OPERATOR_UNTIL}'', ''UNTIL'')],
        InputValue ''BOOL'' (Some [''Boolean''])],
       Some [InputStatement ''DO'' None]],
      j_output = None, j_previous = Some None, j_next = Some None,
      j_style = Some ''loop_blocks'', j_colour = None, j_inline = False,
      j_tooltip = None,
      j_helpUrl = Some ''%{BKY_CONTROLS_WHILEUNTIL_HELPURL}'',
      j_mutator = None, j_extensions = [''controls_whileUntil_tooltip'']\<rparr>,
     \<lparr>j_type = ''controls_for'', j_messages = [''%{BKY_CONTROLS_FOR_TITLE}'', ''%{BKY_CONTROLS_REPEAT_INPUT_DO} %1''],
      j_args = [Some [OtherField ''field_variable'' (Some ''VAR''),
        InputValue ''FROM'' (Some [''Number'']),
        InputValue ''TO'' (Some [''Number'']),
        InputValue ''BY'' (Some [''Number''])],
       Some [InputStatement ''DO'' None]],
      j_output = None, j_previous = Some None, j_next = Some None,
      j_style = Some ''loop_blocks'', j_colour = None, j_inline = True,
      j_tooltip = None,
      j_helpUrl = Some ''%{BKY_CONTROLS_FOR_HELPURL}'',
      j_mutator = None, j_extensions = [''contextMenu_newGetVariableBlock'', ''controls_for_tooltip'']\<rparr>,
     \<lparr>j_type = ''controls_forEach'', j_messages = [''%{BKY_CONTROLS_FOREACH_TITLE}'', ''%{BKY_CONTROLS_REPEAT_INPUT_DO} %1''],
      j_args = [Some [OtherField ''field_variable'' (Some ''VAR''),
        InputValue ''LIST'' (Some [''Array''])],
       Some [InputStatement ''DO'' None]],
      j_output = None, j_previous = Some None, j_next = Some None,
      j_style = Some ''loop_blocks'', j_colour = None, j_inline = False,
      j_tooltip = None,
      j_helpUrl = Some ''%{BKY_CONTROLS_FOREACH_HELPURL}'',
      j_mutator = None, j_extensions = [''contextMenu_newGetVariableBlock'', ''controls_forEach_tooltip'']\<rparr>,
     \<lparr>j_type = ''controls_flow_statements'', j_messages = [''%1''],
      j_args = [Some [DropdownField (Some ''FLOW'') [(''%{BKY_CONTROLS_FLOW_STATEMENTS_OPERATOR_BREAK}'', ''BREAK''), (''%{BKY_CONTROLS_FLOW_STATEMENTS_OPERATOR_CONTINUE}'', ''CONTINUE'')]]],
      j_output = None, j_previous = Some None, j_next = None,
      j_style = Some ''loop_blocks'', j_colour = None, j_inline = False,
      j_tooltip = None,
      j_helpUrl = Some ''%{BKY_CONTROLS_FLOW_STATEMENTS_HELPURL}'',
      j_mutator = None, j_extensions = [''controls_flow_tooltip'', ''controls_flow_in_loop_check'']\<rparr>]\<close>

definition logic_json :: "block_json list" where
  \<open>logic_json = [
     \<lparr>j_type = ''logic_boolean'', j_messages = [''%1''],
      j_args = [Some [DropdownField (Some ''BOOL'') [(''%{BKY_LOGIC_BOOLEAN_TRUE}'', ''TRUE''), (''%{BKY_LOGIC_BOOLEAN_FALSE}'', ''FALSE'')]]],
      j_output = Some (Some [''Boolean'']), j_previous = None, j_next = None,
      j_style = Some ''logic_blocks'', j_colour = None, j_inline = False,
      j_tooltip = Some ''%{BKY_LOGIC_BOOLEAN_TOOLTIP}'',
      j_helpUrl = Some ''%{BKY_LOGIC_BOOLEAN_HELPURL}'',
      j_mutator = None, j_extensions = []\<rparr>,
     \<lparr>j_type = ''controls_if'', j_messages = [''%{BKY_CONTROLS_IF_MSG_IF} %1'', ''%{BKY_CONTROLS_IF_MSG_THEN} %1''],
      j_args = [Some [InputValue ''IF0'' (Some [''Boolean''])],
       Some [InputStatement ''DO0'' None]],
      j_output = None, j_previous = Some None, j_next = Some None,
      j_style = Some ''logic_blocks'', j_colour = None, j_inline = False,
      j_tooltip = None,
      j_helpUrl = Some ''%{BKY_CONTROLS_IF_HELPURL}'',
      j_mutator = Some ''controls_if_mutator'', j_extensions = [''controls_if_tooltip'']\<rparr>,
     \<lparr>j_type = ''controls_ifelse'', j_messages = [''%{BKY_CONTROLS_IF_MSG_IF} %1'', ''%{BKY_CONTROLS_IF_MSG_THEN} %1'', ''%{BKY_CONTROLS_IF_MSG_ELSE} %1''],
      j_args = [Some [InputValue ''IF0'' (Some [''Boolean''])],
       Some [InputStatement ''DO0'' None],
       Some [InputStatement ''ELSE'' None]],
      j_output = None, j_previous = Some None, j_next = Some None,
      j_style = Some ''logic_blocks'', j_colour = None, j_inline = False,
      j_tooltip = Some ''%{BKYCONTROLS_IF_TOOLTIP_2}'',
      j_helpUrl = Some ''%{BKY_CONTROLS_IF_HELPURL}'',
      j_mutator = None, j_extensions = [''controls_if_tooltip'']\<rparr>,
     \<lparr>j_type = ''logic_compare'', j_messages = [''%1 %2 %3''],
      j_args = [Some [InputValue ''A'' None,
        DropdownField (Some ''OP'') [(''='', ''EQ''), ([CHR 0xE2, CHR 0x89, CHR 0xA0], ''NEQ''), ([CHR 0xE2, CHR 0x80, CHR 0x8F] @ ''<'', ''LT''), ([CHR 0xE2, CHR 0x80, CHR 0x8F, CHR 0xE2, CHR 0x89, CHR 0xA4], ''LTE''), ([CHR 0xE2, CHR 0x80, CHR 0x8F] @ ''>'', ''GT''), ([CHR 0xE2, CHR 0x80, CHR 0x8F, CHR 0xE2, CHR 0x89, CHR 0xA5], ''GTE'')],
        InputValue ''B'' None]],
      j_output = Some (Some [''Boolean'']), j_previous = None, j_next = None,
      j_style = Some ''logic_blocks'', j_colour = None, j_inline = True,
      j_tooltip = None,
      j_helpUrl = Some ''%{BKY_LOGIC_COMPARE_HELPURL}'',
      j_mutator = None, j_extensions = [''logic_compare'', ''logic_op_tooltip'']\<rparr>,
     \<lparr>j_type = ''logic_operation'', j_messages = [''%1 %2 %3''],
      j_args = [Some [InputValue ''A'' (Some [''Boolean'']),
        DropdownField (Some ''OP'') [(''%{BKY_LOGIC_OPERATION_AND}'', ''AND''), (''%{BKY_LOGIC_OPERATION_OR}'', ''OR'')],
        InputValue ''B'' (Some [''Boolean''])]],
      j_output = Some (Some [''Boolean'']), j_previous = None, j_next = None,
      j_style = Some ''logic_blocks'', j_colour = None, j_inline = True,
      j_tooltip = None,
      j_helpUrl = Some ''%{BKY_LOGIC_OPERATION_HELPURL}'',
      j_mutator = None, j_extensions = [''logic_op_tooltip'']\<rparr>,
     \<lparr>j_type = ''logic_negate'', j_messages = [''%{BKY_LOGIC_NEGATE_TITLE}''],
      j_args = [Some [InputValue ''BOOL'' (Some [''Boolean''])]],
      j_output = Some (Some [''Boolean'']), j_previous = None, j_next = None,
      j_style = Some ''logic_blocks'', j_colour = None, j_inline = False,
      j_tooltip = Some ''%{BKY_LOGIC_NEGATE_TOOLTIP}'',
      j_helpUrl = Some ''%{BKY_LOGIC_NEGATE_HELPURL}'',
      j_mutator = None, j_extensions = []\<rparr>,
     \<lparr>j_type = ''logic_null'', j_messages = [''%{BKY_LOGIC_NULL}''],
      j_args = [None],
      j_output = Some None, j_previous = None, j_next = None,
      j_style = Some ''logic_blocks'', j_colour = None, j_inline = False,
      j_tooltip = Some ''%{BKY_LOGIC_NULL_TOOLTIP}'',
      j_helpUrl = Some ''%{BKY_LOGIC_NULL_HELPURL}'',
      j_mutator = None, j_extensions = []\<rparr>,
     \<lparr>j_type = ''logic_ternary'', j_messages = [''%{BKY_LOGIC_TERNARY_CONDITION} %1'', ''%{BKY_LOGIC_TERNARY_IF_TRUE} %1'', ''%{BKY_LOGIC_TERNARY_IF_FALSE} %1''],
      j_args = [Some [InputValue ''IF'' (Some [''Boolean''])],
       Some [InputValue ''THEN'' None],
       Some [InputValue ''ELSE'' None]],
      j_output = Some None, j_previous = None, j_next = None,
      j_style = Some ''logic_blocks'', j_colour = None, j_inline = False,
      j_tooltip = Some ''%{BKY_LOGIC_TERNARY_TOOLTIP}'',
      j_helpUrl = Some ''%{BKY_LOGIC_TERNARY_HELPURL}'',
      j_mutator = None, j_extensions = [''logic_ternary'']\<rparr>,
     \<lparr>j_type = ''controls_if_if'', j_messages = [''%{BKY_CONTROLS_IF_IF_TITLE_IF}''],
      j_args = [None],
      j_output = None, j_previous = None, j_next = Some None,
      j_style = Some ''logic_blocks'', j_colour = None, j_inline = False,
      j_tooltip = Some ''%{BKY_CONTROLS_IF_IF_TOOLTIP}'',
      j_helpUrl = None,
      j_mutator = None, j_extensions = []\<rparr>,
     \<lparr>j_type = ''controls_if_elseif'', j_messages = [''%{BKY_CONTROLS_IF_ELSEIF_TITLE_ELSEIF}''],
      j_args = [None],
      j_output = None, j_previous = Some None, j_next = Some None,
      j_style = Some ''logic_blocks'', j_colour = None, j_inline = False,
      j_tooltip = Some ''%{BKY_CONTROLS_IF_ELSEIF_TOOLTIP}'',
      j_helpUrl = None,
      j_mutator = None, j_extensions = []\<rparr>,
     \<lparr>j_type = ''controls_if_else'', j_messages = [''%{BKY_CONTROLS_IF_ELSE_TITLE_ELSE}''],
      j_args = [None],
      j_output = None, j_previous = Some None, j_next = None,
      j_style = Some ''logic_blocks'', j_colour = None, j_inline = False,
      j_tooltip = Some ''%{BKY_CONTROLS_IF_ELSE_TOOLTIP}'',
      j_helpUrl = None,
      j_mutator = None, j_extensions = []\<rparr>]\<close>

definition lists_json :: "block_json list" where
  \<open>lists_json = [
     \<lparr>j_type = ''lists_create_empty'', j_messages = [''%{BKY_LISTS_CREATE_EMPTY_TITLE}''],
      j_args = [None],
      j_output = Some (Some [''Array'']), j_previous = None, j_next = None,
      j_style = Some ''list_blocks'', j_colour = None, j_inline = False,
      j_tooltip = Some ''%{BKY_LISTS_CREATE_EMPTY_TOOLTIP}'',
      j_helpUrl = Some ''%{BKY_LISTS_CREATE_EMPTY_HELPURL}'',
      j_mutator = None, j_extensions = []\<rparr>,
     \<lparr>j_type = ''lists_repeat'', j_messages = [''%{BKY_LISTS_REPEAT_TITLE}''],
      j_args = [Some [InputValue ''ITEM'' None,
        InputValue ''NUM'' (Some [''Number''])]],
      j_output = Some (Some [''Array'']), j_previous = None, j_next = None,
      j_style = Some ''list_blocks'', j_colour = None, j_inline = False,
      j_tooltip = Some ''%{BKY_LISTS_REPEAT_TOOLTIP}'',
      j_helpUrl = Some ''%{BKY_LISTS_REPEAT_HELPURL}'',
      j_mutator = None, j_extensions = []\<rparr>,
     \<lparr>j_type = ''lists_reverse'', j_messages = [''%{BKY_LISTS_REVERSE_MESSAGE0}''],
      j_args = [Some [InputValue ''LIST'' (Some [''Array''])]],
      j_output = Some (Some [''Array'']), j_previous = None, j_next = None,
      j_style = Some ''list_blocks'', j_colour = None, j_inline = True,
      j_tooltip = Some ''%{BKY_LISTS_REVERSE_TOOLTIP}'',
      j_helpUrl = Some ''%{BKY_LISTS_REVERSE_HELPURL}'',
      j_mutator = None, j_extensions = []\<rparr>,
     \<lparr>j_type = ''lists_isEmpty'', j_messages = [''%{BKY_LISTS_ISEMPTY_TITLE}''],
      j_args = [Some [InputValue ''VALUE'' (Some [''String'', ''Array''])]],
      j_output = Some (Some [''Boolean'']), j_previous = None, j_next = None,
      j_style = Some ''list_blocks'', j_colour = None, j_inline = False,
      j_tooltip = Some ''%{BKY_LISTS_ISEMPTY_TOOLTIP}'',
      j_helpUrl = Some ''%{BKY_LISTS_ISEMPTY_HELPURL}'',
      j_mutator = None, j_extensions = []\<rparr>,
     \<lparr>j_type = ''lists_length'', j_messages = [''%{BKY_LISTS_LENGTH_TITLE}''],
      j_args = [Some [InputValue ''VALUE'' (Some [''String'', ''Array''])]],
      j_output = Some (Some [''Number'']), j_previous = None, j_next = None,
      j_style = Some ''list_blocks'', j_colour = None, j_inline = False,
      j_tooltip = Some ''%{BKY_LISTS_LENGTH_TOOLTIP}'',
      j_helpUrl = Some ''%{BKY_LISTS_LENGTH_HELPURL}'',
      j_mutator = None, j_extensions = []\<rparr>]\<close>

definition colour_json :: "block_json list" where
  \<open>colour_json = [
     \<lparr>j_type = ''colour_picker'', j_messages = [''%1''],
      j_args = [Some [OtherField ''field_colour'' (Some ''COLOUR'')]],
      j_output = Some (Some [''Colour'']), j_previous = None, j_next = None,
      j_style = Some ''colour_blocks'', j_colour = None, j_inline = False,
      j_tooltip = Some ''%{BKY_COLOUR_PICKER_TOOLTIP}'',
      j_helpUrl = Some ''%{BKY_COLOUR_PICKER_HELPURL}'',
      j_mutator = None, j_extensions = [''parent_tooltip_when_inline'']\<rparr>,
     \<lparr>j_type = ''colour_random'', j_messages = [''%{BKY_COLOUR_RANDOM_TITLE}''],
      j_args = [None],
      j_output = Some (Some [''Colour'']), j_previous = None, j_next = None,
      j_style = Some ''colour_blocks'', j_colour = None, j_inline = False,
      j_tooltip = Some ''%{BKY_COLOUR_RANDOM_TOOLTIP}'',
      j_helpUrl = Some ''%{BKY_COLOUR_RANDOM_HELPURL}'',
      j_mutator = None, j_extensions = []\<rparr>,
     \<lparr>j_type = ''colour_rgb'', j_messages = [''%{BKY_COLOUR_RGB_TITLE} %{BKY_COLOUR_RGB_RED} %1 %{BKY_COLOUR_RGB_GREEN} %2 %{BKY_COLOUR_RGB_BLUE} %3''],
      j_args = [Some [InputValue ''RED'' (Some [''Number'']),
        InputValue ''GREEN'' (Some [''Number'']),
        InputValue ''BLUE'' (Some [''Number''])]],
      j_output = Some (Some [''Colour'']), j_previous = None, j_next = None,
      j_style = Some ''colour_blocks'', j_colour = None, j_inline = False,
      j_tooltip = Some ''%{BKY_COLOUR_RGB_TOOLTIP}'',
      j_helpUrl = Some ''%{BKY_COLOUR_RGB_HELPURL}'',
      j_mutator = None, j_extensions = []\<rparr>,
     \<lparr>j_type = ''colour_blend'', j_messages = [''%{BKY_COLOUR_BLEND_TITLE} %{BKY_COLOUR_BLEND_COLOUR1} %1 %{BKY_COLOUR_BLEND_COLOUR2} %2 %{BKY_COLOUR_BLEND_RATIO} %3''],
      j_args = [Some [InputValue ''COLOUR1'' (Some [''Colour'']),
        InputValue ''COLOUR2'' (Some [''Colour'']),
        InputValue ''RATIO'' (Some [''Number''])]],
      j_output = Some (Some [''Colour'']), j_previous = None, j_next = None,
      j_style = Some ''colour_blocks'', j_colour = None, j_inline = False,
      j_tooltip = Some ''%{BKY_COLOUR_BLEND_TOOLTIP}'',
      j_helpUrl = Some ''%{BKY_COLOUR_BLEND_HELPURL}'',
      j_mutator = None, j_extensions = []\<rparr>]\<close>


definition json_blocks :: "block_json list" where
  "json_blocks = variables_dynamic_json @ variables_json @ text_json @ math_json @ loops_json @ logic_json @
     lists_json @ colour_json"

section \<open>Every definition builds its block\<close>

definition label_ok :: "json_arg \<Rightarrow> bool" where
  \<comment> \<open>no reference of a label or of the labels of a dropdown is left over\<close>
  "label_ok a =
     (case a of
        LabelField s \<Rightarrow> CHR ''{'' \<notin> set s
      | DropdownField n opts \<Rightarrow> list_all (\<lambda>(l, v). CHR ''{'' \<notin> set (expand en_Msg l)) opts
      | _ \<Rightarrow> True)"

definition json_ok :: "nat \<Rightarrow> block_json \<Rightarrow> bool" where
  "json_ok n d =
     (case jsonInit (n + 2) en_Msg allExtensions d of
        Inl e \<Rightarrow> False
      | Inr b \<Rightarrow>
          list_all (\<lambda>(i, fs). list_all label_ok fs) (b_inputs b) \<and> CHR ''{'' \<notin> set (b_helpUrl b) \<and>
          (CHR ''{'' \<in> set (b_tooltip b) \<longleftrightarrow> j_type d = ''controls_ifelse''))"

lemma en_fuel: "tokenizeInternal (n + 2) en_Msg b c s = tokenizeInternal 2 en_Msg b c s"
  using en_returns [of b c s] tokenize_fuel [of 2 en_Msg b c s _ n] by (metis)

lemma pieces_plain: "CHR ''%'' \<notin> set s \<Longrightarrow> pieces b s = map (\<lambda>x. Lit [x]) s"
  by (induction b s rule: pieces.induct) auto

lemma no_brace_piece: "CHR ''{'' \<notin> set s \<Longrightarrow> Lit t \<in> set (pieces b s) \<Longrightarrow> CHR ''{'' \<notin> set t"
proof (induction b s rule: pieces.induct)
  case (3 b x y s)
  then show ?case by (auto split: if_splits dest: set_dropWhileD)
qed auto

lemma no_brace_text: "CHR ''{'' \<notin> set s \<Longrightarrow> CHR ''{'' \<notin> set (literal_text (pieces b s))"
  by (auto simp: literal_text_def dest: no_brace_piece no_brace_no_ref split: piece.splits)

lemma expand_ref:
  assumes "CHR ''}'' \<notin> set name"
  shows "expand msgs (CHR ''%'' # CHR ''{'' # name @ ''}'') =
    (case ref_key msgs name of None \<Rightarrow> unresolved name | Some k \<Rightarrow> literal_text (pieces False (the (msgs k))))"
proof -
  have "takeWhile (\<lambda>z. z \<noteq> CHR ''}'') (name @ ''}'') = name" "dropWhile (\<lambda>z. z \<noteq> CHR ''}'') (name @ ''}'') = ''}''"
    using assms by (auto simp: takeWhile_append dropWhile_append)
  then show ?thesis by (simp add: expand_def)
qed

lemma resolved_no_brace:
  assumes "ref_key en_Msg name = Some k" and "CHR ''}'' \<notin> set name"
  shows "CHR ''{'' \<notin> set (expand en_Msg (CHR ''%'' # CHR ''{'' # name @ ''}''))"
proof -
  obtain v where v: "en_Msg k = Some v" using assms(1) by (auto simp: ref_key_def Let_def split: if_splits)
  have "CHR ''{'' \<notin> set v"
    using en_Msg_range [OF v] en_messages_no_brace en_hues_no_brace by (force simp: list_all_iff)
  with assms v no_brace_text show ?thesis by (simp add: expand_ref)
qed

definition whole_ref :: "string \<Rightarrow> string option" where
  \<comment> \<open>a text that is one reference\<close>
  "whole_ref s =
     (if take 2 s = ''%{'' \<and> drop 2 s \<noteq> [] \<and> last s = CHR ''}'' \<and> CHR ''}'' \<notin> set (butlast s)
      then Some (butlast (drop 2 s)) else None)"

definition text_ok :: "string \<Rightarrow> bool" where
  "text_ok s \<longleftrightarrow>
     (case whole_ref s of Some name \<Rightarrow> ref_key en_Msg name \<noteq> None | None \<Rightarrow> CHR ''{'' \<notin> set s)"

lemma text_ok_resolved: "text_ok s \<Longrightarrow> CHR ''{'' \<notin> set (expand en_Msg s)"
proof (cases "whole_ref s")
  case None
  moreover assume "text_ok s"
  ultimately have s: "CHR ''{'' \<notin> set s" by (simp add: text_ok_def)
  then show ?thesis
    by (auto simp: expand_def dest: no_brace_piece no_brace_no_ref split: piece.splits)
next
  case (Some name)
  moreover assume "text_ok s"
  ultimately obtain k where k: "ref_key en_Msg name = Some k" by (auto simp: text_ok_def)
  from Some have s: "take 2 s = ''%{''" "drop 2 s \<noteq> []" "last s = CHR ''}''" "CHR ''}'' \<notin> set (butlast s)"
    and name: "name = butlast (drop 2 s)" by (auto simp: whole_ref_def split: if_splits)
  have "last (drop 2 s) = last s" using s(2) by (simp add: last_drop)
  then have "drop 2 s = name @ ''}''" using append_butlast_last_id [OF s(2)] s(3) name by simp
  then have "s = CHR ''%'' # CHR ''{'' # name @ ''}''"
    using s(1) append_take_drop_id [of 2 s] by simp
  moreover have "CHR ''}'' \<notin> set name" using s(4) calculation by (simp add: butlast_append)
  ultimately show ?thesis using resolved_no_brace [OF k] by simp
qed

lemma en_replaced: "replaceMessageReferences (Suc (Suc n)) en_Msg s = Some (expand en_Msg s)"
  using en.replace_expand [of n s] by simp

lemmas token_eval = tokenizeInternal_pieces resolve_def ref_key_def is_letter_simps upper_simps unresolved_def
  brace_no_digit is_digit_def read_nat_def digit_val_def flush_def pieces_plain

lemmas json_eval = json_ok_def jsonInit_def truthy_check_def interpolate_def overflow_def tokenizeInterpolation_def
  replaced_def en_replaced interpolateArguments_def stringToFieldJson_def js_trim_def is_white_def label_ok_def
  text_ok_resolved text_ok_def whole_ref_def row_fields_def apply_extension_def allExtensions_def plain_ext_def
  quote_image_members_def mixin_def getMutatorProperties_def checkHasMutatorProperties_def

declare msg_lookups [simp]

lemma ifelse_tooltip: "expand en_Msg ''%{BKYCONTROLS_IF_TOOLTIP_2}'' = ''%{BKYCONTROLS_IF_TOOLTIP_2}''"
  by (simp add: expand_def token_eval)

lemma variables_dynamic_ok: "list_all (json_ok n) variables_dynamic_json"
  unfolding variables_dynamic_json_def list.pred_inject
  by (intro conjI TrueI; simp add: json_eval token_eval)

lemma variables_ok: "list_all (json_ok n) variables_json"
  unfolding variables_json_def list.pred_inject
  by (intro conjI TrueI; simp add: json_eval token_eval)

lemma text_ok: "list_all (json_ok n) text_json"
  unfolding text_json_def list.pred_inject
  by (intro conjI TrueI; simp add: json_eval token_eval)

lemma math_ok: "list_all (json_ok n) math_json"
  unfolding math_json_def list.pred_inject
  by (intro conjI TrueI; simp add: json_eval token_eval)

lemma loops_ok: "list_all (json_ok n) loops_json"
  unfolding loops_json_def list.pred_inject
  by (intro conjI TrueI; simp add: json_eval token_eval)

lemma logic_ok: "list_all (json_ok n) logic_json"
  unfolding logic_json_def list.pred_inject
  by (intro conjI TrueI; simp add: json_eval token_eval ifelse_tooltip)

lemma lists_ok: "list_all (json_ok n) lists_json"
  unfolding lists_json_def list.pred_inject
  by (intro conjI TrueI; simp add: json_eval token_eval)

lemma colour_ok: "list_all (json_ok n) colour_json"
  unfolding colour_json_def list.pred_inject
  by (intro conjI TrueI; simp add: json_eval token_eval)

section \<open>Messages and their arguments\<close>

definition token_numbers :: "token list \<Rightarrow> nat list" where
  "token_numbers ts = concat (map (\<lambda>t. case t of TNum k \<Rightarrow> [k] | TStr s \<Rightarrow> []) ts)"

lemma token_numbers_simps [simp]:
  "token_numbers [] = []" "token_numbers (TNum k # ts) = k # token_numbers ts"
  "token_numbers (TStr s # ts) = token_numbers ts"
  by (simp_all add: token_numbers_def)

lemma validateTokens_iff:
  "validateTokens ty n seen ts = Inr () \<longleftrightarrow>
   distinct (token_numbers ts) \<and> set (token_numbers ts) \<subseteq> {1..n} - set seen \<and>
   length seen + length (token_numbers ts) = n"
  by (induction ty n seen ts rule: validateTokens.induct) auto

lemma each_argument_once:
  "validateTokens ty n [] ts = Inr () \<longleftrightarrow> mset (token_numbers ts) = mset [1..<Suc n]"
proof
  let ?ks = "token_numbers ts"
  assume "validateTokens ty n [] ts = Inr ()"
  then have d: "distinct ?ks" and s: "set ?ks \<subseteq> {1..n}" and l: "length ?ks = n" by (simp_all add: validateTokens_iff)
  have "set ?ks = {1..n}" using s by (rule card_subset_eq [rotated]) (simp_all add: distinct_card [OF d] l)
  then have "set ?ks = set [1..<Suc n]" by (simp only: set_upt atLeastLessThanSuc_atLeastAtMost)
  with d show "mset ?ks = mset [1..<Suc n]" using set_eq_iff_mset_eq_distinct distinct_upt by blast
next
  assume m: "mset (token_numbers ts) = mset [1..<Suc n]"
  have "distinct (token_numbers ts)" using mset_eq_imp_distinct_iff [OF m] by simp
  moreover have "set (token_numbers ts) = set [1..<Suc n]" using mset_eq_setD [OF m] .
  moreover have "length (token_numbers ts) = n" using mset_eq_length [OF m] by simp
  ultimately show "validateTokens ty n [] ts = Inr ()" unfolding validateTokens_iff by auto
qed

lemma input_rows_flat:
  "es = [] \<or> isInputKeyword (last es) \<Longrightarrow>
   concat (map (\<lambda>(i, fs). fs @ [i]) (input_rows fs es)) = (if es = [] then [] else fs @ es)"
  by (induction fs es rule: input_rows.induct) (auto split: if_splits)

lemma interpolated_flat:
  "concat (map (\<lambda>(i, fs). fs @ [i]) (input_rows [] (interpolateArguments ts args))) = interpolateArguments ts args"
  by (subst input_rows_flat) (auto simp: interpolateArguments_def Let_def)

lemma numbers_in_elements:
  "mset (map (\<lambda>k. args ! (k - 1)) (token_numbers ts)) \<subseteq># mset (concat (map (token_element args) ts))"
proof (induction ts)
  case (Cons t ts)
  have "mset (map (\<lambda>k. args ! (k - 1)) (token_numbers ts)) \<subseteq># mset xs + mset (concat (map (token_element args) ts))" for xs
    by (rule subset_mset.add_increasing [OF subset_mset.zero_le Cons.IH])
  from this [of "token_element args t"] Cons.IH show ?case by (cases t) simp_all
qed simp

lemma arguments_kept:
  assumes "mset (token_numbers ts) = mset [1..<Suc (length args)]"
  shows "mset args \<subseteq># mset (interpolateArguments ts args)"
proof -
  have "map (\<lambda>k. args ! (k - 1)) [1..<Suc (length args)] = args"
    by (rule nth_equalityI) (simp_all del: upt_Suc)
  then have "mset args = image_mset (\<lambda>k. args ! (k - 1)) (mset [1..<Suc (length args)])"
    by (metis mset_map)
  also have "\<dots> = mset (map (\<lambda>k. args ! (k - 1)) (token_numbers ts))" using assms by (simp only: mset_map)
  also have "\<dots> \<subseteq># mset (concat (map (token_element args) ts))" by (rule numbers_in_elements)
  also have "\<dots> \<subseteq># mset (interpolateArguments ts args)" by (simp add: interpolateArguments_def Let_def)
  finally show ?thesis .
qed

lemma unknown_extension:
  assumes "map_of exts x = None" and "j_mutator d = Some x \<or> x \<in> set (j_extensions d)"
  shows "\<exists>e. jsonInit n msgs exts d = Inl e"
proof -
  have fail: "\<exists>e. apply_extensions exts fnames xs members = Inl e" if "x \<in> set xs" for fnames xs members
    using that assms(1)
    by (induction xs arbitrary: members) (auto simp: apply_extension_def bind_result_def split: sum.split)
  show ?thesis
  proof (cases "jsonInit n msgs exts d")
    case (Inr b)
    then obtain rows members members' where
      "(case j_mutator d of None \<Rightarrow> Inr [] | Some m \<Rightarrow> apply_extension exts (row_fields rows) m True []) = Inr members"
      and "apply_extensions exts (row_fields rows) (j_extensions d) members = Inr members'"
      by (auto simp: jsonInit_def bind_result_Inr_iff split: if_splits)
    with assms fail [of "j_extensions d" "row_fields rows" members] show ?thesis
      by (auto simp: apply_extension_def)
  qed simp
qed


text \<open>
  The witness: \<open>controls_repeat_ext\<close> has the message \<open>repeat %1 times\<close> and one argument; a definition with a
  misspelt extension is refused.
\<close>

definition misspelt :: block_json where
  "misspelt = \<lparr>j_type = ''t'', j_messages = [], j_args = [], j_output = None, j_previous = None, j_next = None,
     j_style = None, j_colour = None, j_inline = False, j_tooltip = None, j_helpUrl = None, j_mutator = None,
     j_extensions = [''text_qoutes'']\<rparr>"


section \<open>The shapes of the blocks of the rules editor\<close>

fun input_shape :: "json_arg \<Rightarrow> (string \<times> input_type \<times> check) list" where
  "input_shape (InputValue n c) = [(n, VALUE, c)]"
| "input_shape (InputStatement n c) = [(n, STATEMENT, c)]"
| "input_shape a = []"

fun field_shape :: "json_arg \<Rightarrow> (string \<times> field_class \<times> fval) list" where
  "field_shape (DropdownField (Some n) opts) = [(n, FieldDropdown (map snd opts), FText (snd (hd opts)))]"
| "field_shape (InputField (Some n) s) = [(n, FieldTextInput, FText s)]"
| "field_shape a = []"

definition shape_of :: "built_block \<Rightarrow> shape" where
  "shape_of b =
     \<lparr>sh_output = b_output b, sh_previous = b_previous b, sh_next = b_next b,
      sh_inputs = concat (map (\<lambda>(i, fs). input_shape i) (b_inputs b)),
      sh_fields = concat (map (\<lambda>(i, fs). concat (map field_shape fs)) (b_inputs b))\<rparr>"

definition toolbox_builtin :: "string list" where
  \<comment> \<open>the categories Logic and Text of the toolbox\<close>
  "toolbox_builtin = [''controls_if'', ''logic_compare'', ''logic_operation'', ''logic_negate'', ''text'']"

definition in_toolbox :: "block_json \<Rightarrow> bool" where
  "in_toolbox d \<longleftrightarrow> j_type d \<in> set toolbox_builtin"

definition shape_agrees :: "nat \<Rightarrow> block_json \<Rightarrow> bool" where
  \<comment> \<open>the shape that the theories of the rules editor use is the shape of the block that \<open>jsonInit\<close> builds\<close>
  "shape_agrees n d =
     (case jsonInit (n + 2) en_Msg allExtensions d of
        Inl e \<Rightarrow> False
      | Inr b \<Rightarrow> rules_shapes (j_type d) (map fst (sh_inputs (shape_of b))) = Some (shape_of b))"

lemmas toolbox_eval = in_toolbox_def toolbox_builtin_def

lemma no_toolbox_blocks:
  "filter in_toolbox variables_dynamic_json = []" "filter in_toolbox variables_json = []"
  "filter in_toolbox math_json = []" "filter in_toolbox loops_json = []" "filter in_toolbox lists_json = []"
  "filter in_toolbox colour_json = []"
  by (simp_all add: toolbox_eval variables_dynamic_json_def variables_json_def math_json_def loops_json_def
      lists_json_def colour_json_def)

lemma text_toolbox: "list_all (shape_agrees n) (filter in_toolbox text_json) \<and>
    map j_type (filter in_toolbox text_json) = [''text'']"
  by (simp add: text_json_def toolbox_eval shape_agrees_def json_eval token_eval shape_of_def rules_shapes_def text_shape_def
      empty_shape_def)

lemma if_names_0: "IFn 0 = ''IF0''" "DOn 0 = ''DO0''"
  by (simp_all add: IFn_def DOn_def show_nat.simps digit_simps)

lemma logic_toolbox: "list_all (shape_agrees n) (filter in_toolbox logic_json) \<and>
    map j_type (filter in_toolbox logic_json) = [''controls_if'', ''logic_compare'', ''logic_operation'', ''logic_negate'']"
  by (simp add: logic_json_def toolbox_eval) (simp add: shape_agrees_def json_eval token_eval shape_of_def
      rules_shapes_def empty_shape_def controls_if_shape_def controls_if_names_def logic_compare_shape_def
      logic_operation_shape_def logic_negate_shape_def if_names_0 if_input_def)

text \<open>
  The built-in blocks of the editor's toolbox are defined in JSON, and the connections, type checks and fields
  that \<open>jsonInit\<close> gives each of them from its definition and the English messages are exactly the
  shape under which the rules editor's workspaces are type-checked, loaded and turned into Lua in this
  development.
\<close>

lemma toolbox_shapes_from_json:
  "list_all (shape_agrees n) (filter in_toolbox json_blocks) \<and>
   mset (map j_type (filter in_toolbox json_blocks)) = mset toolbox_builtin"
  using text_toolbox logic_toolbox by (simp add: json_blocks_def no_toolbox_blocks toolbox_builtin_def)

end
