(* ===== verification/Names_Db.thy ===== *)
theory Names_Db
  imports Msg_En
begin

text \<open>
  The names of a generated program (\<open>Names\<close> and \<open>provideFunction_\<close> of
  \<open>blockly_compressed.js\<close>, the reserved words and \<open>init\<close> of \<open>lua_compressed.js\<close>): the
  database that gives each variable, procedure and helper function a name, with the loop that
  numbers a name until it is free. User names are compared without regard to the case of ASCII letters.
  The characters of a name are the bytes of its UTF-8 encoding, which are what \<open>encodeURI\<close> writes
  as escapes. \<open>variableMap\<close> gives the user's name of a variable's id.
\<close>

section \<open>Safe names\<close>

definition is_word :: "char \<Rightarrow> bool" where
  "is_word c \<longleftrightarrow>
     (let n = (of_char c :: nat) in 48 \<le> n \<and> n \<le> 57 \<or> 65 \<le> n \<and> n \<le> 90 \<or> 97 \<le> n \<and> n \<le> 122 \<or> n = 95)"

definition uri_unescaped :: "char \<Rightarrow> bool" where
  "uri_unescaped c \<longleftrightarrow> is_word c \<or> c \<in> set '';,/?:@&=+$-.!~*()#'' \<or> c = CHR 0x27"

definition upper_hex :: "nat \<Rightarrow> char" where
  "upper_hex n = (if n < 10 then char_of (48 + n) else char_of (55 + n))"

definition encodeURI :: "string \<Rightarrow> string" where
  "encodeURI s =
     concat (map (\<lambda>c. if uri_unescaped c then [c]
       else [CHR ''%'', upper_hex (of_char c div 16), upper_hex (of_char c mod 16)]) s)"

definition safeName :: "msgs \<Rightarrow> string \<Rightarrow> string" where
  "safeName msgs a =
     (if a \<noteq> [] then
        (let a = map (\<lambda>c. if is_word c then c else CHR ''_'') (encodeURI (replace_char CHR '' '' ''_'' a))
         in if is_digit (hd a) then ''my_'' @ a else a)
      else (case msgs ''UNNAMED_KEY'' of
              None \<Rightarrow> ''unnamed''
            | Some m \<Rightarrow> if m = [] then ''unnamed'' else m))"

section \<open>The database\<close>

datatype name_type = DEVELOPER_VARIABLE | VARIABLE_NAME | PROCEDURE

record names_db =
  db :: "name_type \<Rightarrow> string \<rightharpoonup> string"
  dbReverse :: "string list"
  variableMap :: "string \<rightharpoonup> string"
  variablePrefix :: string
  reservedWords :: "string list"

definition new_Names :: "string list \<Rightarrow> names_db" where
  "new_Names words =
     \<lparr>db = (\<lambda>t k. None), dbReverse = [], variableMap = Map.empty, variablePrefix = '''', reservedWords = words\<rparr>"

definition reset :: "names_db \<Rightarrow> names_db" where
  "reset s = s\<lparr>db := (\<lambda>t k. None), dbReverse := [], variableMap := Map.empty\<rparr>"

lemma finite_suffixes: "finite {k. c \<le> k \<and> a @ show_nat k \<in> set used}"
proof -
  have "(\<lambda>k. a @ show_nat k) ` {k. c \<le> k \<and> a @ show_nat k \<in> set used} \<subseteq> set used" by auto
  then have "finite ((\<lambda>k. a @ show_nat k) ` {k. c \<le> k \<and> a @ show_nat k \<in> set used})"
    by (rule finite_subset) simp
  then show ?thesis by (rule finite_imageD) (auto simp: inj_on_def)
qed

function next_suffix :: "string list \<Rightarrow> string \<Rightarrow> nat \<Rightarrow> nat" where
  \<comment> \<open>the loop of \<open>getDistinctName\<close>, from the second round on\<close>
  "next_suffix used a c = (if a @ show_nat c \<in> set used then next_suffix used a (c + 1) else c)"
  by pat_completeness auto

termination
proof (relation "measure (\<lambda>(used, a, c). card {k. c \<le> k \<and> a @ show_nat k \<in> set used})")
  fix used a and c :: nat
  assume "a @ show_nat c \<in> set used"
  then have "c \<in> {k. c \<le> k \<and> a @ show_nat k \<in> set used}" by simp
  moreover have "c \<notin> {k. c + 1 \<le> k \<and> a @ show_nat k \<in> set used}" by simp
  moreover have "{k. c + 1 \<le> k \<and> a @ show_nat k \<in> set used} \<subseteq> {k. c \<le> k \<and> a @ show_nat k \<in> set used}" by auto
  ultimately have "{k. c + 1 \<le> k \<and> a @ show_nat k \<in> set used} \<subset> {k. c \<le> k \<and> a @ show_nat k \<in> set used}"
    by blast
  then show "((used, a, c + 1), (used, a, c)) \<in> measure (\<lambda>(used, a, c). card {k. c \<le> k \<and> a @ show_nat k \<in> set used})"
    using psubset_card_mono [OF finite_suffixes] by auto
qed simp

declare next_suffix.simps [simp del]

definition name_prefix :: "name_type \<Rightarrow> names_db \<Rightarrow> string" where
  "name_prefix t s = (if t = PROCEDURE then '''' else variablePrefix s)"

definition getDistinctName :: "msgs \<Rightarrow> string \<Rightarrow> name_type \<Rightarrow> names_db \<Rightarrow> string \<times> names_db" where
  "getDistinctName msgs a t s =
     (let a = safeName msgs a;
          used = dbReverse s @ reservedWords s;
          a = (if a \<in> set used then a @ show_nat (next_suffix used a 2) else a)
      in (name_prefix t s @ a, s\<lparr>dbReverse := a # dbReverse s\<rparr>))"

definition lower :: "char \<Rightarrow> char" where
  \<comment> \<open>\<open>toLowerCase\<close>, on ASCII letters: names that differ only in the case of another letter are the same key in
    the source and two keys here\<close>
  "lower x = (let n = (of_char x :: nat) in if 65 \<le> n \<and> n \<le> 90 then char_of (n + 32) else x)"

definition user_name :: "names_db \<Rightarrow> string \<Rightarrow> name_type \<Rightarrow> string" where
  "user_name s a t =
     (if t = VARIABLE_NAME then (case variableMap s a of Some n \<Rightarrow> if n = [] then a else n | None \<Rightarrow> a) else a)"

definition getName :: "msgs \<Rightarrow> string \<Rightarrow> name_type \<Rightarrow> names_db \<Rightarrow> string \<times> names_db" where
  "getName msgs a t s =
     (let c = user_name s a t; k = map lower c; d = name_prefix t s
      in case db s t k of
           Some n \<Rightarrow> (d @ n, s)
         | None \<Rightarrow>
             (let (b, s) = getDistinctName msgs c t s
              in (b, s\<lparr>db := (db s)(t := (db s t)(k \<mapsto> drop (length d) b))\<rparr>)))"

section \<open>Helper functions and the Lua generator\<close>

definition PLACEHOLDER :: string where
  "PLACEHOLDER = ''{leCUI8hutHZI4480Dc}''"

function replace_all :: "string \<Rightarrow> string \<Rightarrow> string \<Rightarrow> string" where
  "replace_all p r s =
     (if s = [] \<or> p = [] then s
      else if prefix p s then r @ replace_all p r (drop (length p) s) else hd s # replace_all p r (tl s))"
  by pat_completeness auto

termination
  by (relation "measure (\<lambda>(p, r, s). length s)") auto

declare replace_all.simps [simp del]

record lua_names =
  nameDB :: names_db
  definitions :: "(string \<times> string) list"  \<comment> \<open>newest first\<close>
  functionNames :: "string \<rightharpoonup> string"

definition provideFunction :: "msgs \<Rightarrow> string \<Rightarrow> string \<Rightarrow> lua_names \<Rightarrow> string \<times> lua_names" where
  \<comment> \<open>\<open>code\<close> is never empty; replacing two spaces of indentation by \<open>INDENT\<close>, two spaces, keeps the text\<close>
  "provideFunction msgs a code g =
     (case map_of (definitions g) a of
        Some _ \<Rightarrow> (the (functionNames g a), g)
      | None \<Rightarrow>
          (let (c, s) = getDistinctName msgs a PROCEDURE (nameDB g)
           in (c, g\<lparr>nameDB := s, functionNames := (functionNames g)(a \<mapsto> c),
                   definitions := (a, replace_all PLACEHOLDER c (js_trim code)) # definitions g\<rparr>)))"

definition define_procedure :: "string \<Rightarrow> string \<Rightarrow> lua_names \<Rightarrow> lua_names" where
  \<comment> \<open>\<open>definitions_["%" + c] = d\<close>: a key that is there keeps its place\<close>
  "define_procedure c d g =
     (let k = CHR ''%'' # c
      in g\<lparr>definitions :=
           (if k \<in> fst ` set (definitions g) then map (\<lambda>(n, x). (n, if n = k then d else x)) (definitions g)
            else (k, d) # definitions g)\<rparr>)"

definition RESERVED_WORDS :: "string list" where
  "RESERVED_WORDS =
    [''_'', ''__inext'', ''assert'', ''bit'', ''colors'', ''colours'', ''coroutine'', ''disk'', ''dofile'',
     ''error'', ''fs'', ''fetfenv'', ''getmetatable'', ''gps'', ''help'', ''io'', ''ipairs'', ''keys'',
     ''loadfile'', ''loadstring'', ''math'', ''native'', ''next'', ''os'', ''paintutils'', ''pairs'',
     ''parallel'', ''pcall'', ''peripheral'', ''print'', ''printError'', ''rawequal'', ''rawget'', ''rawset'',
     ''read'', ''rednet'', ''redstone'', ''rs'', ''select'', ''setfenv'', ''setmetatable'', ''sleep'',
     ''string'', ''table'', ''term'', ''textutils'', ''tonumber'', ''tostring'', ''turtle'', ''type'',
     ''unpack'', ''vector'', ''write'', ''xpcall'', ''_VERSION'', ''__indext'', ''HTTP'', ''and'', ''break'',
     ''do'', ''else'', ''elseif'', ''end'', ''false'', ''for'', ''function'', ''if'', ''in'', ''local'',
     ''nil'', ''not'', ''or'', ''repeat'', ''return'', ''then'', ''true'', ''until'', ''while'', ''add'',
     ''sub'', ''mul'', ''div'', ''mod'', ''pow'', ''unm'', ''concat'', ''len'', ''eq'', ''lt'', ''le'',
     ''index'', ''newindex'', ''call'', ''assert'', ''collectgarbage'', ''dofile'', ''error'', ''_G'',
     ''getmetatable'', ''inpairs'', ''load'', ''loadfile'', ''next'', ''pairs'', ''pcall'', ''print'',
     ''rawequal'', ''rawget'', ''rawlen'', ''rawset'', ''select'', ''setmetatable'', ''tonumber'',
     ''tostring'', ''type'', ''_VERSION'', ''xpcall'', ''require'', ''package'', ''string'', ''table'',
     ''math'', ''bit32'', ''io'', ''file'', ''os'', ''debug'', '''']"

definition populate :: "msgs \<Rightarrow> name_type \<Rightarrow> string list \<Rightarrow> names_db \<Rightarrow> names_db" where
  \<comment> \<open>\<open>populateVariables\<close> and \<open>populateProcedures\<close>, on the ids of the used variables and the
    names of the procedures of the workspace\<close>
  "populate msgs t as s = fold (\<lambda>a s. snd (getName msgs a t s)) as s"

definition lua_init :: "msgs \<Rightarrow> (string \<rightharpoonup> string) \<Rightarrow> string list \<Rightarrow> string list \<Rightarrow> names_db \<Rightarrow> lua_names" where
  "lua_init msgs vars ids procs s =
     (let s = (reset s)\<lparr>variableMap := vars\<rparr>;
          s = populate msgs VARIABLE_NAME ids s;
          s = populate msgs PROCEDURE procs s
      in \<lparr>nameDB = s, definitions = [], functionNames = Map.empty\<rparr>)"

section \<open>Names are identifiers\<close>

definition lua_identifier :: "string \<Rightarrow> bool" where
  "lua_identifier n \<longleftrightarrow> n \<noteq> [] \<and> list_all is_word n \<and> \<not> is_digit (hd n)"

lemma is_digit_word: "is_digit c \<Longrightarrow> is_word c"
  by (simp add: is_digit_def is_word_def)

lemma lua_identifier_suffix: "lua_identifier n \<Longrightarrow> lua_identifier (n @ show_nat k)"
  using show_nat_digits [of k] by (auto simp: lua_identifier_def list_all_iff intro: is_digit_word)

lemma encodeURI_not_Nil: "a \<noteq> [] \<Longrightarrow> encodeURI (replace_char CHR '' '' ''_'' a) \<noteq> []"
proof -
  assume "a \<noteq> []"
  then have "replace_char CHR '' '' ''_'' a \<noteq> []" by (cases a) simp_all
  then obtain c cs where "replace_char CHR '' '' ''_'' a = c # cs" by (meson neq_Nil_conv)
  then show ?thesis by (simp only: encodeURI_def list.map concat.simps) (simp split: if_split)
qed

lemma safeName_identifier:
  assumes "\<And>m. msgs ''UNNAMED_KEY'' = Some m \<Longrightarrow> m \<noteq> [] \<Longrightarrow> lua_identifier m"
  shows "lua_identifier (safeName msgs a)"
proof (cases "a = []")
  case True
  have "lua_identifier ''unnamed''" by (simp add: lua_identifier_def is_word_def is_digit_def)
  with True assms show ?thesis by (auto simp: safeName_def split: option.split)
next
  case False
  let ?a = "map (\<lambda>c. if is_word c then c else CHR ''_'') (encodeURI (replace_char CHR '' '' ''_'' a))"
  have "is_word CHR ''_''" "list_all is_word ''my_''" "\<not> is_digit CHR ''m''" by (simp_all add: is_word_def is_digit_def)
  then have "list_all is_word ?a" "list_all is_word (''my_'' @ ?a)" "\<not> is_digit (hd (''my_'' @ ?a))"
    by (auto simp: list_all_iff)
  moreover have "?a \<noteq> []" using encodeURI_not_Nil [OF False] by simp
  ultimately show ?thesis
    unfolding safeName_def lua_identifier_def using False by (simp add: Let_def del: list_all_append)
qed

lemma en_unnamed: "en_Msg ''UNNAMED_KEY'' = Some m \<Longrightarrow> lua_identifier m"
  by (auto simp: en_general_6_lookups lua_identifier_def is_word_def is_digit_def)

section \<open>Names do not clash\<close>

lemma next_suffix_free: "a @ show_nat (next_suffix used a c) \<notin> set used"
proof (induction used a c rule: next_suffix.induct)
  case (1 used a c)
  then show ?case by (subst next_suffix.simps) simp
qed

lemma getDistinctName_fresh:
  assumes "getDistinctName en_Msg a t s = (b, s')"
  obtains n where "b = name_prefix t s @ n" "s' = s\<lparr>dbReverse := n # dbReverse s\<rparr>" "lua_identifier n"
    "n \<notin> set (dbReverse s)" "n \<notin> set (reservedWords s)"
proof -
  let ?a = "safeName en_Msg a"
  let ?used = "dbReverse s @ reservedWords s"
  define n where "n = (if ?a \<in> set ?used then ?a @ show_nat (next_suffix ?used ?a 2) else ?a)"
  have id: "lua_identifier ?a" by (rule safeName_identifier) (rule en_unnamed)
  have "lua_identifier n" using id lua_identifier_suffix by (simp add: n_def)
  moreover have "n \<notin> set ?used"
    unfolding n_def using next_suffix_free [of ?a ?used 2] by (simp split: if_split)
  moreover have "b = name_prefix t s @ n" "s' = s\<lparr>dbReverse := n # dbReverse s\<rparr>"
    using assms by (auto simp: getDistinctName_def n_def Let_def)
  ultimately show ?thesis using that by simp
qed

datatype owner = User name_type string | Helper string

definition name_of :: "lua_names \<Rightarrow> owner \<rightharpoonup> string" where
  "name_of g w = (case w of User t k \<Rightarrow> db (nameDB g) t k | Helper a \<Rightarrow> functionNames g a)"

definition names_inv :: "lua_names \<Rightarrow> bool" where
  "names_inv g \<longleftrightarrow>
     variablePrefix (nameDB g) = '''' \<and> reservedWords (nameDB g) = RESERVED_WORDS \<and>
     list_all lua_identifier (dbReverse (nameDB g)) \<and>
     set (dbReverse (nameDB g)) \<inter> set RESERVED_WORDS = {} \<and>
     ran (name_of g) \<subseteq> set (dbReverse (nameDB g)) \<and>
     inj_on (name_of g) (dom (name_of g)) \<and> dom (functionNames g) \<subseteq> dom (map_of (definitions g))"

text \<open>
  The states of the generator between \<open>init\<close> and \<open>finish\<close>: it is initialised, with a new
  database or with the one of the last run, and generators of blocks ask for names and helper functions.
\<close>

inductive names_reachable :: "lua_names \<Rightarrow> bool" where
  init: "names_reachable (lua_init en_Msg vars ids procs (new_Names RESERVED_WORDS))"
| init_again: "names_reachable g \<Longrightarrow> names_reachable (lua_init en_Msg vars ids procs (nameDB g))"
| name: "names_reachable g \<Longrightarrow> names_reachable (g\<lparr>nameDB := snd (getName en_Msg a t (nameDB g))\<rparr>)"
| temp: "names_reachable g \<Longrightarrow> names_reachable (g\<lparr>nameDB := snd (getDistinctName en_Msg a t (nameDB g))\<rparr>)"
| helper: "names_reachable g \<Longrightarrow> names_reachable (snd (provideFunction en_Msg a code g))"
| procedure: "names_reachable g \<Longrightarrow> names_reachable (define_procedure a code g)"

lemma inj_on_new:
  assumes "inj_on m (dom m)" and "n \<notin> ran m"
  shows "inj_on (m(w \<mapsto> n)) (dom (m(w \<mapsto> n)))"
  using assms by (auto simp: inj_on_def ran_def dom_def)

lemma names_inv_new:
  \<comment> \<open>a fresh name is recorded, under an owner or only as used\<close>
  assumes inv: "names_inv g" and b: "getDistinctName en_Msg a t (nameDB g) = (b, s')"
    and g': "variablePrefix (nameDB g') = variablePrefix s'" "reservedWords (nameDB g') = reservedWords s'"
      "dbReverse (nameDB g') = dbReverse s'" "dom (functionNames g') \<subseteq> dom (map_of (definitions g'))"
    and names: "name_of g' = name_of g \<or> name_of g' = (name_of g)(w \<mapsto> b)"
  shows "names_inv g'"
proof -
  from getDistinctName_fresh [OF b] obtain n where n: "b = name_prefix t (nameDB g) @ n"
    "s' = nameDB g\<lparr>dbReverse := n # dbReverse (nameDB g)\<rparr>" "lua_identifier n"
    "n \<notin> set (dbReverse (nameDB g))" "n \<notin> set (reservedWords (nameDB g))" .
  have b: "b = n" using n(1) inv by (simp add: names_inv_def name_prefix_def)
  have "n \<notin> ran (name_of g)" using inv n(4) by (auto simp: names_inv_def)
  then have inj: "inj_on ((name_of g)(w \<mapsto> n)) (dom ((name_of g)(w \<mapsto> n)))"
    using inv unfolding names_inv_def by (intro inj_on_new) blast+
  have ran: "ran ((name_of g)(w \<mapsto> n)) \<subseteq> insert n (ran (name_of g))" by (auto simp: ran_def)
  from names show ?thesis
  proof
    assume "name_of g' = name_of g"
    then show ?thesis using inv n g' by (auto simp: names_inv_def)
  next
    assume "name_of g' = (name_of g)(w \<mapsto> b)"
    then show ?thesis using inv n g' inj ran b unfolding names_inv_def by auto
  qed
qed

lemma names_inv_temp: "names_inv g \<Longrightarrow> names_inv (g\<lparr>nameDB := snd (getDistinctName en_Msg a t (nameDB g))\<rparr>)"
proof -
  assume inv: "names_inv g"
  obtain b s' where b: "getDistinctName en_Msg a t (nameDB g) = (b, s')" by fastforce
  have "db s' = db (nameDB g)" using b by (auto simp: getDistinctName_def Let_def)
  then have "name_of (g\<lparr>nameDB := s'\<rparr>) = name_of g" by (intro ext) (simp add: name_of_def split: owner.split)
  with names_inv_new [OF inv b, of "g\<lparr>nameDB := s'\<rparr>"] inv b show ?thesis by (simp add: names_inv_def)
qed

lemma names_inv_name: "names_inv g \<Longrightarrow> names_inv (g\<lparr>nameDB := snd (getName en_Msg a t (nameDB g))\<rparr>)"
proof -
  assume inv: "names_inv g"
  let ?c = "user_name (nameDB g) a t"
  obtain b s' where b: "getDistinctName en_Msg ?c t (nameDB g) = (b, s')" by fastforce
  have p: "name_prefix t (nameDB g) = ''''" using inv by (simp add: names_inv_def name_prefix_def)
  show ?thesis
  proof (cases "db (nameDB g) t (map lower ?c)")
    case (Some n)
    then show ?thesis using inv by (simp add: getName_def Let_def)
  next
    case None
    let ?s = "s'\<lparr>db := (db s')(t := (db s' t)(map lower ?c \<mapsto> b))\<rparr>"
    have s: "snd (getName en_Msg a t (nameDB g)) = ?s" using None b p by (simp add: getName_def Let_def)
    have "db s' = db (nameDB g)" using b by (auto simp: getDistinctName_def Let_def)
    then have "name_of (g\<lparr>nameDB := ?s\<rparr>) = (name_of g)(User t (map lower ?c) \<mapsto> b)"
      by (intro ext) (simp add: name_of_def split: owner.split)
    moreover have "dom (functionNames g) \<subseteq> dom (map_of (definitions g))" using inv by (simp add: names_inv_def)
    ultimately have "names_inv (g\<lparr>nameDB := ?s\<rparr>)"
      by (intro names_inv_new [OF inv b, where w = "User t (map lower ?c)"]) simp_all
    then show ?thesis by (simp add: s)
  qed
qed

lemma names_inv_helper: "names_inv g \<Longrightarrow> names_inv (snd (provideFunction en_Msg a code g))"
proof -
  assume inv: "names_inv g"
  obtain c s' where c: "getDistinctName en_Msg a PROCEDURE (nameDB g) = (c, s')" by fastforce
  show ?thesis
  proof (cases "map_of (definitions g) a")
    case (Some x)
    then show ?thesis using inv by (simp add: provideFunction_def)
  next
    case None
    define g' where "g' = snd (provideFunction en_Msg a code g)"
    have g': "nameDB g' = s'" "functionNames g' = (functionNames g)(a \<mapsto> c)"
      "dom (functionNames g') \<subseteq> dom (map_of (definitions g'))"
      using None c inv by (auto simp: g'_def provideFunction_def names_inv_def)
    have "db s' = db (nameDB g)" using c by (auto simp: getDistinctName_def Let_def)
    then have "name_of g' = (name_of g)(Helper a \<mapsto> c)"
      by (intro ext) (simp add: name_of_def g' split: owner.split)
    then have "names_inv g'"
      by (intro names_inv_new [OF inv c, where w = "Helper a"]) (use g' in simp_all)
    then show ?thesis by (simp add: g'_def)
  qed
qed

lemma names_inv_procedure: "names_inv g \<Longrightarrow> names_inv (define_procedure c d g)"
proof -
  assume inv: "names_inv g"
  have "fst ` set (map (\<lambda>(n, x). (n, if n = k then d else x)) xs) = fst ` set xs" for k and xs :: "(string \<times> string) list"
    by force
  then have "dom (map_of (definitions g)) \<subseteq> dom (map_of (definitions (define_procedure c d g)))"
    by (auto simp: define_procedure_def Let_def dom_map_of_conv_image_fst)
  moreover have "dom (functionNames g) \<subseteq> dom (map_of (definitions g))" using inv by (simp only: names_inv_def)
  ultimately have sub: "dom (functionNames g) \<subseteq> dom (map_of (definitions (define_procedure c d g)))" by (rule subset_trans [rotated])
  have same: "nameDB (define_procedure c d g) = nameDB g" "functionNames (define_procedure c d g) = functionNames g"
    by (simp_all add: define_procedure_def Let_def)
  then have "name_of (define_procedure c d g) = name_of g"
    by (intro ext) (simp add: name_of_def split: owner.split)
  with inv sub same show ?thesis by (simp add: names_inv_def)
qed

lemma names_inv_populate:
  "names_inv \<lparr>nameDB = s, definitions = [], functionNames = Map.empty\<rparr> \<Longrightarrow>
   names_inv \<lparr>nameDB = populate en_Msg t as s, definitions = [], functionNames = Map.empty\<rparr>"
proof (induction as arbitrary: s)
  case (Cons a as)
  from names_inv_name [OF Cons.prems, of a t] Cons.IH show ?case by (simp add: populate_def)
qed (simp add: populate_def)

lemma names_inv_init:
  assumes "variablePrefix s = ''''" and "reservedWords s = RESERVED_WORDS"
  shows "names_inv (lua_init en_Msg vars ids procs s)"
proof -
  let ?s = "(reset s)\<lparr>variableMap := vars\<rparr>"
  have "name_of \<lparr>nameDB = ?s, definitions = [], functionNames = Map.empty\<rparr> = Map.empty"
    by (intro ext) (simp add: name_of_def reset_def split: owner.split)
  then have "names_inv \<lparr>nameDB = ?s, definitions = [], functionNames = Map.empty\<rparr>"
    using assms by (simp add: names_inv_def reset_def)
  then show ?thesis unfolding lua_init_def Let_def by (intro names_inv_populate)
qed

lemma names_inv_reachable: "names_reachable g \<Longrightarrow> names_inv g"
proof (induction rule: names_reachable.induct)
  case (init vars ids procs)
  show ?case by (rule names_inv_init) (simp_all add: new_Names_def)
next
  case (init_again g vars ids procs)
  then show ?case by (intro names_inv_init) (simp_all add: names_inv_def)
qed (auto intro: names_inv_name names_inv_temp names_inv_helper names_inv_procedure)

text \<open>
  C37. However a run of the generator has asked for names, every variable, procedure and helper function has a
  name of its own, which is an identifier and none of the reserved words; asking again for the same one gives the
  same name and changes nothing; and a temporary name is an identifier that nobody has and no reserved word.
\<close>

theorem names_never_clash:
  assumes "names_reachable g"
  shows "inj_on (name_of g) (dom (name_of g)) \<and>
    (\<forall>n \<in> ran (name_of g). lua_identifier n \<and> n \<notin> set RESERVED_WORDS) \<and>
    (\<forall>a t. getName en_Msg a t (snd (getName en_Msg a t (nameDB g))) = getName en_Msg a t (nameDB g)) \<and>
    (\<forall>a code code'. provideFunction en_Msg a code' (snd (provideFunction en_Msg a code g)) = provideFunction en_Msg a code g) \<and>
    (\<forall>a t n s'. getDistinctName en_Msg a t (nameDB g) = (n, s') \<longrightarrow>
       lua_identifier n \<and> n \<notin> set RESERVED_WORDS \<union> ran (name_of g))"
proof -
  have inv: "names_inv g" by (rule names_inv_reachable [OF assms])
  have again: "getName en_Msg a t (snd (getName en_Msg a t s)) = getName en_Msg a t s"
    if "variablePrefix s = ''''" for a t s
    using that
    by (auto simp: getName_def getDistinctName_def user_name_def name_prefix_def Let_def split: option.split)
  have helper: "provideFunction en_Msg a code' (snd (provideFunction en_Msg a code g)) = provideFunction en_Msg a code g"
    for a code code'
    by (auto simp: provideFunction_def split: option.split prod.split)
  have temp: "lua_identifier n \<and> n \<notin> set RESERVED_WORDS \<union> ran (name_of g)"
    if "getDistinctName en_Msg a t (nameDB g) = (n, s')" for a t n s'
  proof -
    from getDistinctName_fresh [OF that] obtain m where m: "n = name_prefix t (nameDB g) @ m" "lua_identifier m"
      "m \<notin> set (dbReverse (nameDB g))" "m \<notin> set (reservedWords (nameDB g))" .
    have "n = m" using m(1) inv by (simp add: names_inv_def name_prefix_def)
    with m inv show ?thesis unfolding names_inv_def by auto
  qed
  have own: "inj_on (name_of g) (dom (name_of g))" and pre: "variablePrefix (nameDB g) = ''''"
    and ids: "\<forall>n \<in> ran (name_of g). lua_identifier n \<and> n \<notin> set RESERVED_WORDS"
    using inv unfolding names_inv_def list_all_iff by blast+
  show ?thesis by (intro conjI allI impI own ids again [OF pre] helper) (use temp in blast)+
qed

definition sample_names :: lua_names where
  "sample_names = lua_init en_Msg [''id1'' \<mapsto> ''print''] [''id1''] [''print''] (new_Names RESERVED_WORDS)"

lemma encodeURI_words: "list_all is_word a \<Longrightarrow> encodeURI a = a"
proof (induction a)
  case (Cons c a)
  then have "uri_unescaped c" by (simp add: uri_unescaped_def)
  with Cons show ?case by (simp add: encodeURI_def)
qed (simp add: encodeURI_def)

lemma safeName_id:
  assumes "lua_identifier a"
  shows "safeName msgs a = a"
proof -
  have "CHR '' '' \<notin> set a" using assms by (auto simp: lua_identifier_def list_all_iff is_word_def)
  then have "replace_char CHR '' '' ''_'' a = a" by (rule replace_char_absent)
  moreover have "encodeURI a = a"
    by (rule encodeURI_words) (use assms in \<open>simp add: lua_identifier_def\<close>)
  moreover have "map (\<lambda>c. if is_word c then c else CHR ''_'') a = a"
    using assms by (auto simp: lua_identifier_def list_all_iff intro: map_idI)
  ultimately show ?thesis using assms by (simp add: safeName_def lua_identifier_def Let_def)
qed

lemma sample_identifiers: "lua_identifier ''print''" "lua_identifier ''goto''"
  by (simp_all add: lua_identifier_def is_word_def is_digit_def)

lemma sample_reserved:
  "''print'' \<in> set RESERVED_WORDS" "''goto'' \<notin> set RESERVED_WORDS" "''print2'' \<notin> set RESERVED_WORDS"
  "''print3'' \<notin> set RESERVED_WORDS"
  by (simp_all add: RESERVED_WORDS_def)

lemma sample_suffixes:
  "''print'' \<in> set used \<Longrightarrow> ''print2'' \<notin> set used \<Longrightarrow> ''print'' @ show_nat (next_suffix used ''print'' 2) = ''print2''"
  "''print2'' \<in> set used \<Longrightarrow> ''print3'' \<notin> set used \<Longrightarrow> ''print'' @ show_nat (next_suffix used ''print'' 2) = ''print3''"
proof -
  have n: "show_nat 2 = ''2''" "show_nat 3 = ''3''" by (simp_all add: show_nat.simps digit_simps)
  show "''print2'' \<notin> set used \<Longrightarrow> ''print'' @ show_nat (next_suffix used ''print'' 2) = ''print2''"
    by (subst next_suffix.simps) (simp add: n)
  have "''print3'' \<notin> set used \<Longrightarrow> next_suffix used ''print'' 3 = 3"
    by (subst next_suffix.simps) (simp add: n)
  then show "''print2'' \<in> set used \<Longrightarrow> ''print3'' \<notin> set used \<Longrightarrow>
      ''print'' @ show_nat (next_suffix used ''print'' 2) = ''print3''"
    by (subst next_suffix.simps) (simp add: n)
qed

lemma lower_print: "map lower ''print'' = ''print''"
  by (simp add: lower_def)

lemma sample_names_values:
  "name_of sample_names (User VARIABLE_NAME ''print'') = Some ''print2''"
  "name_of sample_names (User PROCEDURE ''print'') = Some ''print3''"
proof -
  let ?s = "(reset (new_Names RESERVED_WORDS))\<lparr>variableMap := [''id1'' \<mapsto> ''print'']\<rparr>"
  have v: "snd (getName en_Msg ''id1'' VARIABLE_NAME ?s) =
      ?s\<lparr>db := (db ?s)(VARIABLE_NAME := [''print'' \<mapsto> ''print2'']), dbReverse := [''print2'']\<rparr>" (is "_ = ?s1")
    using sample_suffixes(1) [of RESERVED_WORDS]
    by (simp add: getName_def getDistinctName_def user_name_def reset_def new_Names_def name_prefix_def lower_print
        safeName_id sample_identifiers sample_reserved Let_def del: list.map)
  have "snd (getName en_Msg ''print'' PROCEDURE ?s1) =
      ?s1\<lparr>db := (db ?s1)(PROCEDURE := [''print'' \<mapsto> ''print3'']), dbReverse := [''print3'', ''print2'']\<rparr>"
    using sample_suffixes(2) [of "''print2'' # RESERVED_WORDS"]
    by (simp add: getName_def getDistinctName_def user_name_def reset_def new_Names_def name_prefix_def lower_print
        safeName_id sample_identifiers sample_reserved Let_def del: list.map)
  with v have "nameDB sample_names = ?s1\<lparr>db := (db ?s1)(PROCEDURE := [''print'' \<mapsto> ''print3'']),
      dbReverse := [''print3'', ''print2'']\<rparr>"
    by (simp add: sample_names_def lua_init_def populate_def)
  then show "name_of sample_names (User VARIABLE_NAME ''print'') = Some ''print2''"
    "name_of sample_names (User PROCEDURE ''print'') = Some ''print3''"
    by (simp_all add: name_of_def)
qed

theorem names_never_clash_witness:
  "inj_on (name_of sample_names) (dom (name_of sample_names)) \<and>
   name_of sample_names (User VARIABLE_NAME ''print'') = Some ''print2'' \<and>
   name_of sample_names (User PROCEDURE ''print'') = Some ''print3'' \<and>
   lua_identifier ''print2'' \<and> ''print2'' \<notin> set RESERVED_WORDS"
proof -
  have r: "names_reachable sample_names" unfolding sample_names_def by (rule names_reachable.init)
  from names_never_clash [OF r] have "inj_on (name_of sample_names) (dom (name_of sample_names)) \<and>
    (\<forall>n \<in> ran (name_of sample_names). lua_identifier n \<and> n \<notin> set RESERVED_WORDS)" by blast
  moreover have "''print2'' \<in> ran (name_of sample_names)" using sample_names_values(1) by (rule ranI)
  ultimately show ?thesis using sample_names_values by blast
qed

lemma goto_is_given_out:
  \<comment> \<open>\<open>goto\<close>, a keyword of Lua since 5.2, is not reserved\<close>
  "fst (getName en_Msg ''goto'' PROCEDURE (new_Names RESERVED_WORDS)) = ''goto''"
  by (simp add: getName_def getDistinctName_def new_Names_def user_name_def name_prefix_def safeName_id
      sample_identifiers sample_reserved Let_def)

end
