(* ===== verification/Text_Helpers.thy ===== *)
theory Text_Helpers
  imports Names_Db
begin

text \<open>
  The helper functions on texts that the bundled Lua generator writes into a program
  (the templates handed to \<open>provideFunction_\<close> in \<open>lua_compressed.js\<close>: \<open>firstIndexOf\<close>,
  \<open>lastIndexOf\<close>, \<open>text_char_at\<close>, \<open>text_random_letter\<close>, \<open>text_titlecase\<close>, \<open>text_count\<close>,
  \<open>text_replace\<close> and \<open>list_string_split\<close>). They are Lua programs, run here on byte strings with Lua's
  \<open>string.sub\<close> and \<open>string.find\<close>, whose positions count from one. A loop that may run forever is a
  partial function: \<open>None\<close> is a call that does not return.
\<close>

section \<open>Lua's string library\<close>

definition lua_sub :: "string \<Rightarrow> int \<Rightarrow> int \<Rightarrow> string" where
  \<comment> \<open>\<open>string.sub(s, i, j)\<close>; negative positions count from the end\<close>
  "lua_sub s i j =
     (let l = int (length s);
          i = (if 0 < i then i else if i = 0 then 1 else max (l + i + 1) 1);
          j = (if l < j then l else if 0 \<le> j then j else max (l + j + 1) 0)
      in if j < i then [] else take (nat (j - i + 1)) (drop (nat (i - 1)) s))"

fun search :: "string \<Rightarrow> string \<Rightarrow> nat \<Rightarrow> nat option" where
  \<comment> \<open>the first place of the text at which the pattern begins, counted from \<open>k\<close>\<close>
  "search p [] k = (if p = [] then Some k else None)"
| "search p (c # s) k = (if prefix p (c # s) then Some k else search p s (Suc k))"

definition lua_find :: "string \<Rightarrow> string \<Rightarrow> nat \<Rightarrow> nat option" where
  \<comment> \<open>\<open>string.find(s, p, init, true)\<close> for a positive \<open>init\<close>: a plain search\<close>
  "lua_find s p init = (if length s + 1 < init then None else search p (drop (init - 1) s) init)"

definition lua_lower :: "char \<Rightarrow> char" where
  "lua_lower c = lower c"

definition lua_upper :: "char \<Rightarrow> char" where
  "lua_upper c = (let n = (of_char c :: nat) in if 97 \<le> n \<and> n \<le> 122 then char_of (n - 32) else c)"

definition lua_magic :: string where
  \<comment> \<open>the characters that make a pattern more than a plain text\<close>
  "lua_magic = ''^$*+?.([%-''"

section \<open>The helper functions\<close>

definition firstIndexOf :: "string \<Rightarrow> string \<Rightarrow> nat" where
  "firstIndexOf str substr = (case lua_find str substr 1 of None \<Rightarrow> 0 | Some i \<Rightarrow> i)"

definition lastIndexOf :: "string \<Rightarrow> string \<Rightarrow> int" where
  "lastIndexOf str substr =
     (case lua_find (rev str) (rev substr) 1 of
        Some i \<Rightarrow> int (length str) + 2 - int i - int (length substr)
      | None \<Rightarrow> 0)"

definition text_random_letter :: "(nat \<Rightarrow> nat) \<Rightarrow> string \<Rightarrow> string option" where
  \<comment> \<open>\<open>rnd\<close> is \<open>math.random\<close>, which refuses an empty interval\<close>
  "text_random_letter rnd str =
     (if length str = 0 then None
      else (let index = int (rnd (length str)) in Some (lua_sub str index index)))"

definition text_char_at :: "string \<Rightarrow> int \<Rightarrow> string" where
  "text_char_at str index = lua_sub str index index"

fun titlecase_loop :: "bool \<Rightarrow> string \<Rightarrow> string" where
  \<comment> \<open>the loop over the characters; the result is what is still put into \<open>buf\<close>\<close>
  "titlecase_loop inWord [] = []"
| "titlecase_loop inWord (c # s) =
     (if inWord then lua_lower c # titlecase_loop (\<not> is_white c) s
      else lua_upper c # titlecase_loop True s)"

definition text_titlecase :: "string \<Rightarrow> string" where
  "text_titlecase str = titlecase_loop False str"

partial_function (option) count_loop :: "string \<Rightarrow> string \<Rightarrow> nat \<Rightarrow> nat \<Rightarrow> nat option" where
  "count_loop haystack needle i c =
     (case lua_find haystack needle i of
        None \<Rightarrow> Some c
      | Some i \<Rightarrow> count_loop haystack needle (i + length needle) (c + 1))"

definition text_count :: "string \<Rightarrow> string \<Rightarrow> nat option" where
  "text_count haystack needle =
     (if length needle = 0 then Some (length haystack + 1) else count_loop haystack needle 1 0)"

partial_function (option) replace_loop :: "string \<Rightarrow> string \<Rightarrow> string \<Rightarrow> nat \<Rightarrow> string \<Rightarrow> string option" where
  "replace_loop haystack needle replacement i buf =
     (if i \<le> length haystack then
        if lua_sub haystack (int i) (int i + int (length needle) - 1) = needle
        then replace_loop haystack needle replacement (i + length needle) (buf @ replacement)
        else replace_loop haystack needle replacement (i + 1) (buf @ lua_sub haystack (int i) (int i))
      else Some buf)"

definition text_replace :: "string \<Rightarrow> string \<Rightarrow> string \<Rightarrow> string option" where
  "text_replace haystack needle replacement = replace_loop haystack needle replacement 1 []"

partial_function (option) split_loop :: "string \<Rightarrow> string \<Rightarrow> nat \<Rightarrow> string list \<Rightarrow> string list option" where
  \<comment> \<open>\<open>string.find\<close> is called without its fourth argument, so the delimiter is a pattern; only
    delimiters without magic characters, for which the search is plain, are modelled\<close>
  "split_loop input delim pos t =
     (case lua_find input delim pos of
        None \<Rightarrow> Some (t @ [lua_sub input (int pos) (- 1)])
      | Some next_delim \<Rightarrow>
          split_loop input delim (next_delim + length delim) (t @ [lua_sub input (int pos) (int next_delim - 1)]))"

definition list_string_split :: "string \<Rightarrow> string \<Rightarrow> string list option" where
  "list_string_split input delim = split_loop input delim 1 []"

section \<open>Searching\<close>

definition occurs_at :: "string \<Rightarrow> string \<Rightarrow> nat \<Rightarrow> bool" where
  \<comment> \<open>the text \<open>p\<close> stands in \<open>s\<close> at position \<open>i\<close>, counted from one\<close>
  "occurs_at s p i \<longleftrightarrow> 1 \<le> i \<and> i \<le> length s + 1 \<and> prefix p (drop (i - 1) s)"

lemma search_Some:
  "search p s k = Some i \<longleftrightarrow>
     k \<le> i \<and> i \<le> k + length s \<and> prefix p (drop (i - k) s) \<and> (\<forall>j. k \<le> j \<and> j < i \<longrightarrow> \<not> prefix p (drop (j - k) s))"
proof (induction s arbitrary: k)
  case Nil
  then show ?case by auto
next
  case (Cons c s)
  have shift: "drop (j - k) (c # s) = drop (j - Suc k) s" if "k < j" for j
  proof -
    have "j - k = Suc (j - Suc k)" using that by simp
    then show ?thesis by simp
  qed
  show ?case
  proof (cases "prefix p (c # s)")
    case True
    then show ?thesis by (auto intro: le_antisym leI)
  next
    case False
    have "search p (c # s) k = Some i \<longleftrightarrow>
      Suc k \<le> i \<and> i \<le> Suc k + length s \<and> prefix p (drop (i - Suc k) s) \<and>
      (\<forall>j. Suc k \<le> j \<and> j < i \<longrightarrow> \<not> prefix p (drop (j - Suc k) s))"
      using False Cons.IH [of "Suc k"] by simp
    also have "\<dots> \<longleftrightarrow> k \<le> i \<and> i \<le> k + length (c # s) \<and> prefix p (drop (i - k) (c # s)) \<and>
      (\<forall>j. k \<le> j \<and> j < i \<longrightarrow> \<not> prefix p (drop (j - k) (c # s)))"
    proof -
      have "k \<le> i \<and> prefix p (drop (i - k) (c # s)) \<Longrightarrow> k < i"
        using False by (cases "i = k") auto
      moreover have "(\<forall>j. k \<le> j \<and> j < i \<longrightarrow> \<not> prefix p (drop (j - k) (c # s))) \<longleftrightarrow>
        (\<forall>j. Suc k \<le> j \<and> j < i \<longrightarrow> \<not> prefix p (drop (j - Suc k) s))"
        using False shift by (metis Suc_le_eq diff_self_eq_0 drop0 le_neq_implies_less less_imp_le)
      ultimately show ?thesis using shift [of i] by (auto simp: Suc_le_eq)
    qed
    finally show ?thesis .
  qed
qed

lemma search_None: "search p s k = None \<longleftrightarrow> (\<forall>j \<le> length s. \<not> prefix p (drop j s))"
proof (induction s arbitrary: k)
  case Nil
  then show ?case by simp
next
  case (Cons c s)
  have "(\<forall>j \<le> length (c # s). \<not> prefix p (drop j (c # s))) \<longleftrightarrow>
    \<not> prefix p (c # s) \<and> (\<forall>j \<le> length s. \<not> prefix p (drop j s))"
  proof -
    have "(\<forall>j \<le> Suc n. P j) \<longleftrightarrow> P 0 \<and> (\<forall>j \<le> n. P (Suc j))" for n and P :: "nat \<Rightarrow> bool"
      by (metis Suc_le_mono le0 not0_implies_Suc)
    from this [of "length s" "\<lambda>j. \<not> prefix p (drop j (c # s))"] show ?thesis by simp
  qed
  with Cons show ?case by simp
qed

lemma lua_find_Some:
  assumes "1 \<le> init"
  shows "lua_find s p init = Some i \<longleftrightarrow>
    init \<le> i \<and> occurs_at s p i \<and> (\<forall>j. init \<le> j \<and> j < i \<longrightarrow> \<not> occurs_at s p j)"
proof -
  have d: "drop (j - init) (drop (init - 1) s) = drop (j - 1) s" if "init \<le> j" for j
    using that assms by (simp add: add.commute)
  have "j \<le> init + length (drop (init - 1) s) \<longleftrightarrow> j \<le> length s + 1" if "init \<le> length s + 1" for j
    using that assms by auto
  then show ?thesis using d assms
    by (auto simp: lua_find_def search_Some occurs_at_def)
qed

lemma lua_find_None:
  assumes "1 \<le> init"
  shows "lua_find s p init = None \<longleftrightarrow> (\<forall>j \<ge> init. \<not> occurs_at s p j)"
proof -
  have "(\<forall>j \<ge> init. \<not> occurs_at s p j) \<longleftrightarrow> (\<nexists>i. lua_find s p init = Some i)"
  proof
    assume "\<forall>j \<ge> init. \<not> occurs_at s p j"
    then show "\<nexists>i. lua_find s p init = Some i" using lua_find_Some [OF assms] by blast
  next
    assume none: "\<nexists>i. lua_find s p init = Some i"
    show "\<forall>j \<ge> init. \<not> occurs_at s p j"
    proof (rule ccontr)
      assume "\<not> (\<forall>j \<ge> init. \<not> occurs_at s p j)"
      then obtain j where j: "init \<le> j \<and> occurs_at s p j" by blast
      define i where "i = (LEAST j. init \<le> j \<and> occurs_at s p j)"
      have "init \<le> i \<and> occurs_at s p i" unfolding i_def by (rule LeastI [of _ j]) (rule j)
      moreover have "\<not> occurs_at s p j" if "init \<le> j" "j < i" for j
        using that not_less_Least i_def by blast
      ultimately have "lua_find s p init = Some i" using lua_find_Some [OF assms] by blast
      with none show False by blast
    qed
  qed
  then show ?thesis by (metis not_None_eq)
qed


lemma lua_sub_nat:
  assumes "1 \<le> i"
  shows "lua_sub s (int i) (int j) = take (j + 1 - i) (drop (i - 1) s)"
proof -
  have *: "nat (int (length s) - int i + 1) = length s + 1 - i" "nat (int j - int i + 1) = j + 1 - i"
    "nat (int i - 1) = i - 1"
    using assms by simp_all
  show ?thesis
    using assms by (cases "j < i"; cases "length s < j") (auto simp: lua_sub_def Let_def *)
qed

lemma lua_sub_rest:
  assumes "1 \<le> i"
  shows "lua_sub s (int i) (- 1) = drop (i - 1) s"
proof -
  have *: "nat (int i - 1) = i - 1" "nat (int (length s) - int i + 1) = length s + 1 - i"
    using assms by simp_all
  show ?thesis
    using assms by (cases "length s < i") (auto simp: lua_sub_def Let_def *)
qed

lemma occurs_at_iff:
  "occurs_at s p i \<longleftrightarrow> 1 \<le> i \<and> i + length p \<le> length s + 1 \<and> take (length p) (drop (i - 1) s) = p"
proof -
  have "length p \<le> length (drop (i - 1) s)" if "prefix p (drop (i - 1) s)" using that by (rule prefix_length_le)
  moreover have "prefix p t \<longleftrightarrow> take (length p) t = p" for t :: string
    by (metis append_eq_conv_conj prefix_def take_is_prefix)
  ultimately show ?thesis by (auto simp: occurs_at_def)
qed

lemma occurs_at_rev:
  assumes "i + k + length p = length s + 2" and "1 \<le> i" and "1 \<le> k"
  shows "occurs_at (rev s) (rev p) i \<longleftrightarrow> occurs_at s p k"
proof -
  have "take (length p) (drop (i - 1) (rev s)) = rev (drop (k - 1) (take (length s - (i - 1)) s))"
  proof -
    have "length s - (i - 1) - length p = k - 1" using assms by simp
    then show ?thesis using assms by (simp add: drop_rev take_rev)
  qed
  also have "drop (k - 1) (take (length s - (i - 1)) s) = take (length p) (drop (k - 1) s)"
  proof -
    have "length s - (i - 1) - (k - 1) = length p" using assms by linarith
    then show ?thesis by (simp only: drop_take)
  qed
  finally show ?thesis using assms by (auto simp: occurs_at_iff)
qed

lemma firstIndexOf_spec:
  "firstIndexOf s p = 0 \<and> (\<forall>j. \<not> occurs_at s p j) \<or>
   occurs_at s p (firstIndexOf s p) \<and> (\<forall>j. occurs_at s p j \<longrightarrow> firstIndexOf s p \<le> j)"
proof (cases "lua_find s p 1")
  case None
  then have "\<forall>j \<ge> 1. \<not> occurs_at s p j" by (simp add: lua_find_None)
  with None show ?thesis by (auto simp: firstIndexOf_def occurs_at_def)
next
  case (Some i)
  then have "occurs_at s p i \<and> (\<forall>j. 1 \<le> j \<and> j < i \<longrightarrow> \<not> occurs_at s p j)" by (simp add: lua_find_Some)
  with Some show ?thesis by (auto simp: firstIndexOf_def occurs_at_def not_less [symmetric])
qed

lemma lastIndexOf_spec:
  "lastIndexOf s p = 0 \<and> (\<forall>j. \<not> occurs_at s p j) \<or>
   0 < lastIndexOf s p \<and> occurs_at s p (nat (lastIndexOf s p)) \<and> (\<forall>j. occurs_at s p j \<longrightarrow> int j \<le> lastIndexOf s p)"
proof (cases "lua_find (rev s) (rev p) 1")
  case None
  have "\<not> occurs_at s p j" for j
  proof
    assume j: "occurs_at s p j"
    then have "occurs_at (rev s) (rev p) (length s + 2 - j - length p)"
      by (subst occurs_at_rev [of _ j]) (auto simp: occurs_at_iff)
    with None show False using j by (auto simp: lua_find_None occurs_at_iff)
  qed
  with None show ?thesis by (simp add: lastIndexOf_def)
next
  case (Some i)
  then have i: "occurs_at (rev s) (rev p) i" and least: "\<And>j. 1 \<le> j \<Longrightarrow> j < i \<Longrightarrow> \<not> occurs_at (rev s) (rev p) j"
    by (auto simp: lua_find_Some)
  define k where "k = length s + 2 - i - length p"
  have k: "i + k + length p = length s + 2" "1 \<le> i" "1 \<le> k" using i by (auto simp: occurs_at_iff k_def)
  have "occurs_at s p k" using i occurs_at_rev [OF k] by simp
  moreover have "j \<le> k" if "occurs_at s p j" for j
  proof (rule ccontr)
    assume "\<not> j \<le> k"
    define i' where "i' = length s + 2 - j - length p"
    have i': "i' + j + length p = length s + 2" "1 \<le> i'" "1 \<le> j" using that by (auto simp: occurs_at_iff i'_def)
    with \<open>\<not> j \<le> k\<close> k have "i' < i" by linarith
    with least i' occurs_at_rev [OF i'] that show False by blast
  qed
  moreover have "lastIndexOf s p = int k" using Some k by (simp add: lastIndexOf_def k_def)
  ultimately show ?thesis using k by simp
qed

section \<open>Counting, replacing and splitting\<close>

function occurrences :: "string \<Rightarrow> string \<Rightarrow> nat" where
  \<comment> \<open>occurrences that do not overlap, from left to right\<close>
  "occurrences p s =
     (if s = [] \<or> p = [] then 0
      else if prefix p s then Suc (occurrences p (drop (length p) s)) else occurrences p (tl s))"
  by pat_completeness auto

termination
  by (relation "measure (\<lambda>(p, s). length s)") auto

declare occurrences.simps [simp del]

lemma search_step:
  \<comment> \<open>what a search has passed over, for a pattern that is not empty\<close>
  assumes "p \<noteq> []"
  shows "search p s k = Some i \<Longrightarrow>
      s = take (i - k) s @ p @ drop (i - k + length p) s \<and> occurrences p s = Suc (occurrences p (drop (i - k + length p) s))"
    and "search p s k = None \<Longrightarrow> occurrences p s = 0"
proof (induction s arbitrary: k)
  case Nil
  {
    case 1
    then show ?case using assms by simp
  next
    case 2
    then show ?case by (simp add: occurrences.simps)
  }
next
  case (Cons c s)
  {
    case 1
    show ?case
    proof (cases "prefix p (c # s)")
      case True
      with 1 have "i = k" by simp
      moreover from True obtain t where "c # s = p @ t" by (auto simp: prefix_def)
      ultimately show ?thesis using True assms occurrences.simps [of p "c # s"] by simp
    next
      case False
      with 1 have s: "search p s (Suc k) = Some i" by simp
      then have "Suc k \<le> i" by (simp add: search_Some)
      then have d: "i - k = Suc (i - Suc k)" by simp
      from Cons.IH(1) [OF s] False assms show ?thesis by (simp add: d occurrences.simps [of p "c # s"])
    qed
  next
    case 2
    then show ?case using Cons.IH(2) assms by (simp add: occurrences.simps [of p "c # s"] split: if_splits)
  }
qed

lemma lua_find_step:
  assumes "p \<noteq> []" and "1 \<le> i" and "lua_find s p i = Some j"
  shows "i \<le> j \<and> j + length p \<le> length s + 1 \<and>
     drop (i - 1) s = take (j - i) (drop (i - 1) s) @ p @ drop (j + length p - 1) s \<and>
     occurrences p (drop (i - 1) s) = Suc (occurrences p (drop (j + length p - 1) s))"
proof -
  from assms have s: "search p (drop (i - 1) s) i = Some j" by (simp add: lua_find_def split: if_splits)
  have j: "i \<le> j" "occurs_at s p j" using assms lua_find_Some [of i s p j] by auto
  then have "j - i + length p + (i - 1) = j + length p - 1" using assms(2) by simp
  with search_step(1) [OF assms(1) s] j show ?thesis by (auto simp: occurs_at_iff)
qed

lemma lua_find_stop:
  assumes "p \<noteq> []" and "lua_find s p i = None"
  shows "occurrences p (drop (i - 1) s) = 0"
proof (cases "length s + 1 < i")
  case True
  then have "drop (i - 1) s = []" by simp
  then show ?thesis by (simp add: occurrences.simps)
next
  case False
  with assms(2) have "search p (drop (i - 1) s) i = None" by (simp add: lua_find_def)
  then show ?thesis by (rule search_step(2) [OF assms(1)])
qed

lemma count_loop_result:
  assumes "p \<noteq> []" and "1 \<le> i"
  shows "count_loop s p i c = Some (c + occurrences p (drop (i - 1) s))"
  using assms
proof (induction "length s + 1 - i" arbitrary: i c rule: less_induct)
  case less
  show ?case
  proof (cases "lua_find s p i")
    case None
    with lua_find_stop [OF less.prems(1) None] show ?thesis by (simp add: count_loop.simps)
  next
    case (Some j)
    note step = lua_find_step [OF less.prems Some]
    have "0 < length p" using less.prems by simp
    then have "length s + 1 - (j + length p) < length s + 1 - i" using step less.prems by linarith
    from less.hyps [OF this, of "Suc c"] step Some less.prems show ?thesis
      by (simp add: count_loop.simps [of s p i])
  qed
qed

lemma replace_loop_result:
  assumes "p \<noteq> []" and "1 \<le> i"
  shows "replace_loop s p r i buf = Some (buf @ replace_all p r (drop (i - 1) s))"
  using assms
proof (induction "length s + 1 - i" arbitrary: i buf rule: less_induct)
  case less
  show ?case
  proof (cases "i \<le> length s")
    case False
    then show ?thesis by (simp add: replace_loop.simps replace_all.simps)
  next
    case True
    have "int i + int (length p) - 1 = int (i + length p - 1)" "i + length p - 1 + 1 - i = length p"
      using less.prems by simp_all
    then have at: "lua_sub s (int i) (int i + int (length p) - 1) = take (length p) (drop (i - 1) s)"
      using lua_sub_nat [of i s "i + length p - 1"] less.prems(2) by metis
    have char: "lua_sub s (int i) (int i) = [hd (drop (i - 1) s)]"
      using True less.prems by (simp add: lua_sub_nat take_Suc)
    have tail: "tl (drop (i - 1) s) = drop i s"
      using drop_Suc [of "i - 1" s] tl_drop [of "i - 1" s] less.prems by simp
    have pre: "prefix p (drop (i - 1) s) \<longleftrightarrow> take (length p) (drop (i - 1) s) = p"
      by (metis append_eq_conv_conj prefix_def take_is_prefix)
    have "0 < length p" using less.prems by simp
    then have "length s + 1 - (i + length p) < length s + 1 - i" "length s + 1 - (i + 1) < length s + 1 - i"
      using True by linarith+
    note ih = this [THEN less.hyps]
    have ne: "drop (i - 1) s \<noteq> []" using True less.prems by simp
    have "drop (length p) (drop (i - 1) s) = drop (i + length p - 1) s" using less.prems by (simp add: add.commute)
    then have "replace_all p r (drop (i - 1) s) =
      (if take (length p) (drop (i - 1) s) = p then r @ replace_all p r (drop (i + length p - 1) s)
       else hd (drop (i - 1) s) # replace_all p r (drop i s))"
      using ne less.prems(1) by (subst replace_all.simps) (simp only: pre tail simp_thms if_False)
    with ih True less.prems show ?thesis
      by (subst replace_loop.simps) (simp add: at char)
  qed
qed


lemma replace_loop_diverges:
  \<comment> \<open>an empty text to look for is found everywhere and the position does not move\<close>
  assumes "replace_loop s [] r i buf = Some out" and "1 \<le> i" and "i \<le> length s"
  shows False
proof -
  have "p = [] \<longrightarrow> \<not> (1 \<le> i \<and> i \<le> length s)" if "replace_loop s p r i buf = Some out" for p
  proof (rule replace_loop.raw_induct [where P = "\<lambda>s p r i buf out. p = [] \<longrightarrow> \<not> (1 \<le> i \<and> i \<le> length s)",
        OF _ that], intro impI notI)
    fix loop :: "string \<Rightarrow> string \<Rightarrow> string \<Rightarrow> nat \<Rightarrow> string \<Rightarrow> string option" and s p r i buf out
    assume ih: "\<And>s p r i buf out. loop s p r i buf = Some out \<Longrightarrow> p = [] \<longrightarrow> \<not> (1 \<le> i \<and> i \<le> length s)"
      and body: "(if i \<le> length s then
          if lua_sub s (int i) (int i + int (length p) - 1) = p then loop s p r (i + length p) (buf @ r)
          else loop s p r (i + 1) (buf @ lua_sub s (int i) (int i)) else Some buf) = Some out"
      and p: "p = []" and i: "1 \<le> i \<and> i \<le> length s"
    have "int i - 1 = int (i - 1)" using i by simp
    then have "lua_sub s (int i) (int i + int (length p) - 1) = p"
      using lua_sub_nat [of i s "i - 1"] i p by simp
    with body p i have "loop s p r i (buf @ r) = Some out" by simp
    with ih p i show False by blast
  qed
  with assms show False by blast
qed

lemma lua_find_clean:
  \<comment> \<open>the text before the first occurrence has none\<close>
  assumes "p \<noteq> []" and "1 \<le> i" and "lua_find s p i = Some j"
  shows "\<not> sublist p (take (j - i) (drop (i - 1) s))"
proof
  assume "sublist p (take (j - i) (drop (i - 1) s))"
  then obtain a b where ab: "take (j - i) (drop (i - 1) s) = a @ p @ b" by (auto simp: sublist_def)
  then have len: "length a + length p \<le> j - i" "length a + length p \<le> length s - (i - 1)"
  proof -
    have "length a + length p \<le> length (take (j - i) (drop (i - 1) s))" by (simp only: ab length_append)
    then show "length a + length p \<le> j - i" "length a + length p \<le> length s - (i - 1)" by simp_all
  qed
  have "drop (i - 1) s = a @ p @ b @ drop (j - i) (drop (i - 1) s)"
    using append_take_drop_id [of "j - i" "drop (i - 1) s"] ab by simp
  moreover have "drop (length a + i - 1) s = drop (length a) (drop (i - 1) s)" using assms(2) by (simp add: add.commute)
  ultimately have "prefix p (drop (length a + i - 1) s)" by (metis append_eq_conv_conj prefixI)
  moreover have "0 < length p" using assms(1) by simp
  then have j: "length a + i \<le> length s + 1" "length a + i < j" using len by linarith+
  ultimately have "occurs_at s p (length a + i)" "i \<le> length a + i"
    using assms(2) by (simp_all add: occurs_at_def)
  with lua_find_Some [OF assms(2)] assms(3) j(2) show False by blast
qed

lemma split_loop_result:
  assumes "p \<noteq> []" and "1 \<le> i" and "i \<le> length s + 1"
  shows "\<exists>parts. split_loop s p i t = Some (t @ parts) \<and> parts \<noteq> [] \<and> js_join p parts = drop (i - 1) s \<and>
    length parts = Suc (occurrences p (drop (i - 1) s)) \<and> list_all (\<lambda>x. \<not> sublist p x) parts"
  using assms
proof (induction "length s + 1 - i" arbitrary: i t rule: less_induct)
  case less
  show ?case
  proof (cases "lua_find s p i")
    case None
    have "\<not> sublist p (drop (i - 1) s)"
    proof
      assume "sublist p (drop (i - 1) s)"
      then obtain a b where ab: "drop (i - 1) s = a @ p @ b" by (auto simp: sublist_def)
      have "drop (length a + i - 1) s = drop (length a) (drop (i - 1) s)" using less.prems by (simp add: add.commute)
      then have "prefix p (drop (length a + i - 1) s)" by (simp only: ab) simp
      moreover have "length s - (i - 1) = length a + length p + length b" using arg_cong [OF ab, of length] by simp
      then have "length a + i \<le> length s + 1" using less.prems(2,3) by linarith
      ultimately have "occurs_at s p (length a + i)" using less.prems(2) by (simp add: occurs_at_def)
      with None less.prems(2) show False by (simp add: lua_find_None)
    qed
    moreover have "split_loop s p i t = Some (t @ [drop (i - 1) s])"
      using None less.prems(2) by (simp add: split_loop.simps lua_sub_rest)
    ultimately show ?thesis using lua_find_stop [OF less.prems(1) None] by auto
  next
    case (Some j)
    note step = lua_find_step [OF less.prems(1,2) Some]
    have "0 < length p" using less.prems by simp
    then have smaller: "length s + 1 - (j + length p) < length s + 1 - i" using step less.prems by linarith
    from step have eq: "drop (i - 1) s = take (j - i) (drop (i - 1) s) @ p @ drop (j + length p - 1) s"
      and occ: "occurrences p (drop (i - 1) s) = Suc (occurrences p (drop (j + length p - 1) s))"
      and next_pos: "1 \<le> j + length p" "j + length p \<le> length s + 1" "i \<le> j"
      using less.prems(2) by auto
    define x where "x = take (j - i) (drop (i - 1) s)"
    have "lua_sub s (int i) (int j - 1) = x"
      using lua_sub_nat [of i s "j - 1"] less.prems(2) next_pos(3) by (simp add: of_nat_diff x_def)
    then have unfold: "split_loop s p i t = split_loop s p (j + length p) (t @ [x])"
      using Some by (simp add: split_loop.simps [of s p i])
    obtain parts where parts: "split_loop s p (j + length p) (t @ [x]) = Some ((t @ [x]) @ parts)" "parts \<noteq> []"
      "js_join p parts = drop (j + length p - 1) s" "length parts = Suc (occurrences p (drop (j + length p - 1) s))"
      "list_all (\<lambda>x. \<not> sublist p x) parts"
      using less.hyps [OF smaller less.prems(1) next_pos(1,2)] by blast
    have "\<not> sublist p x"
      using lua_find_clean [OF less.prems(1,2) Some] by (simp add: x_def)
    moreover have "js_join p (x # parts) = drop (i - 1) s"
      unfolding js_join_Cons [OF parts(2)] parts(3) x_def by (rule eq [symmetric])
    moreover have "length (x # parts) = Suc (occurrences p (drop (i - 1) s))"
      by (simp only: length_Cons parts(4) occ)
    ultimately show ?thesis
      using parts(1,5) unfold by (intro exI [of _ "x # parts"]) simp
  qed
qed


lemma split_loop_diverges:
  assumes "split_loop s [] i t = Some out" and "1 \<le> i" and "i \<le> length s + 1"
  shows False
proof -
  have "p = [] \<longrightarrow> \<not> (1 \<le> i \<and> i \<le> length s + 1)" if "split_loop s p i t = Some out" for p
  proof (rule split_loop.raw_induct [where P = "\<lambda>s p i t out. p = [] \<longrightarrow> \<not> (1 \<le> i \<and> i \<le> length s + 1)",
        OF _ that], intro impI notI)
    fix loop :: "string \<Rightarrow> string \<Rightarrow> nat \<Rightarrow> string list \<Rightarrow> string list option" and s p i t out
    assume ih: "\<And>s p i t out. loop s p i t = Some out \<Longrightarrow> p = [] \<longrightarrow> \<not> (1 \<le> i \<and> i \<le> length s + 1)"
      and body: "(case lua_find s p i of None \<Rightarrow> Some (t @ [lua_sub s (int i) (- 1)])
        | Some j \<Rightarrow> loop s p (j + length p) (t @ [lua_sub s (int i) (int j - 1)])) = Some out"
      and p: "p = []" and i: "1 \<le> i \<and> i \<le> length s + 1"
    have "lua_find s p i = Some i" using i p lua_find_Some [of i s p i] by (simp add: occurs_at_def)
    with body p i have "loop s p i (t @ [lua_sub s (int i) (int i - 1)]) = Some out" by simp
    with ih p i show False by blast
  qed
  with assms show False by blast
qed

lemma titlecase_words:
  \<comment> \<open>words that single blanks separate\<close>
  assumes "\<not> inWord \<Longrightarrow> s \<noteq> [] \<Longrightarrow> \<not> is_white (hd s)"
    and "\<And>i. Suc i < length s \<Longrightarrow> \<not> (is_white (s ! i) \<and> is_white (s ! Suc i))" and "k < length s"
  shows "titlecase_loop inWord s ! k =
    (if (if k = 0 then inWord else \<not> is_white (s ! (k - 1))) then lua_lower (s ! k) else lua_upper (s ! k))"
  using assms
proof (induction inWord s arbitrary: k rule: titlecase_loop.induct)
  case (1 inWord)
  then show ?case by simp
next
  case (2 inWord c s)
  have sep: "\<And>i. Suc i < length s \<Longrightarrow> \<not> (is_white (s ! i) \<and> is_white (s ! Suc i))"
    using "2.prems"(2) [of "Suc _"] by simp
  have first: "s \<noteq> [] \<Longrightarrow> is_white c \<Longrightarrow> \<not> is_white (hd s)"
    using "2.prems"(2) [of 0] by (cases s) auto
  show ?case
  proof (cases k)
    case 0
    then show ?thesis by simp
  next
    case (Suc m)
    then have m: "m < length s" using "2.prems"(3) by simp
    show ?thesis
    proof (cases inWord)
      case True
      from "2.IH"(1) [OF True _ sep m] first True Suc show ?thesis by (cases m) auto
    next
      case False
      with "2.prems"(1) have c: "\<not> is_white c" by simp
      from "2.IH"(2) [OF False _ sep m] False Suc c show ?thesis by (cases m) auto
    qed
  qed
qed

section \<open>Properties\<close>

text \<open>
  C25. The search and replacement blocks do what their names say on every text: \<open>firstIndexOf\<close> and \<open>lastIndexOf\<close>
  give the least and the greatest position at which the second text stands in the first, or 0 if there is none;
  for a text to look for that is not empty, \<open>text_count\<close> returns the number of occurrences that do not overlap and
  \<open>text_replace\<close> returns the text in which exactly these are replaced.
\<close>

theorem text_search_helpers:
  assumes "needle \<noteq> []"
  shows "(firstIndexOf s p = 0 \<and> (\<forall>j. \<not> occurs_at s p j) \<or>
      occurs_at s p (firstIndexOf s p) \<and> (\<forall>j. occurs_at s p j \<longrightarrow> firstIndexOf s p \<le> j)) \<and>
    (lastIndexOf s p = 0 \<and> (\<forall>j. \<not> occurs_at s p j) \<or>
      occurs_at s p (nat (lastIndexOf s p)) \<and> (\<forall>j. occurs_at s p j \<longrightarrow> int j \<le> lastIndexOf s p)) \<and>
    text_count haystack needle = Some (occurrences needle haystack) \<and>
    text_replace haystack needle replacement = Some (replace_all needle replacement haystack)"
  using firstIndexOf_spec [of s p] lastIndexOf_spec [of s p] assms
    count_loop_result [OF assms order.refl, of haystack 0]
    replace_loop_result [OF assms order.refl, of haystack replacement "[]"]
  by (auto simp: text_count_def text_replace_def)

theorem text_search_helpers_witness:
  "lastIndexOf ''abcab'' ''ab'' = 4 \<and> text_count ''aXaXa'' ''X'' = Some 2 \<and>
   text_replace ''aXaXa'' ''X'' ''--'' = Some ''a--a--a''"
proof -
  have "''X'' \<noteq> ''''" by simp
  from text_search_helpers [OF this, of "''abcab''" "''ab''" "''aXaXa''" "''--''"]
  have "text_count ''aXaXa'' ''X'' = Some (occurrences ''X'' ''aXaXa'') \<and>
    text_replace ''aXaXa'' ''X'' ''--'' = Some (replace_all ''X'' ''--'' ''aXaXa'')" by blast
  moreover have "occurrences ''X'' ''aXaXa'' = 2" "replace_all ''X'' ''--'' ''aXaXa'' = ''a--a--a''"
    "lastIndexOf ''abcab'' ''ab'' = 4"
    by (simp_all add: occurrences.simps replace_all.simps lastIndexOf_def lua_find_def)
  ultimately show ?thesis by simp
qed

text \<open>
  C36. Splitting a text and joining it again gives the text back: for a delimiter that is not empty and has no
  magic characters the split returns, the parts joined by the delimiter are the input, no part has the delimiter in it, and there is one
  part more than occurrences.
\<close>

theorem split_join:
  assumes "delim \<noteq> []" and "list_all (\<lambda>c. c \<notin> set lua_magic) delim"
  shows "\<exists>parts. list_string_split input delim = Some parts \<and> js_join delim parts = input \<and>
    list_all (\<lambda>x. \<not> sublist delim x) parts \<and> length parts = Suc (occurrences delim input)"
  using split_loop_result [OF assms(1), of 1 input "[]"] by (auto simp: list_string_split_def)

theorem split_join_witness:
  "\<exists>parts. list_string_split ''a, b, c'' '', '' = Some parts \<and> js_join '', '' parts = ''a, b, c''"
  using split_join [of "'', ''" "''a, b, c''"] by (auto simp: lua_magic_def)

text \<open>
  The helpers do not handle all boundary inputs: replacing an empty text in a text that is not empty and splitting at an empty
  delimiter never return, and a word after a blank at the start or after two blanks is not put into title case.
\<close>

theorem text_helpers_boundary:
  "text_replace (c # s) [] replacement = None \<and> list_string_split input [] = None \<and>
   text_titlecase '' ab  cd'' = '' ab  cd''"
proof -
  have "text_replace (c # s) [] replacement \<noteq> Some out" for out
    using replace_loop_diverges [of "c # s" replacement 1 "[]" out] by (auto simp: text_replace_def)
  moreover have "list_string_split input [] \<noteq> Some out" for out
    using split_loop_diverges [of input 1 "[]" out] by (auto simp: list_string_split_def)
  moreover have "text_titlecase '' ab  cd'' = '' ab  cd''" by code_simp
  ultimately show ?thesis by (metis not_None_eq)
qed

end
