(* ===== verification/List_Helpers.thy ===== *)
theory List_Helpers
  imports Text_Helpers "HOL-Library.Multiset"
begin

text \<open>
  The helper functions on lists, numbers and colours that the bundled Lua generator writes into a program
  (templates in \<open>lua_compressed.js\<close>). A Lua list is a table with the keys 1 to n, here a list; reading
  outside of it gives nil, here \<open>None\<close>. Numbers are exact reals. \<open>table.sort\<close>, which may put equal
  elements in any order, is met through the interface \<open>table_sort\<close>; random numbers are arguments.
\<close>

section \<open>Tables\<close>

definition table_get :: "'a list \<Rightarrow> int \<Rightarrow> 'a option" where
  "table_get t i = (if 1 \<le> i \<and> i \<le> int (length t) then Some (t ! nat (i - 1)) else None)"

definition table_remove :: "'a list \<Rightarrow> int \<Rightarrow> ('a option \<times> 'a list) option" where
  \<comment> \<open>\<open>table.remove(t, pos)\<close>; \<open>None\<close> is the error \<open>position out of bounds\<close>\<close>
  "table_remove t pos =
     (if 1 \<le> pos \<and> pos \<le> int (length t)
      then Some (Some (t ! nat (pos - 1)), take (nat (pos - 1)) t @ drop (nat pos) t)
      else if pos = int (length t) + 1 \<or> pos = int (length t) then Some (None, t)
      else None)"

section \<open>Lists\<close>

definition create_list_repeated :: "'a \<Rightarrow> int \<Rightarrow> 'a list" where
  "create_list_repeated item n = fold (\<lambda>i t. t @ [item]) [1..n] []"

fun first_index_loop :: "'a list \<Rightarrow> 'a \<Rightarrow> nat \<Rightarrow> nat" where
  "first_index_loop [] e k = 0"
| "first_index_loop (v # t) e k = (if v = e then k else first_index_loop t e (k + 1))"

definition first_index :: "'a list \<Rightarrow> 'a \<Rightarrow> nat" where
  "first_index t e = first_index_loop t e 1"

fun last_index_loop :: "'a list \<Rightarrow> 'a \<Rightarrow> nat \<Rightarrow> nat" where
  \<comment> \<open>\<open>i\<close> runs from the length down to one\<close>
  "last_index_loop t e 0 = 0"
| "last_index_loop t e (Suc i) = (if t ! i = e then Suc i else last_index_loop t e i)"

definition last_index :: "'a list \<Rightarrow> 'a \<Rightarrow> nat" where
  "last_index t e = last_index_loop t e (length t)"

datatype list_where = FIRST | FROM_START | FROM_END | LAST | RANDOM

definition where_index :: "list_where \<Rightarrow> 'a list \<Rightarrow> int \<Rightarrow> (nat \<Rightarrow> nat) \<Rightarrow> int" where
  \<comment> \<open>the value of the text that \<open>getListIndex\<close> returns\<close>
  "where_index w t pos rnd =
     (case w of FIRST \<Rightarrow> 1 | FROM_START \<Rightarrow> pos | FROM_END \<Rightarrow> int (length t) + 1 - pos | LAST \<Rightarrow> int (length t)
      | RANDOM \<Rightarrow> int (rnd (length t)))"

definition list_get :: "list_where \<Rightarrow> (nat \<Rightarrow> nat) \<Rightarrow> 'a list \<Rightarrow> int \<Rightarrow> 'a option" where
  "list_get w rnd t pos = table_get t (where_index w t pos rnd)"

definition list_remove :: "list_where \<Rightarrow> (nat \<Rightarrow> nat) \<Rightarrow> 'a list \<Rightarrow> int \<Rightarrow> ('a option \<times> 'a list) option" where
  "list_remove w rnd t pos = table_remove t (where_index w t pos rnd)"

definition list_sublist ::
  "list_where \<Rightarrow> list_where \<Rightarrow> (nat \<Rightarrow> nat) \<Rightarrow> 'a list \<Rightarrow> int \<Rightarrow> int \<Rightarrow> 'a list" where
  \<comment> \<open>appending nil leaves a table as it is\<close>
  "list_sublist w1 w2 rnd source at1 at2 =
     (let start = where_index w1 source at1 rnd; finish = where_index w2 source at2 rnd
      in fold (\<lambda>i t. case table_get source i of None \<Rightarrow> t | Some v \<Rightarrow> t @ [v]) [start..finish] [])"

definition list_reverse :: "'a list \<Rightarrow> 'a list" where
  "list_reverse inp = fold (\<lambda>i t. t @ [inp ! (i - 1)]) (rev [1..<Suc (length inp)]) []"

datatype sort_type = NUMERIC | TEXT | IGNORE_CASE

definition compareFuncs :: "('a \<Rightarrow> real option) \<Rightarrow> ('a \<Rightarrow> string) \<Rightarrow> sort_type \<Rightarrow> 'a \<Rightarrow> 'a \<Rightarrow> bool" where
  \<comment> \<open>\<open>txt\<close> is \<open>tostring\<close> and \<open>num\<close> is \<open>tonumber\<close> of it\<close>
  "compareFuncs num txt typev a b =
     (case typev of
        NUMERIC \<Rightarrow> (case num a of None \<Rightarrow> 0 | Some x \<Rightarrow> x) < (case num b of None \<Rightarrow> 0 | Some x \<Rightarrow> x)
      | TEXT \<Rightarrow> str_less (txt a) (txt b)
      | IGNORE_CASE \<Rightarrow> str_less (map lua_lower (txt a)) (map lua_lower (txt b)))"

definition list_sort ::
  "(('a \<Rightarrow> 'a \<Rightarrow> bool) \<Rightarrow> 'a list \<Rightarrow> 'a list) \<Rightarrow> ('a \<Rightarrow> real option) \<Rightarrow> ('a \<Rightarrow> string) \<Rightarrow>
   'a list \<Rightarrow> sort_type \<Rightarrow> int \<Rightarrow> 'a list" where
  "list_sort srt num txt t typev direction =
     (let compareTemp = compareFuncs num txt typev;
          compare = (if direction = - 1 then (\<lambda>a b. compareTemp b a) else compareTemp)
      in srt compare t)"

section \<open>Numbers\<close>

definition lua_mod :: "real \<Rightarrow> real \<Rightarrow> real" where
  "lua_mod a b = a - of_int \<lfloor>a / b\<rfloor> * b"

function prime_loop :: "real \<Rightarrow> int \<Rightarrow> bool" where
  \<comment> \<open>\<open>for x = 6, math.sqrt(n) + 1.5, 6\<close>\<close>
  "prime_loop n x =
     (if of_int x \<le> sqrt n + 3 / 2 then
        if lua_mod n (of_int x - 1) = 0 \<or> lua_mod n (of_int x + 1) = 0 then False else prime_loop n (x + 6)
      else True)"
  by pat_completeness auto

termination
  by (relation "measure (\<lambda>(n, x). nat (\<lfloor>sqrt n + 3 / 2\<rfloor> + 1 - x))") (auto simp: le_floor_iff)

declare prime_loop.simps [simp del]

definition math_isPrime :: "real \<Rightarrow> bool" where
  "math_isPrime n =
     (if n = 2 \<or> n = 3 then True
      else if \<not> 1 < n \<or> lua_mod n 1 \<noteq> 0 \<or> lua_mod n 2 = 0 \<or> lua_mod n 3 = 0 then False
      else prime_loop n 6)"

definition math_sum :: "real list \<Rightarrow> real" where
  "math_sum t = fold (\<lambda>v result. result + v) t 0"

definition math_min :: "real list \<Rightarrow> real" where
  \<comment> \<open>the first element replaces \<open>math.huge\<close>\<close>
  "math_min t = (case t of [] \<Rightarrow> 0 | v # t \<Rightarrow> fold (\<lambda>v result. if v < result then v else result) t v)"

definition math_max :: "real list \<Rightarrow> real" where
  "math_max t = (case t of [] \<Rightarrow> 0 | v # t \<Rightarrow> fold (\<lambda>v result. if result < v then v else result) t v)"

definition math_average :: "real list \<Rightarrow> real" where
  "math_average t = (if length t = 0 then 0 else math_sum t / of_nat (length t))"

definition math_median :: "((real \<Rightarrow> real \<Rightarrow> bool) \<Rightarrow> real list \<Rightarrow> real list) \<Rightarrow> real option list \<Rightarrow> real option" where
  \<comment> \<open>an element that is no number is \<open>None\<close>; the result \<open>None\<close> is an error, arithmetic on nil\<close>
  "math_median srt t =
     (if length t = 0 then Some 0
      else (let temp = srt (<) (map the (filter (\<lambda>v. v \<noteq> None) t)); n = length temp
            in if n mod 2 = 0 then
                 (if n = 0 then None else Some ((temp ! (n div 2 - 1) + temp ! (n div 2)) / 2))
               else Some (temp ! ((n + 1) div 2 - 1))))"

definition mode_counts :: "'a list \<Rightarrow> ('a \<times> nat) list" where
  \<comment> \<open>the table \<open>counts\<close>, its keys in some order\<close>
  "mode_counts t =
     fold (\<lambda>v c. case map_of c v of None \<Rightarrow> c @ [(v, 1)]
                 | Some n \<Rightarrow> map (\<lambda>(k, m). (k, if k = v then n + 1 else m)) c) t []"

definition math_modes :: "'a list \<Rightarrow> 'a list" where
  "math_modes t =
     (let counts = mode_counts t;
          biggestCount = fold (\<lambda>(k, v) b. if b < v then v else b) counts 0
      in map fst (filter (\<lambda>(k, v). v = biggestCount) counts))"

definition math_standard_deviation :: "real list \<Rightarrow> real option" where
  \<comment> \<open>for a list of numbers; \<open>None\<close> is not a number, zero divided by zero\<close>
  "math_standard_deviation t =
     (let m = (if length t = 0 then 0 else math_sum t / of_nat (length t));
          (total, c) = fold (\<lambda>v (total, c). (total + (v - m) * (v - m), c + 1)) t (0, 0 :: int)
      in if c - 1 = 0 then None else Some (sqrt (total / of_int (c - 1))))"

definition math_random_list :: "(nat \<Rightarrow> nat) \<Rightarrow> 'a list \<Rightarrow> 'a option" where
  "math_random_list rnd t = (if length t = 0 then None else table_get t (int (rnd (length t))))"

section \<open>Colours\<close>

definition lower_hex :: "nat \<Rightarrow> char" where
  "lower_hex n = (if n < 10 then char_of (48 + n) else char_of (87 + n))"

definition hex2 :: "nat \<Rightarrow> string" where
  \<comment> \<open>\<open>%02x\<close>, for a number below 256\<close>
  "hex2 n = [lower_hex (n div 16), lower_hex (n mod 16)]"

definition hex_value :: "char \<Rightarrow> nat option" where
  "hex_value c =
     (let n = (of_char c :: nat)
      in if 48 \<le> n \<and> n \<le> 57 then Some (n - 48) else if 97 \<le> n \<and> n \<le> 102 then Some (n - 87)
         else if 65 \<le> n \<and> n \<le> 70 then Some (n - 55) else None)"

definition tonumber16 :: "string \<Rightarrow> nat option" where
  \<comment> \<open>\<open>tonumber(s, 16)\<close> for two hexadecimal digits; blanks and a sign are not modelled\<close>
  "tonumber16 s =
     (if s = [] then None
      else fold (\<lambda>c r. case (r, hex_value c) of (Some n, Some d) \<Rightarrow> Some (16 * n + d) | _ \<Rightarrow> None) s (Some 0))"

definition percent :: "real \<Rightarrow> nat" where
  "percent r = nat \<lfloor>min 100 (max 0 r) * (255 / 100) + 1 / 2\<rfloor>"

definition colour_rgb :: "real \<Rightarrow> real \<Rightarrow> real \<Rightarrow> string" where
  "colour_rgb r g b = ''#'' @ hex2 (percent r) @ hex2 (percent g) @ hex2 (percent b)"

definition mix :: "real \<Rightarrow> nat \<Rightarrow> nat \<Rightarrow> nat" where
  "mix ratio a b = nat \<lfloor>of_nat a * (1 - ratio) + of_nat b * ratio + 1 / 2\<rfloor>"

definition colour_blend :: "string \<Rightarrow> string \<Rightarrow> real \<Rightarrow> string option" where
  \<comment> \<open>\<open>None\<close> is an error: arithmetic on nil\<close>
  "colour_blend colour1 colour2 ratio =
     (let part = (\<lambda>c k. tonumber16 (lua_sub c k (k + 1))); ratio = min 1 (max 0 ratio)
      in case (part colour1 2, part colour2 2, part colour1 4, part colour2 4, part colour1 6, part colour2 6) of
           (Some r1, Some r2, Some g1, Some g2, Some b1, Some b2) \<Rightarrow>
             Some (''#'' @ hex2 (mix ratio r1 r2) @ hex2 (mix ratio g1 g2) @ hex2 (mix ratio b1 b2))
         | _ \<Rightarrow> None)"


section \<open>Primality\<close>

definition prime_int :: "int \<Rightarrow> bool" where
  "prime_int k \<longleftrightarrow> 1 < k \<and> (\<forall>m > 0. m dvd k \<longrightarrow> m = 1 \<or> m = k)"

lemma lua_mod_of_int:
  assumes "0 < m"
  shows "lua_mod (of_int k) (of_int m) = of_int (k mod m)"
proof -
  have "k mod m = k - k div m * m" by (simp add: minus_div_mult_eq_mod)
  then show ?thesis by (simp add: lua_mod_def floor_divide_of_int_eq)
qed

lemma lua_mod_dvd: "0 < m \<Longrightarrow> lua_mod (of_int k) (of_int m) = 0 \<longleftrightarrow> m dvd k"
  by (simp add: lua_mod_of_int dvd_eq_mod_eq_0)

lemma lua_mod_whole: "lua_mod n 1 = 0 \<longleftrightarrow> (\<exists>k. n = of_int k)"
  by (auto simp: lua_mod_def)

definition in_range :: "int \<Rightarrow> int \<Rightarrow> bool" where
  "in_range k y \<longleftrightarrow> of_int y \<le> sqrt (of_int k) + 3 / 2"

lemma prime_loop_iff:
  assumes "6 \<le> x"
  shows "prime_loop (of_int k) x \<longleftrightarrow>
    (\<forall>y. x \<le> y \<and> (\<exists>j. y = x + 6 * j) \<longrightarrow> in_range k y \<longrightarrow> \<not> (y - 1) dvd k \<and> \<not> (y + 1) dvd k)"
  using assms
proof (induction "nat (\<lfloor>sqrt (of_int k) + 3 / 2\<rfloor> + 1 - x)" arbitrary: x rule: less_induct)
  case less
  show ?case
  proof (cases "in_range k x")
    case False
    have "\<not> in_range k y" if "x \<le> y" for y using False that by (simp add: in_range_def)
    with False show ?thesis by (subst prime_loop.simps) (auto simp: in_range_def)
  next
    case True
    then have dec: "nat (\<lfloor>sqrt (of_int k) + 3 / 2\<rfloor> + 1 - (x + 6)) < nat (\<lfloor>sqrt (of_int k) + 3 / 2\<rfloor> + 1 - x)"
      by (simp add: in_range_def le_floor_iff)
    have dv: "lua_mod (of_int k) (of_int x - 1) = 0 \<longleftrightarrow> (x - 1) dvd k"
      "lua_mod (of_int k) (of_int x + 1) = 0 \<longleftrightarrow> (x + 1) dvd k"
      using lua_mod_dvd [of "x - 1" k] lua_mod_dvd [of "x + 1" k] less.prems by simp_all
    have step: "x \<le> y \<and> (\<exists>j. y = x + 6 * j) \<longleftrightarrow> y = x \<or> x + 6 \<le> y \<and> (\<exists>j. y = x + 6 + 6 * j)" for y :: int
      by presburger
    have "prime_loop (of_int k) x \<longleftrightarrow> \<not> (x - 1) dvd k \<and> \<not> (x + 1) dvd k \<and> prime_loop (of_int k) (x + 6)"
      using True by (subst prime_loop.simps) (simp add: dv in_range_def)
    also have "prime_loop (of_int k) (x + 6) \<longleftrightarrow>
      (\<forall>y. x + 6 \<le> y \<and> (\<exists>j. y = x + 6 + 6 * j) \<longrightarrow> in_range k y \<longrightarrow> \<not> (y - 1) dvd k \<and> \<not> (y + 1) dvd k)"
      using less.hyps [OF dec] less.prems by simp
    finally show ?thesis unfolding step using True by blast
  qed
qed

lemma small_divisor:
  assumes "1 < k" and "\<not> prime_int k"
  shows "\<exists>d. 1 < d \<and> d dvd k \<and> d * d \<le> k"
proof -
  from assms obtain m where m: "0 < m" "m dvd k" "m \<noteq> 1" "m \<noteq> k" by (auto simp: prime_int_def)
  then obtain q where q: "k = m * q" by (auto simp: dvd_def)
  have "0 < m * q" using q assms(1) by simp
  then have "0 < q" using m(1) by (rule zero_less_mult_pos)
  moreover have "q \<noteq> 1" using q m(4) by auto
  ultimately have "1 < m" "1 < q" using m by auto
  show ?thesis
  proof (cases "m \<le> q")
    case True
    then have "m * m \<le> k" unfolding q using \<open>1 < m\<close> by (intro mult_left_mono) auto
    then show ?thesis using \<open>1 < m\<close> m by blast
  next
    case False
    then have "q * q \<le> k" unfolding q using \<open>1 < q\<close> by (intro mult_right_mono) auto
    then show ?thesis using \<open>1 < q\<close> q by (metis dvd_triv_right)
  qed
qed

lemma prime_loop_prime:
  assumes "4 < k" and "\<not> 2 dvd k" and "\<not> 3 dvd k"
  shows "prime_loop (of_int k) 6 \<longleftrightarrow> prime_int k"
proof
  assume loop: "prime_loop (of_int k) 6"
  show "prime_int k"
  proof (rule ccontr)
    assume "\<not> prime_int k"
    then obtain d where d: "1 < d" "d dvd k" "d * d \<le> k" using small_divisor [of k] assms(1) by auto
    have "\<not> 2 dvd d" "\<not> 3 dvd d" using assms(2,3) d(2) dvd_trans by blast+
    then have "\<exists>j. d + 1 = 6 + 6 * j \<or> d - 1 = 6 + 6 * j" using d(1) by presburger
    then obtain y j where y: "y = 6 + 6 * j" "y = d + 1 \<or> y = d - 1" by blast
    have "of_int d \<le> sqrt (of_int k)" using d(1,3) by (simp add: real_le_rsqrt power2_eq_square flip: of_int_mult)
    then have "in_range k y" using y(2) by (auto simp: in_range_def)
    moreover have "6 \<le> y" using y d(1) by presburger
    ultimately have "\<not> (y - 1) dvd k \<and> \<not> (y + 1) dvd k"
      using loop y(1) prime_loop_iff [of 6 k] by blast
    with y(2) d(2) show False by auto
  qed
next
  assume p: "prime_int k"
  have "\<not> (y - 1) dvd k \<and> \<not> (y + 1) dvd k" if "6 \<le> y" "in_range k y" for y
  proof -
    have "y \<noteq> k + 1 \<and> y \<noteq> k - 1"
    proof (rule ccontr)
      assume "\<not> ?thesis"
      then have "of_int k - 5 / 2 \<le> sqrt (of_int k)" using that(2) by (auto simp: in_range_def)
      moreover have "5 \<le> (of_int k :: real)" using assms(1) by simp
      ultimately have "(of_int k - 5 / 2) * (of_int k - 5 / 2) \<le> sqrt (of_int k) * sqrt (of_int k :: real)"
        by (intro mult_mono) auto
      then have "(of_int k - 5 / 2) * (of_int k - 5 / 2) \<le> (of_int k :: real)" using assms(1) by simp
      moreover have "0 \<le> (of_int k - 5) * (of_int k - 1 :: real)" using \<open>5 \<le> of_int k\<close> by simp
      ultimately show False by (simp add: algebra_simps)
    qed
    moreover have "m = 1 \<or> m = k" if "m dvd k" "0 < m" for m using p that by (simp add: prime_int_def)
    from this [of "y - 1"] this [of "y + 1"] that(1)
    have "(y - 1) dvd k \<longrightarrow> y - 1 = k" "(y + 1) dvd k \<longrightarrow> y + 1 = k" by auto
    ultimately show ?thesis by auto
  qed
  then show "prime_loop (of_int k) 6" by (simp add: prime_loop_iff)
qed


text \<open>
  C21. The helper behind the property block \<open>is prime\<close> is right for every number: it answers true exactly for the primes, and
  false for fractions, negative numbers, zero and one. The loop over the neighbours of multiples of six up to
  the square root ends and misses no divisor.
\<close>

theorem math_isPrime_correct: "math_isPrime n \<longleftrightarrow> (\<exists>k. n = of_int k \<and> prime_int k)"
proof (cases "\<exists>k. n = of_int k")
  case False
  then have "n \<noteq> 2" "n \<noteq> 3" by (metis of_int_numeral)+
  with False show ?thesis by (simp add: math_isPrime_def lua_mod_whole)
next
  case True
  then obtain k where n: "n = of_int k" ..
  have "lua_mod n 2 = 0 \<longleftrightarrow> 2 dvd k" "lua_mod n 3 = 0 \<longleftrightarrow> 3 dvd k"
    using lua_mod_dvd [of 2 k] lua_mod_dvd [of 3 k] by (simp_all add: n)
  then have eq: "math_isPrime n \<longleftrightarrow> k = 2 \<or> k = 3 \<or> 1 < k \<and> \<not> 2 dvd k \<and> \<not> 3 dvd k \<and> prime_loop (of_int k) 6"
    using lua_mod_whole [of n] by (auto simp: math_isPrime_def n)
  have small: "prime_int 2" "prime_int 3"
  proof -
    have "m = 1 \<or> m = 3" if "0 < m" "m dvd 3" for m :: int
      using zdvd_imp_le [OF that(2)] that by (cases "m = 2") auto
    then show "prime_int 3" by (simp add: prime_int_def)
    show "prime_int 2" by (auto simp: prime_int_def dest: zdvd_imp_le)
  qed
  have big: "prime_int k \<longleftrightarrow> \<not> 2 dvd k \<and> \<not> 3 dvd k \<and> prime_loop (of_int k) 6" if "3 < k"
  proof (cases "2 dvd k \<or> 3 dvd k")
    case True
    then have "\<exists>m > 0. m dvd k \<and> m \<noteq> 1 \<and> m \<noteq> k"
      using that by (elim disjE) (rule exI [of _ 2], simp, rule exI [of _ 3], simp)
    then have "\<not> prime_int k" by (auto simp: prime_int_def)
    with True show ?thesis by blast
  next
    case False
    then have "4 < k" using that by (cases "k = 4") auto
    with False show ?thesis using prime_loop_prime by blast
  qed
  consider "k \<le> 1" | "k = 2" | "k = 3" | "3 < k" by linarith
  then have "math_isPrime n \<longleftrightarrow> prime_int k"
    unfolding eq by cases (auto simp: small big, auto simp: prime_int_def)
  then show ?thesis by (simp add: n)
qed


section \<open>Lists\<close>

lemma fold_snoc: "fold (\<lambda>i t. t @ [f i]) xs acc = acc @ map f xs"
  by (induction xs arbitrary: acc) simp_all

lemma create_list_repeated_eq: "create_list_repeated item n = replicate (nat n) item"
  by (simp add: create_list_repeated_def fold_snoc map_replicate_const)

lemma list_reverse_eq: "list_reverse inp = rev inp"
proof -
  have "map (\<lambda>i. inp ! (i - 1)) [1..<Suc (length inp)] = inp"
    by (rule nth_equalityI) (simp_all del: upt_Suc)
  then have "rev (map (\<lambda>i. inp ! (i - 1)) [1..<Suc (length inp)]) = rev inp" by (simp only:)
  then show ?thesis by (simp only: list_reverse_def fold_snoc rev_map append_Nil)
qed

lemma first_index_spec:
  "first_index t e = 0 \<and> e \<notin> set t \<or>
   (let i = first_index t e in 1 \<le> i \<and> i \<le> length t \<and> t ! (i - 1) = e \<and> (\<forall>j < i - 1. t ! j \<noteq> e))"
proof -
  have "first_index_loop t e k = 0 \<and> e \<notin> set t \<or>
    (let i = first_index_loop t e k in k \<le> i \<and> i < k + length t \<and> t ! (i - k) = e \<and> (\<forall>j < i - k. t ! j \<noteq> e))"
    if "0 < k" for k
    using that
  proof (induction t e k rule: first_index_loop.induct)
    case (2 v t e k)
    show ?case
    proof (cases "v = e")
      case False
      let ?i = "first_index_loop t e (k + 1)"
      have "e \<notin> set t \<and> ?i = 0 \<or> k + 1 \<le> ?i \<and> ?i < k + 1 + length t \<and> t ! (?i - (k + 1)) = e \<and>
          (\<forall>j < ?i - (k + 1). t ! j \<noteq> e)"
        using "2.IH" [OF False] by (auto simp: Let_def)
      moreover have "(\<forall>j < ?i - k. (v # t) ! j \<noteq> e)" if "k + 1 \<le> ?i" "\<forall>j < ?i - (k + 1). t ! j \<noteq> e"
      proof (intro allI impI)
        show "(v # t) ! j \<noteq> e" if "j < ?i - k" for j
          using that \<open>\<forall>j < ?i - (k + 1). t ! j \<noteq> e\<close> False by (cases j) auto
      qed
      moreover have "?i - k = Suc (?i - (k + 1))" if "k + 1 \<le> ?i" using that by simp
      ultimately show ?thesis using False by (auto simp: Let_def)
    qed (simp add: Let_def)
  qed simp
  from this [of 1] show ?thesis by (auto simp: first_index_def Let_def)
qed

lemma last_index_spec:
  "last_index t e = 0 \<and> e \<notin> set t \<or>
   (let i = last_index t e in 1 \<le> i \<and> i \<le> length t \<and> t ! (i - 1) = e \<and> (\<forall>j < length t. i \<le> j \<longrightarrow> t ! j \<noteq> e))"
proof -
  have "n \<le> length t \<Longrightarrow> last_index_loop t e n = 0 \<and> (\<forall>j < n. t ! j \<noteq> e) \<or>
    (let i = last_index_loop t e n in 1 \<le> i \<and> i \<le> n \<and> t ! (i - 1) = e \<and> (\<forall>j < n. i \<le> j \<longrightarrow> t ! j \<noteq> e))" for n
  proof (induction n)
    case (Suc n)
    then show ?case by (cases "t ! n = e") (auto simp: Let_def less_Suc_eq)
  qed simp
  from this [of "length t"] show ?thesis by (auto simp: last_index_def Let_def in_set_conv_nth)
qed

lemma list_sublist_slice:
  assumes "1 \<le> where_index w1 t a rnd" and "where_index w2 t b rnd \<le> int (length t)"
  shows "list_sublist w1 w2 rnd t a b =
    take (nat (where_index w2 t b rnd - where_index w1 t a rnd + 1)) (drop (nat (where_index w1 t a rnd - 1)) t)"
proof -
  define s f where "s = where_index w1 t a rnd" and "f = where_index w2 t b rnd"
  have "fold (\<lambda>i u. case table_get t i of None \<Rightarrow> u | Some v \<Rightarrow> u @ [v]) is acc = acc @ map (\<lambda>i. t ! nat (i - 1)) is"
    if "\<forall>i \<in> set is. 1 \<le> i \<and> i \<le> int (length t)" for "is" acc
    using that by (induction "is" arbitrary: acc) (simp_all add: table_get_def)
  then have "list_sublist w1 w2 rnd t a b = map (\<lambda>i. t ! nat (i - 1)) [s..f]"
    using assms by (simp add: list_sublist_def s_def f_def Let_def)
  also have "\<dots> = take (nat (f - s + 1)) (drop (nat (s - 1)) t)"
  proof (rule nth_equalityI)
    show "length (map (\<lambda>i. t ! nat (i - 1)) [s..f]) = length (take (nat (f - s + 1)) (drop (nat (s - 1)) t))"
      using assms by (auto simp: s_def f_def)
    fix i assume "i < length (map (\<lambda>i. t ! nat (i - 1)) [s..f])"
    then have i: "i < nat (f - s + 1)" "s + int i \<le> f" by auto
    have "nat (s + int i - 1) = nat (s - 1) + i" using assms by (simp add: s_def)
    with i assms show "map (\<lambda>i. t ! nat (i - 1)) [s..f] ! i = take (nat (f - s + 1)) (drop (nat (s - 1)) t) ! i"
      by (simp add: nth_upto s_def f_def)
  qed
  finally show ?thesis by (simp add: s_def f_def)
qed


text \<open>
  What the choices of the blocks mean, said without the index that the generator computes: the choice
  \<open>w\<close> with the number \<open>pos\<close> refers to the element that has the elements \<open>xs\<close> before it and
  \<open>ys\<close> after it.
\<close>

definition refers :: "list_where \<Rightarrow> (nat \<Rightarrow> nat) \<Rightarrow> int \<Rightarrow> 'a list \<Rightarrow> 'a list \<Rightarrow> bool" where
  "refers w rnd pos xs ys \<longleftrightarrow>
     (case w of
        FIRST \<Rightarrow> xs = []
      | FROM_START \<Rightarrow> pos = int (length xs) + 1
      | FROM_END \<Rightarrow> pos = int (length ys) + 1
      | LAST \<Rightarrow> ys = []
      | RANDOM \<Rightarrow> rnd (length xs + 1 + length ys) = length xs + 1)"

lemma where_index_refers:
  "refers w rnd pos xs ys \<Longrightarrow> where_index w (xs @ x # ys) pos rnd = int (length xs) + 1"
  by (cases w) (simp_all add: refers_def where_index_def)

lemma list_get_refers: "refers w rnd pos xs ys \<Longrightarrow> list_get w rnd (xs @ x # ys) pos = Some x"
  by (simp add: list_get_def where_index_refers table_get_def)

lemma list_remove_refers:
  "refers w rnd pos xs ys \<Longrightarrow> list_remove w rnd (xs @ x # ys) pos = Some (Some x, xs @ ys)"
  by (simp add: list_remove_def where_index_refers table_remove_def nat_add_distrib)

lemma list_sublist_refers:
  assumes "t = xs @ x # zs" and "t = us @ y # vs" and "refers w1 rnd a xs zs" and "refers w2 rnd b us vs"
  shows "list_sublist w1 w2 rnd t a b = drop (length xs) (take (length us + 1) t)"
proof -
  have w: "where_index w1 t a rnd = int (length xs) + 1" "where_index w2 t b rnd = int (length us) + 1"
    using where_index_refers [OF assms(3), of x] where_index_refers [OF assms(4), of y] assms(1,2) by simp_all
  have "list_sublist w1 w2 rnd t a b = take (nat (int (length us) - int (length xs) + 1)) (drop (length xs) t)"
    using list_sublist_slice [of w1 t a rnd w2 b] assms(2) w by simp
  also have "nat (int (length us) - int (length xs) + 1) = length us + 1 - length xs" by simp
  finally show ?thesis by (simp add: drop_take)
qed

lemma list_get_outside:
  "pos < 1 \<or> int (length t) < pos \<Longrightarrow>
   list_get FROM_START rnd t pos = None \<and> list_get FROM_END rnd t pos = None"
  by (auto simp: list_get_def where_index_def table_get_def)

text \<open>
  C23. The list helpers agree with the operations they stand for. Getting the first, the last, a random, or the
  \<open>n\<close>-th element counted from either end gives that element, and removing it gives the element and the list
  without it; a number outside of the list gets nil. A sublist between two such elements is the slice from the one to
  the other, both included. \<open>list_reverse\<close> is reversal, \<open>create_list_repeated\<close> is repetition, and
  \<open>first_index\<close> and \<open>last_index\<close> give the first and the last position of an element or 0.
\<close>

theorem list_helpers_correct:
  assumes "t = xs @ x # zs" and "refers w1 rnd a xs zs" and "t = us @ y # vs" and "refers w2 rnd b us vs"
  shows "list_get w1 rnd t a = Some x \<and> list_remove w1 rnd t a = Some (Some x, xs @ zs) \<and>
    list_sublist w1 w2 rnd t a b = drop (length xs) (take (length us + 1) t) \<and>
    (pos < 1 \<or> int (length t) < pos \<longrightarrow>
       list_get FROM_START rnd t pos = None \<and> list_get FROM_END rnd t pos = None) \<and>
    list_reverse t = rev t \<and> create_list_repeated item n = replicate (nat n) item \<and>
    (first_index t e = 0 \<and> e \<notin> set t \<or>
      (let i = first_index t e in 1 \<le> i \<and> i \<le> length t \<and> t ! (i - 1) = e \<and> (\<forall>j < i - 1. t ! j \<noteq> e))) \<and>
    (last_index t e = 0 \<and> e \<notin> set t \<or>
      (let i = last_index t e in 1 \<le> i \<and> i \<le> length t \<and> t ! (i - 1) = e \<and> (\<forall>j < length t. i \<le> j \<longrightarrow> t ! j \<noteq> e)))"
  using first_index_spec [of t e] last_index_spec [of t e] list_get_outside [of pos t rnd]
    list_sublist_refers [OF assms(1,3,2,4)] list_get_refers [OF assms(2), of x]
    list_remove_refers [OF assms(2), of x] assms(1)
  by (simp add: list_reverse_eq create_list_repeated_eq)

theorem list_helpers_correct_witness:
  "refers FIRST (\<lambda>n. 1) 0 [] [20, 30, 40 :: int] \<and> refers FROM_END (\<lambda>n. 1) 2 [10, 20] [40 :: int] \<and>
   list_get FIRST (\<lambda>n. 1) [10, 20, 30, 40 :: int] 0 = Some 10 \<and>
   list_remove FIRST (\<lambda>n. 1) [10, 20, 30, 40 :: int] 0 = Some (Some 10, [20, 30, 40]) \<and>
   list_sublist FIRST FROM_END (\<lambda>n. 1) [10, 20, 30, 40 :: int] 0 2 = [10, 20, 30]"
proof -
  have r: "refers FIRST (\<lambda>n. 1) 0 [] [20, 30, 40 :: int]" "refers FROM_END (\<lambda>n. 1) 2 [10, 20] [40 :: int]"
    by (simp_all add: refers_def)
  have t: "[10, 20, 30, 40 :: int] = [] @ 10 # [20, 30, 40]" "[10, 20, 30, 40 :: int] = [10, 20] @ 30 # [40]"
    by simp_all
  note all = list_helpers_correct [OF t(1) r(1) t(2) r(2), of 0 0 0 0, THEN conjunct1]
    list_helpers_correct [OF t(1) r(1) t(2) r(2), of 0 0 0 0, THEN conjunct2, THEN conjunct1]
    list_helpers_correct [OF t(1) r(1) t(2) r(2), of 0 0 0 0, THEN conjunct2, THEN conjunct2, THEN conjunct1]
  with r show ?thesis by simp
qed

section \<open>Sorting\<close>

definition weak_order :: "('a \<Rightarrow> 'a \<Rightarrow> bool) \<Rightarrow> 'a set \<Rightarrow> bool" where
  "weak_order lt A \<longleftrightarrow>
     (\<forall>x \<in> A. \<forall>y \<in> A. lt x y \<longrightarrow> \<not> lt y x) \<and>
     (\<forall>x \<in> A. \<forall>y \<in> A. \<forall>z \<in> A. \<not> lt y x \<longrightarrow> \<not> lt z y \<longrightarrow> \<not> lt z x)"

lemma weak_order_subset: "weak_order lt A \<Longrightarrow> B \<subseteq> A \<Longrightarrow> weak_order lt B"
  unfolding weak_order_def by (meson subsetD)

lemma weak_order_trans:
  "weak_order lt A \<Longrightarrow> \<not> lt y x \<Longrightarrow> \<not> lt z y \<Longrightarrow> x \<in> A \<Longrightarrow> y \<in> A \<Longrightarrow> z \<in> A \<Longrightarrow> \<not> lt z x"
  unfolding weak_order_def by blast

lemma weak_order_str: "weak_order (\<lambda>a b. str_less (f a) (f b)) A"
proof -
  have "\<not> str_less y x" if "str_less x y" for x y
    using str_less_trans [of x y x] that by auto
  moreover have "\<not> str_less z x" if "\<not> str_less y x" "\<not> str_less z y" for x y z
    using str_less_total [of y z] str_less_trans [of y z x] that by auto
  ultimately show ?thesis unfolding weak_order_def by blast
qed

lemma weak_order_real: "weak_order (\<lambda>a b. (f a :: real) < f b) A"
  unfolding weak_order_def by auto

lemma weak_order_flip: "weak_order lt A \<Longrightarrow> weak_order (\<lambda>a b. lt b a) A"
  unfolding weak_order_def by blast

lemma weak_order_compare: "weak_order (compareFuncs num txt typev) A"
proof (cases typev)
  case NUMERIC
  then show ?thesis using weak_order_real unfolding compareFuncs_def by simp
next
  case TEXT
  then show ?thesis using weak_order_str unfolding compareFuncs_def by simp
next
  case IGNORE_CASE
  then show ?thesis using weak_order_str [of "\<lambda>a. map lua_lower (txt a)"] unfolding compareFuncs_def by simp
qed

locale table_sort =
  fixes srt :: "('a \<Rightarrow> 'a \<Rightarrow> bool) \<Rightarrow> 'a list \<Rightarrow> 'a list"
  assumes same_elements: "mset (srt lt xs) = mset xs"
    and ordered: "weak_order lt (set xs) \<Longrightarrow> sorted_wrt (\<lambda>x y. \<not> lt y x) (srt lt xs)"
begin

lemma length_srt: "length (srt lt xs) = length xs"
  by (metis same_elements size_mset)

lemma list_sort_sorted:
  "mset (list_sort srt num txt t typev direction) = mset t \<and>
   sorted_wrt (\<lambda>x y. if direction = - 1 then \<not> compareFuncs num txt typev x y else \<not> compareFuncs num txt typev y x)
     (list_sort srt num txt t typev direction)"
  using same_elements ordered [OF weak_order_compare] ordered [OF weak_order_flip [OF weak_order_compare]]
  by (simp add: list_sort_def Let_def)

end

fun lua_insert :: "('a \<Rightarrow> 'a \<Rightarrow> bool) \<Rightarrow> 'a \<Rightarrow> 'a list \<Rightarrow> 'a list" where
  "lua_insert lt x [] = [x]"
| "lua_insert lt x (y # ys) = (if lt y x then y # lua_insert lt x ys else x # y # ys)"

definition lua_sort :: "('a \<Rightarrow> 'a \<Rightarrow> bool) \<Rightarrow> 'a list \<Rightarrow> 'a list" where
  \<comment> \<open>one of the results that \<open>table.sort\<close> may have\<close>
  "lua_sort lt xs = foldr (lua_insert lt) xs []"

lemma mset_lua_insert [simp]: "mset (lua_insert lt x ys) = add_mset x (mset ys)"
  by (induction ys) simp_all

lemma set_lua_insert [simp]: "set (lua_insert lt x ys) = insert x (set ys)"
  by (metis mset_lua_insert set_mset_add_mset_insert set_mset_mset)

lemma lua_insert_sorted:
  assumes "weak_order lt (insert x (set ys))" and "sorted_wrt (\<lambda>x y. \<not> lt y x) ys"
  shows "sorted_wrt (\<lambda>x y. \<not> lt y x) (lua_insert lt x ys)"
  using assms
proof (induction ys)
  case (Cons y ys)
  have sub: "weak_order lt (insert x (set ys))" by (rule weak_order_subset [OF Cons.prems(1)]) auto
  show ?case
  proof (cases "lt y x")
    case True
    moreover from this have "\<not> lt x y" using Cons.prems(1) unfolding weak_order_def by simp
    ultimately show ?thesis using Cons.IH [OF sub] Cons.prems(2) by simp
  next
    case False
    moreover from this have "\<not> lt z x" if "z \<in> set ys" for z
    proof -
      have "\<not> lt z y" using Cons.prems(2) that by simp
      then show ?thesis using weak_order_trans [OF Cons.prems(1) False] that by simp
    qed
    ultimately show ?thesis using Cons.prems(2) by simp
  qed
qed simp

interpretation lua: table_sort lua_sort
proof
  fix lt :: "'a \<Rightarrow> 'a \<Rightarrow> bool" and xs
  show mset: "mset (lua_sort lt xs) = mset xs" for xs by (induction xs) (simp_all add: lua_sort_def)
  have set: "set (lua_sort lt xs) = set xs" for xs by (metis mset set_mset_mset)
  show "weak_order lt (set xs) \<Longrightarrow> sorted_wrt (\<lambda>x y. \<not> lt y x) (lua_sort lt xs)"
  proof (induction xs)
    case (Cons x xs)
    then have "sorted_wrt (\<lambda>x y. \<not> lt y x) (lua_sort lt xs)"
      using weak_order_subset [of lt "set (x # xs)" "set xs"] by auto
    then have "sorted_wrt (\<lambda>x y. \<not> lt y x) (lua_insert lt x (lua_sort lt xs))"
      using Cons.prems set [of xs] by (intro lua_insert_sorted) simp_all
    then show ?case by (simp add: lua_sort_def)
  qed (simp add: lua_sort_def)
qed


section \<open>Statistics\<close>

lemma if_min_max:
  "(\<lambda>v r. if v < r then v else r) = (min :: 'a \<Rightarrow> 'a \<Rightarrow> 'a :: linorder)"
  "(\<lambda>v r. if r < v then v else r) = (max :: 'a \<Rightarrow> 'a \<Rightarrow> 'a :: linorder)"
  by (auto simp: min_def max_def fun_eq_iff)

lemma fold_min: "fold (\<lambda>v r. if v < r then v else r) t (m :: 'a :: linorder) = Min (insert m (set t))"
  using Min.set_eq_fold [of m t] by (simp add: if_min_max)

lemma fold_max: "fold (\<lambda>v r. if r < v then v else r) t (m :: 'a :: linorder) = Max (insert m (set t))"
  using Max.set_eq_fold [of m t] by (simp add: if_min_max)

lemma math_sum_eq: "math_sum t = sum_list t"
proof -
  have "fold (\<lambda>v result. result + v) t a = a + sum_list t" for a
    by (induction t arbitrary: a) simp_all
  then show ?thesis by (simp add: math_sum_def)
qed

definition counted :: "'a list \<Rightarrow> ('a \<times> nat) list \<Rightarrow> bool" where
  "counted t c \<longleftrightarrow> distinct (map fst c) \<and> (\<forall>v n. (v, n) \<in> set c \<longleftrightarrow> v \<in> set t \<and> n = count_list t v)"

lemma counted_step:
  assumes "counted t c"
  shows "counted (t @ [v]) (case map_of c v of None \<Rightarrow> c @ [(v, 1)]
    | Some n \<Rightarrow> map (\<lambda>(k, m). (k, if k = v then n + 1 else m)) c)"
proof (cases "map_of c v")
  case None
  then have "v \<notin> fst ` set c" by (simp add: map_of_eq_None_iff)
  moreover from this have "v \<notin> set t" using assms by (force simp: counted_def)
  ultimately show ?thesis using assms None by (auto simp: counted_def count_list_0_iff)
next
  case (Some n)
  then have n: "(v, n) \<in> set c" by (rule map_of_SomeD)
  have v: "v \<in> set t" "n = count_list t v" using assms n by (auto simp: counted_def)
  have "map fst (map (\<lambda>(k, m). (k, if k = v then n + 1 else m)) c) = map fst c" by auto
  moreover have "(k, m) \<in> set (map (\<lambda>(k, m). (k, if k = v then n + 1 else m)) c) \<longleftrightarrow>
    k \<in> set (t @ [v]) \<and> m = count_list (t @ [v]) k" for k m
    using assms v n by (cases "k = v") (force simp: counted_def)+
  ultimately show ?thesis using assms Some by (simp only: counted_def option.case simp_thms)
qed

lemma mode_counts_counted: "counted t (mode_counts t)"
proof (induction t rule: rev_induct)
  case Nil
  show ?case by (simp add: mode_counts_def counted_def)
next
  case (snoc v t)
  have "mode_counts (t @ [v]) = (case map_of (mode_counts t) v of None \<Rightarrow> mode_counts t @ [(v, 1)]
    | Some n \<Rightarrow> map (\<lambda>(k, m). (k, if k = v then n + 1 else m)) (mode_counts t))"
    unfolding mode_counts_def by (simp only: fold_append fold.simps comp_apply id_apply)
  with counted_step [OF snoc, of v] show ?case by (simp only:)
qed

lemma fold_biggest:
  "fold (\<lambda>(k, v) b. if b < v then v else b) c (m :: nat) = Max (insert m (snd ` set c))"
proof -
  have "fold (\<lambda>(k, v) b. if b < v then v else b) c m = fold (\<lambda>v b. if b < v then v else b) (map snd c) m"
    by (simp add: fold_map comp_def case_prod_unfold)
  then show ?thesis by (simp add: fold_max)
qed

lemma math_modes_set:
  "v \<in> set (math_modes t) \<longleftrightarrow> v \<in> set t \<and> (\<forall>w \<in> set t. count_list t w \<le> count_list t v)"
proof -
  let ?c = "mode_counts t"
  have mem: "(w, n) \<in> set ?c \<longleftrightarrow> w \<in> set t \<and> n = count_list t w" for w n
    using mode_counts_counted [of t] by (simp add: counted_def)
  have snds: "snd ` set ?c = count_list t ` set t"
    using mem by (force simp: image_iff)
  have "v \<in> set (math_modes t) \<longleftrightarrow> v \<in> set t \<and> count_list t v = Max (insert 0 (count_list t ` set t))"
    using mem by (force simp: math_modes_def Let_def fold_biggest snds)
  also have "\<dots> \<longleftrightarrow> v \<in> set t \<and> (\<forall>w \<in> set t. count_list t w \<le> count_list t v)"
  proof -
    have "Max (insert 0 (count_list t ` set t)) = count_list t v \<longleftrightarrow>
      (\<forall>w \<in> set t. count_list t w \<le> count_list t v)" if "v \<in> set t"
      using Max_eq_iff [of "insert 0 (count_list t ` set t)" "count_list t v"] that by auto
    then show ?thesis by metis
  qed
  finally show ?thesis .
qed


lemma sorted_rank:
  fixes ys :: "real list"
  assumes "sorted ys" and "i < length ys" and "m \<le> m'" and "ys ! i \<le> m'" and "m \<le> ys ! i"
  shows "i + 1 \<le> length (filter (\<lambda>x. x \<le> m') ys)" and "length ys - i \<le> length (filter (\<lambda>x. m \<le> x) ys)"
proof -
  have "\<forall>x \<in> set (take (i + 1) ys). x \<le> m'"
  proof
    fix x assume "x \<in> set (take (i + 1) ys)"
    then obtain j where j: "x = ys ! j" "j \<le> i" by (auto simp: in_set_conv_nth)
    then have "x \<le> ys ! i" using assms(1,2) by (simp add: sorted_nth_mono)
    with assms(4) show "x \<le> m'" by simp
  qed
  then have "filter (\<lambda>x. x \<le> m') (take (i + 1) ys) = take (i + 1) ys" by (simp add: filter_id_conv)
  then have "length (filter (\<lambda>x. x \<le> m') (take (i + 1) ys)) = i + 1" using assms(2) by simp
  moreover have "filter (\<lambda>x. x \<le> m') ys = filter (\<lambda>x. x \<le> m') (take (i + 1) ys) @ filter (\<lambda>x. x \<le> m') (drop (i + 1) ys)"
    by (metis append_take_drop_id filter_append)
  ultimately show "i + 1 \<le> length (filter (\<lambda>x. x \<le> m') ys)" by simp
  have "\<forall>x \<in> set (drop i ys). m \<le> x"
  proof
    fix x assume "x \<in> set (drop i ys)"
    then obtain j where j: "x = ys ! (i + j)" "i + j < length ys" by (auto simp: in_set_conv_nth)
    then have "ys ! i \<le> x" using assms(1) by (simp add: sorted_nth_mono)
    with assms(5) show "m \<le> x" by simp
  qed
  then have "filter (\<lambda>x. m \<le> x) (drop i ys) = drop i ys" by (simp add: filter_id_conv)
  then have "length (filter (\<lambda>x. m \<le> x) (drop i ys)) = length ys - i" by simp
  moreover have "filter (\<lambda>x. m \<le> x) ys = filter (\<lambda>x. m \<le> x) (take i ys) @ filter (\<lambda>x. m \<le> x) (drop i ys)"
    by (metis append_take_drop_id filter_append)
  ultimately show "length ys - i \<le> length (filter (\<lambda>x. m \<le> x) ys)" by simp
qed

definition splits_in_half :: "real list \<Rightarrow> real \<Rightarrow> bool" where
  \<comment> \<open>at least half of the numbers are at most, and at least half are at least \<open>m\<close>\<close>
  "splits_in_half xs m \<longleftrightarrow>
     length xs \<le> 2 * length (filter (\<lambda>x. x \<le> m) xs) \<and> length xs \<le> 2 * length (filter (\<lambda>x. m \<le> x) xs)"

lemma splits_in_half_mset: "mset xs = mset ys \<Longrightarrow> splits_in_half xs m = splits_in_half ys m"
  unfolding splits_in_half_def by (metis mset_filter size_mset)

lemma median_of_sorted:
  fixes ys :: "real list"
  assumes "sorted ys" and "ys \<noteq> []"
  defines "n \<equiv> length ys"
  shows "odd n \<Longrightarrow> splits_in_half ys (ys ! ((n + 1) div 2 - 1))"
    and "even n \<Longrightarrow> splits_in_half ys ((ys ! (n div 2 - 1) + ys ! (n div 2)) / 2)"
proof -
  assume o: "odd n"
  define i where "i = (n + 1) div 2 - 1"
  have i: "i < length ys" "n = 2 * i + 1" using o by (auto simp: i_def n_def elim!: oddE)
  from sorted_rank [OF assms(1) i(1), of "ys ! i" "ys ! i"] i
  show "splits_in_half ys (ys ! ((n + 1) div 2 - 1))" by (simp add: splits_in_half_def n_def flip: i_def)
next
  assume e: "even n"
  define i where "i = n div 2"
  have i: "n = 2 * i" "0 < i" "i - 1 < length ys" "i < length ys"
  proof -
    show n: "n = 2 * i" using e by (simp add: i_def)
    have "0 < length ys" using assms(2) by simp
    with n show "0 < i" "i - 1 < length ys" "i < length ys" by (simp_all add: n_def)
  qed
  define m where "m = (ys ! (i - 1) + ys ! i) / 2"
  have "ys ! (i - 1) \<le> ys ! i" using assms(1) i by (simp add: sorted_nth_mono)
  then have "ys ! (i - 1) \<le> m" "m \<le> ys ! i" by (auto simp: m_def)
  then have "i \<le> length (filter (\<lambda>x. x \<le> m) ys)" "i \<le> length (filter (\<lambda>x. m \<le> x) ys)"
    using sorted_rank(1) [OF assms(1) i(3), of "ys ! (i - 1)" m] sorted_rank(2) [OF assms(1) i(4), of m "ys ! i"] i
    by (auto simp: n_def)
  then show "splits_in_half ys ((ys ! (n div 2 - 1) + ys ! (n div 2)) / 2)"
    using i by (simp add: splits_in_half_def n_def m_def flip: i_def)
qed

lemma math_median_splits:
  assumes "table_sort srt" and "xs \<noteq> []"
  shows "\<exists>m. math_median srt (map Some xs) = Some m \<and> splits_in_half xs m"
proof -
  define ys where "ys = srt (<) xs"
  have ms: "mset ys = mset xs" using assms(1) by (simp add: ys_def table_sort_def)
  have "sorted_wrt (\<lambda>x y. \<not> y < x) ys"
    using assms(1) weak_order_real [of id] unfolding ys_def table_sort_def by simp
  then have s: "sorted ys" by (simp add: not_less)
  have ne: "ys \<noteq> []" using ms assms(2) by auto
  have "filter (\<lambda>v. v \<noteq> None) (map Some xs) = map Some xs" by (simp add: filter_id_conv)
  then have num: "srt (<) (map the (filter (\<lambda>v. v \<noteq> None) (map Some xs))) = ys" by (simp add: ys_def comp_def)
  have len: "length (map Some xs) \<noteq> 0" "length ys \<noteq> 0" using assms(2) ne by simp_all
  have "math_median srt (map Some xs) =
    Some (if even (length ys) then (ys ! (length ys div 2 - 1) + ys ! (length ys div 2)) / 2
      else ys ! ((length ys + 1) div 2 - 1))"
    unfolding math_median_def num Let_def using len by (simp only: if_False simp_thms even_iff_mod_2_eq_zero) simp
  with median_of_sorted [OF s ne] splits_in_half_mset [OF ms] show ?thesis by simp
qed


text \<open>
  The statistics blocks compute what they are named after, whatever order \<open>table.sort\<close> gives equal elements: minimum and
  maximum of a list that is not empty, its sum, a median that splits the numbers in half, and as modes exactly the
  elements that occur most often; the sort block returns the same elements, ordered by the chosen comparison in the chosen direction.
\<close>

theorem statistics_correct:
  assumes "table_sort srt" and "table_sort srt'" and "xs \<noteq> []"
  shows "math_min xs = Min (set xs) \<and> math_max xs = Max (set xs) \<and> math_sum xs = sum_list xs \<and>
    (\<exists>m. math_median srt (map Some xs) = Some m \<and> splits_in_half xs m) \<and>
    set (math_modes ys) = {v \<in> set ys. \<forall>w \<in> set ys. count_list ys w \<le> count_list ys v} \<and>
    mset (list_sort srt' num txt t typev direction) = mset t \<and>
    sorted_wrt (\<lambda>x y. if direction = - 1 then \<not> compareFuncs num txt typev x y else \<not> compareFuncs num txt typev y x)
      (list_sort srt' num txt t typev direction)"
proof -
  obtain x xs' where xs: "xs = x # xs'" using assms(3) by (cases xs) auto
  have "math_min xs = Min (set xs) \<and> math_max xs = Max (set xs)"
    by (simp add: xs math_min_def math_max_def fold_min fold_max)
  moreover have "set (math_modes ys) = {v \<in> set ys. \<forall>w \<in> set ys. count_list ys w \<le> count_list ys v}"
    by (rule set_eqI) (simp only: math_modes_set mem_Collect_eq)
  ultimately show ?thesis
    using math_median_splits [OF assms(1,3)] table_sort.list_sort_sorted [OF assms(2)] math_sum_eq by blast
qed

theorem statistics_correct_witness:
  "math_max [3, 1, 2] = Max {3, 1, 2} \<and>
   (\<exists>m. math_median lua_sort (map Some [3, 1, 2]) = Some m \<and> splits_in_half [3, 1, 2] m) \<and>
   set (math_modes ''abca'') = {v \<in> set ''abca''. \<forall>w \<in> set ''abca''. count_list ''abca'' w \<le> count_list ''abca'' v}"
proof -
  have "[3, 1, 2 :: real] \<noteq> []" by simp
  from statistics_correct [OF lua.table_sort_axioms lua.table_sort_axioms this, of "''abca''"]
  have "math_max [3, 1, 2] = Max (set [3, 1, 2]) \<and>
    (\<exists>m. math_median lua_sort (map Some [3, 1, 2]) = Some m \<and> splits_in_half [3, 1, 2] m) \<and>
    set (math_modes ''abca'') = {v \<in> set ''abca''. \<forall>w \<in> set ''abca''. count_list ''abca'' w \<le> count_list ''abca'' v}"
    by metis
  then show ?thesis by simp
qed

section \<open>Colours\<close>

definition rgb :: "nat \<Rightarrow> nat \<Rightarrow> nat \<Rightarrow> string" where
  "rgb r g b = ''#'' @ hex2 r @ hex2 g @ hex2 b"

definition is_colour :: "string \<Rightarrow> bool" where
  "is_colour c \<longleftrightarrow> (\<exists>r g b. r < 256 \<and> g < 256 \<and> b < 256 \<and> c = rgb r g b)"

lemma hex_value_digit: "n < 16 \<Longrightarrow> hex_value (lower_hex n) = Some n"
  by (simp add: hex_value_def lower_hex_def Let_def)

lemma tonumber16_hex2: "n < 256 \<Longrightarrow> tonumber16 (hex2 n) = Some n"
  by (simp add: tonumber16_def hex2_def hex_value_digit)

lemma lua_sub_rgb:
  "lua_sub (rgb r g b) 2 3 = hex2 r" "lua_sub (rgb r g b) 4 5 = hex2 g" "lua_sub (rgb r g b) 6 7 = hex2 b"
  using lua_sub_nat [of 2 "rgb r g b" 3] lua_sub_nat [of 4 "rgb r g b" 5] lua_sub_nat [of 6 "rgb r g b" 7]
  by (simp_all add: rgb_def hex2_def)

lemma nat_floor_less: "x < 256 \<Longrightarrow> nat \<lfloor>x :: real\<rfloor> < 256"
proof -
  assume "x < 256"
  then have "\<lfloor>x\<rfloor> < 256" by (simp only: floor_less_iff of_int_numeral)
  then show ?thesis by linarith
qed

lemma percent_bound: "percent r < 256"
proof -
  have "min 100 (max 0 r) * (255 / 100) + 1 / 2 < 256" by (auto simp: min_def max_def)
  then show ?thesis unfolding percent_def by (rule nat_floor_less)
qed

lemma mix_bound:
  assumes "0 \<le> q" and "q \<le> 1" and "a < 256" and "b < 256"
  shows "mix q a b < 256"
proof -
  have a: "(of_nat a :: real) \<le> 255" and b: "(of_nat b :: real) \<le> 255" using assms by auto
  have "of_nat a * (1 - q) + of_nat b * q \<le> 255 * (1 - q) + 255 * q"
    using a b assms(1,2) by (intro add_mono mult_right_mono) auto
  then have "of_nat a * (1 - q) + of_nat b * q + 1 / 2 < 256" by simp
  then show ?thesis unfolding mix_def by (rule nat_floor_less)
qed

lemma floor_half: "\<lfloor>of_nat a + 1 / 2 :: real\<rfloor> = int a"
  by (rule floor_unique) auto

lemma mix_ends: "mix 0 a b = a" "mix 1 a b = b"
  by (simp_all add: mix_def floor_half)

lemma colour_blend_rgb:
  assumes "r1 < 256" "g1 < 256" "b1 < 256" "r2 < 256" "g2 < 256" "b2 < 256"
  shows "colour_blend (rgb r1 g1 b1) (rgb r2 g2 b2) ratio =
    (let q = min 1 (max 0 ratio) in Some (rgb (mix q r1 r2) (mix q g1 g2) (mix q b1 b2)))"
  using assms by (simp add: colour_blend_def Let_def lua_sub_rgb tonumber16_hex2) (simp add: rgb_def)

text \<open>
  Mixing two colours gives a colour of the form \<open>#rrggbb\<close> for every ratio; a ratio of at most 0 gives the first colour and one
  of at least 1 the second. Every triple of percentages, even outside of 0 to 100, gives a colour.
\<close>

theorem colours_well_formed:
  assumes "is_colour c1" and "is_colour c2"
  shows "\<exists>c. colour_blend c1 c2 ratio = Some c \<and> is_colour c \<and> (ratio \<le> 0 \<longrightarrow> c = c1) \<and> (1 \<le> ratio \<longrightarrow> c = c2) \<and>
    is_colour (colour_rgb r g b)"
proof -
  from assms obtain r1 g1 b1 r2 g2 b2 where c: "c1 = rgb r1 g1 b1" "c2 = rgb r2 g2 b2"
    and lt: "r1 < 256" "g1 < 256" "b1 < 256" "r2 < 256" "g2 < 256" "b2 < 256"
    by (auto simp: is_colour_def)
  define q where "q = min 1 (max 0 ratio)"
  have q: "0 \<le> q" "q \<le> 1" "ratio \<le> 0 \<longrightarrow> q = 0" "1 \<le> ratio \<longrightarrow> q = 1" by (auto simp: q_def)
  have "colour_blend c1 c2 ratio = Some (rgb (mix q r1 r2) (mix q g1 g2) (mix q b1 b2))"
    using colour_blend_rgb [OF lt] by (simp add: c q_def Let_def)
  moreover have "is_colour (rgb (mix q r1 r2) (mix q g1 g2) (mix q b1 b2))"
    unfolding is_colour_def using mix_bound [OF q(1,2)] lt by blast
  moreover have "is_colour (colour_rgb r g b)"
    unfolding is_colour_def colour_rgb_def rgb_def using percent_bound by blast
  ultimately show ?thesis using q(3,4) by (auto simp: c mix_ends)
qed

theorem colours_well_formed_witness:
  "\<exists>c. colour_blend (rgb 255 0 16) (rgb 0 128 16) 2 = Some c \<and> is_colour c \<and> c = rgb 0 128 16"
proof -
  have "is_colour (rgb 255 0 16)" "is_colour (rgb 0 128 16)" by (force simp: is_colour_def)+
  from colours_well_formed [OF this, of 2 0 0 0] show ?thesis by auto
qed

end
