(* ===== verification/Helper_Code.thy ===== *)
theory Helper_Code
  imports Names_Db
begin

text \<open>
  The texts of the helper functions that the Lua generators hand to \<open>provideFunction_\<close> (the template literals of
  \<open>lua_compressed.js\<close>), line by line. Two of them name another helper, and the text for sublists depends on how its bounds are
  counted.
\<close>

definition getListIndex :: "string \<Rightarrow> string \<Rightarrow> string \<Rightarrow> string" where
  "getListIndex a b c =
     (if b = ''FIRST'' then ''1'' else if b = ''FROM_END'' then ''#'' @ a @ '' + 1 - '' @ c
      else if b = ''LAST'' then ''#'' @ a else if b = ''RANDOM'' then ''math.random(#'' @ a @ '')'' else c)"

definition colour_rgb_code :: "string" where
  \<open>colour_rgb_code = js_join [NL]
    ['''',
     ''function '' @ PLACEHOLDER @ ''(r, g, b)'',
     ''  r = math.floor(math.min(100, math.max(0, r)) * 2.55 + .5)'',
     ''  g = math.floor(math.min(100, math.max(0, g)) * 2.55 + .5)'',
     ''  b = math.floor(math.min(100, math.max(0, b)) * 2.55 + .5)'',
     ''  return string.format("#%02x%02x%02x", r, g, b)'',
     ''end'',
     '''']\<close>

definition colour_blend_code :: "string" where
  \<open>colour_blend_code = js_join [NL]
    ['''',
     ''function '' @ PLACEHOLDER @ ''(colour1, colour2, ratio)'',
     ''  local r1 = tonumber(string.sub(colour1, 2, 3), 16)'',
     ''  local r2 = tonumber(string.sub(colour2, 2, 3), 16)'',
     ''  local g1 = tonumber(string.sub(colour1, 4, 5), 16)'',
     ''  local g2 = tonumber(string.sub(colour2, 4, 5), 16)'',
     ''  local b1 = tonumber(string.sub(colour1, 6, 7), 16)'',
     ''  local b2 = tonumber(string.sub(colour2, 6, 7), 16)'',
     ''  local ratio = math.min(1, math.max(0, ratio))'',
     ''  local r = math.floor(r1 * (1 - ratio) + r2 * ratio + .5)'',
     ''  local g = math.floor(g1 * (1 - ratio) + g2 * ratio + .5)'',
     ''  local b = math.floor(b1 * (1 - ratio) + b2 * ratio + .5)'',
     ''  return string.format("#%02x%02x%02x", r, g, b)'',
     ''end'',
     '''']\<close>

definition create_list_repeated_code :: "string" where
  \<open>create_list_repeated_code = js_join [NL]
    ['''',
     ''function '' @ PLACEHOLDER @ ''(item, count)'',
     ''  local t = {}'',
     ''  for i = 1, count do'',
     ''    table.insert(t, item)'',
     ''  end'',
     ''  return t'',
     ''end'',
     ''  '']\<close>

definition first_index_code :: "string" where
  \<open>first_index_code = js_join [NL]
    ['''',
     ''function '' @ PLACEHOLDER @ ''(t, elem)'',
     ''  for k, v in ipairs(t) do'',
     ''    if v == elem then'',
     ''      return k'',
     ''    end'',
     ''  end'',
     ''  return 0'',
     ''end'',
     '''']\<close>

definition last_index_code :: "string" where
  \<open>last_index_code = js_join [NL]
    ['''',
     ''function '' @ PLACEHOLDER @ ''(t, elem)'',
     ''  for i = #t, 1, -1 do'',
     ''    if t[i] == elem then'',
     ''      return i'',
     ''    end'',
     ''  end'',
     ''  return 0'',
     ''end'',
     '''']\<close>

definition list_sublist_code :: "string \<Rightarrow> string \<Rightarrow> string \<Rightarrow> string \<Rightarrow> string" where
  \<open>list_sublist_code g h d e = js_join [NL]
    ['''',
     ''function '' @ PLACEHOLDER @ ''(source'' @ g @ h @ '')'',
     ''  local t = {}'',
     ''  local start = '' @ getListIndex ''source'' d ''at1'',
     ''  local finish = '' @ getListIndex ''source'' e ''at2'',
     ''  for i = start, finish do'',
     ''    table.insert(t, source[i])'',
     ''  end'',
     ''  return t'',
     ''end'',
     '''']\<close>

definition list_sort_code :: "string" where
  \<open>list_sort_code = js_join [NL]
    ['''',
     ''function '' @ PLACEHOLDER @ ''(list, typev, direction)'',
     ''  local t = {}'',
     ''  for n,v in pairs(list) do table.insert(t, v) end'',
     ''  local compareFuncs = {'',
     ''    NUMERIC = function(a, b)'',
     ''      return (tonumber(tostring(a)) or 0)'',
     ''          < (tonumber(tostring(b)) or 0) end,'',
     ''    TEXT = function(a, b)'',
     ''      return tostring(a) < tostring(b) end,'',
     ''    IGNORE_CASE = function(a, b)'',
     ''      return string.lower(tostring(a)) < string.lower(tostring(b)) end'',
     ''  }'',
     ''  local compareTemp = compareFuncs[typev]'',
     ''  local compare = compareTemp'',
     ''  if direction == -1'',
     ''  then compare = function(a, b) return compareTemp(b, a) end'',
     ''  end'',
     ''  table.sort(t, compare)'',
     ''  return t'',
     ''end'',
     '''']\<close>

definition list_string_split_code :: "string" where
  \<open>list_string_split_code = js_join [NL]
    ['''',
     ''function '' @ PLACEHOLDER @ ''(input, delim)'',
     ''  local t = {}'',
     ''  local pos = 1'',
     ''  while true do'',
     ''    next_delim = string.find(input, delim, pos)'',
     ''    if next_delim == nil then'',
     ''      table.insert(t, string.sub(input, pos))'',
     ''      break'',
     ''    else'',
     ''      table.insert(t, string.sub(input, pos, next_delim-1))'',
     ''      pos = next_delim + #delim'',
     ''    end'',
     ''  end'',
     ''  return t'',
     ''end'',
     '''']\<close>

definition list_reverse_code :: "string" where
  \<open>list_reverse_code = js_join [NL]
    ['''',
     ''function '' @ PLACEHOLDER @ ''(input)'',
     ''  local reversed = {}'',
     ''  for i = #input, 1, -1 do'',
     ''    table.insert(reversed, input[i])'',
     ''  end'',
     ''  return reversed'',
     ''end'',
     '''']\<close>

definition math_isPrime_code :: "string" where
  \<open>math_isPrime_code = js_join [NL]
    ['''',
     ''function '' @ PLACEHOLDER @ ''(n)'',
     ''  -- https://en.wikipedia.org/wiki/Primality_test#Naive_methods'',
     ''  if n == 2 or n == 3 then'',
     ''    return true'',
     ''  end'',
     ''  -- False if n is NaN, negative, is 1, or not whole.'',
     ''  -- And false if n is divisible by 2 or 3.'',
     ''  if not(n > 1) or n % 1 ~= 0 or n % 2 == 0 or n % 3 == 0 then'',
     ''    return false'',
     ''  end'',
     ''  -- Check all the numbers of form 6k +/- 1, up to sqrt(n).'',
     ''  for x = 6, math.sqrt(n) + 1.5, 6 do'',
     ''    if n % (x - 1) == 0 or n % (x + 1) == 0 then'',
     ''      return false'',
     ''    end'',
     ''  end'',
     ''  return true'',
     ''end'',
     '''']\<close>

definition math_sum_code :: "string" where
  \<open>math_sum_code = js_join [NL]
    ['''',
     ''function '' @ PLACEHOLDER @ ''(t)'',
     ''  local result = 0'',
     ''  for _, v in ipairs(t) do'',
     ''    result = result + v'',
     ''  end'',
     ''  return result'',
     ''end'',
     '''']\<close>

definition math_min_code :: "string" where
  \<open>math_min_code = js_join [NL]
    ['''',
     ''function '' @ PLACEHOLDER @ ''(t)'',
     ''  if #t == 0 then'',
     ''    return 0'',
     ''  end'',
     ''  local result = math.huge'',
     ''  for _, v in ipairs(t) do'',
     ''    if v < result then'',
     ''      result = v'',
     ''    end'',
     ''  end'',
     ''  return result'',
     ''end'',
     '''']\<close>

definition math_average_code :: "string \<Rightarrow> string" where
  \<open>math_average_code sum_name = js_join [NL]
    ['''',
     ''function '' @ PLACEHOLDER @ ''(t)'',
     ''  if #t == 0 then'',
     ''    return 0'',
     ''  end'',
     ''  return '' @ sum_name @ ''(t) / #t'',
     ''end'',
     '''']\<close>

definition math_max_code :: "string" where
  \<open>math_max_code = js_join [NL]
    ['''',
     ''function '' @ PLACEHOLDER @ ''(t)'',
     ''  if #t == 0 then'',
     ''    return 0'',
     ''  end'',
     ''  local result = -math.huge'',
     ''  for _, v in ipairs(t) do'',
     ''    if v > result then'',
     ''      result = v'',
     ''    end'',
     ''  end'',
     ''  return result'',
     ''end'',
     '''']\<close>

definition math_median_code :: "string" where
  \<open>math_median_code = js_join [NL]
    ['''',
     ''function '' @ PLACEHOLDER @ ''(t)'',
     ''  -- Source: http://lua-users.org/wiki/SimpleStats'',
     ''  if #t == 0 then'',
     ''    return 0'',
     ''  end'',
     ''  local temp = {}'',
     ''  for _, v in ipairs(t) do'',
     ''    if type(v) == '' @ [CHR 0x27] @ ''number'' @ [CHR 0x27] @ '' then'',
     ''      table.insert(temp, v)'',
     ''    end'',
     ''  end'',
     ''  table.sort(temp)'',
     ''  if #temp % 2 == 0 then'',
     ''    return (temp[#temp / 2] + temp[(#temp / 2) + 1]) / 2'',
     ''  else'',
     ''    return temp[math.ceil(#temp / 2)]'',
     ''  end'',
     ''end'',
     '''']\<close>

definition math_modes_code :: "string" where
  \<open>math_modes_code = js_join [NL]
    ['''',
     ''function '' @ PLACEHOLDER @ ''(t)'',
     ''  -- Source: http://lua-users.org/wiki/SimpleStats'',
     ''  local counts = {}'',
     ''  for _, v in ipairs(t) do'',
     ''    if counts[v] == nil then'',
     ''      counts[v] = 1'',
     ''    else'',
     ''      counts[v] = counts[v] + 1'',
     ''    end'',
     ''  end'',
     ''  local biggestCount = 0'',
     ''  for _, v  in pairs(counts) do'',
     ''    if v > biggestCount then'',
     ''      biggestCount = v'',
     ''    end'',
     ''  end'',
     ''  local temp = {}'',
     ''  for k, v in pairs(counts) do'',
     ''    if v == biggestCount then'',
     ''      table.insert(temp, k)'',
     ''    end'',
     ''  end'',
     ''  return temp'',
     ''end'',
     '''']\<close>

definition math_standard_deviation_code :: "string \<Rightarrow> string" where
  \<open>math_standard_deviation_code sum_name = js_join [NL]
    ['''',
     ''function '' @ PLACEHOLDER @ ''(t)'',
     ''  local m'',
     ''  local vm'',
     ''  local total = 0'',
     ''  local count = 0'',
     ''  local result'',
     ''  m = #t == 0 and 0 or '' @ sum_name @ ''(t) / #t'',
     ''  for _, v in ipairs(t) do'',
     ''    if type(v) == '' @ [CHR 0x27] @ ''number'' @ [CHR 0x27] @ '' then'',
     ''      vm = v - m'',
     ''      total = total + (vm * vm)'',
     ''      count = count + 1'',
     ''    end'',
     ''  end'',
     ''  result = math.sqrt(total / (count-1))'',
     ''  return result'',
     ''end'',
     '''']\<close>

definition math_random_list_code :: "string" where
  \<open>math_random_list_code = js_join [NL]
    ['''',
     ''function '' @ PLACEHOLDER @ ''(t)'',
     ''  if #t == 0 then'',
     ''    return nil'',
     ''  end'',
     ''  return t[math.random(#t)]'',
     ''end'',
     '''']\<close>

definition firstIndexOf_code :: "string" where
  \<open>firstIndexOf_code = js_join [NL]
    ['''',
     ''function '' @ PLACEHOLDER @ ''(str, substr)'',
     ''  local i = string.find(str, substr, 1, true)'',
     ''  if i == nil then'',
     ''    return 0'',
     ''  end'',
     ''  return i'',
     ''end'',
     '''']\<close>

definition lastIndexOf_code :: "string" where
  \<open>lastIndexOf_code = js_join [NL]
    ['''',
     ''function '' @ PLACEHOLDER @ ''(str, substr)'',
     ''  local i = string.find(string.reverse(str), string.reverse(substr), 1, true)'',
     ''  if i then'',
     ''    return #str + 2 - i - #substr'',
     ''  end'',
     ''  return 0'',
     ''end'',
     '''']\<close>

definition text_random_letter_code :: "string" where
  \<open>text_random_letter_code = js_join [NL]
    ['''',
     ''function '' @ PLACEHOLDER @ ''(str)'',
     ''  local index = math.random(string.len(str))'',
     ''  return string.sub(str, index, index)'',
     ''end'',
     '''']\<close>

definition text_char_at_code :: "string" where
  \<open>text_char_at_code = js_join [NL]
    ['''',
     ''function '' @ PLACEHOLDER @ ''(str, index)'',
     ''  return string.sub(str, index, index)'',
     ''end'',
     '''']\<close>

definition text_titlecase_code :: "string" where
  \<open>text_titlecase_code = js_join [NL]
    ['''',
     ''function '' @ PLACEHOLDER @ ''(str)'',
     ''  local buf = {}'',
     ''  local inWord = false'',
     ''  for i = 1, #str do'',
     ''    local c = string.sub(str, i, i)'',
     ''    if inWord then'',
     ''      table.insert(buf, string.lower(c))'',
     ''      if string.find(c, "%s") then'',
     ''        inWord = false'',
     ''      end'',
     ''    else'',
     ''      table.insert(buf, string.upper(c))'',
     ''      inWord = true'',
     ''    end'',
     ''  end'',
     ''  return table.concat(buf)'',
     ''end'',
     '''']\<close>

definition text_prompt_code :: "string" where
  \<open>text_prompt_code = js_join [NL]
    ['''',
     ''function '' @ PLACEHOLDER @ ''(msg)'',
     ''  io.write(msg)'',
     ''  io.flush()'',
     ''  return io.read()'',
     ''end'',
     '''']\<close>

definition text_count_code :: "string" where
  \<open>text_count_code = js_join [NL]
    ['''',
     ''function '' @ PLACEHOLDER @ ''(haystack, needle)'',
     ''  if #needle == 0 then'',
     ''    return #haystack + 1'',
     ''  end'',
     ''  local i = 1'',
     ''  local count = 0'',
     ''  while true do'',
     ''    i = string.find(haystack, needle, i, true)'',
     ''    if i == nil then'',
     ''      break'',
     ''    end'',
     ''    count = count + 1'',
     ''    i = i + #needle'',
     ''  end'',
     ''  return count'',
     ''end'',
     '''']\<close>

definition text_replace_code :: "string" where
  \<open>text_replace_code = js_join [NL]
    ['''',
     ''function '' @ PLACEHOLDER @ ''(haystack, needle, replacement)'',
     ''  local buf = {}'',
     ''  local i = 1'',
     ''  while i <= #haystack do'',
     ''    if string.sub(haystack, i, i + #needle - 1) == needle then'',
     ''      for j = 1, #replacement do'',
     ''        table.insert(buf, string.sub(replacement, j, j))'',
     ''      end'',
     ''      i = i + #needle'',
     ''    else'',
     ''      table.insert(buf, string.sub(haystack, i, i))'',
     ''      i = i + 1'',
     ''    end'',
     ''  end'',
     ''  return table.concat(buf)'',
     ''end'',
     '''']\<close>


end
