(* ===== verification/Std_Gen.thy ===== *)
theory Std_Gen
  imports Helper_Code Logic_Blocks
begin

text \<open>
  The code generator with its state. The generators of the standard blocks (\<open>lua_compressed.js\<close>) ask the generator object for
  names and helper functions while they run, so a generator here is a function on the state of \<open>Names_Db\<close> that may throw;
  the order of the calls is the order in which the code makes them. The traversal (\<open>blockToCode\<close>,
  \<open>valueToCode\<close>, \<open>statementToCode\<close>, \<open>scrub_\<close>, \<open>workspaceToCode\<close> of
  \<open>blockly_compressed.js\<close>) passes the state through the blocks. What a mutator keeps in a block object (the number of
  items, the names of the arguments, whether a value is returned) is found under the id of the block.
\<close>

section \<open>Computations of the generator\<close>

type_synonym 'a gen = "lua_names \<Rightarrow> ('a \<times> lua_names) result"

definition gret :: "'a \<Rightarrow> 'a gen" where
  "gret x g = Inr (x, g)"

definition gthrow :: "js_error \<Rightarrow> 'a gen" where
  "gthrow e g = Inl e"

definition gbind :: "'a gen \<Rightarrow> ('a \<Rightarrow> 'b gen) \<Rightarrow> 'b gen" where
  "gbind m f g = bind_result (m g) (\<lambda>(x, g'). f x g')"

lemma gbind_cong [fundef_cong]: "m = m' \<Longrightarrow> (\<And>x. f x = f' x) \<Longrightarrow> gbind m f = gbind m' f'"
  by presburger

lemma gbind_gret [simp]: "gbind (gret x) f = f x"
  by (simp add: gbind_def gret_def fun_eq_iff)

definition provide :: "string \<Rightarrow> string \<Rightarrow> string gen" where
  "provide a code g = Inr (provideFunction en_Msg a code g)"

definition name_for :: "string \<Rightarrow> name_type \<Rightarrow> string gen" where
  "name_for a t g = (let (n, s) = getName en_Msg a t (nameDB g) in Inr (n, g\<lparr>nameDB := s\<rparr>))"

abbreviation getVariableName :: "string \<Rightarrow> string gen" where
  "getVariableName a \<equiv> name_for a VARIABLE_NAME"

abbreviation getProcedureName :: "string \<Rightarrow> string gen" where
  "getProcedureName a \<equiv> name_for a PROCEDURE"

definition distinctName :: "string \<Rightarrow> string gen" where
  \<comment> \<open>\<open>nameDB_.getDistinctName(a, VARIABLE)\<close>\<close>
  "distinctName a g = (let (n, s) = getDistinctName en_Msg a VARIABLE_NAME (nameDB g) in Inr (n, g\<lparr>nameDB := s\<rparr>))"

definition setDefinition :: "string \<Rightarrow> string \<Rightarrow> unit gen" where
  "setDefinition c d g = Inr ((), define_procedure c d g)"

fun gmapM :: "('a \<Rightarrow> 'b gen) \<Rightarrow> 'a list \<Rightarrow> 'b list gen" where
  "gmapM f [] = gret []"
| "gmapM f (x # xs) = gbind (f x) (\<lambda>y. gbind (gmapM f xs) (\<lambda>ys. gret (y # ys)))"

section \<open>What a generator sees of its block\<close>

datatype scode =
    SStr string
  | STuple string nat  \<comment> \<open>the code of a value block and its operator order\<close>
  | SNull
  | SUndefined

record mutation =
  itemCount :: nat
  arguments :: "string list"  \<comment> \<open>\<open>getVars\<close>\<close>
  hasReturnValue :: bool

record gblock =
  gfields :: "(string \<times> fval) list"
  ginputs :: "(string \<times> input_type \<times> scode gen option) list"
  gmutation :: mutation
  gcomments :: string  \<comment> \<open>what \<open>scrub_\<close> writes before the code of the block\<close>

type_synonym std_generator = "gblock \<Rightarrow> scode gen"

definition field :: "gblock \<Rightarrow> string \<Rightarrow> fval option" where
  "field a n = getFieldValue (gfields a) n"

definition field_text :: "gblock \<Rightarrow> string \<Rightarrow> string" where
  "field_text a n = js_String (field a n)"

definition field_is :: "gblock \<Rightarrow> string \<Rightarrow> string \<Rightarrow> bool" where
  "field_is a n v \<longleftrightarrow> field a n = Some (FText v)"

definition field_or :: "gblock \<Rightarrow> string \<Rightarrow> string \<Rightarrow> string" where
  \<comment> \<open>\<open>getFieldValue(n) || d\<close>\<close>
  "field_or a n d = (case field a n of None \<Rightarrow> d | Some v \<Rightarrow> or_else (js_String (Some v)) d)"

definition input_target :: "gblock \<Rightarrow> string \<Rightarrow> scode gen option" where
  "input_target a n = (case map_of (ginputs a) n of Some (t, c) \<Rightarrow> c | None \<Rightarrow> None)"

definition getInput :: "gblock \<Rightarrow> string \<Rightarrow> bool" where
  "getInput a n \<longleftrightarrow> n \<in> fst ` set (ginputs a)"

definition value_text :: "nat \<Rightarrow> scode \<Rightarrow> string gen" where
  "value_text outer c =
     (case c of
        STuple s inner \<Rightarrow>
          if s = '''' then gret '''' else gret (if needs_parens outer inner then ''('' @ s @ '')'' else s)
      | SStr s \<Rightarrow> if s = '''' then gret '''' else gthrow (TypeError ''Expecting tuple from value block'')
      | _ \<Rightarrow> gthrow (TypeError ''Expecting tuple from value block''))"

definition val :: "gblock \<Rightarrow> string \<Rightarrow> nat \<Rightarrow> string gen" where
  \<comment> \<open>\<open>valueToCode\<close>\<close>
  "val a n outer = (case input_target a n of None \<Rightarrow> gret '''' | Some m \<Rightarrow> gbind m (value_text outer))"

definition val_or :: "gblock \<Rightarrow> string \<Rightarrow> nat \<Rightarrow> string \<Rightarrow> string gen" where
  \<comment> \<open>\<open>valueToCode(...) || d\<close>\<close>
  "val_or a n outer d = gbind (val a n outer) (\<lambda>s. gret (or_else s d))"

definition statement_text :: "scode \<Rightarrow> string gen" where
  "statement_text c =
     (case c of
        SStr s \<Rightarrow> gret (if s = '''' then '''' else prefixLines s INDENT)
      | _ \<Rightarrow> gthrow (TypeError ''Expecting code from statement block''))"

definition stat :: "gblock \<Rightarrow> string \<Rightarrow> string gen" where
  \<comment> \<open>\<open>statementToCode\<close>\<close>
  "stat a n = (case input_target a n of None \<Rightarrow> gret '''' | Some m \<Rightarrow> gbind m statement_text)"

section \<open>The traversal\<close>

record std_lua =
  std_forBlock :: "string \<Rightarrow> std_generator option"
  std_output :: "string \<Rightarrow> (string \<times> fval) list \<Rightarrow> bool"  \<comment> \<open>the block has an output connection\<close>
  std_wrap :: "string \<Rightarrow> string"  \<comment> \<open>\<open>utils.string.wrap\<close> at the comment width\<close>
  std_mutation :: "string \<Rightarrow> mutation"  \<comment> \<open>by block id\<close>

fun scode_text :: "scode \<Rightarrow> string" where
  \<comment> \<open>the value of \<open>blockToCode\<close> in a string concatenation\<close>
  "scode_text (SStr s) = s"
| "scode_text (STuple s n) = s @ '','' @ show_nat n"
| "scode_text SNull = ''null''"
| "scode_text SUndefined = ''undefined''"

fun std_blockToCode :: "std_lua \<Rightarrow> bool \<Rightarrow> block \<Rightarrow> scode gen"
  and std_inputToCode :: "std_lua \<Rightarrow> binput \<Rightarrow> string \<times> input_type \<times> scode gen option" where
  \<comment> \<open>the flag: the output of the block is connected\<close>
  "std_blockToCode G att (Block ty i en cm fs ins nx) =
     (let rest = (case nx of None \<Rightarrow> gret (SStr '''') | Some b \<Rightarrow> std_blockToCode G True b);
          comments = (if std_output G ty fs \<and> att then '''' else comment_code (std_wrap G) cm ins);
          a = \<lparr>gfields = fs, ginputs = map (std_inputToCode G) ins, gmutation = std_mutation G i, gcomments = comments\<rparr>
      in if \<not> en then rest
         else (case std_forBlock G ty of
             None \<Rightarrow> gthrow (PlainError (''Lua generator does not know how to generate code for block type '' @ [DQ] @ ty @ [DQ] @ ''.''))
           | Some f \<Rightarrow> gbind (f a) (\<lambda>c.
               case c of
                 STuple s n \<Rightarrow>
                   if std_output G ty fs then gbind rest (\<lambda>r. gret (STuple (comments @ s @ scode_text r) n))
                   else gthrow (TypeError (''Expecting string from statement block: '' @ ty))
               | SStr s \<Rightarrow> gbind rest (\<lambda>r. gret (SStr (comments @ s @ scode_text r)))
               | SNull \<Rightarrow> gret (SStr '''')
               | SUndefined \<Rightarrow> gthrow (SyntaxError ''Invalid code generated: undefined''))))"
| "std_inputToCode G (Input n t None) = (n, t, None)"
| "std_inputToCode G (Input n t (Some b)) = (n, t, Some (std_blockToCode G True b))"

section \<open>The program of a workspace\<close>

definition scrubNakedValue :: "string \<Rightarrow> string" where
  "scrubNakedValue a = ''local _ = '' @ a @ [NL]"

definition top_text :: "std_lua \<Rightarrow> block \<Rightarrow> scode \<Rightarrow> string" where
  "top_text G b c =
     (let e = (case c of STuple s n \<Rightarrow> s | c \<Rightarrow> scode_text c)
      in if e \<noteq> '''' \<and> std_output G (btype b) (block.fields b) then scrubNakedValue e else e)"

definition top_code :: "std_lua \<Rightarrow> block \<Rightarrow> string gen" where
  "top_code G b = gbind (std_blockToCode G False b) (\<lambda>c. gret (top_text G b c))"

definition finish :: "string \<Rightarrow> lua_names \<Rightarrow> string" where
  "finish a g = js_join [NL, NL] (rev (map snd (definitions g))) @ [NL, NL, NL] @ a"

definition trim_start :: "string \<Rightarrow> string" where
  \<comment> \<open>\<open>replace(/^\s+\n/, "")\<close>: the longest leading white space that ends in a line break after at least one
    more character\<close>
  "trim_start s =
     (let w = takeWhile is_white s; t = rev (dropWhile (\<lambda>c. c \<noteq> NL) (rev w))
      in if 2 \<le> length t then drop (length t) s else s)"

definition trim_end :: "string \<Rightarrow> string" where
  \<comment> \<open>\<open>replace(/\n\s+$/, "\n")\<close>\<close>
  "trim_end s =
     (let w = rev (takeWhile is_white (rev s)); v = takeWhile (\<lambda>c. c \<noteq> NL) w
      in if 2 \<le> length (drop (length v) w) then take (length s - length w) s @ v @ [NL] else s)"

definition is_tab :: "char \<Rightarrow> bool" where
  "is_tab c \<longleftrightarrow> c = CHR '' '' \<or> c = CHR 0x09"

fun trim_lines :: "string \<Rightarrow> string" where
  \<comment> \<open>\<open>replace(/[ \t]+\n/g, "\n")\<close>\<close>
  "trim_lines [] = []"
| "trim_lines (c # s) =
     (if is_tab c \<and> dropWhile is_tab s \<noteq> [] \<and> hd (dropWhile is_tab s) = NL then trim_lines s else c # trim_lines s)"

definition std_workspaceToCode ::
  "std_lua \<Rightarrow> (string \<rightharpoonup> string) \<Rightarrow> string list \<Rightarrow> string list \<Rightarrow> names_db \<Rightarrow> block list \<Rightarrow> string result" where
  \<comment> \<open>on the variables of the workspace, the ids of the used ones, the names of the procedures, the name database
    of the last run and the top blocks in order\<close>
  "std_workspaceToCode G vars ids procs s bs =
     bind_result (gmapM (top_code G) bs (lua_init en_Msg vars ids procs s)) (\<lambda>(es, g).
       Inr (trim_lines (trim_end (trim_start (finish (js_join [NL] (filter (\<lambda>e. e \<noteq> '''') es)) g)))))"

end
