(* ===== verification/Std_Blocks.thy ===== *)
theory Std_Blocks
  imports Std_Gen
begin

text \<open>
  The generators of the standard blocks (\<open>lua_compressed.js\<close>), in the order of the file: colour, lists, logic, loops, math,
  procedures, text and variables. Their definitions have the names of the code with \<open>gen_\<close> in front.
\<close>

section \<open>Operator orders\<close>

abbreviation (input) ORDER_HIGH :: nat where "ORDER_HIGH \<equiv> 1"
abbreviation (input) ORDER_EXPONENTIATION :: nat where "ORDER_EXPONENTIATION \<equiv> 2"
abbreviation (input) ORDER_MULTIPLICATIVE :: nat where "ORDER_MULTIPLICATIVE \<equiv> 4"
abbreviation (input) ORDER_ADDITIVE :: nat where "ORDER_ADDITIVE \<equiv> 5"
abbreviation (input) ORDER_CONCATENATION :: nat where "ORDER_CONCATENATION \<equiv> 6"

section \<open>Numbers in texts\<close>

text \<open>
  A decimal numeral is its sign and its digits before and after the point. Printing a number is exact, as JavaScript's is
  for up to 15 digits without an exponent. Number fields hold numbers; a text in one reads as not a number unless it is a numeral.
\<close>

definition numeral_parts :: "string \<Rightarrow> (bool \<times> string \<times> string) option" where
  \<comment> \<open>the groups of \<open>/^\s*-?\d+(\.\d+)?\s*$/\<close>\<close>
  "numeral_parts s =
     (let t = js_trim s; neg = (t \<noteq> [] \<and> hd t = CHR ''-''); u = (if neg then tl t else t);
          ip = takeWhile is_digit u; r = dropWhile is_digit u
      in if ip = [] then None
         else if r = [] then Some (neg, ip, [])
         else if hd r = CHR ''.'' \<and> tl r \<noteq> [] \<and> list_all is_digit (tl r) then Some (neg, ip, tl r)
         else None)"

definition isNumber :: "string \<Rightarrow> bool" where
  "isNumber s \<longleftrightarrow> numeral_parts s \<noteq> None"

definition show_whole :: "string \<Rightarrow> string" where
  "show_whole ip = or_else (dropWhile (\<lambda>c. c = CHR ''0'') ip) ''0''"

definition show_abs :: "string \<Rightarrow> string" where
  \<comment> \<open>\<open>String(Math.abs(Number(s)))\<close>\<close>
  "show_abs s =
     (case numeral_parts s of
        None \<Rightarrow> ''NaN''
      | Some (neg, ip, fp) \<Rightarrow>
          (let f = rev (dropWhile (\<lambda>c. c = CHR ''0'') (rev fp)) in show_whole ip @ (if f = [] then '''' else CHR ''.'' # f)))"

definition show_number :: "string \<Rightarrow> string" where
  \<comment> \<open>\<open>String(Number(s))\<close>\<close>
  "show_number s =
     (case numeral_parts s of
        None \<Rightarrow> ''NaN''
      | Some (neg, ip, fp) \<Rightarrow> (if neg \<and> show_abs s \<noteq> ''0'' then ''-'' else '''') @ show_abs s)"

definition parse_int :: "string \<Rightarrow> string" where
  \<comment> \<open>\<open>String(parseInt(s, 10))\<close> of a numeral\<close>
  "parse_int s =
     (case numeral_parts s of
        None \<Rightarrow> ''NaN''
      | Some (neg, ip, fp) \<Rightarrow> (if neg \<and> show_whole ip \<noteq> ''0'' then ''-'' else '''') @ show_whole ip)"

definition number_le :: "string \<Rightarrow> string \<Rightarrow> bool" where
  \<comment> \<open>\<open>Number(s) <= Number(t)\<close>\<close>
  "number_le s t =
     (case (numeral_parts s, numeral_parts t) of
        (Some (m, ip, fp), Some (n, jp, gp)) \<Rightarrow>
          (if m then - 1 else 1) * int (read_nat (ip @ fp)) * 10 ^ length gp
            \<le> (if n then - 1 else 1) * int (read_nat (jp @ gp)) * 10 ^ length fp
      | _ \<Rightarrow> False)"

fun number_field :: "fval option \<Rightarrow> string" where
  \<comment> \<open>\<open>String(Number(v))\<close>, for numbers with at most one decimal; the field of \<open>math_number\<close> can hold any
    number\<close>
  "number_field None = ''0''"
| "number_field (Some (FNum k)) = show_tenths k"
| "number_field (Some (FText s)) = show_number s"

definition negative_field :: "fval option \<Rightarrow> bool" where
  \<comment> \<open>\<open>0 > Number(v)\<close>\<close>
  "negative_field v \<longleftrightarrow>
     (case v of
        Some (FNum k) \<Rightarrow> k < 0
      | Some (FText s) \<Rightarrow> \<not> number_le ''0'' s \<and> isNumber s
      | None \<Rightarrow> False)"

section \<open>Colour\<close>

definition gen_colour_picker :: std_generator where
  "gen_colour_picker a = gret (STuple (lua_quote (field_text a ''COLOUR'')) ORDER_ATOMIC)"

definition gen_colour_random :: std_generator where
  "gen_colour_random a = gret (STuple (''string.format('' @ [DQ] @ ''#%06x'' @ [DQ] @ '', math.random(0, 2^24 - 1))'') ORDER_HIGH)"

definition gen_colour_rgb :: std_generator where
  "gen_colour_rgb a =
     gbind (provide ''colour_rgb'' colour_rgb_code) (\<lambda>c.
     gbind (val_or a ''RED'' ORDER_NONE ''0'') (\<lambda>d.
     gbind (val_or a ''GREEN'' ORDER_NONE ''0'') (\<lambda>e.
     gbind (val_or a ''BLUE'' ORDER_NONE ''0'') (\<lambda>b.
       gret (STuple (c @ ''('' @ d @ '', '' @ e @ '', '' @ b @ '')'') ORDER_HIGH)))))"

definition gen_colour_blend :: std_generator where
  "gen_colour_blend a =
     gbind (provide ''colour_blend'' colour_blend_code) (\<lambda>c.
     gbind (val_or a ''COLOUR1'' ORDER_NONE ([CHR 0x27] @ ''#000000'' @ [CHR 0x27])) (\<lambda>d.
     gbind (val_or a ''COLOUR2'' ORDER_NONE ([CHR 0x27] @ ''#000000'' @ [CHR 0x27])) (\<lambda>e.
     gbind (val_or a ''RATIO'' ORDER_NONE ''0'') (\<lambda>b.
       gret (STuple (c @ ''('' @ d @ '', '' @ e @ '', '' @ b @ '')'') ORDER_HIGH)))))"

section \<open>Lists\<close>

abbreviation empty_text :: string where "empty_text \<equiv> [CHR 0x27, CHR 0x27]"

definition ADDn :: "nat \<Rightarrow> string" where "ADDn k = ''ADD'' @ show_nat k"

definition is_name :: "string \<Rightarrow> bool" where
  \<comment> \<open>\<open>/^\w+$/\<close>\<close>
  "is_name e \<longleftrightarrow> e \<noteq> [] \<and> list_all is_word e"

definition counted_place :: "string \<Rightarrow> bool" where
  \<comment> \<open>the place is a number\<close>
  "counted_place d \<longleftrightarrow> d = ''FROM_END'' \<or> d = ''FROM_START''"

definition from_back :: "string \<Rightarrow> bool" where
  \<comment> \<open>the index is computed from the length of the list\<close>
  "from_back d \<longleftrightarrow> d = ''LAST'' \<or> d = ''FROM_END'' \<or> d = ''RANDOM''"

definition gen_lists_create_empty :: std_generator where
  "gen_lists_create_empty a = gret (STuple ''{}'' ORDER_HIGH)"

definition gen_lists_create_with :: std_generator where
  "gen_lists_create_with a =
     gbind (gmapM (\<lambda>k. val_or a (ADDn k) ORDER_NONE ''None'') [0 ..< itemCount (gmutation a)]) (\<lambda>c.
       gret (STuple (''{'' @ js_join '', '' c @ ''}'') ORDER_HIGH))"

definition gen_lists_repeat :: std_generator where
  "gen_lists_repeat a =
     gbind (provide ''create_list_repeated'' create_list_repeated_code) (\<lambda>c.
     gbind (val_or a ''ITEM'' ORDER_NONE ''None'') (\<lambda>d.
     gbind (val_or a ''NUM'' ORDER_NONE ''0'') (\<lambda>b.
       gret (STuple (c @ ''('' @ d @ '', '' @ b @ '')'') ORDER_HIGH))))"

definition gen_lists_length :: std_generator where
  "gen_lists_length a = gbind (val_or a ''VALUE'' ORDER_UNARY ''{}'') (\<lambda>c. gret (STuple (''#'' @ c) ORDER_UNARY))"

definition gen_lists_isEmpty :: std_generator where
  "gen_lists_isEmpty a =
     gbind (val_or a ''VALUE'' ORDER_UNARY ''{}'') (\<lambda>c. gret (STuple (''#'' @ c @ '' == 0'') ORDER_RELATIONAL))"

definition gen_lists_indexOf :: std_generator where
  "gen_lists_indexOf a =
     gbind (val_or a ''FIND'' ORDER_NONE empty_text) (\<lambda>c.
     gbind (val_or a ''VALUE'' ORDER_NONE ''{}'') (\<lambda>d.
     gbind (if field_is a ''END'' ''FIRST'' then provide ''first_index'' first_index_code
            else provide ''last_index'' last_index_code) (\<lambda>f.
       gret (STuple (f @ ''('' @ d @ '', '' @ c @ '')'') ORDER_HIGH))))"

definition list_function_code :: "string \<Rightarrow> string \<Rightarrow> string \<Rightarrow> string" where
  \<comment> \<open>the three lines of \<open>list_get_...\<close> and \<open>list_remove_...\<close>\<close>
  "list_function_code d before after =
     js_join [NL]
       [''function '' @ PLACEHOLDER @ ''(t'' @ (if counted_place d then '', at)'' else '')''),
        before @ getListIndex ''t'' d ''at'' @ after, ''end'']"

definition gen_lists_getIndex :: std_generator where
  "gen_lists_getIndex a =
     (let c = field_or a ''MODE'' ''GET''; d = field_or a ''WHERE'' ''FROM_START''
      in gbind (val_or a ''VALUE'' ORDER_HIGH ''({})'') (\<lambda>e.
         if \<not> from_back d \<or> is_name e then
           gbind (val_or a ''AT'' (if c = ''GET'' \<and> d = ''FROM_END'' then ORDER_ADDITIVE else ORDER_NONE) ''1'') (\<lambda>b.
             let i = getListIndex e d b; r = ''table.remove('' @ e @ '', '' @ i @ '')''
             in if c = ''GET'' then gret (STuple (e @ ''['' @ i @ '']'') ORDER_HIGH)
                else if c = ''GET_REMOVE'' then gret (STuple r ORDER_HIGH) else gret (SStr (r @ [NL])))
         else if c = ''REMOVE'' then
           gbind (val_or a ''AT'' (if d = ''FROM_END'' then ORDER_ADDITIVE else ORDER_NONE) ''1'') (\<lambda>i.
           gbind (distinctName ''tmp_list'') (\<lambda>b.
             gret (SStr (b @ '' = '' @ e @ [NL] @ ''table.remove('' @ b @ '', '' @ getListIndex b d i @ '')'' @ [NL]))))
         else
           gbind (val_or a ''AT'' ORDER_NONE ''1'') (\<lambda>i.
           gbind (if c = ''GET''
                  then provide (''list_get_'' @ map lower d) (list_function_code d ''  return t['' '']'')
                  else provide (''list_remove_'' @ map lower d) (list_function_code d ''  return table.remove(t, '' '')'')) (\<lambda>f.
             gret (STuple (f @ ''('' @ e @ (if counted_place d then '', '' @ i else '''') @ '')'') ORDER_HIGH)))))"

definition gen_lists_setIndex :: std_generator where
  "gen_lists_setIndex a =
     gbind (val_or a ''LIST'' ORDER_HIGH ''{}'') (\<lambda>c.
     (let d = field_or a ''MODE'' ''SET''; e = field_or a ''WHERE'' ''FROM_START''
      in gbind (val_or a ''AT'' ORDER_ADDITIVE ''1'') (\<lambda>f.
         gbind (val_or a ''TO'' ORDER_NONE ''None'') (\<lambda>t.
         gbind (if from_back e \<and> \<not> is_name c
                then gbind (distinctName ''tmp_list'') (\<lambda>b. gret (b @ '' = '' @ c @ [NL], b)) else gret ('''', c)) (\<lambda>(g, c).
           gret (SStr (g @ (if d = ''SET'' then c @ ''['' @ getListIndex c e f @ ''] = '' @ t
                            else ''table.insert('' @ c @ '', '' @ getListIndex c e f @ (if e = ''LAST'' then '' + 1'' else '''') @ '', '' @ t @ '')'')
                       @ [NL])))))))"

definition gen_lists_getSublist :: std_generator where
  "gen_lists_getSublist a =
     gbind (val_or a ''LIST'' ORDER_NONE ''{}'') (\<lambda>c.
     (case (field a ''WHERE1'', field a ''WHERE2'') of
        (Some (FText d), Some (FText e)) \<Rightarrow>
          gbind (val_or a ''AT1'' ORDER_NONE ''1'') (\<lambda>f.
          gbind (val_or a ''AT2'' ORDER_NONE ''1'') (\<lambda>b.
          gbind (provide (''list_sublist_'' @ map lower d @ ''_'' @ map lower e)
                   (list_sublist_code (if counted_place d then '', at1'' else '''') (if counted_place e then '', at2'' else '''') d e)) (\<lambda>h.
            gret (STuple (h @ ''('' @ c @ (if counted_place d then '', '' @ f else '''') @ (if counted_place e then '', '' @ b else '''') @ '')'') ORDER_HIGH))))
      | _ \<Rightarrow> gbind (val_or a ''AT1'' ORDER_NONE ''1'') (\<lambda>f. gbind (val_or a ''AT2'' ORDER_NONE ''1'') (\<lambda>b.
               gthrow (TypeError ''toLowerCase'')))))"

definition gen_lists_sort :: std_generator where
  "gen_lists_sort a =
     gbind (val_or a ''LIST'' ORDER_NONE ''{}'') (\<lambda>c.
     (let d = (if field_is a ''DIRECTION'' ''1'' then ''1'' else ''-1'')
      in gbind (provide ''list_sort'' list_sort_code) (\<lambda>f.
           gret (STuple (f @ ''('' @ c @ '','' @ [DQ] @ field_text a ''TYPE'' @ [DQ] @ '', '' @ d @ '')'') ORDER_HIGH))))"

definition gen_lists_split :: std_generator where
  "gen_lists_split a =
     gbind (val a ''INPUT'' ORDER_NONE) (\<lambda>c.
     gbind (val_or a ''DELIM'' ORDER_NONE empty_text) (\<lambda>d.
       if field_is a ''MODE'' ''SPLIT'' then
         gbind (provide ''list_string_split'' list_string_split_code) (\<lambda>b.
           gret (STuple (b @ ''('' @ or_else c empty_text @ '', '' @ d @ '')'') ORDER_HIGH))
       else if field_is a ''MODE'' ''JOIN'' then
         gret (STuple (''table.concat('' @ or_else c ''{}'' @ '', '' @ d @ '')'') ORDER_HIGH)
       else gthrow (PlainError (''Unknown mode: '' @ field_text a ''MODE''))))"

definition gen_lists_reverse :: std_generator where
  "gen_lists_reverse a =
     gbind (val_or a ''LIST'' ORDER_NONE ''{}'') (\<lambda>c.
     gbind (provide ''list_reverse'' list_reverse_code) (\<lambda>f. gret (STuple (f @ ''('' @ c @ '')'') ORDER_HIGH)))"

section \<open>Logic\<close>

lemma finite_if_ginputs: "finite {k. c < k \<and> getInput a (IFn k)}"
proof -
  have "IFn ` {k. c < k \<and> getInput a (IFn k)} \<subseteq> fst ` set (ginputs a)" by (auto simp: getInput_def)
  then have "finite (IFn ` {k. c < k \<and> getInput a (IFn k)})" by (rule finite_subset) simp
  then show ?thesis by (rule finite_imageD) (auto simp: inj_on_def IFn_def)
qed

function gen_if_chain :: "gblock \<Rightarrow> nat \<Rightarrow> string \<Rightarrow> string gen" where
  \<comment> \<open>the loop over \<open>IF0\<close>, \<open>IF1\<close>, and so on, with the text so far\<close>
  "gen_if_chain a c d =
     gbind (val_or a (IFn c) ORDER_NONE ''false'') (\<lambda>e.
     gbind (stat a (DOn c)) (\<lambda>f.
       let d' = d @ (if 0 < c then ''else'' else '''') @ ''if '' @ e @ '' then'' @ [NL] @ f
       in if getInput a (IFn (Suc c)) then gen_if_chain a (Suc c) d' else gret d'))"
  by pat_completeness auto
termination
proof (relation "measure (\<lambda>(a, c, d). card {k. c < k \<and> getInput a (IFn k)})")
  fix a :: gblock and c :: nat and d d' :: string
  assume "getInput a (IFn (Suc c))"
  then have "{k. Suc c < k \<and> getInput a (IFn k)} \<subset> {k. c < k \<and> getInput a (IFn k)}" by auto
  then show "((a, Suc c, d'), a, c, d) \<in> measure (\<lambda>(a, c, d). card {k. c < k \<and> getInput a (IFn k)})"
    by (simp add: psubset_card_mono finite_if_ginputs)
qed simp

declare gen_if_chain.simps [simp del]

definition gen_controls_if :: std_generator where
  "gen_controls_if a =
     gbind (gen_if_chain a 0 '''') (\<lambda>d.
       if getInput a ''ELSE''
       then gbind (stat a ''ELSE'') (\<lambda>c. gret (SStr (d @ ''else'' @ [NL] @ c @ ''end'' @ [NL])))
       else gret (SStr (d @ ''end'' @ [NL])))"

definition gen_logic_compare :: std_generator where
  "gen_logic_compare a =
     (let c = compare_op (field_text a ''OP'')
      in gbind (val_or a ''A'' ORDER_RELATIONAL ''0'') (\<lambda>d.
         gbind (val_or a ''B'' ORDER_RELATIONAL ''0'') (\<lambda>b.
           gret (STuple (d @ '' '' @ c @ '' '' @ b) ORDER_RELATIONAL))))"

definition gen_logic_operation :: std_generator where
  "gen_logic_operation a =
     (let c = (if field_is a ''OP'' ''AND'' then ''and'' else ''or'');
          d = (if c = ''and'' then ORDER_AND else ORDER_OR);
          b = (if c = ''and'' then ''true'' else ''false'')
      in gbind (val a ''A'' d) (\<lambda>e.
         gbind (val a ''B'' d) (\<lambda>f.
           if e = '''' \<and> f = '''' then gret (STuple (''false '' @ c @ '' false'') d)
           else gret (STuple (or_else e b @ '' '' @ c @ '' '' @ or_else f b) d))))"

definition gen_logic_negate :: std_generator where
  "gen_logic_negate a = gbind (val_or a ''BOOL'' ORDER_UNARY ''true'') (\<lambda>b. gret (STuple (''not '' @ b) ORDER_UNARY))"

definition gen_logic_boolean :: std_generator where
  "gen_logic_boolean a = gret (STuple (if field_is a ''BOOL'' ''TRUE'' then ''true'' else ''false'') ORDER_ATOMIC)"

definition gen_logic_null :: std_generator where
  "gen_logic_null a = gret (STuple ''nil'' ORDER_ATOMIC)"

definition gen_logic_ternary :: std_generator where
  "gen_logic_ternary a =
     gbind (val_or a ''IF'' ORDER_AND ''false'') (\<lambda>c.
     gbind (val_or a ''THEN'' ORDER_AND ''nil'') (\<lambda>d.
     gbind (val_or a ''ELSE'' ORDER_OR ''nil'') (\<lambda>e.
       gret (STuple (c @ '' and '' @ d @ '' or '' @ e) ORDER_OR))))"

section \<open>Loops\<close>

definition CONTINUE_STATEMENT :: string where
  "CONTINUE_STATEMENT = ''goto continue'' @ [NL]"

definition addContinueLabel :: "string \<Rightarrow> string" where
  "addContinueLabel a = (if js_includes CONTINUE_STATEMENT a then a @ INDENT @ ''::continue::'' @ [NL] else a)"

definition gen_controls_repeat_ext :: std_generator where
  "gen_controls_repeat_ext a =
     gbind (case field a ''TIMES'' of Some v \<Rightarrow> gret (number_field (Some v)) | None \<Rightarrow> val_or a ''TIMES'' ORDER_NONE ''0'') (\<lambda>c.
     gbind (stat a ''DO'') (\<lambda>d.
     gbind (distinctName ''count'') (\<lambda>n.
       gret (SStr (''for '' @ n @ '' = 1, '' @ (if isNumber c then parse_int c else ''math.floor('' @ c @ '')'') @ '' do'' @ [NL]
                   @ addContinueLabel d @ ''end'' @ [NL])))))"

definition gen_controls_whileUntil :: std_generator where
  "gen_controls_whileUntil a =
     (let c = field_is a ''MODE'' ''UNTIL''
      in gbind (val_or a ''BOOL'' (if c then ORDER_UNARY else ORDER_NONE) ''false'') (\<lambda>d.
         gbind (stat a ''DO'') (\<lambda>e.
           gret (SStr (''while '' @ (if c then ''not '' else '''') @ d @ '' do'' @ [NL] @ addContinueLabel e @ ''end'' @ [NL])))))"

definition gen_controls_for :: std_generator where
  "gen_controls_for a =
     gbind (getVariableName (field_text a ''VAR'')) (\<lambda>c.
     gbind (val_or a ''FROM'' ORDER_NONE ''0'') (\<lambda>d.
     gbind (val_or a ''TO'' ORDER_NONE ''0'') (\<lambda>e.
     gbind (val_or a ''BY'' ORDER_NONE ''1'') (\<lambda>f.
     gbind (stat a ''DO'') (\<lambda>g.
     gbind (if isNumber d \<and> isNumber e \<and> isNumber f
            then gret ('''', (if number_le d e then '''' else ''-'') @ show_abs f)
            else gbind (distinctName (c @ ''_inc'')) (\<lambda>h.
              gret (h @ '' = '' @ (if isNumber f then show_abs f @ [NL] else ''math.abs('' @ f @ '')'' @ [NL])
                    @ ''if ('' @ d @ '') > ('' @ e @ '') then'' @ [NL] @ INDENT @ h @ '' = -'' @ h @ [NL] @ ''end'' @ [NL], h))) (\<lambda>(s, h).
       gret (SStr (s @ ''for '' @ c @ '' = '' @ d @ '', '' @ e @ '', '' @ h @ '' do'' @ [NL] @ addContinueLabel g @ ''end'' @ [NL]))))))))"

definition gen_controls_forEach :: std_generator where
  "gen_controls_forEach a =
     gbind (getVariableName (field_text a ''VAR'')) (\<lambda>c.
     gbind (val_or a ''LIST'' ORDER_NONE ''{}'') (\<lambda>d.
     gbind (stat a ''DO'') (\<lambda>e.
       gret (SStr (''for _, '' @ c @ '' in ipairs('' @ d @ '') do '' @ [NL] @ addContinueLabel e @ ''end'' @ [NL])))))"

definition gen_controls_flow_statements :: std_generator where
  "gen_controls_flow_statements a =
     (if field_is a ''FLOW'' ''BREAK'' then gret (SStr (''break'' @ [NL]))
      else if field_is a ''FLOW'' ''CONTINUE'' then gret (SStr CONTINUE_STATEMENT)
      else gthrow (PlainError ''Unknown flow statement.''))"

section \<open>Math\<close>

definition gen_math_number :: std_generator where
  "gen_math_number a =
     gret (STuple (number_field (field a ''NUM'')) (if negative_field (field a ''NUM'') then ORDER_UNARY else ORDER_ATOMIC))"

definition arithmetic_op :: "string \<Rightarrow> (string \<times> nat) option" where
  "arithmetic_op s = map_of
     [(''ADD'', '' + '', ORDER_ADDITIVE), (''MINUS'', '' - '', ORDER_ADDITIVE), (''MULTIPLY'', '' * '', ORDER_MULTIPLICATIVE),
      (''DIVIDE'', '' / '', ORDER_MULTIPLICATIVE), (''POWER'', '' ^ '', ORDER_EXPONENTIATION)] s"

definition gen_math_arithmetic :: std_generator where
  "gen_math_arithmetic a =
     (case arithmetic_op (field_text a ''OP'') of
        None \<Rightarrow> gthrow (TypeError ''undefined'')
      | Some (d, c) \<Rightarrow>
          gbind (val_or a ''A'' c ''0'') (\<lambda>e.
          gbind (val_or a ''B'' c ''0'') (\<lambda>f. gret (STuple (e @ d @ f) c))))"

definition single_call :: "string \<Rightarrow> string \<Rightarrow> string option" where
  \<comment> \<open>the calls that \<open>math_single\<close> makes of an operand\<close>
  "single_call c a =
     (if c = ''ABS'' then Some (''math.abs('' @ a @ '')'')
      else if c = ''ROOT'' then Some (''math.sqrt('' @ a @ '')'')
      else if c = ''LN'' then Some (''math.log('' @ a @ '')'')
      else if c = ''LOG10'' then Some (''math.log('' @ a @ '', 10)'')
      else if c = ''EXP'' then Some (''math.exp('' @ a @ '')'')
      else if c = ''ROUND'' then Some (''math.floor('' @ a @ '' + .5)'')
      else if c = ''ROUNDUP'' then Some (''math.ceil('' @ a @ '')'')
      else if c = ''ROUNDDOWN'' then Some (''math.floor('' @ a @ '')'')
      else if c = ''SIN'' then Some (''math.sin(math.rad('' @ a @ ''))'')
      else if c = ''COS'' then Some (''math.cos(math.rad('' @ a @ ''))'')
      else if c = ''TAN'' then Some (''math.tan(math.rad('' @ a @ ''))'')
      else if c = ''ASIN'' then Some (''math.deg(math.asin('' @ a @ ''))'')
      else if c = ''ACOS'' then Some (''math.deg(math.acos('' @ a @ ''))'')
      else if c = ''ATAN'' then Some (''math.deg(math.atan('' @ a @ ''))'')
      else None)"

definition gen_math_single :: std_generator where
  "gen_math_single a =
     (let c = field_text a ''OP''
      in if c = ''NEG'' then gbind (val_or a ''NUM'' ORDER_UNARY ''0'') (\<lambda>b. gret (STuple (''-'' @ b) ORDER_UNARY))
         else if c = ''POW10'' then gbind (val_or a ''NUM'' ORDER_EXPONENTIATION ''0'') (\<lambda>b. gret (STuple (''10 ^ '' @ b) ORDER_EXPONENTIATION))
         else gbind (val_or a ''NUM'' (if c = ''ROUND'' then ORDER_ADDITIVE else ORDER_NONE) ''0'') (\<lambda>b.
           case single_call c b of
             Some s \<Rightarrow> gret (STuple s ORDER_HIGH)
           | None \<Rightarrow> gthrow (PlainError (''Unknown math operator: '' @ c))))"

definition math_constants :: "(string \<times> string \<times> nat) list" where
  "math_constants =
    [(''PI'', ''math.pi'', ORDER_HIGH), (''E'', ''math.exp(1)'', ORDER_HIGH),
     (''GOLDEN_RATIO'', ''(1 + math.sqrt(5)) / 2'', ORDER_MULTIPLICATIVE), (''SQRT2'', ''math.sqrt(2)'', ORDER_HIGH),
     (''SQRT1_2'', ''math.sqrt(1 / 2)'', ORDER_HIGH), (''INFINITY'', ''math.huge'', ORDER_HIGH)]"

definition gen_math_constant :: std_generator where
  "gen_math_constant a =
     (case map_of math_constants (field_text a ''CONSTANT'') of
        Some (s, k) \<Rightarrow> gret (STuple s k)
      | None \<Rightarrow> gret SUndefined)"

definition number_properties :: "(string \<times> string \<times> nat \<times> nat) list" where
  "number_properties =
    [(''EVEN'', '' % 2 == 0'', ORDER_MULTIPLICATIVE, ORDER_RELATIONAL), (''ODD'', '' % 2 == 1'', ORDER_MULTIPLICATIVE, ORDER_RELATIONAL),
     (''WHOLE'', '' % 1 == 0'', ORDER_MULTIPLICATIVE, ORDER_RELATIONAL), (''POSITIVE'', '' > 0'', ORDER_RELATIONAL, ORDER_RELATIONAL),
     (''NEGATIVE'', '' < 0'', ORDER_RELATIONAL, ORDER_RELATIONAL), (''DIVISIBLE_BY'', ''null'', ORDER_MULTIPLICATIVE, ORDER_RELATIONAL),
     (''PRIME'', ''null'', ORDER_NONE, ORDER_HIGH)]"

definition gen_math_number_property :: std_generator where
  "gen_math_number_property a =
     (let d = field_text a ''PROPERTY''
      in case map_of number_properties d of
           None \<Rightarrow> gthrow (TypeError ''undefined'')
         | Some (e, f, g) \<Rightarrow>
             gbind (val_or a ''NUMBER_TO_CHECK'' f ''0'') (\<lambda>c.
               if d = ''PRIME'' then
                 gbind (provide ''math_isPrime'' math_isPrime_code) (\<lambda>p. gret (STuple (p @ ''('' @ c @ '')'') g))
               else if d = ''DIVISIBLE_BY'' then
                 gbind (val_or a ''DIVISOR'' ORDER_MULTIPLICATIVE ''0'') (\<lambda>b.
                   if b = ''0'' then gret (STuple ''nil'' ORDER_ATOMIC) else gret (STuple (c @ '' % '' @ b @ '' == 0'') g))
               else gret (STuple (c @ e) g)))"

definition gen_math_change :: std_generator where
  "gen_math_change a =
     gbind (val_or a ''DELTA'' ORDER_ADDITIVE ''0'') (\<lambda>c.
     gbind (getVariableName (field_text a ''VAR'')) (\<lambda>v. gret (SStr (v @ '' = '' @ v @ '' + '' @ c @ [NL]))))"

definition sum_function :: "string gen" where
  "sum_function = provide ''math_sum'' math_sum_code"

definition on_list_function :: "string \<Rightarrow> string gen" where
  "on_list_function d =
     (if d = ''SUM'' then sum_function
      else if d = ''MIN'' then provide ''math_min'' math_min_code
      else if d = ''AVERAGE'' then gbind sum_function (\<lambda>c. provide ''math_average'' (math_average_code c))
      else if d = ''MAX'' then provide ''math_max'' math_max_code
      else if d = ''MEDIAN'' then provide ''math_median'' math_median_code
      else if d = ''MODE'' then provide ''math_modes'' math_modes_code
      else if d = ''STD_DEV'' then gbind sum_function (\<lambda>c. provide ''math_standard_deviation'' (math_standard_deviation_code c))
      else if d = ''RANDOM'' then provide ''math_random_list'' math_random_list_code
      else gthrow (PlainError (''Unknown operator: '' @ d)))"

definition gen_math_on_list :: std_generator where
  "gen_math_on_list a =
     gbind (val_or a ''LIST'' ORDER_NONE ''{}'') (\<lambda>b.
     gbind (on_list_function (field_text a ''OP'')) (\<lambda>f. gret (STuple (f @ ''('' @ b @ '')'') ORDER_HIGH)))"

definition gen_math_modulo :: std_generator where
  "gen_math_modulo a =
     gbind (val_or a ''DIVIDEND'' ORDER_MULTIPLICATIVE ''0'') (\<lambda>c.
     gbind (val_or a ''DIVISOR'' ORDER_MULTIPLICATIVE ''0'') (\<lambda>b. gret (STuple (c @ '' % '' @ b) ORDER_MULTIPLICATIVE)))"

definition gen_math_constrain :: std_generator where
  "gen_math_constrain a =
     gbind (val_or a ''VALUE'' ORDER_NONE ''0'') (\<lambda>c.
     gbind (val_or a ''LOW'' ORDER_NONE ''-math.huge'') (\<lambda>d.
     gbind (val_or a ''HIGH'' ORDER_NONE ''math.huge'') (\<lambda>b.
       gret (STuple (''math.min(math.max('' @ c @ '', '' @ d @ ''), '' @ b @ '')'') ORDER_HIGH))))"

definition gen_math_random_int :: std_generator where
  "gen_math_random_int a =
     gbind (val_or a ''FROM'' ORDER_NONE ''0'') (\<lambda>c.
     gbind (val_or a ''TO'' ORDER_NONE ''0'') (\<lambda>b. gret (STuple (''math.random('' @ c @ '', '' @ b @ '')'') ORDER_HIGH)))"

definition gen_math_random_float :: std_generator where
  "gen_math_random_float a = gret (STuple ''math.random()'' ORDER_HIGH)"

definition gen_math_atan2 :: std_generator where
  "gen_math_atan2 a =
     gbind (val_or a ''X'' ORDER_NONE ''0'') (\<lambda>c.
     gbind (val_or a ''Y'' ORDER_NONE ''0'') (\<lambda>b. gret (STuple (''math.deg(math.atan2('' @ b @ '', '' @ c @ ''))'') ORDER_HIGH)))"

section \<open>Procedures\<close>

definition ARGn :: "nat \<Rightarrow> string" where "ARGn k = ''ARG'' @ show_nat k"

definition gen_procedures_defreturn :: std_generator where
  "gen_procedures_defreturn a =
     gbind (getProcedureName (field_text a ''NAME'')) (\<lambda>c.
     gbind (stat a ''STACK'') (\<lambda>f.
     gbind (val a ''RETURN'' ORDER_NONE) (\<lambda>g.
     gbind (gmapM getVariableName (arguments (gmutation a))) (\<lambda>k.
     gbind (setDefinition c
              (gcomments a @ ''function '' @ c @ ''('' @ js_join '', '' k @ '')'' @ [NL] @ f
               @ (if g = '''' then '''' else INDENT @ ''return '' @ g @ [NL]) @ ''end'' @ [NL])) (\<lambda>_.
       gret SNull)))))"

definition gen_procedures_call :: "gblock \<Rightarrow> string gen" where
  \<comment> \<open>the text of \<open>procedures_callreturn\<close>\<close>
  "gen_procedures_call a =
     gbind (getProcedureName (field_text a ''NAME'')) (\<lambda>c.
     gbind (gmapM (\<lambda>k. val_or a (ARGn k) ORDER_NONE ''nil'') [0 ..< length (arguments (gmutation a))]) (\<lambda>d.
       gret (c @ ''('' @ js_join '', '' d @ '')'')))"

definition gen_procedures_callreturn :: std_generator where
  "gen_procedures_callreturn a = gbind (gen_procedures_call a) (\<lambda>s. gret (STuple s ORDER_HIGH))"

definition gen_procedures_callnoreturn :: std_generator where
  "gen_procedures_callnoreturn a = gbind (gen_procedures_call a) (\<lambda>s. gret (SStr (s @ [NL])))"

definition gen_procedures_ifreturn :: std_generator where
  "gen_procedures_ifreturn a =
     gbind (val_or a ''CONDITION'' ORDER_NONE ''false'') (\<lambda>b.
       let c = ''if '' @ b @ '' then'' @ [NL]
       in if hasReturnValue (gmutation a)
          then gbind (val_or a ''VALUE'' ORDER_NONE ''nil'') (\<lambda>v.
                 gret (SStr (c @ INDENT @ ''return '' @ v @ [NL] @ ''end'' @ [NL])))
          else gret (SStr (c @ INDENT @ ''return'' @ [NL] @ ''end'' @ [NL])))"

section \<open>Text\<close>

definition gen_text :: std_generator where
  "gen_text a = gret (STuple (lua_quote (field_text a ''TEXT'')) ORDER_ATOMIC)"

fun split_lines :: "string \<Rightarrow> string list" where
  \<comment> \<open>\<open>split(/\n/g)\<close>\<close>
  "split_lines [] = [[]]"
| "split_lines (c # s) =
     (if c = NL then [] # split_lines s else (case split_lines s of l # ls \<Rightarrow> (c # l) # ls | [] \<Rightarrow> [[c]]))"

definition multiline_quote :: "string \<Rightarrow> string" where
  "multiline_quote a = js_join ('' .. '' @ [CHR 0x27, BSL] @ ''n'' @ [CHR 0x27] @ '' ..'' @ [NL]) (map lua_quote (split_lines a))"

definition gen_text_multiline :: std_generator where
  "gen_text_multiline a =
     (let t = multiline_quote (field_text a ''TEXT'')
      in gret (STuple t (if js_includes ''..'' t then ORDER_CONCATENATION else ORDER_ATOMIC)))"

definition gen_text_join :: std_generator where
  "gen_text_join a =
     (let n = itemCount (gmutation a)
      in if n = 0 then gret (STuple empty_text ORDER_ATOMIC)
         else if n = 1 then
           gbind (val_or a ''ADD0'' ORDER_NONE empty_text) (\<lambda>c. gret (STuple (''tostring('' @ c @ '')'') ORDER_HIGH))
         else if n = 2 then
           gbind (val_or a ''ADD0'' ORDER_CONCATENATION empty_text) (\<lambda>c.
           gbind (val_or a ''ADD1'' ORDER_CONCATENATION empty_text) (\<lambda>b.
             gret (STuple (c @ '' .. '' @ b) ORDER_CONCATENATION)))
         else gbind (gmapM (\<lambda>k. val_or a (ADDn k) ORDER_NONE empty_text) [0 ..< n]) (\<lambda>c.
           gret (STuple (''table.concat({'' @ js_join '', '' c @ ''})'') ORDER_HIGH)))"

definition gen_text_append :: std_generator where
  "gen_text_append a =
     gbind (getVariableName (field_text a ''VAR'')) (\<lambda>c.
     gbind (val_or a ''TEXT'' ORDER_CONCATENATION empty_text) (\<lambda>b. gret (SStr (c @ '' = '' @ c @ '' .. '' @ b @ [NL]))))"

definition gen_text_length :: std_generator where
  "gen_text_length a = gbind (val_or a ''VALUE'' ORDER_UNARY empty_text) (\<lambda>c. gret (STuple (''#'' @ c) ORDER_UNARY))"

definition gen_text_isEmpty :: std_generator where
  "gen_text_isEmpty a =
     gbind (val_or a ''VALUE'' ORDER_UNARY empty_text) (\<lambda>c. gret (STuple (''#'' @ c @ '' == 0'') ORDER_RELATIONAL))"

definition gen_text_indexOf :: std_generator where
  "gen_text_indexOf a =
     gbind (val_or a ''FIND'' ORDER_NONE empty_text) (\<lambda>c.
     gbind (val_or a ''VALUE'' ORDER_NONE empty_text) (\<lambda>d.
     gbind (if field_is a ''END'' ''FIRST'' then provide ''firstIndexOf'' firstIndexOf_code
            else provide ''lastIndexOf'' lastIndexOf_code) (\<lambda>f.
       gret (STuple (f @ ''('' @ d @ '', '' @ c @ '')'') ORDER_HIGH))))"

definition is_simple_index :: "string \<Rightarrow> bool" where
  \<comment> \<open>\<open>/^-?\w*$/\<close>\<close>
  "is_simple_index c \<longleftrightarrow> list_all is_word (if c \<noteq> [] \<and> hd c = CHR ''-'' then tl c else c)"

definition char_place :: "string \<Rightarrow> string \<Rightarrow> string option" where
  "char_place c d =
     (if c = ''FIRST'' then Some ''1'' else if c = ''LAST'' then Some ''-1'' else if c = ''FROM_START'' then Some d
      else if c = ''FROM_END'' then Some (''-'' @ d) else None)"

definition gen_text_charAt :: std_generator where
  "gen_text_charAt a =
     (let c = field_or a ''WHERE'' ''FROM_START''
      in gbind (val_or a ''AT'' (if c = ''FROM_END'' then ORDER_UNARY else ORDER_NONE) ''1'') (\<lambda>d.
         gbind (val_or a ''VALUE'' ORDER_NONE empty_text) (\<lambda>t.
           if c = ''RANDOM'' then
             gbind (provide ''text_random_letter'' text_random_letter_code) (\<lambda>f. gret (STuple (f @ ''('' @ t @ '')'') ORDER_HIGH))
           else case char_place c d of
             None \<Rightarrow> gthrow (PlainError ''Unhandled option (text_charAt).'')
           | Some i \<Rightarrow>
               if is_simple_index i then gret (STuple (''string.sub('' @ t @ '', '' @ i @ '', '' @ i @ '')'') ORDER_HIGH)
               else gbind (provide ''text_char_at'' text_char_at_code) (\<lambda>f.
                      gret (STuple (f @ ''('' @ t @ '', '' @ i @ '')'') ORDER_HIGH)))))"

definition gen_text_getSubstring :: std_generator where
  "gen_text_getSubstring a =
     gbind (val_or a ''STRING'' ORDER_NONE empty_text) (\<lambda>c.
     gbind (val_or a ''AT1'' (if field_is a ''WHERE1'' ''FROM_END'' then ORDER_UNARY else ORDER_NONE) ''1'') (\<lambda>e.
     gbind (if field_is a ''WHERE1'' ''FIRST'' then gret ''1'' else if field_is a ''WHERE1'' ''FROM_START'' then gret e
            else if field_is a ''WHERE1'' ''FROM_END'' then gret (''-'' @ e)
            else gthrow (PlainError ''Unhandled option (text_getSubstring)'')) (\<lambda>d.
     gbind (val_or a ''AT2'' (if field_is a ''WHERE2'' ''FROM_END'' then ORDER_UNARY else ORDER_NONE) ''1'') (\<lambda>f.
     gbind (if field_is a ''WHERE2'' ''LAST'' then gret ''-1'' else if field_is a ''WHERE2'' ''FROM_START'' then gret f
            else if field_is a ''WHERE2'' ''FROM_END'' then gret (''-'' @ f)
            else gthrow (PlainError ''Unhandled option (text_getSubstring)'')) (\<lambda>b.
       gret (STuple (''string.sub('' @ c @ '', '' @ d @ '', '' @ b @ '')'') ORDER_HIGH))))))"

definition gen_text_changeCase :: std_generator where
  "gen_text_changeCase a =
     gbind (val_or a ''TEXT'' ORDER_NONE empty_text) (\<lambda>b.
     gbind (if field_is a ''CASE'' ''UPPERCASE'' then gret ''string.upper'' else if field_is a ''CASE'' ''LOWERCASE'' then gret ''string.lower''
            else if field_is a ''CASE'' ''TITLECASE'' then provide ''text_titlecase'' text_titlecase_code else gret ''undefined'') (\<lambda>d.
       gret (STuple (d @ ''('' @ b @ '')'') ORDER_HIGH)))"

definition trim_pattern :: "string \<Rightarrow> string" where
  "trim_pattern s =
     (case map_of [(''LEFT'', ''^%s*(,-)''), (''RIGHT'', ''(.-)%s*$''), (''BOTH'', ''^%s*(.-)%s*$'')] s of
        Some p \<Rightarrow> p | None \<Rightarrow> ''undefined'')"

definition gen_text_trim :: std_generator where
  "gen_text_trim a =
     gbind (val_or a ''TEXT'' ORDER_NONE empty_text) (\<lambda>b.
       gret (STuple (''string.gsub('' @ b @ '', '' @ [DQ] @ trim_pattern (field_text a ''MODE'') @ [DQ] @ '', '' @ [DQ] @ ''%1'' @ [DQ] @ '')'')
         ORDER_HIGH))"

definition gen_text_print :: std_generator where
  "gen_text_print a = gbind (val_or a ''TEXT'' ORDER_NONE empty_text) (\<lambda>b. gret (SStr (''print('' @ b @ '')'' @ [NL])))"

definition gen_text_prompt_ext :: std_generator where
  "gen_text_prompt_ext a =
     gbind (if field a ''TEXT'' \<noteq> None then gret (lua_quote (field_text a ''TEXT'')) else val_or a ''TEXT'' ORDER_NONE empty_text) (\<lambda>c.
     gbind (provide ''text_prompt'' text_prompt_code) (\<lambda>f.
       let b = f @ ''('' @ c @ '')''
       in gret (STuple (if field_is a ''TYPE'' ''NUMBER'' then ''tonumber('' @ b @ '', 10)'' else b) ORDER_HIGH)))"

definition gen_text_count :: std_generator where
  "gen_text_count a =
     gbind (val_or a ''TEXT'' ORDER_NONE empty_text) (\<lambda>c.
     gbind (val_or a ''SUB'' ORDER_NONE empty_text) (\<lambda>b.
     gbind (provide ''text_count'' text_count_code) (\<lambda>f. gret (STuple (f @ ''('' @ c @ '', '' @ b @ '')'') ORDER_HIGH))))"

definition gen_text_replace :: std_generator where
  "gen_text_replace a =
     gbind (val_or a ''TEXT'' ORDER_NONE empty_text) (\<lambda>c.
     gbind (val_or a ''FROM'' ORDER_NONE empty_text) (\<lambda>d.
     gbind (val_or a ''TO'' ORDER_NONE empty_text) (\<lambda>b.
     gbind (provide ''text_replace'' text_replace_code) (\<lambda>f.
       gret (STuple (f @ ''('' @ c @ '', '' @ d @ '', '' @ b @ '')'') ORDER_HIGH)))))"

definition gen_text_reverse :: std_generator where
  "gen_text_reverse a =
     gbind (val_or a ''TEXT'' ORDER_NONE empty_text) (\<lambda>b. gret (STuple (''string.reverse('' @ b @ '')'') ORDER_HIGH))"

section \<open>Variables\<close>

definition gen_variables_get :: std_generator where
  "gen_variables_get a = gbind (getVariableName (field_text a ''VAR'')) (\<lambda>v. gret (STuple v ORDER_ATOMIC))"

definition gen_variables_set :: std_generator where
  "gen_variables_set a =
     gbind (val_or a ''VALUE'' ORDER_NONE ''0'') (\<lambda>c.
     gbind (getVariableName (field_text a ''VAR'')) (\<lambda>v. gret (SStr (v @ '' = '' @ c @ [NL]))))"

section \<open>The table\<close>

definition std_values :: "(string \<times> std_generator) list" where
  \<comment> \<open>the generators of value blocks\<close>
  "std_values =
    [(''colour_picker'', gen_colour_picker), (''colour_random'', gen_colour_random), (''colour_rgb'', gen_colour_rgb),
     (''colour_blend'', gen_colour_blend), (''lists_create_empty'', gen_lists_create_empty),
     (''lists_create_with'', gen_lists_create_with), (''lists_repeat'', gen_lists_repeat), (''lists_length'', gen_lists_length),
     (''lists_isEmpty'', gen_lists_isEmpty), (''lists_indexOf'', gen_lists_indexOf),
     (''lists_getSublist'', gen_lists_getSublist), (''lists_sort'', gen_lists_sort),
     (''lists_split'', gen_lists_split), (''lists_reverse'', gen_lists_reverse), (''logic_compare'', gen_logic_compare),
     (''logic_operation'', gen_logic_operation), (''logic_negate'', gen_logic_negate), (''logic_boolean'', gen_logic_boolean),
     (''logic_null'', gen_logic_null), (''logic_ternary'', gen_logic_ternary), (''math_number'', gen_math_number),
     (''math_arithmetic'', gen_math_arithmetic), (''math_single'', gen_math_single), (''math_round'', gen_math_single),
     (''math_trig'', gen_math_single), (''math_constant'', gen_math_constant), (''math_number_property'', gen_math_number_property),
     (''math_on_list'', gen_math_on_list), (''math_modulo'', gen_math_modulo), (''math_constrain'', gen_math_constrain),
     (''math_random_int'', gen_math_random_int), (''math_random_float'', gen_math_random_float), (''math_atan2'', gen_math_atan2),
     (''procedures_callreturn'', gen_procedures_callreturn), (''text'', gen_text), (''text_multiline'', gen_text_multiline),
     (''text_join'', gen_text_join), (''text_length'', gen_text_length), (''text_isEmpty'', gen_text_isEmpty),
     (''text_indexOf'', gen_text_indexOf), (''text_charAt'', gen_text_charAt), (''text_getSubstring'', gen_text_getSubstring),
     (''text_changeCase'', gen_text_changeCase), (''text_trim'', gen_text_trim), (''text_prompt'', gen_text_prompt_ext),
     (''text_prompt_ext'', gen_text_prompt_ext), (''text_count'', gen_text_count), (''text_replace'', gen_text_replace),
     (''text_reverse'', gen_text_reverse), (''variables_get'', gen_variables_get), (''variables_get_dynamic'', gen_variables_get)]"

definition std_statements :: "(string \<times> std_generator) list" where
  \<comment> \<open>the generators of statement blocks; \<open>lists_getIndex\<close> is one of both kinds, as its mode says\<close>
  "std_statements =
    [(''lists_getIndex'', gen_lists_getIndex), (''lists_setIndex'', gen_lists_setIndex), (''controls_if'', gen_controls_if),
     (''controls_ifelse'', gen_controls_if), (''controls_repeat'', gen_controls_repeat_ext), (''controls_repeat_ext'', gen_controls_repeat_ext),
     (''controls_whileUntil'', gen_controls_whileUntil), (''controls_for'', gen_controls_for), (''controls_forEach'', gen_controls_forEach),
     (''controls_flow_statements'', gen_controls_flow_statements), (''math_change'', gen_math_change),
     (''procedures_defreturn'', gen_procedures_defreturn), (''procedures_defnoreturn'', gen_procedures_defreturn),
     (''procedures_callnoreturn'', gen_procedures_callnoreturn), (''procedures_ifreturn'', gen_procedures_ifreturn),
     (''text_append'', gen_text_append), (''text_print'', gen_text_print), (''variables_set'', gen_variables_set),
     (''variables_set_dynamic'', gen_variables_set)]"

definition std_generators :: "string \<Rightarrow> std_generator option" where
  "std_generators ty = map_of (std_values @ std_statements) ty"

definition std_is_value :: "string \<Rightarrow> (string \<times> fval) list \<Rightarrow> bool" where
  \<comment> \<open>\<open>lists_getIndex\<close> loses its output when it only removes\<close>
  "std_is_value ty fs \<longleftrightarrow>
     (if ty = ''lists_getIndex'' then getFieldValue fs ''MODE'' \<noteq> Some (FText ''REMOVE'') else ty \<in> fst ` set std_values)"

definition std_luaGenerator :: "(string \<Rightarrow> string) \<Rightarrow> (string \<Rightarrow> mutation) \<Rightarrow> std_lua" where
  "std_luaGenerator wrap mu =
     \<lparr>std_forBlock = std_generators, std_output = std_is_value, std_wrap = wrap, std_mutation = mu\<rparr>"

lemmas gen_defs = gen_colour_picker_def gen_colour_random_def gen_colour_rgb_def gen_colour_blend_def
  gen_lists_create_empty_def gen_lists_create_with_def gen_lists_repeat_def gen_lists_length_def gen_lists_isEmpty_def
  gen_lists_indexOf_def gen_lists_getIndex_def gen_lists_setIndex_def gen_lists_getSublist_def gen_lists_sort_def
  gen_lists_split_def gen_lists_reverse_def gen_controls_if_def gen_logic_compare_def gen_logic_operation_def
  gen_logic_negate_def gen_logic_boolean_def gen_logic_null_def gen_logic_ternary_def gen_controls_repeat_ext_def
  gen_controls_whileUntil_def gen_controls_for_def gen_controls_forEach_def gen_controls_flow_statements_def
  gen_math_number_def gen_math_arithmetic_def gen_math_single_def gen_math_constant_def gen_math_number_property_def
  gen_math_change_def gen_math_on_list_def gen_math_modulo_def gen_math_constrain_def gen_math_random_int_def
  gen_math_random_float_def gen_math_atan2_def gen_procedures_defreturn_def gen_procedures_callreturn_def
  gen_procedures_callnoreturn_def gen_procedures_ifreturn_def gen_text_def gen_text_multiline_def gen_text_join_def
  gen_text_append_def gen_text_length_def gen_text_isEmpty_def gen_text_indexOf_def gen_text_charAt_def
  gen_text_getSubstring_def gen_text_changeCase_def gen_text_trim_def gen_text_print_def gen_text_prompt_ext_def
  gen_text_count_def gen_text_replace_def gen_text_reverse_def gen_variables_get_def gen_variables_set_def

end
