(* ===== verification/Std_Names.thy ===== *)
theory Std_Names
  imports Std_Blocks
begin

text \<open>
  What every generator of a standard block keeps of the generator's state. The interface \<open>gen_state\<close> asks of a relation between
  states only that it holds across the five operations on the state; then it holds across every generator, the traversal of a tree
  of blocks and the generation of a workspace.
\<close>

section \<open>Texts of helper functions\<close>

definition function_head :: "string \<Rightarrow> string" where
  "function_head c = ''function '' @ c @ ''(''"

definition helper_ok :: "string \<Rightarrow> string \<Rightarrow> bool" where
  \<comment> \<open>a key that no procedure has, and a text that defines the function of the place holder\<close>
  "helper_ok a code \<longleftrightarrow> a \<noteq> [] \<and> hd a \<noteq> CHR ''%'' \<and> prefix (function_head PLACEHOLDER) (js_trim code)"

lemma prefix_js_trim:
  assumes "prefix p (dropWhile is_white s)" and "p \<noteq> []" and "\<not> is_white (last p)"
  shows "prefix p (js_trim s)"
proof -
  from assms(1) obtain r where r: "dropWhile is_white s = p @ r" by (auto simp: prefix_def)
  obtain q c where p: "p = q @ [c]" "\<not> is_white c" using assms(2,3) by (cases p rule: rev_cases) auto
  have "\<exists>v. dropWhile is_white (rev r @ c # rev q) = v @ c # rev q"
  proof (cases "\<exists>x \<in> set (rev r). \<not> is_white x")
    case True
    then obtain x where "x \<in> set (rev r)" "\<not> is_white x" by blast
    then show ?thesis by (auto simp: dropWhile_append1)
  next
    case False
    then have "dropWhile is_white (rev r @ c # rev q) = c # rev q" using p(2) by (subst dropWhile_append2) auto
    then show ?thesis by auto
  qed
  then obtain v where "dropWhile is_white (rev r @ c # rev q) = v @ c # rev q" ..
  then show ?thesis by (simp add: js_trim_def r p(1) prefix_def)
qed

lemma helper_okI:
  assumes "a \<noteq> []" and "hd a \<noteq> CHR ''%''" and "prefix (function_head PLACEHOLDER) (dropWhile is_white code)"
  shows "helper_ok a code"
  unfolding helper_ok_def using assms
  by (intro conjI prefix_js_trim) (simp_all add: function_head_def is_white_def)

lemma helper_ok_text:
  assumes "a \<noteq> []" and "hd a \<noteq> CHR ''%''" and "ls \<noteq> []"
  shows "helper_ok a (js_join [NL] ([] # (''function '' @ PLACEHOLDER @ CHR ''('' # r) # ls))"
    and "helper_ok a (js_join [NL] ((''function '' @ PLACEHOLDER @ CHR ''('' # r) # ls))"
  using assms by (auto intro!: helper_okI simp: js_join_Cons function_head_def is_white_def)

lemma helper_ok_codes:
  "helper_ok ''colour_rgb'' colour_rgb_code" "helper_ok ''colour_blend'' colour_blend_code"
  "helper_ok ''create_list_repeated'' create_list_repeated_code" "helper_ok ''first_index'' first_index_code"
  "helper_ok ''last_index'' last_index_code" "helper_ok ''list_sort'' list_sort_code"
  "helper_ok ''list_string_split'' list_string_split_code" "helper_ok ''list_reverse'' list_reverse_code"
  "helper_ok ''math_isPrime'' math_isPrime_code" "helper_ok ''math_sum'' math_sum_code" "helper_ok ''math_min'' math_min_code"
  "helper_ok ''math_average'' (math_average_code c)" "helper_ok ''math_max'' math_max_code"
  "helper_ok ''math_median'' math_median_code" "helper_ok ''math_modes'' math_modes_code"
  "helper_ok ''math_standard_deviation'' (math_standard_deviation_code c)" "helper_ok ''math_random_list'' math_random_list_code"
  "helper_ok ''firstIndexOf'' firstIndexOf_code" "helper_ok ''lastIndexOf'' lastIndexOf_code"
  "helper_ok ''text_random_letter'' text_random_letter_code" "helper_ok ''text_char_at'' text_char_at_code"
  "helper_ok ''text_titlecase'' text_titlecase_code" "helper_ok ''text_prompt'' text_prompt_code"
  "helper_ok ''text_count'' text_count_code" "helper_ok ''text_replace'' text_replace_code"
  unfolding colour_rgb_code_def colour_blend_code_def create_list_repeated_code_def first_index_code_def last_index_code_def
    list_sort_code_def list_string_split_code_def list_reverse_code_def math_isPrime_code_def math_sum_code_def
    math_min_code_def math_average_code_def math_max_code_def math_median_code_def math_modes_code_def
    math_standard_deviation_code_def math_random_list_code_def firstIndexOf_code_def lastIndexOf_code_def
    text_random_letter_code_def text_char_at_code_def text_titlecase_code_def text_prompt_code_def text_count_code_def
    text_replace_code_def
  by (rule helper_ok_text; simp)+

lemma helper_ok_lists:
  "helper_ok (''list_get_'' @ d) (list_function_code e b f)" "helper_ok (''list_remove_'' @ d) (list_function_code e b f)"
  "helper_ok (''list_sublist_'' @ d) (list_sublist_code g h e f)"
proof -
  have head: "helper_ok a (js_join [NL] ([] # (''function '' @ PLACEHOLDER @ p @ r) # ls))"
    "helper_ok a (js_join [NL] ((''function '' @ PLACEHOLDER @ p @ r) # ls))"
    if "a \<noteq> []" "hd a \<noteq> CHR ''%''" "ls \<noteq> []" "p = CHR ''('' # p'" for a p r ls p'
    using helper_ok_text [OF that(1-3), of "p' @ r"] that(4) by simp_all
  show "helper_ok (''list_get_'' @ d) (list_function_code e b f)" "helper_ok (''list_remove_'' @ d) (list_function_code e b f)"
    unfolding list_function_code_def by (rule head(2); simp)+
  show "helper_ok (''list_sublist_'' @ d) (list_sublist_code g h e f)"
    unfolding list_sublist_code_def by (rule head(1); simp)
qed

section \<open>Interface: relations that the operations on the state respect\<close>

locale gen_state =
  fixes R :: "lua_names \<Rightarrow> lua_names \<Rightarrow> bool"
  assumes refl: "R g g"
    and trans: "R g g' \<Longrightarrow> R g' g'' \<Longrightarrow> R g g''"
    and helper: "helper_ok a code \<Longrightarrow> R g (snd (provideFunction en_Msg a code g))"
    and name: "R g (g\<lparr>nameDB := snd (getName en_Msg a t (nameDB g))\<rparr>)"
    and temp: "R g (g\<lparr>nameDB := snd (getDistinctName en_Msg a t (nameDB g))\<rparr>)"
    and procedure: "R g (define_procedure a code g)"
begin

definition keeps :: "'a gen \<Rightarrow> bool" where
  "keeps m \<longleftrightarrow> (\<forall>g x g'. m g = Inr (x, g') \<longrightarrow> R g g')"

definition inputs_keep :: "gblock \<Rightarrow> bool" where
  "inputs_keep a \<longleftrightarrow> (\<forall>n m. input_target a n = Some m \<longrightarrow> keeps m)"

lemma keeps_gret: "keeps (gret x)"
  by (simp add: keeps_def gret_def refl)

lemma keeps_gthrow: "keeps (gthrow e)"
  by (simp add: keeps_def gthrow_def)

lemma keeps_gbind: "keeps m \<Longrightarrow> (\<And>x. keeps (f x)) \<Longrightarrow> keeps (gbind m f)"
  unfolding keeps_def gbind_def by (auto simp: bind_result_Inr_iff) (meson trans)

lemma keeps_provide: "helper_ok a code \<Longrightarrow> keeps (provide a code)"
  using helper by (auto simp: keeps_def provide_def) (metis snd_conv)

lemma keeps_name_for: "keeps (name_for a t)"
  using name by (auto simp: keeps_def name_for_def split: prod.splits) (metis snd_conv)

lemma keeps_distinctName: "keeps (distinctName a)"
  using temp by (auto simp: keeps_def distinctName_def split: prod.splits) (metis snd_conv)

lemma keeps_setDefinition: "keeps (setDefinition c d)"
  using procedure by (auto simp: keeps_def setDefinition_def)

lemma keeps_if: "(c \<Longrightarrow> keeps m) \<Longrightarrow> (\<not> c \<Longrightarrow> keeps m') \<Longrightarrow> keeps (if c then m else m')"
  by simp

lemma keeps_gmapM: "(\<And>x. keeps (f x)) \<Longrightarrow> keeps (gmapM f xs)"
  by (induction xs) (auto intro!: keeps_gret keeps_gbind)

lemma keeps_val: "inputs_keep a \<Longrightarrow> keeps (val a n k)"
  by (auto simp: val_def inputs_keep_def value_text_def intro!: keeps_gbind keeps_gret keeps_gthrow split: option.split scode.split)

lemma keeps_val_or: "inputs_keep a \<Longrightarrow> keeps (val_or a n k d)"
  by (auto simp: val_or_def intro!: keeps_gbind keeps_gret keeps_val)

lemma keeps_stat: "inputs_keep a \<Longrightarrow> keeps (stat a n)"
  by (auto simp: stat_def inputs_keep_def statement_text_def intro!: keeps_gbind keeps_gret keeps_gthrow split: option.split scode.split)

lemmas keeps_rules = keeps_gbind keeps_gret keeps_gthrow keeps_provide helper_ok_codes helper_ok_lists [simplified] keeps_name_for keeps_distinctName keeps_setDefinition
  keeps_if keeps_gmapM keeps_val keeps_val_or keeps_stat

lemma keeps_if_chain: "inputs_keep a \<Longrightarrow> keeps (gen_if_chain a c d)"
proof (induction a c d rule: gen_if_chain.induct)
  case (1 a c d)
  show ?case
    by (subst gen_if_chain.simps, unfold Let_def) (intro keeps_rules 1(1) [OF HOL.refl _ 1(2)] | rule 1(2) | assumption)+
qed

lemma keeps_call: "inputs_keep a \<Longrightarrow> keeps (gen_procedures_call a)"
  by (auto simp: gen_procedures_call_def intro!: keeps_rules)

lemma keeps_on_list: "keeps (on_list_function d)"
  by (auto simp: on_list_function_def sum_function_def intro!: keeps_rules)

lemma keeps_std_values:
  assumes "inputs_keep a" and "(ty, f) \<in> set std_values"
  shows "keeps (f a)"
  using assms(2) unfolding std_values_def list.set insert_iff empty_iff
  by (elim disjE; simp only: prod.inject simp_thms)
    (use assms(1) in \<open>auto simp: gen_defs Let_def intro!: keeps_rules keeps_call keeps_on_list split: option.split prod.split fval.split\<close>)

lemma keeps_std_statements:
  assumes "inputs_keep a" and "(ty, f) \<in> set std_statements"
  shows "keeps (f a)"
  using assms(2) unfolding std_statements_def list.set insert_iff empty_iff
  by (elim disjE; simp only: prod.inject simp_thms)
    (use assms(1) in \<open>auto simp: gen_defs Let_def intro!: keeps_rules keeps_call keeps_if_chain split: option.split prod.split\<close>)

lemma keeps_generators:
  assumes "std_generators ty = Some f" and "inputs_keep a"
  shows "keeps (f a)"
proof -
  have "(ty, f) \<in> set std_values \<or> (ty, f) \<in> set std_statements"
    using map_of_SomeD [OF assms(1) [unfolded std_generators_def]] by simp
  with assms(2) keeps_std_values keeps_std_statements show ?thesis by blast
qed

lemma keeps_blockToCode:
  assumes "std_forBlock G = std_generators"
  shows "keeps (std_blockToCode G att b)"
proof (induction b arbitrary: att rule: block.induct
    [where ?P2.0 = "\<lambda>i. \<forall>n t m. std_inputToCode G i = (n, t, Some m) \<longrightarrow> keeps m"])
  case (Block ty i en cm fs ins nx)
  define c where "c = (if std_output G ty fs \<and> att then '''' else comment_code (std_wrap G) cm ins)"
  define a where
    "a = \<lparr>gfields = fs, ginputs = map (std_inputToCode G) ins, gmutation = std_mutation G i, gcomments = c\<rparr>"
  have "inputs_keep a"
    unfolding inputs_keep_def
  proof (intro allI impI)
    fix n m
    assume "input_target a n = Some m"
    then obtain t where "map_of (map (std_inputToCode G) ins) n = Some (t, Some m)"
      by (auto simp: input_target_def a_def split: option.splits)
    then obtain j where "j \<in> set ins" "std_inputToCode G j = (n, t, Some m)" by (auto dest!: map_of_SomeD)
    with Block.hyps show "keeps m" by blast
  qed
  then have "keeps (f a)" if "std_forBlock G ty = Some f" for f using that assms keeps_generators by simp
  moreover have "keeps (case nx of None \<Rightarrow> gret (SStr '''') | Some b \<Rightarrow> std_blockToCode G True b)"
    using Block.IH by (auto intro: keeps_gret split: option.split)
  ultimately show ?case
    by (auto simp: Let_def c_def a_def simp del: gbind_gret intro!: keeps_gbind keeps_gret keeps_gthrow split: option.split scode.split)
next
  case (Input n t tgt)
  then show ?case by (cases tgt) auto
qed

lemma keeps_workspace:
  assumes "std_forBlock G = std_generators" and "gmapM (top_code G) bs g = Inr (es, g')"
  shows "R g g'"
proof -
  have "keeps (gmapM (top_code G) bs)"
    unfolding top_code_def by (intro keeps_gmapM keeps_gbind keeps_gret keeps_blockToCode assms(1))
  with assms(2) show ?thesis by (auto simp: keeps_def)
qed

end

section \<open>Definitions of helper functions\<close>

definition defs_inv :: "lua_names \<Rightarrow> bool" where
  \<comment> \<open>every helper function is defined once, by a text that starts with its name\<close>
  "defs_inv g \<longleftrightarrow>
     distinct (map fst (definitions g)) \<and>
     (\<forall>a c. functionNames g a = Some c \<longrightarrow>
        a \<noteq> [] \<and> hd a \<noteq> CHR ''%'' \<and> (\<exists>d. map_of (definitions g) a = Some d \<and> prefix (function_head c) d))"

definition names_kept :: "lua_names \<Rightarrow> lua_names \<Rightarrow> bool" where
  \<comment> \<open>every name that has been given stays with its owner\<close>
  "names_kept g g' \<longleftrightarrow> name_of g \<subseteq>\<^sub>m name_of g'"

definition names_step :: "lua_names \<Rightarrow> lua_names \<Rightarrow> bool" where
  "names_step g g' \<longleftrightarrow>
     (names_reachable g \<and> defs_inv g \<longrightarrow> names_reachable g' \<and> defs_inv g' \<and> names_kept g g')"

lemma replace_all_skip: "CHR ''{'' \<notin> set u \<Longrightarrow> replace_all PLACEHOLDER c (u @ s) = u @ replace_all PLACEHOLDER c s"
proof (induction u)
  case (Cons x u)
  then show ?case by (simp add: replace_all.simps [of _ _ "x # u @ s"] PLACEHOLDER_def)
qed simp

lemma replace_all_here: "replace_all PLACEHOLDER c (PLACEHOLDER @ s) = c @ replace_all PLACEHOLDER c s"
  by (simp add: replace_all.simps [of _ _ "PLACEHOLDER @ s"]) (simp add: PLACEHOLDER_def)

lemma replaced_head:
  assumes "prefix (function_head PLACEHOLDER) s"
  shows "prefix (function_head c) (replace_all PLACEHOLDER c s)"
proof -
  from assms obtain r where s: "s = ''function '' @ PLACEHOLDER @ ''('' @ r" by (auto simp: prefix_def function_head_def)
  have "replace_all PLACEHOLDER c s = ''function '' @ c @ ''('' @ replace_all PLACEHOLDER c r"
    unfolding s using replace_all_skip [of "''function ''" c] replace_all_skip [of "''(''" c] replace_all_here by simp
  then show ?thesis by (simp add: function_head_def)
qed

lemma name_of_nameDB: "definitions g' = definitions g \<Longrightarrow> functionNames g' = functionNames g \<Longrightarrow>
    (\<And>t. db (nameDB g) t \<subseteq>\<^sub>m db (nameDB g') t) \<Longrightarrow> names_kept g g' \<and> (defs_inv g \<longrightarrow> defs_inv g')"
  by (auto simp: names_kept_def defs_inv_def name_of_def map_le_def dom_def split: owner.split)

lemma step_helper:
  assumes ok: "helper_ok a code"
  shows "names_step g (snd (provideFunction en_Msg a code g))"
  unfolding names_step_def
proof (intro impI conjI; elim conjE)
  assume r: "names_reachable g" and inv: "defs_inv g"
  show "names_reachable (snd (provideFunction en_Msg a code g))" using r by (rule names_reachable.helper)
  obtain c s' where c: "getDistinctName en_Msg a PROCEDURE (nameDB g) = (c, s')" by fastforce
  have db: "db s' = db (nameDB g)" using c by (auto simp: getDistinctName_def Let_def)
  have "dom (functionNames g) \<subseteq> dom (map_of (definitions g))"
    using names_inv_reachable [OF r] by (simp add: names_inv_def)
  then have new: "functionNames g a = None" if "map_of (definitions g) a = None" using that by blast
  show "names_kept g (snd (provideFunction en_Msg a code g))"
    using c db new by (auto simp: names_kept_def provideFunction_def name_of_def map_le_def dom_def split: option.split owner.split)
  show "defs_inv (snd (provideFunction en_Msg a code g))"
  proof (cases "map_of (definitions g) a")
    case (Some x)
    with inv show ?thesis by (simp add: provideFunction_def)
  next
    case None
    then have "a \<notin> fst ` set (definitions g)" by (simp add: map_of_eq_None_iff)
    with None c inv ok replaced_head [of "js_trim code" c] show ?thesis
      by (auto simp: provideFunction_def defs_inv_def helper_ok_def)
  qed
qed

lemma step_name: "names_step g (g\<lparr>nameDB := snd (getName en_Msg a t (nameDB g))\<rparr>)"
proof -
  have "db (nameDB g) u \<subseteq>\<^sub>m db (snd (getName en_Msg a t (nameDB g))) u" for u
    by (auto simp: getName_def getDistinctName_def Let_def map_le_def dom_def split: option.split)
  then show ?thesis
    using name_of_nameDB [of "g\<lparr>nameDB := snd (getName en_Msg a t (nameDB g))\<rparr>" g]
    by (auto simp: names_step_def intro: names_reachable.name)
qed

lemma step_temp: "names_step g (g\<lparr>nameDB := snd (getDistinctName en_Msg a t (nameDB g))\<rparr>)"
proof -
  have "db (snd (getDistinctName en_Msg a t (nameDB g))) = db (nameDB g)" by (simp add: getDistinctName_def Let_def)
  then show ?thesis
    using name_of_nameDB [of "g\<lparr>nameDB := snd (getDistinctName en_Msg a t (nameDB g))\<rparr>" g]
    by (auto simp: names_step_def map_le_def intro: names_reachable.temp)
qed

lemma map_of_update: "map_of (map (\<lambda>(n, x). (n, if n = k then d else x)) xs) a = map_option (\<lambda>x. if a = k then d else x) (map_of xs a)"
  by (induction xs) auto

lemma step_procedure: "names_step g (define_procedure a code g)"
proof -
  have "name_of (define_procedure a code g) = name_of g"
    by (intro ext) (simp add: name_of_def define_procedure_def Let_def split: owner.split)
  moreover have keys: "map fst (map (\<lambda>(n, x). (n, if n = k then d else x)) xs) = map fst xs"
    for k d and xs :: "(string \<times> string) list"
    by (induction xs) auto
  have "distinct (map fst (definitions (define_procedure a code g)))" if "distinct (map fst (definitions g))"
  proof (cases "(CHR ''%'' # a) \<in> fst ` set (definitions g)")
    case True
    then have "definitions (define_procedure a code g)
        = map (\<lambda>(n, x). (n, if n = CHR ''%'' # a then code else x)) (definitions g)"
      by (simp add: define_procedure_def Let_def)
    with that show ?thesis by (simp only: keys)
  next
    case False
    with that show ?thesis by (simp add: define_procedure_def Let_def)
  qed
  moreover have "map_of (definitions (define_procedure a code g)) k = map_of (definitions g) k" if "k = [] \<or> hd k \<noteq> CHR ''%''" for k
  proof -
    have "map_option (\<lambda>x. x) r = r" for r :: "string option" by (cases r) simp_all
    with that show ?thesis by (auto simp: define_procedure_def Let_def map_of_update)
  qed
  moreover have "functionNames (define_procedure a code g) = functionNames g" by (simp add: define_procedure_def Let_def)
  ultimately have "defs_inv (define_procedure a code g)" if "defs_inv g"
    using that unfolding defs_inv_def by metis
  with \<open>name_of (define_procedure a code g) = name_of g\<close> show ?thesis
    by (auto simp: names_step_def names_kept_def intro: names_reachable.procedure)
qed

interpretation std: gen_state names_step
proof
  show "names_step g g" for g by (simp add: names_step_def names_kept_def)
  show "names_step g g''" if "names_step g g'" "names_step g' g''" for g g' g''
    using that map_le_trans by (auto simp: names_step_def names_kept_def)
qed (auto intro: step_helper step_name step_temp step_procedure)

end
