(* ===== verification/Std_Total.thy ===== *)
theory Std_Total
  imports Std_Names
begin

text \<open>
  Generation does not fail on what the editor can build. A block is well-formed when its dropdowns hold options of the block's definition
  (\<open>blocks_compressed.js\<close>) and its connections join blocks of the right kind; a tree of such blocks always has code, a
  tuple for a value block and a text for a statement block.
\<close>

section \<open>Well-formed standard blocks\<close>

abbreviation where_any :: "string list" where
  "where_any \<equiv> [''FROM_START'', ''FROM_END'', ''FIRST'', ''LAST'', ''RANDOM'']"

definition std_options :: "(string \<times> string \<times> string list) list" where
  \<comment> \<open>the dropdowns that decide what the generators do, by block type\<close>
  "std_options =
    [(''lists_getIndex'', ''MODE'', [''GET'', ''GET_REMOVE'', ''REMOVE'']), (''lists_getIndex'', ''WHERE'', where_any),
     (''lists_setIndex'', ''MODE'', [''SET'', ''INSERT'']), (''lists_setIndex'', ''WHERE'', where_any),
     (''lists_getSublist'', ''WHERE1'', [''FROM_START'', ''FROM_END'', ''FIRST'']),
     (''lists_getSublist'', ''WHERE2'', [''FROM_START'', ''FROM_END'', ''LAST'']),
     (''lists_split'', ''MODE'', [''SPLIT'', ''JOIN'']),
     (''controls_flow_statements'', ''FLOW'', [''BREAK'', ''CONTINUE'']),
     (''math_arithmetic'', ''OP'', [''ADD'', ''MINUS'', ''MULTIPLY'', ''DIVIDE'', ''POWER'']),
     (''math_single'', ''OP'', [''ROOT'', ''ABS'', ''NEG'', ''LN'', ''LOG10'', ''EXP'', ''POW10'']),
     (''math_trig'', ''OP'', [''SIN'', ''COS'', ''TAN'', ''ASIN'', ''ACOS'', ''ATAN'']),
     (''math_round'', ''OP'', [''ROUND'', ''ROUNDUP'', ''ROUNDDOWN'']),
     (''math_constant'', ''CONSTANT'', [''PI'', ''E'', ''GOLDEN_RATIO'', ''SQRT2'', ''SQRT1_2'', ''INFINITY'']),
     (''math_number_property'', ''PROPERTY'', [''EVEN'', ''ODD'', ''PRIME'', ''WHOLE'', ''POSITIVE'', ''NEGATIVE'', ''DIVISIBLE_BY'']),
     (''math_on_list'', ''OP'', [''SUM'', ''MIN'', ''MAX'', ''AVERAGE'', ''MEDIAN'', ''MODE'', ''STD_DEV'', ''RANDOM'']),
     (''text_charAt'', ''WHERE'', where_any),
     (''text_getSubstring'', ''WHERE1'', [''FROM_START'', ''FROM_END'', ''FIRST'']),
     (''text_getSubstring'', ''WHERE2'', [''FROM_START'', ''FROM_END'', ''LAST''])]"

definition options_ok :: "string \<Rightarrow> (string \<times> fval) list \<Rightarrow> bool" where
  "options_ok ty fs \<longleftrightarrow>
     list_all (\<lambda>(u, n, opts). u = ty \<longrightarrow> list_ex (\<lambda>v. getFieldValue fs n = Some (FText v)) opts) std_options"

definition statement_input :: "string \<Rightarrow> string \<Rightarrow> bool" where
  \<comment> \<open>the inputs that take statements\<close>
  "statement_input ty n \<longleftrightarrow>
     (if ty \<in> {''controls_if'', ''controls_ifelse''} then take 2 n = ''DO'' \<or> n = ''ELSE''
      else if ty \<in> {''controls_repeat'', ''controls_repeat_ext'', ''controls_whileUntil'', ''controls_for'', ''controls_forEach''} then n = ''DO''
      else ty \<in> {''procedures_defreturn'', ''procedures_defnoreturn''} \<and> n = ''STACK'')"

fun std_ok :: "block \<Rightarrow> bool" and std_input_ok :: "string \<Rightarrow> binput \<Rightarrow> bool" where
  "std_ok (Block ty i en cm fs ins nx) \<longleftrightarrow>
     std_generators ty \<noteq> None \<and> options_ok ty fs \<and> list_all (std_input_ok ty) ins \<and>
     (case nx of
        None \<Rightarrow> True
      | Some b \<Rightarrow> std_ok b \<and> \<not> std_is_value ty fs \<and> \<not> std_is_value (btype b) (block.fields b))"
| "std_input_ok ty (Input n t None) \<longleftrightarrow> True"
| "std_input_ok ty (Input n t (Some b)) \<longleftrightarrow>
     std_ok b \<and> (std_is_value (btype b) (block.fields b) \<longleftrightarrow> \<not> statement_input ty n)"

section \<open>Computations that return\<close>

definition returns :: "'a gen \<Rightarrow> ('a \<Rightarrow> bool) \<Rightarrow> bool" where
  "returns m Q \<longleftrightarrow> (\<forall>g. \<exists>x g'. m g = Inr (x, g') \<and> Q x)"

definition runs :: "'a gen \<Rightarrow> bool" where
  "runs m \<longleftrightarrow> returns m (\<lambda>x. True)"

definition value_code :: "scode \<Rightarrow> bool" where
  "value_code c \<longleftrightarrow> (\<exists>s k. c = STuple s k) \<or> c = SStr ''''"

definition statement_code :: "scode \<Rightarrow> bool" where
  "statement_code c \<longleftrightarrow> (\<exists>s. c = SStr s) \<or> c = SNull"

definition kind_code :: "bool \<Rightarrow> scode \<Rightarrow> bool" where
  "kind_code v c = (if v then \<exists>s k. c = STuple s k else statement_code c)"

definition ginputs_ok :: "string \<Rightarrow> gblock \<Rightarrow> bool" where
  "ginputs_ok ty a \<longleftrightarrow>
     (\<forall>n m. input_target a n = Some m \<longrightarrow> 
        (if statement_input ty n then returns m (\<lambda>c. \<exists>s. c = SStr s) else returns m value_code))"

lemma returns_gret [intro!]: "Q x \<Longrightarrow> returns (gret x) Q"
  by (simp add: returns_def gret_def)

lemma returns_gbind: "returns m P \<Longrightarrow> (\<And>x. P x \<Longrightarrow> returns (f x) Q) \<Longrightarrow> returns (gbind m f) Q"
proof -
  assume m: "returns m P" and f: "\<And>x. P x \<Longrightarrow> returns (f x) Q"
  show ?thesis unfolding returns_def
  proof
    fix g
    from m obtain x g' where x: "m g = Inr (x, g')" "P x" unfolding returns_def by blast
    from f [OF x(2)] obtain y g'' where "f x g' = Inr (y, g'')" "Q y" unfolding returns_def by blast
    with x(1) show "\<exists>y g''. gbind m f g = Inr (y, g'') \<and> Q y" by (simp add: gbind_def)
  qed
qed

lemma returns_weaken: "returns m P \<Longrightarrow> (\<And>x. P x \<Longrightarrow> Q x) \<Longrightarrow> returns m Q"
  unfolding returns_def by blast

lemma returns_bind: "runs m \<Longrightarrow> (\<And>x. returns (f x) Q) \<Longrightarrow> returns (gbind m f) Q"
  unfolding runs_def by (rule returns_gbind)

lemma runs_bind: "runs m \<Longrightarrow> (\<And>x. runs (f x)) \<Longrightarrow> runs (gbind m f)"
  unfolding runs_def by (rule returns_gbind)

lemma runs_gret: "runs (gret x)"
  unfolding runs_def by (rule returns_gret) simp

lemma runs_if: "(c \<Longrightarrow> runs m) \<Longrightarrow> (\<not> c \<Longrightarrow> runs m') \<Longrightarrow> runs (if c then m else m')"
  by simp

lemma returns_if: "(c \<Longrightarrow> returns m Q) \<Longrightarrow> (\<not> c \<Longrightarrow> returns m' Q) \<Longrightarrow> returns (if c then m else m') Q"
  by simp

lemma runs_state: "runs (provide a code)" "runs (name_for a t)" "runs (distinctName a)" "runs (setDefinition c d)"
  by (simp_all add: runs_def returns_def provide_def name_for_def distinctName_def setDefinition_def split: prod.split)

lemma runs_gmapM: "(\<And>x. runs (f x)) \<Longrightarrow> runs (gmapM f xs)"
  by (induction xs) (auto intro!: runs_gret runs_bind)

lemma runs_val:
  assumes "ginputs_ok ty a" and "\<not> statement_input ty n"
  shows "runs (val a n k)"
proof (cases "input_target a n")
  case None
  then show ?thesis by (simp add: val_def runs_gret)
next
  case (Some m)
  with assms have "returns m value_code" by (auto simp: ginputs_ok_def)
  then have "runs (gbind m (value_text k))"
    unfolding runs_def by (rule returns_gbind) (auto simp: value_code_def value_text_def intro!: returns_gret)
  with Some show ?thesis by (simp add: val_def)
qed

lemma runs_val_or: "ginputs_ok ty a \<Longrightarrow> \<not> statement_input ty n \<Longrightarrow> runs (val_or a n k d)"
  unfolding val_or_def by (intro runs_bind runs_val runs_gret)

lemma runs_stat:
  assumes "ginputs_ok ty a" and "statement_input ty n"
  shows "runs (stat a n)"
proof (cases "input_target a n")
  case None
  then show ?thesis by (simp add: stat_def runs_gret)
next
  case (Some m)
  with assms have "returns m (\<lambda>c. \<exists>s. c = SStr s)" by (auto simp: ginputs_ok_def)
  then have "runs (gbind m statement_text)"
    unfolding runs_def by (rule returns_gbind) (auto simp: statement_text_def intro!: returns_gret)
  with Some show ?thesis by (simp add: stat_def)
qed

lemma statement_input_simps:
  "\<not> statement_input ty (ADDn k)" "\<not> statement_input ty (ARGn k)" "\<not> statement_input ty (IFn k)"
  "statement_input ''controls_if'' (DOn k)" "statement_input ''controls_ifelse'' (DOn k)"
  by (simp_all add: statement_input_def ADDn_def ARGn_def IFn_def DOn_def)

lemmas returns_rules = returns_if runs_if returns_bind returns_gret runs_bind runs_gret runs_state runs_gmapM

lemma runs_if_chain:
  assumes "ginputs_ok ty a" and "ty = ''controls_if'' \<or> ty = ''controls_ifelse''"
  shows "runs (gen_if_chain a c d)"
  using assms
proof (induction a c d rule: gen_if_chain.induct)
  case (1 a c d)
  have "statement_input ty (DOn c)" using 1(3) by (auto simp: statement_input_simps)
  then have s: "runs (stat a (DOn c))" by (rule runs_stat [OF 1(2)])
  have v: "runs (val_or a (IFn c) 99 ''false'')" by (rule runs_val_or [OF 1(2)]) (rule statement_input_simps)
  note IH = 1(1) [OF HOL.refl _ 1(2,3)]
  show ?case
    by (subst gen_if_chain.simps) (unfold Let_def, (intro runs_bind v s runs_if runs_gret IH | assumption)+)
qed

lemma runs_on_list:
  "d \<in> {''SUM'', ''MIN'', ''MAX'', ''AVERAGE'', ''MEDIAN'', ''MODE'', ''STD_DEV'', ''RANDOM''} \<Longrightarrow> runs (on_list_function d)"
  by (auto simp: on_list_function_def sum_function_def intro!: returns_rules)

section \<open>Generators\<close>

definition tuple_code :: "scode \<Rightarrow> bool" where
  "tuple_code c \<longleftrightarrow> (\<exists>s k. c = STuple s k)"

lemma tuple_code_simp [simp]: "tuple_code (STuple s k)"
  by (simp add: tuple_code_def)

lemma simple_values_return:
  assumes v: "\<And>n k d. runs (val_or a n k d)" "\<And>n k. runs (val a n k)"
  shows
    "returns (gen_colour_picker a) tuple_code" "returns (gen_colour_random a) tuple_code"
    "returns (gen_colour_rgb a) tuple_code" "returns (gen_colour_blend a) tuple_code"
    "returns (gen_lists_create_empty a) tuple_code" "returns (gen_lists_create_with a) tuple_code"
    "returns (gen_lists_repeat a) tuple_code" "returns (gen_lists_length a) tuple_code"
    "returns (gen_lists_isEmpty a) tuple_code" "returns (gen_lists_indexOf a) tuple_code"
    "returns (gen_lists_sort a) tuple_code" "returns (gen_lists_reverse a) tuple_code"
    "returns (gen_logic_compare a) tuple_code" "returns (gen_logic_operation a) tuple_code"
    "returns (gen_logic_negate a) tuple_code" "returns (gen_logic_boolean a) tuple_code"
    "returns (gen_logic_null a) tuple_code" "returns (gen_logic_ternary a) tuple_code"
    "returns (gen_math_number a) tuple_code" "returns (gen_math_modulo a) tuple_code"
    "returns (gen_math_constrain a) tuple_code" "returns (gen_math_random_int a) tuple_code"
    "returns (gen_math_random_float a) tuple_code" "returns (gen_math_atan2 a) tuple_code"
    "returns (gen_procedures_callreturn a) tuple_code" "returns (gen_text a) tuple_code"
    "returns (gen_text_multiline a) tuple_code" "returns (gen_text_join a) tuple_code"
    "returns (gen_text_length a) tuple_code" "returns (gen_text_isEmpty a) tuple_code"
    "returns (gen_text_indexOf a) tuple_code" "returns (gen_text_changeCase a) tuple_code"
    "returns (gen_text_trim a) tuple_code" "returns (gen_text_prompt_ext a) tuple_code"
    "returns (gen_text_count a) tuple_code" "returns (gen_text_replace a) tuple_code"
    "returns (gen_text_reverse a) tuple_code" "returns (gen_variables_get a) tuple_code"
  unfolding gen_defs gen_procedures_call_def Let_def
  by (auto intro!: returns_rules v split del: if_split)+

lemma option_values_return:
  assumes v: "\<And>n k d. runs (val_or a n k d)" "\<And>n k. runs (val a n k)"
  shows
    "options_ok ''lists_getSublist'' (gfields a) \<Longrightarrow> returns (gen_lists_getSublist a) tuple_code"
    "options_ok ''lists_split'' (gfields a) \<Longrightarrow> returns (gen_lists_split a) tuple_code"
    "options_ok ''math_arithmetic'' (gfields a) \<Longrightarrow> returns (gen_math_arithmetic a) tuple_code"
    "options_ok ''math_single'' (gfields a) \<Longrightarrow> returns (gen_math_single a) tuple_code"
    "options_ok ''math_trig'' (gfields a) \<Longrightarrow> returns (gen_math_single a) tuple_code"
    "options_ok ''math_round'' (gfields a) \<Longrightarrow> returns (gen_math_single a) tuple_code"
    "options_ok ''math_constant'' (gfields a) \<Longrightarrow> returns (gen_math_constant a) tuple_code"
    "options_ok ''math_number_property'' (gfields a) \<Longrightarrow> returns (gen_math_number_property a) tuple_code"
    "options_ok ''math_on_list'' (gfields a) \<Longrightarrow> returns (gen_math_on_list a) tuple_code"
    "options_ok ''text_charAt'' (gfields a) \<Longrightarrow> returns (gen_text_charAt a) tuple_code"
    "options_ok ''text_getSubstring'' (gfields a) \<Longrightarrow> returns (gen_text_getSubstring a) tuple_code"
proof -
  show "options_ok ''lists_getSublist'' (gfields a) \<Longrightarrow> returns (gen_lists_getSublist a) tuple_code"
    by (auto simp: options_ok_def std_options_def gen_lists_getSublist_def field_def intro!: returns_rules v split del: if_split)
  show "options_ok ''lists_split'' (gfields a) \<Longrightarrow> returns (gen_lists_split a) tuple_code"
    by (auto simp: options_ok_def std_options_def gen_lists_split_def field_def field_is_def intro!: returns_rules v split del: if_split)
  show "options_ok ''math_arithmetic'' (gfields a) \<Longrightarrow> returns (gen_math_arithmetic a) tuple_code"
    by (auto simp: options_ok_def std_options_def gen_math_arithmetic_def field_def field_text_def arithmetic_op_def
        intro!: returns_rules v)
  show "options_ok ''math_single'' (gfields a) \<Longrightarrow> returns (gen_math_single a) tuple_code"
    and "options_ok ''math_trig'' (gfields a) \<Longrightarrow> returns (gen_math_single a) tuple_code"
    and "options_ok ''math_round'' (gfields a) \<Longrightarrow> returns (gen_math_single a) tuple_code"
    by (auto simp: options_ok_def std_options_def gen_math_single_def field_def field_text_def Let_def single_call_def
        intro!: returns_rules v)
  show "options_ok ''math_constant'' (gfields a) \<Longrightarrow> returns (gen_math_constant a) tuple_code"
    by (auto simp: options_ok_def std_options_def gen_math_constant_def field_def field_text_def math_constants_def)
  show "options_ok ''math_number_property'' (gfields a) \<Longrightarrow> returns (gen_math_number_property a) tuple_code"
    by (auto simp: options_ok_def std_options_def gen_math_number_property_def field_def field_text_def Let_def number_properties_def
        intro!: returns_rules v)
  show "options_ok ''math_on_list'' (gfields a) \<Longrightarrow> returns (gen_math_on_list a) tuple_code"
    by (auto simp: options_ok_def std_options_def gen_math_on_list_def field_def field_text_def intro!: returns_rules v runs_on_list)
  show "options_ok ''text_charAt'' (gfields a) \<Longrightarrow> returns (gen_text_charAt a) tuple_code"
    by (auto simp: options_ok_def std_options_def gen_text_charAt_def field_def field_or_def or_else_def Let_def char_place_def
        intro!: returns_rules v)
  show "options_ok ''text_getSubstring'' (gfields a) \<Longrightarrow> returns (gen_text_getSubstring a) tuple_code"
  proof -
    assume ok: "options_ok ''text_getSubstring'' (gfields a)"
    then have "\<exists>d \<in> {''FROM_START'', ''FROM_END'', ''FIRST''}. getFieldValue (gfields a) ''WHERE1'' = Some (FText d)"
      by (simp add: options_ok_def std_options_def)
    then have d: "runs (if field_is a ''WHERE1'' ''FIRST'' then gret ''1'' else if field_is a ''WHERE1'' ''FROM_START'' then gret e
        else if field_is a ''WHERE1'' ''FROM_END'' then gret (''-'' @ e) else gthrow x)" for e x
      by (auto simp: field_is_def field_def runs_gret)
    from ok have "\<exists>d \<in> {''FROM_START'', ''FROM_END'', ''LAST''}. getFieldValue (gfields a) ''WHERE2'' = Some (FText d)"
      by (simp add: options_ok_def std_options_def)
    then have f: "runs (if field_is a ''WHERE2'' ''LAST'' then gret ''-1'' else if field_is a ''WHERE2'' ''FROM_START'' then gret e
        else if field_is a ''WHERE2'' ''FROM_END'' then gret (''-'' @ e) else gthrow x)" for e x
      by (auto simp: field_is_def field_def runs_gret)
    show ?thesis unfolding gen_text_getSubstring_def by (intro returns_bind d f v returns_gret tuple_code_simp)
  qed
qed

definition statement_types :: "string list" where
  "statement_types =
    [''controls_if'', ''controls_ifelse'', ''controls_repeat'', ''controls_repeat_ext'', ''controls_whileUntil'', ''controls_for'',
     ''controls_forEach'', ''procedures_defreturn'', ''procedures_defnoreturn'']"

lemma statement_inputD: "statement_input ty n \<Longrightarrow> ty \<in> set statement_types"
  by (auto simp: statement_input_def statement_types_def split: if_splits)

lemma value_not_statement:
  assumes "ty \<in> fst ` set std_values"
  shows "\<not> statement_input ty n"
proof -
  have "list_all (\<lambda>ty. ty \<notin> set statement_types) (map fst std_values)" by code_simp
  with assms statement_inputD show ?thesis unfolding list_all_iff by auto
qed

lemma std_values_return:
  assumes "ginputs_ok ty a" and "options_ok ty (gfields a)" and "(ty, f) \<in> set std_values"
  shows "returns (f a) tuple_code"
proof -
  have "\<not> statement_input ty n" for n using assms(3) by (intro value_not_statement) force
  then have v: "\<And>n k d. runs (val_or a n k d)" "\<And>n k. runs (val a n k)"
    using runs_val_or [OF assms(1)] runs_val [OF assms(1)] by blast+
  show ?thesis
    using assms(3,2) unfolding std_values_def list.set insert_iff empty_iff
    by (elim disjE; simp only: prod.inject simp_thms) (auto intro: simple_values_return [OF v] option_values_return [OF v])
qed

lemma plain_statements_return:
  assumes v: "\<And>n k d. runs (val_or a n k d)"
  shows "returns (gen_lists_setIndex a) statement_code" "returns (gen_math_change a) statement_code"
    "returns (gen_procedures_callnoreturn a) statement_code" "returns (gen_procedures_ifreturn a) statement_code"
    "returns (gen_text_append a) statement_code" "returns (gen_text_print a) statement_code"
    "returns (gen_variables_set a) statement_code"
    "options_ok ''controls_flow_statements'' (gfields a) \<Longrightarrow> returns (gen_controls_flow_statements a) statement_code"
    "options_ok ''lists_getIndex'' (gfields a) \<Longrightarrow> returns (gen_lists_getIndex a) (kind_code (std_is_value ''lists_getIndex'' (gfields a)))"
proof -
  show "returns (gen_lists_setIndex a) statement_code" "returns (gen_math_change a) statement_code"
    "returns (gen_procedures_callnoreturn a) statement_code" "returns (gen_procedures_ifreturn a) statement_code"
    "returns (gen_text_append a) statement_code" "returns (gen_text_print a) statement_code"
    "returns (gen_variables_set a) statement_code"
    unfolding gen_lists_setIndex_def gen_math_change_def gen_procedures_callnoreturn_def gen_procedures_ifreturn_def
      gen_text_append_def gen_text_print_def gen_variables_set_def gen_procedures_call_def Let_def
    by (auto simp: statement_code_def intro!: returns_rules v split del: if_split)
  show "options_ok ''controls_flow_statements'' (gfields a) \<Longrightarrow> returns (gen_controls_flow_statements a) statement_code"
    by (auto simp: options_ok_def std_options_def gen_controls_flow_statements_def field_is_def field_def statement_code_def
        intro!: returns_rules)
  assume "options_ok ''lists_getIndex'' (gfields a)"
  then obtain c where c: "c \<in> {''GET'', ''GET_REMOVE'', ''REMOVE''}" "getFieldValue (gfields a) ''MODE'' = Some (FText c)"
    by (auto simp: options_ok_def std_options_def)
  then have "field_or a ''MODE'' ''GET'' = c" by (auto simp: field_or_def field_def or_else_def)
  with c show "returns (gen_lists_getIndex a) (kind_code (std_is_value ''lists_getIndex'' (gfields a)))"
    unfolding gen_lists_getIndex_def Let_def
    by (auto simp: std_is_value_def kind_code_def statement_code_def intro!: returns_rules v split del: if_split)
qed

lemma loops_return:
  assumes a: "ginputs_ok ty a" and ty: "ty \<in> {''controls_repeat'', ''controls_repeat_ext'', ''controls_whileUntil'', ''controls_for'', ''controls_forEach''}"
  shows "returns (gen_controls_repeat_ext a) statement_code" "returns (gen_controls_whileUntil a) statement_code"
    "returns (gen_controls_for a) statement_code" "returns (gen_controls_forEach a) statement_code"
proof -
  have s: "runs (stat a ''DO'')" by (rule runs_stat [OF a]) (use ty in \<open>auto simp: statement_input_def\<close>)
  have v: "runs (val_or a n k d)" if "n \<in> {''TIMES'', ''BOOL'', ''FROM'', ''TO'', ''BY'', ''LIST''}" for n k d
    by (rule runs_val_or [OF a]) (use ty that in \<open>auto simp: statement_input_def\<close>)
  show "returns (gen_controls_repeat_ext a) statement_code" "returns (gen_controls_whileUntil a) statement_code"
    "returns (gen_controls_for a) statement_code" "returns (gen_controls_forEach a) statement_code"
    unfolding gen_controls_repeat_ext_def gen_controls_whileUntil_def gen_controls_for_def gen_controls_forEach_def Let_def
    by (auto simp: statement_code_def intro!: returns_rules v s split: option.split split del: if_split)
qed

lemma if_returns:
  assumes a: "ginputs_ok ty a" and ty: "ty = ''controls_if'' \<or> ty = ''controls_ifelse''"
  shows "returns (gen_controls_if a) statement_code"
proof -
  have s: "runs (stat a ''ELSE'')" by (rule runs_stat [OF a]) (use ty in \<open>auto simp: statement_input_def\<close>)
  show ?thesis
    unfolding gen_controls_if_def by (auto simp: statement_code_def intro!: returns_rules s runs_if_chain [OF a ty])
qed

lemma procedure_returns:
  assumes a: "ginputs_ok ty a" and ty: "ty = ''procedures_defreturn'' \<or> ty = ''procedures_defnoreturn''"
  shows "returns (gen_procedures_defreturn a) statement_code"
proof -
  have s: "runs (stat a ''STACK'')" by (rule runs_stat [OF a]) (use ty in \<open>auto simp: statement_input_def\<close>)
  have v: "runs (val a ''RETURN'' k)" for k by (rule runs_val [OF a]) (use ty in \<open>auto simp: statement_input_def\<close>)
  show ?thesis
    unfolding gen_procedures_defreturn_def by (auto simp: statement_code_def intro!: returns_rules s v)
qed

lemma not_value_statements: "ty \<in> fst ` set std_statements \<Longrightarrow> ty \<notin> fst ` set std_values"
proof -
  assume "ty \<in> fst ` set std_statements"
  moreover have "list_all (\<lambda>ty. ty \<notin> set (map fst std_values)) (map fst std_statements)" by code_simp
  ultimately show ?thesis unfolding list_all_iff by auto
qed

lemma std_statements_return:
  assumes "ginputs_ok ty a" and "options_ok ty (gfields a)" and "(ty, f) \<in> set std_statements"
  shows "returns (f a) (kind_code (std_is_value ty (gfields a)))"
proof -
  have kind: "kind_code (std_is_value ty (gfields a)) = statement_code" if "ty \<noteq> ''lists_getIndex''"
  proof -
    have "ty \<notin> fst ` set std_values" using assms(3) by (intro not_value_statements) force
    with that show ?thesis by (simp add: std_is_value_def kind_code_def fun_eq_iff)
  qed
  have "runs (val_or a n k d)" if "ty \<notin> set statement_types" for n k d
    using runs_val_or [OF assms(1)] statement_inputD that by blast
  note plain = plain_statements_return [OF this]
  have "returns (f a) statement_code" if "ty \<noteq> ''lists_getIndex''"
    using assms(3,2,1) that unfolding std_statements_def list.set insert_iff empty_iff
    by (elim disjE; simp only: prod.inject simp_thms)
      (auto simp: statement_types_def intro: plain loops_return if_returns procedure_returns)
  moreover have "f = gen_lists_getIndex" if "ty = ''lists_getIndex''"
    using assms(3) that by (simp add: std_statements_def)
  ultimately show ?thesis using kind plain(9) assms(2) by (cases "ty = ''lists_getIndex''") (auto simp: statement_types_def)
qed

lemma std_generators_return:
  assumes "ginputs_ok ty a" and "options_ok ty (gfields a)" and "std_generators ty = Some f"
  shows "returns (f a) (kind_code (std_is_value ty (gfields a)))"
proof -
  from map_of_SomeD [OF assms(3) [unfolded std_generators_def]]
  have "(ty, f) \<in> set std_values \<or> (ty, f) \<in> set std_statements" by simp
  then show ?thesis
  proof
    assume v: "(ty, f) \<in> set std_values"
    have "list_all (\<lambda>ty. ty \<noteq> ''lists_getIndex'') (map fst std_values)" by code_simp
    with v have "std_is_value ty (gfields a)" by (force simp: std_is_value_def list_all_iff)
    then have "kind_code (std_is_value ty (gfields a)) = tuple_code" by (simp add: kind_code_def tuple_code_def fun_eq_iff)
    with std_values_return [OF assms(1,2) v] show ?thesis by simp
  next
    assume "(ty, f) \<in> set std_statements"
    with std_statements_return [OF assms(1,2)] show ?thesis .
  qed
qed

section \<open>Trees of blocks\<close>

definition result_code :: "block \<Rightarrow> scode \<Rightarrow> bool" where
  \<comment> \<open>what \<open>blockToCode\<close> gives for the block: a text, or a tuple for an enabled value block\<close>
  "result_code b c =
     (if std_is_value (btype b) (block.fields b) then if enabled b then tuple_code c else c = SStr '''' else \<exists>s. c = SStr s)"

lemma std_luaGenerator_sel:
  "std_forBlock (std_luaGenerator wrap mu) = std_generators" "std_output (std_luaGenerator wrap mu) = std_is_value"
  "std_wrap (std_luaGenerator wrap mu) = wrap" "std_mutation (std_luaGenerator wrap mu) = mu"
  by (simp_all add: std_luaGenerator_def)

lemma blockToCode_returns:
  "std_ok b \<Longrightarrow> returns (std_blockToCode (std_luaGenerator wrap mu) att b) (result_code b)"
proof (induction b arbitrary: att rule: block.induct
    [where ?P2.0 = "\<lambda>i. \<forall>b. itarget i = Some b \<longrightarrow> std_ok b \<longrightarrow>
       (\<forall>att. returns (std_blockToCode (std_luaGenerator wrap mu) att b) (result_code b))"])
  case (Block ty i en cm fs ins nx)
  let ?G = "std_luaGenerator wrap mu"
  define c where "c = (if std_is_value ty fs \<and> att then '''' else comment_code wrap cm ins)"
  define a where "a = \<lparr>gfields = fs, ginputs = map (std_inputToCode ?G) ins, gmutation = mu i, gcomments = c\<rparr>"
  from Block.prems obtain f where f: "std_generators ty = Some f" and opts: "options_ok ty fs"
    and ins: "list_all (std_input_ok ty) ins" by auto
  define rest where "rest = (case nx of None \<Rightarrow> gret (SStr '''') | Some b \<Rightarrow> std_blockToCode ?G True b)"
  have rest: "returns rest (\<lambda>r. (\<exists>s. r = SStr s) \<and> (std_is_value ty fs \<longrightarrow> r = SStr ''''))"
  proof (cases nx)
    case None
    then show ?thesis by (auto simp: rest_def intro!: returns_gret)
  next
    case (Some b)
    with Block.prems Block.IH(1) [of b True] show ?thesis by (auto simp: rest_def result_code_def)
  qed
  have "ginputs_ok ty a"
    unfolding ginputs_ok_def
  proof (intro allI impI)
    fix n m
    assume "input_target a n = Some m"
    then obtain t where "map_of (map (std_inputToCode ?G) ins) n = Some (t, Some m)"
      by (auto simp: input_target_def a_def split: option.splits)
    then obtain j where j: "j \<in> set ins" "std_inputToCode ?G j = (n, t, Some m)" by (auto dest!: map_of_SomeD)
    then obtain b where b: "j = Input n t (Some b)" "m = std_blockToCode ?G True b"
      by (cases "(?G, j)" rule: std_inputToCode.cases) auto
    with ins j(1) have ok: "std_ok b" "std_is_value (btype b) (block.fields b) \<longleftrightarrow> \<not> statement_input ty n"
      by (auto simp: list_all_iff)
    have "returns m (result_code b)" using Block.hyps [OF j(1)] b ok(1) by auto
    moreover have "result_code b c \<Longrightarrow> if statement_input ty n then \<exists>s. c = SStr s else value_code c" for c
      using ok(2) by (auto simp: result_code_def value_code_def tuple_code_def split: if_splits)
    ultimately have "returns m (\<lambda>c. if statement_input ty n then \<exists>s. c = SStr s else value_code c)" by (rule returns_weaken)
    then show "if statement_input ty n then returns m (\<lambda>c. \<exists>s. c = SStr s) else returns m value_code"
      by (cases "statement_input ty n") simp_all
  qed
  then have code: "returns (f a) (kind_code (std_is_value ty fs))"
    using std_generators_return [of ty a f] f opts by (simp add: a_def)
  show ?case
  proof (cases en)
    case False
    then have "std_blockToCode ?G att (Block ty i en cm fs ins nx) = rest" by (simp add: rest_def)
    moreover from rest have "returns rest (result_code (Block ty i en cm fs ins nx))"
      by (rule returns_weaken) (auto simp: result_code_def False)
    ultimately show ?thesis by simp
  next
    case True
    let ?k = "\<lambda>x. case x of
        STuple s n \<Rightarrow> if std_is_value ty fs then gbind rest (\<lambda>r. gret (STuple (c @ s @ scode_text r) n))
          else gthrow (TypeError (''Expecting string from statement block: '' @ ty))
      | SStr s \<Rightarrow> gbind rest (\<lambda>r. gret (SStr (c @ s @ scode_text r)))
      | SNull \<Rightarrow> gret (SStr '''')
      | SUndefined \<Rightarrow> gthrow (SyntaxError ''Invalid code generated: undefined'')"
    have "std_blockToCode ?G att (Block ty i en cm fs ins nx) = gbind (f a) ?k"
      using True f by (simp only: std_blockToCode.simps Let_def std_luaGenerator_sel a_def c_def rest_def simp_thms if_True if_False option.case)
    moreover have "returns (gbind (f a) ?k) (result_code (Block ty i en cm fs ins nx))"
      using code
    proof (rule returns_gbind)
      fix x
      assume "kind_code (std_is_value ty fs) x"
      then show "returns (?k x) (result_code (Block ty i en cm fs ins nx))"
        using rest True
        by (auto simp: kind_code_def statement_code_def result_code_def split: if_splits intro!: returns_gret returns_gbind [OF rest])
    qed
    ultimately show ?thesis by simp
  qed
next
  case (Input n t tgt)
  then show ?case by auto
qed

lemma top_blocks_return:
  "list_all std_ok bs \<Longrightarrow> runs (gmapM (top_code (std_luaGenerator wrap mu)) bs)"
proof (induction bs)
  case Nil
  show ?case by (simp add: runs_gret)
next
  case (Cons b bs)
  then have "runs (top_code (std_luaGenerator wrap mu) b)"
    unfolding top_code_def runs_def using blockToCode_returns by (intro returns_gbind [OF blockToCode_returns] returns_gret) simp_all
  with Cons show ?case by (auto intro!: runs_bind runs_gret)
qed

text \<open>
  C5. Code generation never fails on a workspace of standard blocks that the editor can build: when every dropdown holds one of its
  options and every connection joins a value to a value input or a statement to a statement input, the whole workspace has code, whatever
  names the last run left behind, and every block has code of its kind: a tuple for an enabled value block, nothing for
  a disabled one, a text for a statement block.
\<close>

theorem standard_blocks_generate:
  assumes "list_all std_ok bs"
  shows "(\<exists>code. std_workspaceToCode (std_luaGenerator wrap mu) vars ids procs s bs = Inr code) \<and>
    (\<forall>b g att. b \<in> set bs \<longrightarrow>
       (\<exists>c g'. std_blockToCode (std_luaGenerator wrap mu) att b g = Inr (c, g') \<and> result_code b c))"
proof
  from top_blocks_return [OF assms, of wrap mu] obtain es g where
    "gmapM (top_code (std_luaGenerator wrap mu)) bs (lua_init en_Msg vars ids procs s) = Inr (es, g)"
    unfolding runs_def returns_def by blast
  then show "\<exists>code. std_workspaceToCode (std_luaGenerator wrap mu) vars ids procs s bs = Inr code"
    by (simp add: std_workspaceToCode_def)
  show "\<forall>b g att. b \<in> set bs \<longrightarrow>
       (\<exists>c g'. std_blockToCode (std_luaGenerator wrap mu) att b g = Inr (c, g') \<and> result_code b c)"
    using assms blockToCode_returns [of _ wrap mu] unfolding list_all_iff returns_def by blast
qed

definition sample_workspace :: "block list" where
  \<comment> \<open>\<open>for each item of the list: count by its average\<close>, beside a block that stands alone\<close>
  "sample_workspace =
    (let empty = Block ''lists_create_empty'' ''e'' True None [] [] None;
         average = Block ''math_on_list'' ''m'' True None [(''OP'', FText ''AVERAGE'')] [Input ''LIST'' VALUE (Some empty)] None;
         change = Block ''math_change'' ''c'' True None [(''VAR'', FText ''v'')] [Input ''DELTA'' VALUE (Some average)] None
     in [Block ''controls_forEach'' ''f'' True (Some ''note'') [(''VAR'', FText ''v'')]
           [Input ''LIST'' VALUE (Some empty), Input ''DO'' STATEMENT (Some change)] None,
         Block ''math_constant'' ''k'' True None [(''CONSTANT'', FText ''PI'')] [] None])"

abbreviation no_mutation :: "string \<Rightarrow> mutation" where
  "no_mutation \<equiv> \<lambda>i. \<lparr>itemCount = 0, arguments = [], hasReturnValue = False\<rparr>"

lemma sample_workspace_ok: "list_all std_ok sample_workspace"
  by (simp add: sample_workspace_def Let_def std_generators_def std_values_def std_statements_def options_ok_def std_options_def
      getFieldValue_def std_is_value_def statement_input_def)

theorem standard_blocks_generate_witness:
  "\<exists>code. std_workspaceToCode (std_luaGenerator id no_mutation) [''v'' \<mapsto> ''total''] [''v''] [] (new_Names RESERVED_WORDS) sample_workspace = Inr code"
  using standard_blocks_generate [OF sample_workspace_ok] by blast

section \<open>Names of the generated program\<close>

text \<open>
  C19. Whatever standard blocks a workspace holds, when its code has been generated every variable, procedure and helper function
  has a name of its own, an identifier that is no reserved word; the names with which the run started are still with their
  owners; and the head of the program defines every helper function that a generator has asked for exactly once, under the name
  that the generated code calls.
\<close>

theorem workspace_names_defined:
  assumes "gmapM (top_code (std_luaGenerator wrap mu)) bs (lua_init en_Msg vars ids procs (new_Names RESERVED_WORDS)) = Inr (es, g)"
  shows "inj_on (name_of g) (dom (name_of g)) \<and>
    (\<forall>n \<in> ran (name_of g). lua_identifier n \<and> n \<notin> set RESERVED_WORDS) \<and>
    name_of (lua_init en_Msg vars ids procs (new_Names RESERVED_WORDS)) \<subseteq>\<^sub>m name_of g \<and>
    distinct (map fst (definitions g)) \<and>
    (\<forall>a c. functionNames g a = Some c \<longrightarrow> (\<exists>d. (a, d) \<in> set (definitions g) \<and> prefix (function_head c) d))"
proof -
  let ?g = "lua_init en_Msg vars ids procs (new_Names RESERVED_WORDS)"
  have "names_step ?g g" using assms by (rule std.keeps_workspace [rotated]) (simp add: std_luaGenerator_def)
  moreover have "names_reachable ?g" by (rule names_reachable.init)
  moreover have "defs_inv ?g" by (simp add: defs_inv_def lua_init_def Let_def)
  ultimately have g: "names_reachable g" "defs_inv g" "names_kept ?g g" by (auto simp: names_step_def)
  from names_inv_reachable [OF g(1)] have "inj_on (name_of g) (dom (name_of g))"
    "\<forall>n \<in> ran (name_of g). lua_identifier n \<and> n \<notin> set RESERVED_WORDS"
    unfolding names_inv_def list_all_iff by blast+
  with g(2,3) show ?thesis unfolding defs_inv_def names_kept_def by (blast dest: map_of_SomeD)
qed

theorem workspace_names_defined_witness:
  "\<exists>es g. gmapM (top_code (std_luaGenerator id no_mutation)) sample_workspace
       (lua_init en_Msg [''v'' \<mapsto> ''total''] [''v''] [] (new_Names RESERVED_WORDS)) = Inr (es, g) \<and>
     inj_on (name_of g) (dom (name_of g)) \<and> distinct (map fst (definitions g))"
proof -
  from top_blocks_return [OF sample_workspace_ok, of id no_mutation] obtain es g where
    "gmapM (top_code (std_luaGenerator id no_mutation)) sample_workspace
       (lua_init en_Msg [''v'' \<mapsto> ''total''] [''v''] [] (new_Names RESERVED_WORDS)) = Inr (es, g)"
    unfolding runs_def returns_def by blast
  with workspace_names_defined [OF this] show ?thesis by blast
qed

end
