(* ===== verification/Lua_Calls.thy ===== *)
theory Lua_Calls
  imports Lua_Syntax
begin

text \<open>
  Reading calls, tables and operators with no blank: the second part of the lemmas with which generated expressions are read piece by piece.
\<close>

section \<open>Calls and tables\<close>

definition prim :: "lua_token list \<Rightarrow> lexp \<Rightarrow> bool" where
  \<comment> \<open>tokens that can be called or indexed\<close>
  "prim ts e \<longleftrightarrow>
     ts \<noteq> [] \<and> (\<forall>u r. ts = TSym u # r \<longrightarrow> u \<notin> set unary_ops) \<and>
     (\<exists>f. \<forall>n rest r. suffixedexp n e rest = Some r \<longrightarrow> simpleexp (n + f) (ts @ rest) = Some r)"

definition arglist :: "string \<Rightarrow> lua_token list \<Rightarrow> lexp list \<Rightarrow> bool" where
  "arglist close ts es \<longleftrightarrow> (\<exists>f. \<forall>n rest. explist (n + f) close (ts @ TSym close # rest) = Some (es, rest))"

lemma primE:
  assumes "prim ts e"
  obtains f where "\<And>n rest r. suffixedexp n e rest = Some r \<Longrightarrow> simpleexp (n + f) (ts @ rest) = Some r"
  using assms unfolding prim_def by blast

lemma suffixedexp_raise: "suffixedexp n e rest = Some r \<Longrightarrow> n \<le> m \<Longrightarrow> suffixedexp m e rest = Some r"
  by (rule le_opt_Some [OF parse_mono(4)])

lemma good_prim: "prim ts e \<Longrightarrow> good k ts e"
proof -
  assume p: "prim ts e"
  then obtain f where f: "\<And>n rest r. suffixedexp n e rest = Some r \<Longrightarrow> simpleexp (n + f) (ts @ rest) = Some r"
    by (rule primE) blast
  have "simpleexp (n + Suc f) (ts @ rest) = Some (e, rest)" if "follows rest" for n rest
    using f [OF suffixedexp_stop [OF that, of n e]] by simp
  then show ?thesis by (rule good_simple) (use p in \<open>auto simp: prim_def\<close>)
qed

lemma prim_name: "w \<notin> {''nil'', ''true'', ''false''} \<Longrightarrow> prim [TName w] (EVar w)"
proof -
  assume "w \<notin> {''nil'', ''true'', ''false''}"
  then have "suffixedexp n (EVar w) rest = Some r \<longrightarrow> simpleexp (n + 1) ([TName w] @ rest) = Some r" for n rest r
    by (simp add: simpleexp.simps)
  then show ?thesis unfolding prim_def by blast
qed

lemma prim_suffix:
  \<comment> \<open>a suffix that one round of \<open>suffixedexp\<close> reads\<close>
  assumes "prim ts e" and "\<And>n rest. suffixedexp (Suc (n + f)) e (us @ rest) = suffixedexp (n + f) e' rest"
  shows "prim (ts @ us) e'"
proof -
  from assms(1) obtain h where h: "\<And>n rest r. suffixedexp n e rest = Some r \<Longrightarrow> simpleexp (n + h) (ts @ rest) = Some r"
    by (rule primE) blast
  have "simpleexp (n + (Suc f + h)) ((ts @ us) @ rest) = Some r" if "suffixedexp n e' rest = Some r" for n rest r
  proof -
    have "suffixedexp (n + f) e' rest = Some r" using that by (rule suffixedexp_raise) simp
    then have "suffixedexp (Suc (n + f)) e (us @ rest) = Some r" using assms(2) by simp
    from h [OF this] show ?thesis by (simp add: add.assoc)
  qed
  moreover have "ts @ us \<noteq> []" "\<forall>u r. ts @ us = TSym u # r \<longrightarrow> u \<notin> set unary_ops"
    using assms(1) unfolding prim_def by (cases ts; auto)+
  ultimately show ?thesis unfolding prim_def by blast
qed

lemma prim_field: "prim ts e \<Longrightarrow> prim (ts @ [TSym ''.'', TName w]) (EIndex e (EStr w))"
  by (rule prim_suffix [where f = 0]) (simp_all add: suffixedexp.simps)

lemma prim_call:
  assumes "prim ts e" and "arglist '')'' us es"
  shows "prim (ts @ TSym ''('' # us @ [TSym '')'']) (ECall e es)"
proof -
  from assms(2) obtain f where f: "\<And>n rest. explist (n + f) '')'' (us @ TSym '')'' # rest) = Some (es, rest)"
    unfolding arglist_def by blast
  show ?thesis by (rule prim_suffix [OF assms(1), where f = f]) (simp add: suffixedexp.simps f)
qed

lemma good_table:
  assumes "arglist ''}'' us es"
  shows "good k (TSym ''{'' # us @ [TSym ''}'']) (ETable es)"
proof -
  from assms obtain f where f: "\<And>n rest. explist (n + f) ''}'' (us @ TSym ''}'' # rest) = Some (es, rest)"
    unfolding arglist_def by blast
  have "simpleexp (n + Suc f) ((TSym ''{'' # us @ [TSym ''}'']) @ rest) = Some (ETable es, rest)" for n rest
    by (simp add: simpleexp.simps f)
  then show ?thesis by (rule good_simple) (auto simp: unary_ops_def)
qed

lemma closing:
  assumes "y \<in> {'')'', ''}'', '',''}"
  shows "follows (TSym y # t)" and "next_prio (TSym y # t) = 0"
proof -
  have "y \<notin> {''('', ''['', ''.'', ''{''}" "map_of priorities y = None"
    using assms by (elim insertE emptyE; simp add: priorities_def)+
  then show "follows (TSym y # t)" "next_prio (TSym y # t) = 0" unfolding follows_def next_prio_def by auto
qed

lemma good_start:
  \<comment> \<open>an expression does not start with a closing symbol\<close>
  assumes "good k ts e" and "0 < left_of k" and "y \<in> {'')'', ''}''}"
  shows "ts \<noteq> []" and "hd ts \<noteq> TSym y"
proof -
  from assms(1) obtain f where f: "\<forall>n limit rest r. limit < left_of k \<longrightarrow> follows rest \<longrightarrow>
    next_prio rest \<le> right_of k \<longrightarrow> oploop n limit e rest = Some r \<longrightarrow> subexp (n + f) limit (ts @ rest) = Some r"
    unfolding good_def ..
  have close: "follows (TSym y # t)" "next_prio (TSym y # t) = 0" for t
    using closing [of y t] assms(3) by blast+
  have "oploop (Suc 0) 0 e [TSym y] = Some (e, [TSym y])" by (rule oploop_stop) (simp add: close)
  then have s: "subexp (Suc 0 + f) 0 (ts @ [TSym y]) = Some (e, [TSym y])"
    using assms(2) close by (intro f [rule_format]) simp_all
  have none: "subexp m 0 (TSym y # t) = None" for m t
  proof (cases m)
    case (Suc n)
    have "y \<notin> set unary_ops" "y \<notin> {''('', ''{''}" using assms(3) by (auto simp: unary_ops_def)
    moreover from this have "simpleexp n (TSym y # t) = None" by (cases n) (simp_all add: simpleexp.simps)
    ultimately show ?thesis by (simp add: Suc subexp.simps)
  qed (simp add: subexp.simps)
  show "ts \<noteq> []" using s none by auto
  then show "hd ts \<noteq> TSym y" using s none by (cases ts) auto
qed

lemma explist_first:
  assumes "good k ts e" and "k < 10" and "y \<in> {'')'', ''}''}" and "z = y \<or> z = '',''"
  shows "\<exists>f. \<forall>n rest. explist (Suc (n + f)) y (ts @ TSym z # rest) =
      (if z = y then Some ([e], rest)
       else Option.bind (explist (n + f) y rest) (\<lambda>(es, r). if es = [] then None else Some (e # es, r)))"
proof -
  from assms(1) obtain f where f: "\<forall>n limit rest r. limit < left_of k \<longrightarrow> follows rest \<longrightarrow>
    next_prio rest \<le> right_of k \<longrightarrow> oploop n limit e rest = Some r \<longrightarrow> subexp (n + f) limit (ts @ rest) = Some r"
    unfolding good_def ..
  have k: "0 < left_of k" using order_cases [OF assms(2)] by (auto simp: left_of_def)
  have z: "follows (TSym z # rest)" "next_prio (TSym z # rest) = 0" for rest
    using closing [of z rest] assms(3,4) by blast+
  have sub: "subexp (n + Suc f) 0 (ts @ TSym z # rest) = Some (e, TSym z # rest)" for n rest
  proof -
    have "oploop (Suc n) 0 e (TSym z # rest) = Some (e, TSym z # rest)" by (rule oploop_stop) (simp add: z)
    then have "subexp (Suc n + f) 0 (ts @ TSym z # rest) = Some (e, TSym z # rest)" using k z by (intro f [rule_format]) simp_all
    then show ?thesis by simp
  qed
  note start = good_start [OF assms(1) k assms(3)]
  have "explist (Suc (n + Suc f)) y (ts @ TSym z # rest) =
      (if z = y then Some ([e], rest)
       else Option.bind (explist (n + Suc f) y rest) (\<lambda>(es, r). if es = [] then None else Some (e # es, r)))" for n rest
  proof -
    have "\<not> (ts @ TSym z # rest \<noteq> [] \<and> hd (ts @ TSym z # rest) = TSym y)" using start by simp
    moreover have "z \<noteq> y \<Longrightarrow> z = '',''" using assms(4) by blast
    ultimately show ?thesis using sub [of n rest] by (auto simp only: explist.simps simp_thms if_False bind.simps
      case_prod_conv list.case lua_token.case split: if_split)
  qed
  then show ?thesis by blast
qed

lemma arglist_Nil: "arglist y [] []"
proof -
  have "explist (n + 1) y ([] @ TSym y # rest) = Some ([], rest)" for n rest by (simp add: explist.simps)
  then show ?thesis unfolding arglist_def by blast
qed

lemma arglist_one:
  assumes "good k ts e" and "k < 10" and "y \<in> {'')'', ''}''}"
  shows "arglist y ts [e]"
proof -
  from explist_first [OF assms, of y] obtain f where "\<forall>n rest. explist (Suc (n + f)) y (ts @ TSym y # rest) = Some ([e], rest)" by auto
  then have "explist (n + Suc f) y (ts @ TSym y # rest) = Some ([e], rest)" for n rest by simp
  then show ?thesis unfolding arglist_def by blast
qed

lemma arglist_Cons:
  assumes "good k ts e" and "k < 10" and "y \<in> {'')'', ''}''}" and "arglist y us es" and "es \<noteq> []"
  shows "arglist y (ts @ TSym '','' # us) (e # es)"
proof -
  from assms(4) obtain h where h: "\<And>n rest. explist (n + h) y (us @ TSym y # rest) = Some (es, rest)"
    unfolding arglist_def by blast
  have z: "'','' \<noteq> y" using assms(3) by auto
  obtain f where f:
    "\<And>n rest. explist (Suc (n + f)) y (ts @ TSym '','' # rest) =
       Option.bind (explist (n + f) y rest) (\<lambda>(es, r). if es = [] then None else Some (e # es, r))"
    using explist_first [OF assms(1-3), of "'',''"] z by auto
  have "explist (n + (Suc f + h)) y ((ts @ TSym '','' # us) @ TSym y # rest) = Some (e # es, rest)" for n rest
    using f [of "n + h" "us @ TSym y # rest"] h [of "n + f" rest] assms(5) by (simp add: ac_simps)
  then show ?thesis unfolding arglist_def by blast
qed

section \<open>Texts of calls\<close>

lemma lex_single:
  \<comment> \<open>symbols that are no prefix of a longer one\<close>
  assumes "c \<in> set ''({#+*%^[]}),''"
  shows "lua_lex (c # t) = map_option ((@) [TSym [c]]) (lua_lex t)"
proof -
  have "symbol_token ([c] @ t) = Some [c]"
    using assms by (auto simp: symbol_token_def long_symbols_def)
  then show ?thesis
    using lex_symbol [of "[c]" t] assms by (auto simp: lua_blank_def is_white_def name_start_def is_digit_def)
qed

lemma lexes_single: "c \<in> set ''({#+*%^[]}),'' \<Longrightarrow> lexes s ts \<Longrightarrow> lexes (c # s) (TSym [c] # ts)"
  using map_option_append [of "[TSym [c]]" ts] lex_single [of c] by (simp add: lexes_def)

definition plain_name :: "string \<Rightarrow> bool" where
  "plain_name w \<longleftrightarrow> w \<noteq> [] \<and> name_start (hd w) \<and> list_all name_char w \<and> w \<notin> set lua_keywords \<and>
     w \<notin> {''nil'', ''true'', ''false''}"

definition callee :: "string \<Rightarrow> lexp \<Rightarrow> bool" where
  "callee s e \<longleftrightarrow> (\<exists>ts. lexes s ts \<and> prim ts e)"

lemma callee_name: "plain_name w \<Longrightarrow> callee w (EVar w)"
  unfolding callee_def plain_name_def using lexes_name [of w] prim_name [of w] by (auto simp: word_token_def)

lemma reads_var: "plain_name w \<Longrightarrow> reads w k (EVar w)"
  using reads_name [of w k] by (auto simp: plain_name_def name_exp_def)

lemma callee_field:
  assumes "plain_name v" and "plain_name w"
  shows "callee (v @ CHR ''.'' # w) (EIndex (EVar v) (EStr w))"
proof -
  obtain c s where v: "v = c # s" "name_start c" "list_all name_char s" using assms(1) by (cases v) (auto simp: plain_name_def)
  have c: "\<not> lua_blank c" "name_char c" using v(2) by (auto simp: name_char_def name_start_def lua_blank_def is_white_def Let_def)
  have dot: "\<not> name_char CHR ''.''" by (simp add: name_char_def name_start_def is_digit_def)
  have w: "w \<noteq> []" "hd w \<noteq> CHR ''.''" "\<not> is_digit (hd w)" "lexes w [TName w]"
    using assms(2) lexes_name [of w] by (auto simp: plain_name_def name_start_def is_digit_def word_token_def Let_def)
  have "lexes (v @ CHR ''.'' # w) ([TName v] @ [TSym ''.'', TName w])"
    unfolding lexes_def
  proof (intro allI impI)
    fix rest assume rest: "stop rest"
    have "takeWhile name_char (v @ CHR ''.'' # w @ rest) = v" "dropWhile name_char (s @ CHR ''.'' # w @ rest) = CHR ''.'' # w @ rest"
      using v c dot by (auto simp: list_all_iff takeWhile_append dropWhile_append)
    then have "lua_lex (v @ CHR ''.'' # w @ rest) = map_option ((@) [word_token v]) (lua_lex (CHR ''.'' # w @ rest))"
      using v c by (simp add: lua_lex.simps(2) cons_token_def)
    moreover have "symbol_token (''.'' @ w @ rest) = Some ''.''"
      using w by (cases w) (auto simp: symbol_token_def long_symbols_def)
    then have "lua_lex (CHR ''.'' # w @ rest) = map_option ((@) [TSym ''.'']) (lua_lex (w @ rest))"
      using lex_symbol [of "''.''" "w @ rest"] w by (simp add: lua_blank_def is_white_def name_start_def is_digit_def hd_append)
    ultimately show "lua_lex ((v @ CHR ''.'' # w) @ rest) = map_option ((@) ([TName v] @ [TSym ''.'', TName w])) (lua_lex rest)"
      using lexesD [OF w(4) rest] assms(1) by (simp add: map_option_append word_token_def plain_name_def)
  qed
  moreover have "prim ([TName v] @ [TSym ''.'', TName w]) (EIndex (EVar v) (EStr w))"
    using assms(1) by (intro prim_field prim_name) (simp add: plain_name_def)
  ultimately show ?thesis unfolding callee_def by blast
qed

abbreviation readable :: "string \<Rightarrow> lexp \<Rightarrow> bool" where
  "readable s e \<equiv> \<exists>k < 10. reads s k e"

lemma readable_args:
  assumes "list_all2 readable ss es" and "y \<in> {'')'', ''}''}"
  shows "\<exists>ts. lexes (js_join '', '' ss) ts \<and> arglist y ts es"
  using assms(1)
proof (induction ss es rule: list_all2_induct)
  case Nil
  show ?case using lexes_Nil arglist_Nil by auto
next
  case (Cons s ss e es)
  then obtain k ts where ts: "k < 10" "lexes s ts" "good k ts e" by (auto simp: reads_def)
  from Cons obtain us where us: "lexes (js_join '', '' ss) us" "arglist y us es" by blast
  show ?case
  proof (cases "ss = []")
    case True
    with Cons have "es = []" by simp
    with True ts arglist_one [OF ts(3,1) assms(2)] show ?thesis by auto
  next
    case False
    with Cons have "es \<noteq> []" by auto
    moreover have "lexes (s @ CHR '','' # CHR '' '' # js_join '', '' ss) (ts @ TSym '','' # us)"
      by (intro lexes_append [OF ts(2)] lexes_single lexes_space us) simp_all
    ultimately show ?thesis
      using arglist_Cons [OF ts(3,1) assms(2) us(2)] False by (auto simp: js_join_Cons)
  qed
qed

lemma callee_call:
  assumes "callee f e" and "list_all2 readable ss es"
  shows "callee (f @ ''('' @ js_join '', '' ss @ '')'') (ECall e es)"
proof -
  from assms(1) obtain ts where ts: "lexes f ts" "prim ts e" by (auto simp: callee_def)
  from readable_args [OF assms(2), of "'')''"] obtain us where us: "lexes (js_join '', '' ss) us" "arglist '')'' us es" by auto
  have "lexes '')'' [TSym '')'']" by (rule lexes_single [OF _ lexes_Nil]) simp
  then have "lexes (js_join '', '' ss @ '')'') (us @ [TSym '')''])" by (intro lexes_append us) simp_all
  then have "lexes (f @ CHR ''('' # js_join '', '' ss @ '')'') (ts @ TSym ''('' # us @ [TSym '')''])"
    by (intro lexes_append [OF ts(1)] lexes_single) simp_all
  with prim_call [OF ts(2) us(2)] show ?thesis unfolding callee_def by auto
qed

lemma reads_callee: "callee s e \<Longrightarrow> reads s k e"
  unfolding callee_def reads_def using good_prim by blast

lemma reads_call:
  "callee f e \<Longrightarrow> list_all2 readable ss es \<Longrightarrow> reads (f @ ''('' @ js_join '', '' ss @ '')'') k (ECall e es)"
  by (rule reads_callee [OF callee_call])

lemma reads_table:
  assumes "list_all2 readable ss es"
  shows "reads (''{'' @ js_join '', '' ss @ ''}'') k (ETable es)"
proof -
  from readable_args [OF assms, of "''}''"] obtain us where us: "lexes (js_join '', '' ss) us" "arglist ''}'' us es" by auto
  have "lexes ''}'' [TSym ''}'']" by (rule lexes_single [OF _ lexes_Nil]) simp
  then have "lexes (js_join '', '' ss @ ''}'') (us @ [TSym ''}''])" by (intro lexes_append us) simp_all
  then have "lexes (CHR ''{'' # js_join '', '' ss @ ''}'') (TSym ''{'' # us @ [TSym ''}''])" by (intro lexes_single) simp_all
  with good_table [OF us(2), of k] show ?thesis unfolding reads_def by auto
qed

lemma reads_length:
  assumes "reads s k e" and "k < 3"
  shows "reads (''#'' @ s) 3 (EUn ''#'' e)"
proof -
  from assms obtain ts where ts: "lexes s ts" "good k ts e" by (auto simp: reads_def)
  have "lexes (CHR ''#'' # s) (TSym ''#'' # ts)" by (intro lexes_single ts) simp
  with good_unary [OF ts(2) assms(2), of "''#''"] show ?thesis unfolding reads_def by (auto simp: unary_ops_def)
qed

lemma reads_minus:
  assumes "reads s k e" and "k < 3" and "s \<noteq> []" and "hd s \<noteq> CHR ''-''"
  shows "reads (''-'' @ s) 3 (EUn ''-'' e)"
proof -
  from assms obtain ts where ts: "lexes s ts" "good k ts e" by (auto simp: reads_def)
  have "symbol_token (''-'' @ s @ t) = Some ''-''" for t by (simp add: symbol_token_def long_symbols_def)
  then have "lua_lex (CHR ''-'' # s @ t) = map_option ((@) [TSym ''-'']) (lua_lex (s @ t))" for t
    using lex_symbol [of "''-''" "s @ t"] assms(3,4) by (simp add: lua_blank_def is_white_def name_start_def is_digit_def hd_append)
  then have "lexes (CHR ''-'' # s) ([TSym ''-''] @ ts)" using ts(1) by (simp add: lexes_def map_option_append)
  with good_unary [OF ts(2) assms(2), of "''-''"] show ?thesis unfolding reads_def by (auto simp: unary_ops_def)
qed

lemma callee_text:
  assumes "callee f e"
  shows "f \<noteq> []" and "hd f \<noteq> CHR ''-''"
proof -
  from assms obtain ts where ts: "lexes f ts" "prim ts e" by (auto simp: callee_def)
  from lexesD [OF ts(1), of "[]"] have lex: "lua_lex f = Some ts" by simp
  then show "f \<noteq> []" using ts(2) by (auto simp: prim_def)
  show "hd f \<noteq> CHR ''-''"
  proof
    assume "hd f = CHR ''-''"
    then obtain s where f: "f = CHR ''-'' # s" using \<open>f \<noteq> []\<close> by (cases f) auto
    have "symbol_token (CHR ''-'' # s) = Some ''-''" by (simp add: symbol_token_def long_symbols_def)
    with lex obtain r where "ts = TSym ''-'' # r"
      by (auto simp: f lua_lex.simps(2) lua_blank_def is_white_def name_start_def is_digit_def cons_token_def split: if_splits)
    with ts(2) show False by (auto simp: prim_def unary_ops_def)
  qed
qed

definition library :: "(string \<times> string) list" where
  \<comment> \<open>the functions of the Lua library that generated expressions call\<close>
  "library =
    map (Pair ''math'') [''abs'', ''sqrt'', ''log'', ''exp'', ''floor'', ''ceil'', ''sin'', ''cos'', ''tan'', ''asin'', ''acos'', ''atan'',
      ''rad'', ''deg'', ''atan2'', ''random'', ''min'', ''max'', ''huge'']
    @ [(''table'', ''concat''), (''string'', ''upper''), (''string'', ''lower''), (''string'', ''reverse'')]"

lemma callee_library:
  assumes "(v, w) \<in> set library"
  shows "callee (v @ CHR ''.'' # w) (EIndex (EVar v) (EStr w))"
proof -
  have "list_all (\<lambda>(v, w). plain_name v \<and> plain_name w) library" by code_simp
  with assms callee_field show ?thesis unfolding list_all_iff by blast
qed

lemma reads_constants:
  "reads ''0'' k (ENum ''0'')" "reads ''1'' k (ENum ''1'')" "reads ''10'' k (ENum ''10'')" "reads ''.5'' k (ENum ''.5'')"
  "reads ''true'' k ETrue" "reads ''false'' k EFalse" "reads ''nil'' k ENil" "reads ''None'' k (EVar ''None'')"
  "reads ''{}'' k (ETable [])" "reads [CHR 0x27, CHR 0x27] k (EStr [])"
proof -
  show "reads ''0'' k (ENum ''0'')" "reads ''1'' k (ENum ''1'')" "reads ''10'' k (ENum ''10'')"
    by (rule reads_number; simp add: is_digit_def)+
  have "lexes ''.5'' [TNum ''.5'']"
    unfolding lexes_def
  proof (intro allI impI)
    fix rest assume "stop rest"
    then have "takeWhile (\<lambda>d. name_char d \<or> d = CHR ''.'') rest = []" "dropWhile (\<lambda>d. name_char d \<or> d = CHR ''.'') rest = rest"
      using stop_char by (cases rest; auto)+
    then show "lua_lex (''.5'' @ rest) = map_option ((@) [TNum ''.5'']) (lua_lex rest)"
      by (simp add: lua_lex.simps(2) lua_blank_def is_white_def name_start_def name_char_def is_digit_def cons_token_def)
  qed
  then show "reads ''.5'' k (ENum ''.5'')" unfolding reads_def using good_atoms(1) by blast
  show "reads ''true'' k ETrue" "reads ''false'' k EFalse" "reads ''nil'' k ENil" "reads ''None'' k (EVar ''None'')"
    using reads_name [of "''true''" k] reads_name [of "''false''" k] reads_name [of "''nil''" k] reads_name [of "''None''" k]
    by (simp_all add: name_start_def name_char_def lua_keywords_def name_exp_def is_digit_def)
  show "reads ''{}'' k (ETable [])" using reads_table [of "[]" "[]" k] by simp
  show "reads [CHR 0x27, CHR 0x27] k (EStr [])" using reads_quote [of "[]" k] by (simp add: lua_quote_def)
qed

end
