(* ===== verification/Std_Shown.thy ===== *)
theory Std_Shown
  imports Std_Total Lua_Calls
begin

text \<open>
  What the standard value blocks show. For most types of value block \<open>std_asts\<close> gives the expression that the block stands
  for, as a syntax tree over the trees of its inputs; names and helper functions are asked for in the same order as by the generators.
  \<open>agree\<close> runs a generator and such an expression side by side, from the states in which every name is fit for Lua.
\<close>

section \<open>Expressions of blocks\<close>

record ablock =
  afields :: "(string \<times> fval) list"
  ainputs :: "(string \<times> lexp option gen option) list"
  amutation :: mutation

definition afield :: "ablock \<Rightarrow> string \<Rightarrow> fval option" where
  "afield a n = getFieldValue (afields a) n"

definition afield_text :: "ablock \<Rightarrow> string \<Rightarrow> string" where
  "afield_text a n = js_String (afield a n)"

definition afield_is :: "ablock \<Rightarrow> string \<Rightarrow> string \<Rightarrow> bool" where
  "afield_is a n v \<longleftrightarrow> afield a n = Some (FText v)"

definition arg_opt :: "ablock \<Rightarrow> string \<Rightarrow> lexp option gen" where
  "arg_opt a n = (case map_of (ainputs a) n of Some (Some m) \<Rightarrow> m | _ \<Rightarrow> gret None)"

definition exp_or :: "lexp option \<Rightarrow> lexp \<Rightarrow> lexp" where
  "exp_or r d = (case r of Some e \<Rightarrow> e | None \<Rightarrow> d)"

definition arg_or :: "ablock \<Rightarrow> string \<Rightarrow> lexp \<Rightarrow> lexp gen" where
  \<comment> \<open>an operand, or the default in an empty input\<close>
  "arg_or a n d = gbind (arg_opt a n) (\<lambda>r. gret (exp_or r d))"

abbreviation E0 :: lexp where "E0 \<equiv> ENum ''0''"
abbreviation E1 :: lexp where "E1 \<equiv> ENum ''1''"
abbreviation EEmpty :: lexp where "EEmpty \<equiv> EStr ''''"
abbreviation ENone :: lexp where "ENone \<equiv> EVar ''None''"
abbreviation EField :: "string \<Rightarrow> string \<Rightarrow> lexp" where "EField v w \<equiv> EIndex (EVar v) (EStr w)"

definition call1 :: "string gen \<Rightarrow> string \<Rightarrow> lexp \<Rightarrow> ablock \<Rightarrow> lexp gen" where
  \<comment> \<open>a helper applied to one operand, which is generated first\<close>
  "call1 f n d a = gbind (arg_or a n d) (\<lambda>e. gbind f (\<lambda>h. gret (ECall (EVar h) [e])))"

definition field_number :: "fval option \<Rightarrow> lexp" where
  "field_number v =
     (case v of
        Some (FNum k) \<Rightarrow> if k < 0 then EUn ''-'' (ENum (show_tenths (- k))) else ENum (show_tenths k)
      | _ \<Rightarrow> E0)"

definition arithmetic_symbol :: "string \<Rightarrow> string" where
  "arithmetic_symbol s =
     (if s = ''ADD'' then ''+'' else if s = ''MINUS'' then ''-'' else if s = ''MULTIPLY'' then ''*'' else if s = ''DIVIDE'' then ''/''
      else ''^'')"

definition single_ast :: "string \<Rightarrow> lexp \<Rightarrow> lexp" where
  "single_ast c e =
     (if c = ''ABS'' then ECall (EField ''math'' ''abs'') [e]
      else if c = ''ROOT'' then ECall (EField ''math'' ''sqrt'') [e]
      else if c = ''LN'' then ECall (EField ''math'' ''log'') [e]
      else if c = ''LOG10'' then ECall (EField ''math'' ''log'') [e, ENum ''10'']
      else if c = ''EXP'' then ECall (EField ''math'' ''exp'') [e]
      else if c = ''ROUND'' then ECall (EField ''math'' ''floor'') [EBin ''+'' e (ENum ''.5'')]
      else if c = ''ROUNDUP'' then ECall (EField ''math'' ''ceil'') [e]
      else if c = ''ROUNDDOWN'' then ECall (EField ''math'' ''floor'') [e]
      else if c = ''SIN'' then ECall (EField ''math'' ''sin'') [ECall (EField ''math'' ''rad'') [e]]
      else if c = ''COS'' then ECall (EField ''math'' ''cos'') [ECall (EField ''math'' ''rad'') [e]]
      else if c = ''TAN'' then ECall (EField ''math'' ''tan'') [ECall (EField ''math'' ''rad'') [e]]
      else if c = ''ASIN'' then ECall (EField ''math'' ''deg'') [ECall (EField ''math'' ''asin'') [e]]
      else if c = ''ACOS'' then ECall (EField ''math'' ''deg'') [ECall (EField ''math'' ''acos'') [e]]
      else ECall (EField ''math'' ''deg'') [ECall (EField ''math'' ''atan'') [e]])"

type_synonym ast_generator = "ablock \<Rightarrow> lexp gen"

definition ast_colour_rgb :: ast_generator where
  "ast_colour_rgb a =
     gbind (provide ''colour_rgb'' colour_rgb_code) (\<lambda>c. gbind (arg_or a ''RED'' E0) (\<lambda>r. gbind (arg_or a ''GREEN'' E0) (\<lambda>g.
     gbind (arg_or a ''BLUE'' E0) (\<lambda>b. gret (ECall (EVar c) [r, g, b])))))"

definition ast_colour_blend :: ast_generator where
  "ast_colour_blend a =
     gbind (provide ''colour_blend'' colour_blend_code) (\<lambda>c. gbind (arg_or a ''COLOUR1'' (EStr ''#000000'')) (\<lambda>d.
     gbind (arg_or a ''COLOUR2'' (EStr ''#000000'')) (\<lambda>e. gbind (arg_or a ''RATIO'' E0) (\<lambda>b. gret (ECall (EVar c) [d, e, b])))))"

definition ast_lists_create_with :: ast_generator where
  "ast_lists_create_with a =
     gbind (gmapM (\<lambda>k. arg_or a (ADDn k) ENone) [0 ..< itemCount (amutation a)]) (\<lambda>es. gret (ETable es))"

definition ast_lists_repeat :: ast_generator where
  "ast_lists_repeat a =
     gbind (provide ''create_list_repeated'' create_list_repeated_code) (\<lambda>c. gbind (arg_or a ''ITEM'' ENone) (\<lambda>d.
     gbind (arg_or a ''NUM'' E0) (\<lambda>b. gret (ECall (EVar c) [d, b]))))"

definition ast_length :: "lexp \<Rightarrow> ast_generator" where
  "ast_length d a = gbind (arg_or a ''VALUE'' d) (\<lambda>e. gret (EUn ''#'' e))"

definition ast_isEmpty :: "lexp \<Rightarrow> ast_generator" where
  "ast_isEmpty d a = gbind (arg_or a ''VALUE'' d) (\<lambda>e. gret (EBin ''=='' (EUn ''#'' e) E0))"

definition ast_lists_indexOf :: ast_generator where
  "ast_lists_indexOf a =
     gbind (arg_or a ''FIND'' EEmpty) (\<lambda>c. gbind (arg_or a ''VALUE'' (ETable [])) (\<lambda>d.
     gbind (if afield_is a ''END'' ''FIRST'' then provide ''first_index'' first_index_code
            else provide ''last_index'' last_index_code) (\<lambda>f. gret (ECall (EVar f) [d, c]))))"

definition ast_lists_split :: ast_generator where
  "ast_lists_split a =
     gbind (arg_opt a ''INPUT'') (\<lambda>c. gbind (arg_or a ''DELIM'' EEmpty) (\<lambda>d.
       if afield_is a ''MODE'' ''SPLIT''
       then gbind (provide ''list_string_split'' list_string_split_code) (\<lambda>f. gret (ECall (EVar f) [exp_or c EEmpty, d]))
       else gret (ECall (EField ''table'' ''concat'') [exp_or c (ETable []), d])))"

definition ast_logic_compare :: ast_generator where
  "ast_logic_compare a =
     gbind (arg_or a ''A'' E0) (\<lambda>d. gbind (arg_or a ''B'' E0) (\<lambda>b. gret (EBin (compare_op (afield_text a ''OP'')) d b)))"

definition ast_logic_operation :: ast_generator where
  "ast_logic_operation a =
     (let conj = afield_is a ''OP'' ''AND'' in
      gbind (arg_opt a ''A'') (\<lambda>e. gbind (arg_opt a ''B'') (\<lambda>f.
        let d = (if e = None \<and> f = None then EFalse else if conj then ETrue else EFalse)
        in gret (EBin (if conj then ''and'' else ''or'') (exp_or e d) (exp_or f d)))))"

definition ast_logic_ternary :: ast_generator where
  "ast_logic_ternary a =
     gbind (arg_or a ''IF'' EFalse) (\<lambda>c. gbind (arg_or a ''THEN'' ENil) (\<lambda>d. gbind (arg_or a ''ELSE'' ENil) (\<lambda>e.
       gret (EBin ''or'' (EBin ''and'' c d) e))))"

definition ast_math_arithmetic :: ast_generator where
  "ast_math_arithmetic a =
     gbind (arg_or a ''A'' E0) (\<lambda>d. gbind (arg_or a ''B'' E0) (\<lambda>b. gret (EBin (arithmetic_symbol (afield_text a ''OP'')) d b)))"

definition ast_math_single :: ast_generator where
  "ast_math_single a =
     (let c = afield_text a ''OP''
      in gbind (arg_or a ''NUM'' E0) (\<lambda>e.
           gret (if c = ''NEG'' then EUn ''-'' e else if c = ''POW10'' then EBin ''^'' (ENum ''10'') e else single_ast c e)))"

definition ast_math_modulo :: ast_generator where
  "ast_math_modulo a = gbind (arg_or a ''DIVIDEND'' E0) (\<lambda>c. gbind (arg_or a ''DIVISOR'' E0) (\<lambda>b. gret (EBin ''%'' c b)))"

definition ast_math_constrain :: ast_generator where
  "ast_math_constrain a =
     gbind (arg_or a ''VALUE'' E0) (\<lambda>c. gbind (arg_or a ''LOW'' (EUn ''-'' (EField ''math'' ''huge''))) (\<lambda>d.
     gbind (arg_or a ''HIGH'' (EField ''math'' ''huge'')) (\<lambda>b.
       gret (ECall (EField ''math'' ''min'') [ECall (EField ''math'' ''max'') [c, d], b]))))"

definition ast_math_random_int :: ast_generator where
  "ast_math_random_int a =
     gbind (arg_or a ''FROM'' E0) (\<lambda>c. gbind (arg_or a ''TO'' E0) (\<lambda>b. gret (ECall (EField ''math'' ''random'') [c, b])))"

definition ast_math_atan2 :: ast_generator where
  "ast_math_atan2 a =
     gbind (arg_or a ''X'' E0) (\<lambda>c. gbind (arg_or a ''Y'' E0) (\<lambda>b.
       gret (ECall (EField ''math'' ''deg'') [ECall (EField ''math'' ''atan2'') [b, c]])))"

definition ast_procedures_callreturn :: ast_generator where
  "ast_procedures_callreturn a =
     gbind (getProcedureName (afield_text a ''NAME'')) (\<lambda>c.
     gbind (gmapM (\<lambda>k. arg_or a (ARGn k) ENil) [0 ..< length (arguments (amutation a))]) (\<lambda>es. gret (ECall (EVar c) es)))"

definition ast_text_join :: ast_generator where
  "ast_text_join a =
     (let n = itemCount (amutation a)
      in gbind (gmapM (\<lambda>k. arg_or a (ADDn k) EEmpty) [0 ..< n]) (\<lambda>es.
           gret (case es of
               [] \<Rightarrow> EEmpty
             | [e] \<Rightarrow> ECall (EVar ''tostring'') [e]
             | [e, f] \<Rightarrow> EBin ''..'' e f
             | _ \<Rightarrow> ECall (EField ''table'' ''concat'') [ETable es])))"

definition ast_text_indexOf :: ast_generator where
  "ast_text_indexOf a =
     gbind (arg_or a ''FIND'' EEmpty) (\<lambda>c. gbind (arg_or a ''VALUE'' EEmpty) (\<lambda>d.
     gbind (if afield_is a ''END'' ''FIRST'' then provide ''firstIndexOf'' firstIndexOf_code
            else provide ''lastIndexOf'' lastIndexOf_code) (\<lambda>f. gret (ECall (EVar f) [d, c]))))"

definition ast_text_changeCase :: ast_generator where
  "ast_text_changeCase a =
     gbind (arg_or a ''TEXT'' EEmpty) (\<lambda>e.
       if afield_is a ''CASE'' ''UPPERCASE'' then gret (ECall (EField ''string'' ''upper'') [e])
       else if afield_is a ''CASE'' ''LOWERCASE'' then gret (ECall (EField ''string'' ''lower'') [e])
       else gbind (provide ''text_titlecase'' text_titlecase_code) (\<lambda>f. gret (ECall (EVar f) [e])))"

definition ast_text_count :: ast_generator where
  "ast_text_count a =
     gbind (arg_or a ''TEXT'' EEmpty) (\<lambda>c. gbind (arg_or a ''SUB'' EEmpty) (\<lambda>b.
     gbind (provide ''text_count'' text_count_code) (\<lambda>f. gret (ECall (EVar f) [c, b]))))"

definition ast_text_replace :: ast_generator where
  "ast_text_replace a =
     gbind (arg_or a ''TEXT'' EEmpty) (\<lambda>c. gbind (arg_or a ''FROM'' EEmpty) (\<lambda>d. gbind (arg_or a ''TO'' EEmpty) (\<lambda>b.
     gbind (provide ''text_replace'' text_replace_code) (\<lambda>f. gret (ECall (EVar f) [c, d, b])))))"

definition ast_text_reverse :: ast_generator where
  "ast_text_reverse a = gbind (arg_or a ''TEXT'' EEmpty) (\<lambda>e. gret (ECall (EField ''string'' ''reverse'') [e]))"

definition ast_variables_get :: ast_generator where
  "ast_variables_get a = gbind (getVariableName (afield_text a ''VAR'')) (\<lambda>v. gret (EVar v))"

definition std_asts :: "(string \<times> ast_generator) list" where
  "std_asts =
    [(''colour_picker'', \<lambda>a. gret (EStr (afield_text a ''COLOUR''))), (''colour_rgb'', ast_colour_rgb), (''colour_blend'', ast_colour_blend),
     (''lists_create_empty'', \<lambda>a. gret (ETable [])), (''lists_create_with'', ast_lists_create_with), (''lists_repeat'', ast_lists_repeat),
     (''lists_length'', ast_length (ETable [])), (''lists_isEmpty'', ast_isEmpty (ETable [])), (''lists_indexOf'', ast_lists_indexOf),
     (''lists_split'', ast_lists_split), (''lists_reverse'', call1 (provide ''list_reverse'' list_reverse_code) ''LIST'' (ETable [])),
     (''logic_compare'', ast_logic_compare), (''logic_operation'', ast_logic_operation),
     (''logic_negate'', \<lambda>a. gbind (arg_or a ''BOOL'' ETrue) (\<lambda>e. gret (EUn ''not'' e))),
     (''logic_boolean'', \<lambda>a. gret (if afield_is a ''BOOL'' ''TRUE'' then ETrue else EFalse)), (''logic_null'', \<lambda>a. gret ENil),
     (''logic_ternary'', ast_logic_ternary), (''math_number'', \<lambda>a. gret (field_number (afield a ''NUM''))),
     (''math_arithmetic'', ast_math_arithmetic), (''math_single'', ast_math_single), (''math_round'', ast_math_single),
     (''math_trig'', ast_math_single), (''math_on_list'', \<lambda>a. call1 (on_list_function (afield_text a ''OP'')) ''LIST'' (ETable []) a),
     (''math_modulo'', ast_math_modulo), (''math_constrain'', ast_math_constrain), (''math_random_int'', ast_math_random_int),
     (''math_random_float'', \<lambda>a. gret (ECall (EField ''math'' ''random'') [])), (''math_atan2'', ast_math_atan2),
     (''procedures_callreturn'', ast_procedures_callreturn), (''text'', \<lambda>a. gret (EStr (afield_text a ''TEXT''))),
     (''text_join'', ast_text_join), (''text_length'', ast_length EEmpty), (''text_isEmpty'', ast_isEmpty EEmpty),
     (''text_indexOf'', ast_text_indexOf), (''text_changeCase'', ast_text_changeCase), (''text_count'', ast_text_count),
     (''text_replace'', ast_text_replace), (''text_reverse'', ast_text_reverse), (''variables_get'', ast_variables_get),
     (''variables_get_dynamic'', ast_variables_get)]"

fun std_block_ast :: "(string \<Rightarrow> mutation) \<Rightarrow> block \<Rightarrow> lexp option gen"
  and std_input_ast :: "(string \<Rightarrow> mutation) \<Rightarrow> binput \<Rightarrow> string \<times> lexp option gen option" where
  \<comment> \<open>a disabled block counts as an empty input\<close>
  "std_block_ast mu (Block ty i en cm fs ins nx) =
     (if \<not> en then gret None
      else (case map_of std_asts ty of
          None \<Rightarrow> gret None
        | Some f \<Rightarrow> gbind (f \<lparr>afields = fs, ainputs = map (std_input_ast mu) ins, amutation = mu i\<rparr>) (\<lambda>e. gret (Some e))))"
| "std_input_ast mu (Input n t None) = (n, None)"
| "std_input_ast mu (Input n t (Some b)) = (n, Some (std_block_ast mu b))"

section \<open>States\<close>

definition no_goto :: "lua_names \<Rightarrow> bool" where
  \<comment> \<open>nothing is called \<open>goto\<close>, a keyword that the list of reserved words lacks\<close>
  "no_goto g \<longleftrightarrow> ''goto'' \<notin> set (dbReverse (nameDB g)) \<and> (\<forall>a. variableMap (nameDB g) a \<noteq> Some ''goto'')"

definition state_ok :: "lua_names \<Rightarrow> bool" where
  "state_ok g \<longleftrightarrow> names_inv g \<and> no_goto g \<and>
     (\<forall>a \<in> fst ` set (definitions g). a \<noteq> [] \<longrightarrow> hd a \<noteq> CHR ''%'' \<longrightarrow> functionNames g a \<noteq> None)"

lemma safeName_goto:
  assumes "safeName en_Msg a = ''goto''"
  shows "a = ''goto''"
proof (cases "a = []")
  case True
  then show ?thesis using assms en_unnamed by (auto simp: safeName_def en_general_6_lookups split: option.splits)
next
  case False
  let ?u = "encodeURI (replace_char CHR '' '' ''_'' a)"
  have "map (\<lambda>c. if is_word c then c else CHR ''_'') ?u = ''goto''"
    using assms False by (auto simp: safeName_def Let_def split: if_splits)
  then have u: "?u = ''goto''" by (auto simp: map_eq_Cons_conv split: if_splits)
  have "CHR ''%'' \<notin> set (encodeURI t) \<Longrightarrow> encodeURI t = t" for t
    by (induction t) (auto simp: encodeURI_def split: if_splits)
  from this [of "replace_char CHR '' '' ''_'' a"] u have r: "replace_char CHR '' '' ''_'' a = ''goto''" by simp
  have "CHR ''_'' \<in> set (replace_char CHR '' '' ''_'' a)" if "CHR '' '' \<in> set a" using that by (induction a) auto
  with r have "CHR '' '' \<notin> set a" by auto
  with r show ?thesis by (simp add: replace_char_absent)
qed

lemma plain_identifier:
  assumes "lua_identifier n" and "n \<notin> set RESERVED_WORDS" and "n \<noteq> ''goto''"
  shows "plain_name n"
proof -
  have "list_all (\<lambda>k. k = ''goto'' \<or> k \<in> set RESERVED_WORDS) ([''nil'', ''true'', ''false''] @ lua_keywords)" by code_simp
  moreover have "list_all name_char n \<and> name_start (hd n)" if "list_all is_word n" "n \<noteq> []" "\<not> is_digit (hd n)"
    using that by (cases n) (auto simp: list_all_iff is_word_def name_char_def name_start_def is_digit_def Let_def)
  ultimately show ?thesis using assms unfolding plain_name_def lua_identifier_def list_all_iff by auto
qed

lemma state_ok_plain:
  assumes "state_ok g" and "name_of g w = Some n"
  shows "plain_name n"
proof -
  have "n \<in> set (dbReverse (nameDB g))" using assms by (auto simp: state_ok_def names_inv_def ran_def)
  with assms(1) show ?thesis
    by (intro plain_identifier) (auto simp: state_ok_def names_inv_def no_goto_def list_all_iff)
qed

lemma distinct_goto:
  assumes "getDistinctName en_Msg a t s = (b, s')" and "a \<noteq> ''goto''" and "''goto'' \<notin> set (dbReverse s)"
  shows "''goto'' \<notin> set (dbReverse s')" and "variableMap s' = variableMap s" and "db s' = db s"
proof -
  have no: "x @ show_nat k \<noteq> ''goto''" for x k
  proof
    assume "x @ show_nat k = ''goto''"
    then have "last (show_nat k) = CHR ''o''" by (metis last_appendR show_nat_nonempty last.simps list.distinct(1))
    then show False using show_nat_digits [of k] last_in_set [of "show_nat k"] by (auto simp: is_digit_def)
  qed
  show "''goto'' \<notin> set (dbReverse s')" "variableMap s' = variableMap s" "db s' = db s"
    using assms safeName_goto [of a] by (auto simp: getDistinctName_def Let_def no no [symmetric] split: if_splits)
qed

lemma name_for_ok:
  assumes "state_ok g" and "user_name (nameDB g) a t \<noteq> ''goto''"
  shows "\<exists>n g'. name_for a t g = Inr (n, g') \<and> state_ok g' \<and> plain_name n \<and> variableMap (nameDB g') = variableMap (nameDB g)"
proof -
  let ?c = "user_name (nameDB g) a t"
  define g' where "g' = g\<lparr>nameDB := snd (getName en_Msg a t (nameDB g))\<rparr>"
  define n where "n = fst (getName en_Msg a t (nameDB g))"
  obtain b s' where b: "getDistinctName en_Msg ?c t (nameDB g) = (b, s')" by fastforce
  have p: "name_prefix t (nameDB g) = ''''" using assms(1) by (simp add: state_ok_def names_inv_def name_prefix_def)
  have d: "''goto'' \<notin> set (dbReverse s')" "variableMap s' = variableMap (nameDB g)"
    using distinct_goto [OF b assms(2)] assms(1) by (auto simp: state_ok_def no_goto_def)
  have inv: "names_inv g'" using names_inv_name [of g a t] assms(1) by (simp add: g'_def state_ok_def)
  have vm: "variableMap (nameDB g') = variableMap (nameDB g)" and "''goto'' \<notin> set (dbReverse (nameDB g'))"
    using b d assms(1) by (auto simp: g'_def getName_def Let_def state_ok_def no_goto_def split: option.split)
  then have ok: "state_ok g'" using inv assms(1) by (auto simp: state_ok_def no_goto_def g'_def)
  moreover have "name_of g' (User t (map lower ?c)) = Some n"
    using b p by (auto simp: g'_def n_def name_of_def getName_def Let_def split: option.split)
  ultimately have "plain_name n" by (rule state_ok_plain)
  moreover have "name_for a t g = Inr (n, g')" by (simp add: name_for_def n_def g'_def split: prod.split)
  ultimately show ?thesis using ok vm by blast
qed

lemma provide_ok:
  assumes "state_ok g" and "a \<noteq> []" and "hd a \<noteq> CHR ''%''" and "a \<noteq> ''goto''"
  shows "\<exists>n g'. provide a code g = Inr (n, g') \<and> state_ok g' \<and> plain_name n \<and> variableMap (nameDB g') = variableMap (nameDB g)"
proof -
  define g' where "g' = snd (provideFunction en_Msg a code g)"
  define n where "n = fst (provideFunction en_Msg a code g)"
  obtain c s' where c: "getDistinctName en_Msg a PROCEDURE (nameDB g) = (c, s')" by fastforce
  have d: "''goto'' \<notin> set (dbReverse s')" "variableMap s' = variableMap (nameDB g)"
    using distinct_goto [OF c assms(4)] assms(1) by (auto simp: state_ok_def no_goto_def)
  have inv: "names_inv g'" using names_inv_helper [of g a code] assms(1) by (simp add: g'_def state_ok_def)
  have known: "functionNames g a \<noteq> None" if "map_of (definitions g) a = Some d" for d
    using that assms by (force simp: state_ok_def dest: map_of_SomeD)
  have vm: "variableMap (nameDB g') = variableMap (nameDB g)" and goto: "''goto'' \<notin> set (dbReverse (nameDB g'))"
    using c d assms(1) by (auto simp: g'_def provideFunction_def state_ok_def no_goto_def split: option.split)
  have "\<forall>x \<in> fst ` set (definitions g'). x \<noteq> [] \<longrightarrow> hd x \<noteq> CHR ''%'' \<longrightarrow> functionNames g' x \<noteq> None"
    using c assms(1) by (auto simp: g'_def provideFunction_def state_ok_def split: option.split)
  then have ok: "state_ok g'" using inv vm goto assms(1) by (auto simp: state_ok_def no_goto_def)
  moreover have "name_of g' (Helper a) = Some n"
    using c known by (auto simp: g'_def n_def name_of_def provideFunction_def split: option.split)
  ultimately have "plain_name n" by (rule state_ok_plain)
  moreover have "provide a code g = Inr (n, g')" by (simp add: provide_def n_def g'_def)
  ultimately show ?thesis using ok vm by blast
qed


section \<open>Text and expression in step\<close>

definition agree :: "'a gen \<Rightarrow> 'b gen \<Rightarrow> ('a \<Rightarrow> 'b \<Rightarrow> bool) \<Rightarrow> bool" where
  \<comment> \<open>both return, with the same change of the state and related results\<close>
  "agree m m' Q \<longleftrightarrow>
     (\<forall>g. state_ok g \<longrightarrow> (\<exists>x y g'. m g = Inr (x, g') \<and> m' g = Inr (y, g') \<and> state_ok g' \<and> Q x y))"

definition opnd :: "nat \<Rightarrow> string \<Rightarrow> lexp \<Rightarrow> bool" where
  \<comment> \<open>a text that may stand as an operand of this order; no minus sign in front of an operand of a unary operator\<close>
  "opnd k s e \<longleftrightarrow> s \<noteq> [] \<and> (\<exists>j < k. j < 10 \<and> reads s j e \<and> (hd s = CHR ''-'' \<longrightarrow> 3 \<le> j))"

definition tuple_as :: "scode \<Rightarrow> lexp \<Rightarrow> bool" where
  "tuple_as c e \<longleftrightarrow> (\<exists>s k. c = STuple s k \<and> opnd (Suc k) s e \<and> reads s k e \<and> k < 10 \<and> (hd s = CHR ''-'' \<longrightarrow> 3 \<le> k))"

definition block_as :: "scode \<Rightarrow> lexp option \<Rightarrow> bool" where
  "block_as c r = (case r of None \<Rightarrow> c = SStr '''' | Some e \<Rightarrow> tuple_as c e)"

definition related :: "gblock \<Rightarrow> ablock \<Rightarrow> bool" where
  "related a a' \<longleftrightarrow> gfields a = afields a' \<and> gmutation a = amutation a' \<and>
     (\<forall>n. case input_target a n of
        None \<Rightarrow> arg_opt a' n = gret None
      | Some m \<Rightarrow> agree m (arg_opt a' n) block_as)"

lemma agree_gret: "Q x y \<Longrightarrow> agree (gret x) (gret y) Q"
  by (simp add: agree_def gret_def)

lemma agree_gbind:
  assumes "agree m m' P" and "\<And>x y. P x y \<Longrightarrow> agree (f x) (f' y) Q"
  shows "agree (gbind m f) (gbind m' f') Q"
  unfolding agree_def
proof (intro allI impI)
  fix g assume "state_ok g"
  with assms(1) obtain x y g1 where 1: "m g = Inr (x, g1)" "m' g = Inr (y, g1)" "state_ok g1" "P x y"
    unfolding agree_def by blast
  from assms(2) [OF 1(4)] 1(3) obtain x' y' g2 where "f x g1 = Inr (x', g2)" "f' y g1 = Inr (y', g2)" "state_ok g2" "Q x' y'"
    unfolding agree_def by blast
  with 1 show "\<exists>x y g'. gbind m f g = Inr (x, g') \<and> gbind m' f' g = Inr (y, g') \<and> state_ok g' \<and> Q x y"
    by (auto simp: gbind_def)
qed

lemma agree_weaken: "agree m m' P \<Longrightarrow> (\<And>x y. P x y \<Longrightarrow> Q x y) \<Longrightarrow> agree m m' Q"
  unfolding agree_def by blast

lemma tuple_asI:
  "reads s k e \<Longrightarrow> s \<noteq> [] \<Longrightarrow> k < 10 \<Longrightarrow> hd s \<noteq> CHR ''-'' \<or> 3 \<le> k \<Longrightarrow> tuple_as (STuple s k) e"
  by (auto simp: tuple_as_def opnd_def intro: exI [of _ k])

lemma opnd_readable: "opnd k s e \<Longrightarrow> readable s e"
  by (auto simp: opnd_def)

lemma opndI: "reads s j e \<Longrightarrow> s \<noteq> [] \<Longrightarrow> j < k \<Longrightarrow> j < 10 \<Longrightarrow> hd s \<noteq> CHR ''-'' \<or> 3 \<le> j \<Longrightarrow> opnd k s e"
  by (auto simp: opnd_def)

lemma agree_val:
  assumes "related a a'" and "0 < k" and "k < 10 \<or> k = 99"
  shows "agree (val a n k) (arg_opt a' n) (\<lambda>s r. case r of None \<Rightarrow> s = '''' | Some e \<Rightarrow> opnd k s e)"
proof (cases "input_target a n")
  case None
  with assms(1) have "arg_opt a' n = gret None" unfolding related_def by (metis option.simps(4))
  with None show ?thesis by (auto simp: val_def intro!: agree_gret)
next
  case (Some m)
  with assms(1) have m: "agree m (arg_opt a' n) block_as" unfolding related_def by (metis option.simps(5))
  have operand: "\<exists>t. value_text k c = gret t \<and> (case r of None \<Rightarrow> t = '''' | Some e \<Rightarrow> opnd k t e)" if "block_as c r" for c r
  proof (cases r)
    case None
    with that show ?thesis by (simp add: block_as_def value_text_def)
  next
    case (Some e)
    with that obtain s j where s: "c = STuple s j" "s \<noteq> []" "reads s j e" "j < 10" "hd s = CHR ''-'' \<longrightarrow> 3 \<le> j"
      by (auto simp: block_as_def tuple_as_def opnd_def)
    show ?thesis
    proof (cases "k \<le> j")
      case True
      with assms s have "value_text k c = gret (''('' @ s @ '')'')" by (auto simp: value_text_def needs_parens_def)
      moreover have "opnd k (''('' @ s @ '')'') e" using reads_paren [OF s(3,4), of 0] assms(2) by (auto simp: opnd_def)
      ultimately show ?thesis using Some by auto
    next
      case False
      with s have "value_text k c = gret s" by (simp add: value_text_def needs_parens_def)
      moreover have "opnd k s e" using False s by (intro opndI [where j = j]) auto
      ultimately show ?thesis using Some by auto
    qed
  qed
  have "agree (gbind m (value_text k)) (gbind (arg_opt a' n) gret) (\<lambda>s r. case r of None \<Rightarrow> s = '''' | Some e \<Rightarrow> opnd k s e)"
    using m
  proof (rule agree_gbind)
    fix c r assume "block_as c r"
    from operand [OF this] show "agree (value_text k c) (gret r) (\<lambda>s r. case r of None \<Rightarrow> s = '''' | Some e \<Rightarrow> opnd k s e)"
      by (auto intro!: agree_gret)
  qed
  moreover have "gbind m' gret = m'" for m' :: "lexp option gen"
    by (auto simp: gbind_def gret_def bind_result_def fun_eq_iff split: sum.split)
  ultimately show ?thesis using Some by (simp add: val_def)
qed

lemma agree_val_or:
  assumes "related a a'" and "opnd k d e" and "k < 10 \<or> k = 99"
  shows "agree (val_or a n k d) (arg_or a' n e) (opnd k)"
proof -
  have "0 < k" using assms(2) by (auto simp: opnd_def)
  from agree_val [OF assms(1) this assms(3)] show ?thesis
    unfolding val_or_def arg_or_def
  proof (rule agree_gbind)
    fix s r assume "case r of None \<Rightarrow> s = '''' | Some e \<Rightarrow> opnd k s e"
    with assms(2) show "agree (gret (or_else s d)) (gret (exp_or r e)) (opnd k)"
      by (intro agree_gret) (auto simp: or_else_def exp_or_def opnd_def split: option.splits)
  qed
qed

lemma agree_arg:
  assumes "related a a'" and "opnd k d e" and "k < 10 \<or> k = 99"
    and "\<And>s x. opnd k s x \<Longrightarrow> agree (f s) (f' x) Q"
  shows "agree (gbind (val_or a n k d) f) (gbind (arg_or a' n e) f') Q"
  by (rule agree_gbind [OF agree_val_or [OF assms(1-3)] assms(4)])

lemma agree_provide:
  assumes "helper_ok a code" and "a \<noteq> ''goto''" and "\<And>h. plain_name h \<Longrightarrow> agree (f h) (f' h) Q"
  shows "agree (gbind (provide a code) f) (gbind (provide a code) f') Q"
proof -
  have "agree (provide a code) (provide a code) (\<lambda>x y. x = y \<and> plain_name x)"
    using provide_ok [of _ a code] assms(1,2) unfolding agree_def helper_ok_def by blast
  then show ?thesis by (rule agree_gbind) (use assms(3) in auto)
qed

lemma agree_name:
  assumes "a \<noteq> ''goto''" and "\<And>h. plain_name h \<Longrightarrow> agree (f h) (f' h) Q"
  shows "agree (gbind (name_for a t) f) (gbind (name_for a t) f') Q"
proof -
  have "user_name (nameDB g) a t \<noteq> ''goto''" if "state_ok g" for g
    using that assms(1) by (auto simp: user_name_def state_ok_def no_goto_def split: option.split)
  then have "agree (name_for a t) (name_for a t) (\<lambda>x y. x = y \<and> plain_name x)"
    using name_for_ok [of _ a t] unfolding agree_def by blast
  then show ?thesis by (rule agree_gbind) (use assms(2) in auto)
qed

lemma agree_gmapM_length:
  assumes "\<And>k. agree (h k) (h' k) P"
  shows "agree (gmapM h ks) (gmapM h' ks) (\<lambda>xs ys. list_all2 P xs ys \<and> length ys = length ks)"
proof (induction ks)
  case Nil
  show ?case by (simp add: agree_gret)
next
  case (Cons k ks)
  have "agree (gbind (h k) (\<lambda>y. gbind (gmapM h ks) (\<lambda>ys. gret (y # ys))))
      (gbind (h' k) (\<lambda>y. gbind (gmapM h' ks) (\<lambda>ys. gret (y # ys)))) (\<lambda>xs ys. list_all2 P xs ys \<and> length ys = length (k # ks))"
    by (rule agree_gbind [OF assms], rule agree_gbind [OF Cons], rule agree_gret) simp
  then show ?case by simp
qed

lemma agree_gmapM: "(\<And>k. agree (h k) (h' k) P) \<Longrightarrow> agree (gmapM h ks) (gmapM h' ks) (list_all2 P)"
  using agree_gmapM_length [of h h' P ks] by (blast intro: agree_weaken)

lemma gbind_assoc: "gbind (gbind m f) h = gbind m (\<lambda>x. gbind (f x) h)"
  by (auto simp: gbind_def fun_eq_iff bind_result_def split: sum.splits)

lemma agree_if: "(c \<Longrightarrow> agree m m' Q) \<Longrightarrow> (\<not> c \<Longrightarrow> agree n n' Q) \<Longrightarrow> agree (if c then m else n) (if c then m' else n') Q"
  by simp

end
