(* ===== verification/Std_Meaning.thy ===== *)
theory Std_Meaning
  imports Std_Shown
begin

text \<open>
  What the code of the standard value blocks means: the text generated for a tree of them is read by Lua as the expression that
  the tree shows. Each generator is compared with its entry of \<open>std_asts\<close>; the parentheses of \<open>valueToCode\<close> are enough.
\<close>

section \<open>Operands and calls\<close>

lemma opnd_constants:
  "0 < k \<Longrightarrow> opnd k ''0'' E0" "0 < k \<Longrightarrow> opnd k ''1'' E1" "0 < k \<Longrightarrow> opnd k ''true'' ETrue" "0 < k \<Longrightarrow> opnd k ''false'' EFalse"
  "0 < k \<Longrightarrow> opnd k ''nil'' ENil" "0 < k \<Longrightarrow> opnd k ''None'' ENone" "0 < k \<Longrightarrow> opnd k ''{}'' (ETable [])" "0 < k \<Longrightarrow> opnd k empty_text EEmpty"
  by (rule opndI [where j = 0]; simp add: reads_constants)+

lemma tuple_call:
  assumes "callee f e" and "list_all2 readable ss es"
  shows "tuple_as (STuple (f @ ''('' @ js_join '', '' ss @ '')'') 1) (ECall e es)"
  using reads_call [OF assms, of 1] callee_text [OF assms(1)] by (intro tuple_asI) (simp_all add: hd_append)

lemma lib_call:
  "(v, w) \<in> set library \<Longrightarrow> list_all2 readable ss es \<Longrightarrow>
   tuple_as (STuple ((v @ CHR ''.'' # w) @ ''('' @ js_join '', '' ss @ '')'') 1) (ECall (EField v w) es)"
  by (rule tuple_call [OF callee_library])

lemma lib_readable:
  "(v, w) \<in> set library \<Longrightarrow> list_all2 readable ss es \<Longrightarrow>
   readable ((v @ CHR ''.'' # w) @ ''('' @ js_join '', '' ss @ '')'') (ECall (EField v w) es)"
  using reads_call [OF callee_library, of v w ss es 1] by (intro exI [of _ 1]) simp

lemma helper_call1: "plain_name f \<Longrightarrow> readable a ea \<Longrightarrow> tuple_as (STuple (f @ ''('' @ a @ '')'') 1) (ECall (EVar f) [ea])"
  using tuple_call [OF callee_name, of f "[a]" "[ea]"] by simp

lemma helper_call2:
  "plain_name f \<Longrightarrow> readable a ea \<Longrightarrow> readable b eb \<Longrightarrow> tuple_as (STuple (f @ ''('' @ a @ '', '' @ b @ '')'') 1) (ECall (EVar f) [ea, eb])"
  using tuple_call [OF callee_name, of f "[a, b]" "[ea, eb]"] by simp

lemma helper_call3:
  "plain_name f \<Longrightarrow> readable a ea \<Longrightarrow> readable b eb \<Longrightarrow> readable c ec \<Longrightarrow>
   tuple_as (STuple (f @ ''('' @ a @ '', '' @ b @ '', '' @ c @ '')'') 1) (ECall (EVar f) [ea, eb, ec])"
  using tuple_call [OF callee_name, of f "[a, b, c]" "[ea, eb, ec]"] by simp

lemma tuple_binary:
  assumes "opnd k a e1" and "opnd k b e2" and "k < 10" and "1 < k \<and> k \<noteq> 3"
    and "map_of priorities y = Some (left_of k, right_of k)" and "y \<in> set operator_symbols \<or> y \<in> {''and'', ''or''}"
  shows "tuple_as (STuple (a @ '' '' @ y @ '' '' @ b) k) (EBin y e1 e2)"
proof -
  from assms(1) obtain i where i: "a \<noteq> []" "i < k" "reads a i e1" "hd a = CHR ''-'' \<longrightarrow> 3 \<le> i" by (auto simp: opnd_def)
  from assms(2) obtain j where j: "j < k" "reads b j e2" by (auto simp: opnd_def)
  have "reads (a @ '' '' @ y @ '' '' @ b) k (EBin y e1 e2)" by (rule reads_binary [OF i(3) j(2) i(2) j(1) assms(3-6)])
  then show ?thesis using i assms(3,4) by (intro tuple_asI) (auto simp: hd_append)
qed

lemma opnd_text: "CR \<notin> set s \<Longrightarrow> tuple_as (STuple (lua_quote s) 0) (EStr s)"
  using reads_quote [of s 0] by (intro tuple_asI) (simp_all add: lua_quote_def Let_def)

section \<open>Generators\<close>

lemmas agree_rules = agree_arg agree_provide agree_name agree_gret agree_if

lemma calls_agree:
  assumes r: "related a a'"
  shows "agree (gen_colour_rgb a) (ast_colour_rgb a') tuple_as"
    "agree (gen_lists_repeat a) (ast_lists_repeat a') tuple_as"
    "agree (gen_text_count a) (ast_text_count a') tuple_as" "agree (gen_text_replace a) (ast_text_replace a') tuple_as"
    "agree (gen_lists_reverse a) (call1 (provide ''list_reverse'' list_reverse_code) ''LIST'' (ETable []) a') tuple_as"
  unfolding gen_colour_rgb_def ast_colour_rgb_def gen_lists_repeat_def ast_lists_repeat_def gen_text_count_def ast_text_count_def
    gen_text_replace_def ast_text_replace_def gen_lists_reverse_def call1_def
  by (intro agree_rules r helper_ok_codes opnd_constants helper_call1 helper_call2 helper_call3; (simp | erule opnd_readable))+

lemma related_sel:
  assumes "related a a'"
  shows "afield a' = field a" "afield_text a' = field_text a" "afield_is a' = field_is a" "amutation a' = gmutation a"
  using assms by (simp_all add: related_def fun_eq_iff afield_def field_def afield_text_def field_text_def afield_is_def field_is_def)

lemma opnd_black: "0 < k \<Longrightarrow> opnd k ([CHR 0x27] @ ''#000000'' @ [CHR 0x27]) (EStr ''#000000'')"
  using reads_quote [of "''#000000''" 0] by (intro opndI [where j = 0]) (simp_all add: lua_quote_def replace_char_def)

lemma agree_pick:
  assumes "helper_ok n x" and "helper_ok n' x'" and "n \<noteq> ''goto''" and "n' \<noteq> ''goto''" and "\<And>h. plain_name h \<Longrightarrow> agree (f h) (f' h) Q"
  shows "agree (gbind (if c then provide n x else provide n' x') f) (gbind (if c then provide n x else provide n' x') f') Q"
  using agree_provide [OF assms(1,3,5)] agree_provide [OF assms(2,4,5)] by simp

lemma choice_agree:
  assumes r: "related a a'"
  shows "agree (gen_colour_blend a) (ast_colour_blend a') tuple_as"
    "agree (gen_lists_indexOf a) (ast_lists_indexOf a') tuple_as" "agree (gen_text_indexOf a) (ast_text_indexOf a') tuple_as"
proof -
  show "agree (gen_colour_blend a) (ast_colour_blend a') tuple_as"
    unfolding gen_colour_blend_def ast_colour_blend_def
    by (intro agree_rules r helper_ok_codes opnd_constants opnd_black helper_call3; (simp | erule opnd_readable))

  show "agree (gen_lists_indexOf a) (ast_lists_indexOf a') tuple_as" "agree (gen_text_indexOf a) (ast_text_indexOf a') tuple_as"
    unfolding gen_lists_indexOf_def ast_lists_indexOf_def gen_text_indexOf_def ast_text_indexOf_def related_sel [OF r]
    by (intro agree_arg r agree_pick agree_gret helper_ok_codes opnd_constants helper_call2; (simp | erule opnd_readable))+
qed

lemma unary_agree:
  assumes r: "related a a'"
  shows "agree (gen_lists_length a) (ast_length (ETable []) a') tuple_as" "agree (gen_text_length a) (ast_length EEmpty a') tuple_as"
    "agree (gen_lists_isEmpty a) (ast_isEmpty (ETable []) a') tuple_as" "agree (gen_text_isEmpty a) (ast_isEmpty EEmpty a') tuple_as"
    "agree (gen_logic_negate a) (gbind (arg_or a' ''BOOL'' ETrue) (\<lambda>e. gret (EUn ''not'' e))) tuple_as"
proof -
  have len: "tuple_as (STuple (''#'' @ s) 3) (EUn ''#'' e)" if "opnd 3 s e" for s e
    using that reads_length by (auto simp: opnd_def intro!: tuple_asI)
  have empty: "tuple_as (STuple (''#'' @ s @ '' == 0'') 7) (EBin ''=='' (EUn ''#'' e) E0)" if "opnd 3 s e" for s e
  proof -
    from that obtain j where "j < 3" "reads s j e" by (auto simp: opnd_def)
    from reads_length [OF this(2,1)] have "opnd 7 (''#'' @ s) (EUn ''#'' e)" by (intro opndI [where j = 3]) simp_all
    from tuple_binary [OF this, of "''0''" E0 "''==''"] show ?thesis
      by (simp add: opnd_constants priorities_def left_of_def right_of_def operator_symbols_def)
  qed
  have neg: "tuple_as (STuple (''not '' @ s) 3) (EUn ''not'' e)" if "opnd 3 s e" for s e
    using that reads_not by (auto simp: opnd_def intro!: tuple_asI)
  show "agree (gen_lists_length a) (ast_length (ETable []) a') tuple_as" "agree (gen_text_length a) (ast_length EEmpty a') tuple_as"
    "agree (gen_lists_isEmpty a) (ast_isEmpty (ETable []) a') tuple_as" "agree (gen_text_isEmpty a) (ast_isEmpty EEmpty a') tuple_as"
    "agree (gen_logic_negate a) (gbind (arg_or a' ''BOOL'' ETrue) (\<lambda>e. gret (EUn ''not'' e))) tuple_as"
    unfolding gen_lists_length_def gen_text_length_def ast_length_def gen_lists_isEmpty_def gen_text_isEmpty_def ast_isEmpty_def
      gen_logic_negate_def
    by (intro agree_rules r opnd_constants len empty neg; simp)+
qed

lemma tables_agree:
  assumes r: "related a a'"
  shows "agree (gen_lists_create_with a) (ast_lists_create_with a') tuple_as"
    "agree (gen_lists_create_empty a) (gret (ETable [])) tuple_as"
proof -
  have "agree (gmapM (\<lambda>k. val_or a (ADDn k) 99 ''None'') ks) (gmapM (\<lambda>k. arg_or a' (ADDn k) ENone) ks) (list_all2 (opnd 99))" for ks
    by (rule agree_gmapM) (intro agree_val_or r opnd_constants; simp)
  then show "agree (gen_lists_create_with a) (ast_lists_create_with a') tuple_as"
    unfolding gen_lists_create_with_def ast_lists_create_with_def related_sel [OF r]
  proof (rule agree_gbind)
    fix ss es assume "list_all2 (opnd 99) ss es"
    then have "list_all2 readable ss es" by (rule list_all2_mono) (rule opnd_readable)
    then show "agree (gret (STuple (''{'' @ js_join '', '' ss @ ''}'') 1)) (gret (ETable es)) tuple_as"
      using reads_table [of ss es 1] by (intro agree_gret tuple_asI) simp_all
  qed
  show "agree (gen_lists_create_empty a) (gret (ETable [])) tuple_as"
    unfolding gen_lists_create_empty_def by (intro agree_gret tuple_asI) (simp_all add: reads_constants)
qed

lemma split_agree:
  assumes r: "related a a'" and "field_is a ''MODE'' ''SPLIT'' \<or> field_is a ''MODE'' ''JOIN''"
  shows "agree (gen_lists_split a) (ast_lists_split a') tuple_as"
  unfolding gen_lists_split_def ast_lists_split_def related_sel [OF r]
proof (rule agree_gbind [OF agree_val [OF r]])
  fix c rc assume c: "case rc of None \<Rightarrow> c = '''' | Some e \<Rightarrow> opnd 99 c e"
  have readable_or: "readable (or_else c d) (exp_or rc e)" if "opnd 99 d e" for d e
    using c that opnd_readable by (cases rc) (auto simp: or_else_def exp_or_def opnd_def)
  have empty: "readable (or_else c empty_text) (exp_or rc EEmpty)" "readable (or_else c ''{}'') (exp_or rc (ETable []))"
    by (rule readable_or; rule opnd_constants; simp)+
  have concat: "tuple_as (STuple (''table.concat('' @ or_else c ''{}'' @ '', '' @ d @ '')'') 1)
      (ECall (EField ''table'' ''concat'') [exp_or rc (ETable []), e])" if "opnd 99 d e" for d e
    using lib_call [of "''table''" "''concat''" "[or_else c ''{}'', d]" "[exp_or rc (ETable []), e]"] empty opnd_readable [OF that]
    by (simp add: library_def)
  show "agree
     (gbind (val_or a ''DELIM'' 99 empty_text) (\<lambda>d.
       if field_is a ''MODE'' ''SPLIT'' then
         gbind (provide ''list_string_split'' list_string_split_code) (\<lambda>b.
           gret (STuple (b @ ''('' @ or_else c empty_text @ '', '' @ d @ '')'') 1))
       else if field_is a ''MODE'' ''JOIN'' then gret (STuple (''table.concat('' @ or_else c ''{}'' @ '', '' @ d @ '')'') 1)
       else gthrow (PlainError (''Unknown mode: '' @ field_text a ''MODE''))))
     (gbind (arg_or a' ''DELIM'' EEmpty) (\<lambda>d.
       if field_is a ''MODE'' ''SPLIT''
       then gbind (provide ''list_string_split'' list_string_split_code) (\<lambda>f. gret (ECall (EVar f) [exp_or rc EEmpty, d]))
       else gret (ECall (EField ''table'' ''concat'') [exp_or rc (ETable []), d]))) tuple_as"
  proof (rule agree_arg [OF r])
    fix d e assume d: "opnd 99 d e"
    have "agree (gbind (provide ''list_string_split'' list_string_split_code) (\<lambda>b.
           gret (STuple (b @ ''('' @ or_else c empty_text @ '', '' @ d @ '')'') 1)))
      (gbind (provide ''list_string_split'' list_string_split_code) (\<lambda>f. gret (ECall (EVar f) [exp_or rc EEmpty, e]))) tuple_as"
      by (intro agree_provide helper_ok_codes agree_gret helper_call2 empty opnd_readable [OF d]) simp_all
    moreover have "agree (gret (STuple (''table.concat('' @ or_else c ''{}'' @ '', '' @ d @ '')'') 1))
        (gret (ECall (EField ''table'' ''concat'') [exp_or rc (ETable []), e])) tuple_as"
      by (intro agree_gret concat d)
    ultimately show "agree
       (if field_is a ''MODE'' ''SPLIT'' then
         gbind (provide ''list_string_split'' list_string_split_code) (\<lambda>b.
           gret (STuple (b @ ''('' @ or_else c empty_text @ '', '' @ d @ '')'') 1))
       else if field_is a ''MODE'' ''JOIN'' then gret (STuple (''table.concat('' @ or_else c ''{}'' @ '', '' @ d @ '')'') 1)
       else gthrow (PlainError (''Unknown mode: '' @ field_text a ''MODE'')))
      (if field_is a ''MODE'' ''SPLIT''
       then gbind (provide ''list_string_split'' list_string_split_code) (\<lambda>f. gret (ECall (EVar f) [exp_or rc EEmpty, e]))
       else gret (ECall (EField ''table'' ''concat'') [exp_or rc (ETable []), e])) tuple_as"
      using assms(2) by (simp only: simp_thms if_True if_False split: if_split) blast
  qed (simp_all add: opnd_constants)
qed simp_all

lemma atoms_agree:
  assumes r: "related a a'"
  shows "agree (gen_logic_boolean a) (gret (if afield_is a' ''BOOL'' ''TRUE'' then ETrue else EFalse)) tuple_as"
    "agree (gen_logic_null a) (gret ENil) tuple_as"
    "agree (gen_math_random_float a) (gret (ECall (EField ''math'' ''random'') [])) tuple_as"
    "CR \<notin> set (field_text a ''TEXT'') \<Longrightarrow> agree (gen_text a) (gret (EStr (afield_text a' ''TEXT''))) tuple_as"
    "CR \<notin> set (field_text a ''COLOUR'') \<Longrightarrow> agree (gen_colour_picker a) (gret (EStr (afield_text a' ''COLOUR''))) tuple_as"
    "field_text a ''VAR'' \<noteq> ''goto'' \<Longrightarrow> agree (gen_variables_get a) (ast_variables_get a') tuple_as"
proof -
  show "agree (gen_logic_boolean a) (gret (if afield_is a' ''BOOL'' ''TRUE'' then ETrue else EFalse)) tuple_as"
    "agree (gen_logic_null a) (gret ENil) tuple_as"
    unfolding gen_logic_boolean_def gen_logic_null_def related_sel [OF r]
    by (intro agree_gret tuple_asI; simp add: reads_constants)+
  show "agree (gen_math_random_float a) (gret (ECall (EField ''math'' ''random'') [])) tuple_as"
    unfolding gen_math_random_float_def using lib_call [of "''math''" "''random''" "[]" "[]"]
    by (intro agree_gret) (simp add: library_def)
  show "agree (gen_text a) (gret (EStr (afield_text a' ''TEXT''))) tuple_as" if "CR \<notin> set (field_text a ''TEXT'')"
    unfolding gen_text_def related_sel [OF r] by (intro agree_gret opnd_text that)
  show "agree (gen_colour_picker a) (gret (EStr (afield_text a' ''COLOUR''))) tuple_as" if "CR \<notin> set (field_text a ''COLOUR'')"
    unfolding gen_colour_picker_def related_sel [OF r] by (intro agree_gret opnd_text that)
  have "tuple_as (STuple v 0) (EVar v)" if "plain_name v" for v
    using reads_var [OF that] callee_text [OF callee_name [OF that]] by (intro tuple_asI) simp_all
  then show "agree (gen_variables_get a) (ast_variables_get a') tuple_as" if "field_text a ''VAR'' \<noteq> ''goto''"
    unfolding gen_variables_get_def ast_variables_get_def related_sel [OF r] by (intro agree_name that agree_gret)
qed

lemma show_nat_hd: "is_digit (hd (show_nat n))"
  using show_nat_digits [of n] hd_in_set [OF show_nat_nonempty] by blast

lemma reads_tenths: "0 \<le> k \<Longrightarrow> reads (show_tenths k) j (ENum (show_tenths k))"
  using show_nat_digits show_nat_hd by (intro reads_number) (auto simp: show_tenths_def Let_def hd_append list_all_iff)

lemma tenths_text: 
  assumes "0 \<le> k"
  shows "show_tenths k \<noteq> []" and "hd (show_tenths k) \<noteq> CHR ''-''"
  using assms show_nat_hd [of "nat k div 10"] by (auto simp: show_tenths_def Let_def hd_append is_digit_def)

lemma number_agree:
  assumes r: "related a a'" and "field a ''NUM'' = Some (FNum k)"
  shows "agree (gen_math_number a) (gret (field_number (afield a' ''NUM''))) tuple_as"
proof -
  have pos: "tuple_as (STuple (show_tenths j) 0) (ENum (show_tenths j))" if "0 \<le> j" for j
    using reads_tenths [OF that] tenths_text [OF that] by (intro tuple_asI) simp_all
  have neg: "tuple_as (STuple (show_tenths k) 3) (EUn ''-'' (ENum (show_tenths (- k))))" if "k < 0"
  proof -
    have "0 \<le> - k" using that by simp
    from reads_minus [OF reads_tenths [OF this, of 0]] tenths_text [OF this] 
    have "reads (''-'' @ show_tenths (- k)) 3 (EUn ''-'' (ENum (show_tenths (- k))))" by simp
    moreover have "''-'' @ show_tenths (- k) = show_tenths k" using that by (simp add: show_tenths_def Let_def)
    ultimately show ?thesis by (intro tuple_asI) (auto simp: show_tenths_def)
  qed
  show ?thesis
    unfolding gen_math_number_def related_sel [OF r] assms(2) using pos neg
    by (intro agree_gret) (auto simp: negative_field_def field_number_def)
qed

definition infix_orders :: "(string \<times> nat) list" where
  \<comment> \<open>binary operators with the order that their operands and the whole are generated with\<close>
  "infix_orders =
    [(''^'', 2), (''*'', 4), (''/'', 4), (''%'', 4), (''+'', 5), (''-'', 5), (''..'', 6), (''=='', 7), (''~='', 7), (''<'', 7), (''<='', 7),
     (''>'', 7), (''>='', 7), (''and'', 8), (''or'', 9)]"

lemma infix_order:
  assumes "(y, k) \<in> set infix_orders"
  shows "0 < k" "k < 10" "1 < k \<and> k \<noteq> 3" "map_of priorities y = Some (left_of k, right_of k)" 
    "y \<in> set operator_symbols \<or> y \<in> {''and'', ''or''}"
proof -
  have "list_all (\<lambda>(y, k). 0 < k \<and> k < 10 \<and> 1 < k \<and> k \<noteq> 3 \<and> map_of priorities y = Some (left_of k, right_of k) \<and>
      (y \<in> set operator_symbols \<or> y \<in> {''and'', ''or''})) infix_orders" by code_simp
  with assms show "0 < k" "k < 10" "1 < k \<and> k \<noteq> 3" "map_of priorities y = Some (left_of k, right_of k)"
    "y \<in> set operator_symbols \<or> y \<in> {''and'', ''or''}"
    unfolding list_all_iff by blast+
qed

lemma tuple_infix:
  assumes "(y, k) \<in> set infix_orders" and "opnd k a e1" and "opnd k b e2"
  shows "tuple_as (STuple (a @ '' '' @ y @ '' '' @ b) k) (EBin y e1 e2)"
  using infix_order [OF assms(1)] by (intro tuple_binary [OF assms(2,3)])

lemma compare_agree:
  assumes r: "related a a'" and "field_text a ''OP'' \<in> {''EQ'', ''NEQ'', ''LT'', ''LTE'', ''GT'', ''GTE''}"
  shows "agree (gen_logic_compare a) (ast_logic_compare a') tuple_as"
proof -
  have "(compare_op (field_text a ''OP''), 7) \<in> set infix_orders"
    using assms(2) by (auto simp: compare_op_def infix_orders_def)
  then show ?thesis
    unfolding gen_logic_compare_def ast_logic_compare_def related_sel [OF r] Let_def
    by (intro agree_rules r opnd_constants tuple_infix) simp_all
qed

lemma modulo_agree:
  assumes r: "related a a'"
  shows "agree (gen_math_modulo a) (ast_math_modulo a') tuple_as"
  unfolding gen_math_modulo_def ast_math_modulo_def
proof (intro agree_rules r opnd_constants)
  fix c ec d ed assume "opnd 4 c ec" "opnd 4 d ed"
  from tuple_infix [OF _ this, of "''%''"] show "tuple_as (STuple (c @ '' % '' @ d) 4) (EBin ''%'' ec ed)" by (simp add: infix_orders_def)
qed simp_all

lemma arithmetic_agree:
  assumes r: "related a a'" and "field_text a ''OP'' \<in> {''ADD'', ''MINUS'', ''MULTIPLY'', ''DIVIDE'', ''POWER''}"
  shows "agree (gen_math_arithmetic a) (ast_math_arithmetic a') tuple_as"
proof -
  define y where "y = arithmetic_symbol (field_text a ''OP'')"
  obtain k where op: "arithmetic_op (field_text a ''OP'') = Some ('' '' @ y @ '' '', k)"
    and y: "(y, k) \<in> set infix_orders"
    using assms(2) by (auto simp: arithmetic_op_def arithmetic_symbol_def y_def infix_orders_def)
  have k: "0 < k" "k < 10 \<or> k = 99" using infix_order [OF y] by auto
  show ?thesis
    unfolding gen_math_arithmetic_def ast_math_arithmetic_def related_sel [OF r] op y_def [symmetric] option.case prod.case
    by (intro agree_rules r opnd_constants k) (use tuple_infix [OF y] in simp)
qed

lemma agree_val2:
  assumes "related a a'" and "0 < k" and "k < 10 \<or> k = 99"
    and "\<And>s x t y. case x of None \<Rightarrow> s = '''' | Some e \<Rightarrow> opnd k s e \<Longrightarrow>
      case y of None \<Rightarrow> t = '''' | Some e \<Rightarrow> opnd k t e \<Longrightarrow> agree (f s t) (f' x y) Q"
  shows "agree (gbind (val a n k) (\<lambda>s. gbind (val a m k) (f s))) (gbind (arg_opt a' n) (\<lambda>x. gbind (arg_opt a' m) (f' x))) Q"
  by (rule agree_gbind [OF agree_val [OF assms(1-3)]], rule agree_gbind [OF agree_val [OF assms(1-3)]], rule assms(4))

lemma operation_agree:
  assumes r: "related a a'"
  shows "agree (gen_logic_operation a) (ast_logic_operation a') tuple_as"
proof -
  define c where "c = field_is a ''OP'' ''AND''"
  define k :: nat where "k = (if c then 8 else 9)"
  define y where "y = (if c then ''and'' else ''or'')"
  define b where "b = (if c then ''true'' else ''false'')"
  have yk: "(y, k) \<in> set infix_orders" by (simp add: y_def k_def infix_orders_def)
  have k: "0 < k" "k < 10 \<or> k = 99" by (auto simp: k_def)
  have orders: "(if y = ''and'' then 8 else 9) = k" "(if y = ''and'' then ''true'' else ''false'') = b" by (simp_all add: y_def k_def b_def)
  define ast where "ast x z = (let d = (if x = None \<and> z = None then EFalse else if c then ETrue else EFalse)
      in EBin y (exp_or x d) (exp_or z d))" for x z
  have "agree (if s = '''' \<and> t = '''' then gret (STuple (''false '' @ y @ '' false'') k)
        else gret (STuple (or_else s b @ '' '' @ y @ '' '' @ or_else t b) k)) (gret (ast x z)) tuple_as"
    if s: "case x of None \<Rightarrow> s = '''' | Some e \<Rightarrow> opnd k s e" and t: "case z of None \<Rightarrow> t = '''' | Some e \<Rightarrow> opnd k t e" for s x t z
  proof -
    have e: "s = '''' \<longleftrightarrow> x = None" "t = '''' \<longleftrightarrow> z = None" using s t by (auto simp: opnd_def split: option.splits)
    define d where "d = (if x = None \<and> z = None then EFalse else if c then ETrue else EFalse)"
    define d' where "d' = (if x = None \<and> z = None then ''false'' else b)"
    have d: "opnd k d' d" using opnd_constants(3,4) [OF k(1)] by (simp add: d_def d'_def b_def)
    have "opnd k (or_else s d') (exp_or x d)" "opnd k (or_else t d') (exp_or z d)"
      using s t d e by (auto simp: or_else_def exp_or_def split: option.splits)
    from tuple_infix [OF yk this] show ?thesis
      by (auto simp: e ast_def Let_def d_def [symmetric] d'_def or_else_def intro!: agree_gret split: if_splits)
  qed
  then show ?thesis
    unfolding gen_logic_operation_def ast_logic_operation_def related_sel [OF r] c_def [symmetric] y_def [symmetric] Let_def orders
    unfolding ast_def [unfolded Let_def]
    by (intro agree_val2 [OF r k])
qed

lemma ternary_agree:
  assumes r: "related a a'"
  shows "agree (gen_logic_ternary a) (ast_logic_ternary a') tuple_as"
  unfolding gen_logic_ternary_def ast_logic_ternary_def
proof (intro agree_rules r opnd_constants)
  fix c ec d ed e ee assume o: "opnd 8 c ec" "opnd 8 d ed" "opnd 9 e ee"
  have "tuple_as (STuple (c @ '' and '' @ d) 8) (EBin ''and'' ec ed)"
    using tuple_infix [OF _ o(1,2), of "''and''"] by (simp add: infix_orders_def)
  then have "opnd 9 (c @ '' and '' @ d) (EBin ''and'' ec ed)" by (simp add: tuple_as_def)
  from tuple_infix [OF _ this o(3), of "''or''"]
  show "tuple_as (STuple (c @ '' and '' @ d @ '' or '' @ e) 9) (EBin ''or'' (EBin ''and'' ec ed) ee)" by (simp add: infix_orders_def)
qed simp_all

lemma lib_call1:
  assumes "(v, w) \<in> set library" and "readable a e"
  shows "tuple_as (STuple (v @ ''.'' @ w @ ''('' @ a @ '')'') 1) (ECall (EField v w) [e])"
    and "readable (v @ ''.'' @ w @ ''('' @ a @ '')'') (ECall (EField v w) [e])"
  using lib_call [OF assms(1), of "[a]" "[e]"] lib_readable [OF assms(1), of "[a]" "[e]"] assms(2) by simp_all

lemma lib_call2:
  assumes "(v, w) \<in> set library" and "readable a e" and "readable b f"
  shows "tuple_as (STuple (v @ ''.'' @ w @ ''('' @ a @ '', '' @ b @ '')'') 1) (ECall (EField v w) [e, f])"
    and "readable (v @ ''.'' @ w @ ''('' @ a @ '', '' @ b @ '')'') (ECall (EField v w) [e, f])"
  using lib_call [OF assms(1), of "[a, b]" "[e, f]"] lib_readable [OF assms(1), of "[a, b]" "[e, f]"] assms(2,3) by simp_all

lemma library_agree:
  assumes r: "related a a'"
  shows "agree (gen_math_constrain a) (ast_math_constrain a') tuple_as" "agree (gen_math_random_int a) (ast_math_random_int a') tuple_as"
    "agree (gen_math_atan2 a) (ast_math_atan2 a') tuple_as" "agree (gen_text_reverse a) (ast_text_reverse a') tuple_as"
proof -
  have minmax: "tuple_as (STuple (''math.min(math.max('' @ c @ '', '' @ d @ ''), '' @ b @ '')'') 1)
      (ECall (EField ''math'' ''min'') [ECall (EField ''math'' ''max'') [ec, ed], eb])" if "opnd 99 c ec" "opnd 99 d ed" "opnd 99 b eb" for c ec d ed b eb
    using lib_call2(1) [OF _ lib_call2(2) [OF _ that(1,2) [THEN opnd_readable]] that(3) [THEN opnd_readable], of "''math''" "''min''" "''math''" "''max''"]
    by (simp add: library_def)
  have random: "tuple_as (STuple (''math.random('' @ c @ '', '' @ b @ '')'') 1) (ECall (EField ''math'' ''random'') [ec, eb])"
    if "opnd 99 c ec" "opnd 99 b eb" for c ec b eb
    using lib_call2(1) [OF _ that [THEN opnd_readable], of "''math''" "''random''"] by (simp add: library_def)
  have atan: "tuple_as (STuple (''math.deg(math.atan2('' @ b @ '', '' @ c @ ''))'') 1)
      (ECall (EField ''math'' ''deg'') [ECall (EField ''math'' ''atan2'') [eb, ec]])" if "opnd 99 c ec" "opnd 99 b eb" for c ec b eb
    using lib_call1(1) [OF _ lib_call2(2) [OF _ that(2,1) [THEN opnd_readable]], of "''math''" "''deg''" "''math''" "''atan2''"]
    by (simp add: library_def)
  have reverse: "tuple_as (STuple (''string.reverse('' @ b @ '')'') 1) (ECall (EField ''string'' ''reverse'') [eb])" if "opnd 99 b eb" for b eb
    using lib_call1(1) [OF _ opnd_readable [OF that], of "''string''" "''reverse''"] by (simp add: library_def)
  have huge: "reads ''math.huge'' k (EField ''math'' ''huge'')" for k
    using reads_callee [OF callee_library, of "''math''" "''huge''" k] by (simp add: library_def)
  have bounds: "opnd 99 ''math.huge'' (EField ''math'' ''huge'')" "opnd 99 ''-math.huge'' (EUn ''-'' (EField ''math'' ''huge''))"
    using huge reads_minus [OF huge [of 0]] by (auto intro!: opndI [where j = 3])
  show "agree (gen_math_constrain a) (ast_math_constrain a') tuple_as" "agree (gen_math_random_int a) (ast_math_random_int a') tuple_as"
    "agree (gen_math_atan2 a) (ast_math_atan2 a') tuple_as" "agree (gen_text_reverse a) (ast_text_reverse a') tuple_as"
    unfolding gen_math_constrain_def ast_math_constrain_def gen_math_random_int_def ast_math_random_int_def gen_math_atan2_def
      ast_math_atan2_def gen_text_reverse_def ast_text_reverse_def
    by (intro agree_rules r opnd_constants bounds minmax random atan reverse; simp)+
qed

lemma on_list_agree:
  assumes r: "related a a'" and "field_text a ''OP'' \<in> {''SUM'', ''MIN'', ''MAX'', ''AVERAGE'', ''MEDIAN'', ''MODE'', ''STD_DEV'', ''RANDOM''}"
  shows "agree (gen_math_on_list a) (call1 (on_list_function (afield_text a' ''OP'')) ''LIST'' (ETable []) a') tuple_as"
proof -
  define same :: "string \<Rightarrow> string \<Rightarrow> bool" where "same x y \<longleftrightarrow> x = y \<and> plain_name x" for x y
  have p: "agree (provide n c) (provide n c) same" if "helper_ok n c" "n \<noteq> ''goto''" for n c
    using provide_ok [of _ n c] that unfolding agree_def helper_ok_def same_def by blast
  have p2: "agree (gbind sum_function (\<lambda>x. provide n (c x))) (gbind sum_function (\<lambda>x. provide n (c x))) same"
    if "\<And>x. helper_ok n (c x)" "n \<noteq> ''goto''" for n c
    unfolding sum_function_def by (intro agree_provide p that helper_ok_codes) simp
  have "agree (on_list_function (field_text a ''OP'')) (on_list_function (field_text a ''OP'')) same"
    using assms(2) unfolding on_list_function_def sum_function_def [symmetric]
    by (intro agree_if p2; (unfold sum_function_def)?; (intro p)?; simp add: helper_ok_codes)
  then show ?thesis
    unfolding gen_math_on_list_def call1_def related_sel [OF r]
    by (intro agree_arg [OF r] opnd_constants agree_gbind [where P = same] agree_gret)
      (auto simp: same_def intro: helper_call1 [simplified] opnd_readable)
qed

lemma callreturn_agree:
  assumes r: "related a a'" and "field_text a ''NAME'' \<noteq> ''goto''"
  shows "agree (gen_procedures_callreturn a) (ast_procedures_callreturn a') tuple_as"
proof -
  have args: "agree (gmapM (\<lambda>k. val_or a (ARGn k) 99 ''nil'') ks) (gmapM (\<lambda>k. arg_or a' (ARGn k) ENil) ks) (list_all2 (opnd 99))" for ks
    by (rule agree_gmapM) (intro agree_val_or r opnd_constants; simp)
  have call: "tuple_as (STuple (c @ ''('' @ js_join '', '' ss @ '')'') 1) (ECall (EVar c) es)" if "plain_name c" "list_all2 (opnd 99) ss es" for c ss es
    by (intro tuple_call callee_name that(1) list_all2_mono [OF that(2)] opnd_readable)

  show ?thesis
    unfolding gen_procedures_callreturn_def gen_procedures_call_def gbind_assoc gbind_gret ast_procedures_callreturn_def related_sel [OF r]
    by (intro agree_name assms(2) agree_gbind [OF args] agree_gret call)
qed

lemma join_agree:
  assumes r: "related a a'"
  shows "agree (gen_text_join a) (ast_text_join a') tuple_as"
proof -
  let ?n = "itemCount (gmutation a)"
  let ?e = "\<lambda>es. case es of [] \<Rightarrow> EEmpty | [e] \<Rightarrow> ECall (EVar ''tostring'') [e] | [e, f] \<Rightarrow> EBin ''..'' e f
    | _ \<Rightarrow> ECall (EField ''table'' ''concat'') [ETable es]"
  have add: "''ADD0'' = ADDn 0" "''ADD1'' = ADDn 1" by code_simp+
  have two: "[0 ..< 2] = [0, 1]" by code_simp
  have tostring: "plain_name ''tostring''" by code_simp
  have concat: "tuple_as (STuple (c @ '' .. '' @ b) 6) (EBin ''..'' ec eb)" if "opnd 6 c ec" "opnd 6 b eb" for c ec b eb
    using tuple_infix [OF _ that, of "''..''"] by (simp add: infix_orders_def)
  have table: "tuple_as (STuple (''table.concat({'' @ js_join '', '' ss @ ''})'') 1) (?e es)"
    if "list_all2 (opnd 99) ss es" "3 \<le> length es" for ss es
  proof -
    have "list_all2 readable ss es" using that(1) by (rule list_all2_mono) (rule opnd_readable)
    then have "readable (''{'' @ js_join '', '' ss @ ''}'') (ETable es)" using reads_table [of ss es 0] by (intro exI [of _ 0]) simp
    from lib_call1(1) [OF _ this, of "''table''" "''concat''"] have "tuple_as (STuple (''table.concat({'' @ js_join '', '' ss @ ''})'') 1)
        (ECall (EField ''table'' ''concat'') [ETable es])" by (simp add: library_def)
    with that(2) show ?thesis by (auto split: list.splits)
  qed
  consider "?n = 0" | "?n = 1" | "?n = 2" | "3 \<le> ?n" by linarith
  then show ?thesis
  proof cases
    case 1
    then show ?thesis
      by (simp add: gen_text_join_def ast_text_join_def related_sel [OF r]) (intro agree_gret tuple_asI; simp add: reads_constants)
  next
    case 2
    then show ?thesis
      unfolding gen_text_join_def ast_text_join_def related_sel [OF r] add
      by (simp add: gbind_assoc)
        (intro agree_arg [OF r] agree_gret opnd_constants helper_call1 [of "''tostring''", simplified]; simp add: tostring opnd_readable)
  next
    case 3
    then show ?thesis
      unfolding gen_text_join_def ast_text_join_def related_sel [OF r] add
      by (simp add: two gbind_assoc del: One_nat_def) (intro agree_arg [OF r] agree_gret opnd_constants concat [simplified]; simp)
  next
    case 4
    have "agree (gmapM (\<lambda>k. val_or a (ADDn k) 99 empty_text) [0 ..< ?n]) (gmapM (\<lambda>k. arg_or a' (ADDn k) EEmpty) [0 ..< ?n])
        (\<lambda>ss es. list_all2 (opnd 99) ss es \<and> length es = length [0 ..< ?n])"
      by (rule agree_gmapM_length) (intro agree_val_or r opnd_constants; simp)
    then have "agree (gbind (gmapM (\<lambda>k. val_or a (ADDn k) 99 empty_text) [0 ..< ?n])
          (\<lambda>c. gret (STuple (''table.concat({'' @ js_join '', '' c @ ''})'') 1)))
        (gbind (gmapM (\<lambda>k. arg_or a' (ADDn k) EEmpty) [0 ..< ?n]) (\<lambda>es. gret (?e es))) tuple_as"
      by (rule agree_gbind) (intro agree_gret table; use 4 in simp)
    then show ?thesis using 4 by (simp add: gen_text_join_def ast_text_join_def related_sel [OF r])
  qed
qed

lemma case_agree:
  assumes r: "related a a'" and "field_is a ''CASE'' ''UPPERCASE'' \<or> field_is a ''CASE'' ''LOWERCASE'' \<or> field_is a ''CASE'' ''TITLECASE''"
  shows "agree (gen_text_changeCase a) (ast_text_changeCase a') tuple_as"
  unfolding gen_text_changeCase_def ast_text_changeCase_def related_sel [OF r]
proof (rule agree_arg [OF r])
  fix b e assume "opnd 99 b e"
  then have b: "readable b e" by (rule opnd_readable)
  let ?upper = "field_is a ''CASE'' ''UPPERCASE''" and ?lower = "field_is a ''CASE'' ''LOWERCASE''" and ?title = "field_is a ''CASE'' ''TITLECASE''"
  let ?m = "gbind (if ?upper then gret ''string.upper'' else if ?lower then gret ''string.lower''
      else if ?title then provide ''text_titlecase'' text_titlecase_code else gret ''undefined'') (\<lambda>d. gret (STuple (d @ ''('' @ b @ '')'') 1))"
  let ?m' = "if ?upper then gret (ECall (EField ''string'' ''upper'') [e]) else if ?lower then gret (ECall (EField ''string'' ''lower'') [e])
      else gbind (provide ''text_titlecase'' text_titlecase_code) (\<lambda>f. gret (ECall (EVar f) [e]))"
  have lib: "tuple_as (STuple (''string.'' @ w @ ''('' @ b @ '')'') 1) (ECall (EField ''string'' w) [e])" if "w \<in> {''upper'', ''lower''}" for w
    using lib_call1(1) [OF _ b, of "''string''" w] that by (auto simp: library_def)
  have title: "agree (gbind (provide ''text_titlecase'' text_titlecase_code) (\<lambda>d. gret (STuple (d @ ''('' @ b @ '')'') 1)))
      (gbind (provide ''text_titlecase'' text_titlecase_code) (\<lambda>f. gret (ECall (EVar f) [e]))) tuple_as"
    by (intro agree_provide helper_ok_codes agree_gret helper_call1 b) simp_all
  consider "?upper" | "\<not> ?upper" "?lower" | "\<not> ?upper" "\<not> ?lower" "?title" using assms(2) by blast
  then show "agree ?m ?m' tuple_as"
  proof cases
    case 1
    then show ?thesis using lib [of "''upper''"] by (simp add: agree_gret)
  next
    case 2
    then show ?thesis using lib [of "''lower''"] by (simp add: agree_gret)
  next
    case 3
    then show ?thesis using title by simp
  qed
qed (simp_all add: opnd_constants)

lemma single_call_as:
  assumes "single_call c b = Some s" and "opnd (if c = ''ROUND'' then 5 else 99) b e"
  shows "tuple_as (STuple s 1) (single_ast c e)"
proof -
  have b: "readable b e" by (rule opnd_readable [OF assms(2)])
  have m: "(''math'', w) \<in> set library" if "w \<in> {''abs'', ''sqrt'', ''log'', ''exp'', ''floor'', ''ceil'', ''sin'', ''cos'', ''tan'', ''asin'', ''acos'', ''atan'',
      ''rad'', ''deg''}" for w
    using that by (auto simp: library_def)
  have one: "tuple_as (STuple (''math.'' @ w @ ''('' @ b @ '')'') 1) (ECall (EField ''math'' w) [e])"
    if "(''math'', w) \<in> set library" for w
    using lib_call1(1) [OF that b] by simp
  have two: "tuple_as (STuple (''math.'' @ v @ ''(math.'' @ w @ ''('' @ b @ ''))'') 1) (ECall (EField ''math'' v) [ECall (EField ''math'' w) [e]])"
    if "(''math'', v) \<in> set library" "(''math'', w) \<in> set library" for v w
    using lib_call1(1) [OF that(1) lib_call1(2) [OF that(2) b]] by simp
  have log: "tuple_as (STuple (''math.log('' @ b @ '', 10)'') 1) (ECall (EField ''math'' ''log'') [e, ENum ''10''])"
    using lib_call2(1) [OF m b, of "''log''" "''10''" "ENum ''10''"] reads_constants(3) by (simp add: exI [of _ "0::nat"])
  have round: "tuple_as (STuple (''math.floor('' @ b @ '' + .5)'') 1) (ECall (EField ''math'' ''floor'') [EBin ''+'' e (ENum ''.5'')])"
    if "opnd 5 b e"
  proof -
    have "opnd 5 ''.5'' (ENum ''.5'')" by (rule opndI [where j = 0]) (simp_all add: reads_constants)
    from tuple_infix [OF _ that this, of "''+''"] have "readable (b @ '' + .5'') (EBin ''+'' e (ENum ''.5''))"
      by (auto simp: infix_orders_def tuple_as_def intro: opnd_readable)
    from lib_call1(1) [OF m this, of "''floor''"] show ?thesis by simp
  qed
  note calls = one [OF m, of "''abs''"] one [OF m, of "''sqrt''"] one [OF m, of "''log''"] one [OF m, of "''exp''"] one [OF m, of "''floor''"]
    one [OF m, of "''ceil''"] two [OF m m, of "''sin''" "''rad''"] two [OF m m, of "''cos''" "''rad''"] two [OF m m, of "''tan''" "''rad''"]
    two [OF m m, of "''deg''" "''asin''"] two [OF m m, of "''deg''" "''acos''"] two [OF m m, of "''deg''" "''atan''"] log round
  have "c = ''ABS'' \<or> c = ''ROOT'' \<or> c = ''LN'' \<or> c = ''LOG10'' \<or> c = ''EXP'' \<or> c = ''ROUND'' \<or> c = ''ROUNDUP'' \<or> c = ''ROUNDDOWN'' \<or>
      c = ''SIN'' \<or> c = ''COS'' \<or> c = ''TAN'' \<or> c = ''ASIN'' \<or> c = ''ACOS'' \<or> c = ''ATAN''"
    using assms(1) unfolding single_call_def by (simp only: option.distinct simp_thms split: if_splits)
  then show ?thesis
    using calls by (elim disjE) (use assms in \<open>simp add: single_call_def single_ast_def\<close>)+
qed

lemma single_agree:
  assumes r: "related a a'" and "field_text a ''OP'' \<in> {''ROOT'', ''ABS'', ''NEG'', ''LN'', ''LOG10'', ''EXP'', ''POW10'', ''SIN'', ''COS'', ''TAN'', ''ASIN'', ''ACOS'', ''ATAN'',
      ''ROUND'', ''ROUNDUP'', ''ROUNDDOWN''}"
  shows "agree (gen_math_single a) (ast_math_single a') tuple_as"
proof -
  define c where "c = field_text a ''OP''"
  have neg: "tuple_as (STuple (''-'' @ b) 3) (EUn ''-'' e)" if "opnd 3 b e" for b e
    using that reads_minus [of b _ e] by (auto simp: opnd_def intro!: tuple_asI)
  have pow: "tuple_as (STuple (''10 ^ '' @ b) 2) (EBin ''^'' (ENum ''10'') e)" if "opnd 2 b e" for b e
  proof -
    have "opnd 2 ''10'' (ENum ''10'')" by (rule opndI [where j = 0]) (simp_all add: reads_constants)
    from tuple_infix [OF _ this that, of "''^''"] show ?thesis by (simp add: infix_orders_def)
  qed
  consider "c = ''NEG''" | "c = ''POW10''" | "c \<noteq> ''NEG''" "c \<noteq> ''POW10''" by blast
  then show ?thesis
  proof cases
    case 1
    then show ?thesis
      unfolding gen_math_single_def ast_math_single_def related_sel [OF r] c_def [symmetric] Let_def
      by simp (intro agree_arg [OF r] agree_gret neg [simplified] opnd_constants; simp)
  next
    case 2
    then show ?thesis
      unfolding gen_math_single_def ast_math_single_def related_sel [OF r] c_def [symmetric] Let_def
      by simp (intro agree_arg [OF r] agree_gret pow [simplified] opnd_constants; simp)
  next
    case 3
    have "\<exists>s. single_call c b = Some s" for b using assms(2) 3 by (auto simp: c_def single_call_def)
    then obtain s where s: "\<And>b. single_call c b = Some (s b)" by metis
    have "agree (gbind (val_or a ''NUM'' (if c = ''ROUND'' then 5 else 99) ''0'') (\<lambda>b. gret (STuple (s b) 1)))
        (gbind (arg_or a' ''NUM'' E0) (\<lambda>e. gret (single_ast c e))) tuple_as"
      by (intro agree_arg [OF r] agree_gret single_call_as [OF s] opnd_constants) simp_all
    then show ?thesis
      using 3 by (simp add: gen_math_single_def ast_math_single_def related_sel [OF r] c_def [symmetric] Let_def s)
  qed
qed

section \<open>Trees of value blocks\<close>

definition shown_options :: "(string \<times> string \<times> string list) list" where
  \<comment> \<open>the other dropdowns whose options have an expression\<close>
  "shown_options =
    [(''logic_compare'', ''OP'', [''EQ'', ''NEQ'', ''LT'', ''LTE'', ''GT'', ''GTE'']),
     (''text_changeCase'', ''CASE'', [''UPPERCASE'', ''LOWERCASE'', ''TITLECASE''])]"

definition fields_shown :: "string \<Rightarrow> (string \<times> fval) list \<Rightarrow> bool" where
  \<comment> \<open>dropdowns hold options, number fields numbers, texts no carriage return, and nothing is called \<open>goto\<close>\<close>
  "fields_shown ty fs \<longleftrightarrow>
     options_ok ty fs \<and>
     list_all (\<lambda>(u, n, opts). u = ty \<longrightarrow> list_ex (\<lambda>v. getFieldValue fs n = Some (FText v)) opts) shown_options \<and>
     (ty = ''math_number'' \<longrightarrow> (case getFieldValue fs ''NUM'' of Some (FNum k) \<Rightarrow> True | _ \<Rightarrow> False)) \<and>
     list_all (\<lambda>(u, n). u = ty \<longrightarrow> CR \<notin> set (js_String (getFieldValue fs n))) [(''text'', ''TEXT''), (''colour_picker'', ''COLOUR'')] \<and>
     list_all (\<lambda>(u, n). u = ty \<longrightarrow> js_String (getFieldValue fs n) \<noteq> ''goto'')
       [(''procedures_callreturn'', ''NAME''), (''variables_get'', ''VAR''), (''variables_get_dynamic'', ''VAR'')]"

fun shows_value :: "block \<Rightarrow> bool" and input_shows :: "binput \<Rightarrow> bool" where
  \<comment> \<open>a tree of value blocks that have an expression\<close>
  "shows_value (Block ty i en cm fs ins nx) \<longleftrightarrow>
     ty \<in> fst ` set std_asts \<and> fields_shown ty fs \<and> list_all input_shows ins \<and> nx = None"
| "input_shows (Input n t None) \<longleftrightarrow> True"
| "input_shows (Input n t (Some b)) \<longleftrightarrow> shows_value b"

lemma shown_conditions:
  "fields_shown ''lists_split'' (gfields a) \<Longrightarrow> field_is a ''MODE'' ''SPLIT'' \<or> field_is a ''MODE'' ''JOIN''"
  "fields_shown ''logic_compare'' (gfields a) \<Longrightarrow> field_text a ''OP'' \<in> {''EQ'', ''NEQ'', ''LT'', ''LTE'', ''GT'', ''GTE''}"
  "fields_shown ''math_arithmetic'' (gfields a) \<Longrightarrow> field_text a ''OP'' \<in> {''ADD'', ''MINUS'', ''MULTIPLY'', ''DIVIDE'', ''POWER''}"
  "fields_shown ''math_on_list'' (gfields a) \<Longrightarrow>
     field_text a ''OP'' \<in> {''SUM'', ''MIN'', ''MAX'', ''AVERAGE'', ''MEDIAN'', ''MODE'', ''STD_DEV'', ''RANDOM''}"
  "fields_shown ''text_changeCase'' (gfields a) \<Longrightarrow>
     field_is a ''CASE'' ''UPPERCASE'' \<or> field_is a ''CASE'' ''LOWERCASE'' \<or> field_is a ''CASE'' ''TITLECASE''"
  "fields_shown ''math_single'' (gfields a) \<or> fields_shown ''math_round'' (gfields a) \<or> fields_shown ''math_trig'' (gfields a) \<Longrightarrow>
     field_text a ''OP'' \<in> {''ROOT'', ''ABS'', ''NEG'', ''LN'', ''LOG10'', ''EXP'', ''POW10'', ''SIN'', ''COS'', ''TAN'', ''ASIN'', ''ACOS'', ''ATAN'',
      ''ROUND'', ''ROUNDUP'', ''ROUNDDOWN''}"
  by (auto simp: fields_shown_def options_ok_def std_options_def shown_options_def field_is_def field_def field_text_def)

lemma shown_texts:
  "fields_shown ''text'' (gfields a) \<Longrightarrow> CR \<notin> set (field_text a ''TEXT'')"
  "fields_shown ''colour_picker'' (gfields a) \<Longrightarrow> CR \<notin> set (field_text a ''COLOUR'')"
  "fields_shown ''procedures_callreturn'' (gfields a) \<Longrightarrow> field_text a ''NAME'' \<noteq> ''goto''"
  "fields_shown ''variables_get'' (gfields a) \<or> fields_shown ''variables_get_dynamic'' (gfields a) \<Longrightarrow> field_text a ''VAR'' \<noteq> ''goto''"
  by (auto simp: fields_shown_def field_def field_text_def)

lemma generators_agree:
  assumes "(ty, f') \<in> set std_asts" and r: "related a a'" and "fields_shown ty (gfields a)"
  shows "\<exists>f. (ty, f) \<in> set std_values \<and> agree (f a) (f' a') tuple_as"
proof -
  have number: "agree (gen_math_number a) (gret (field_number (afield a' ''NUM''))) tuple_as" if "fields_shown ''math_number'' (gfields a)"
    using that by (auto simp: fields_shown_def field_def split: option.splits fval.splits intro: number_agree [OF r])
  note rules = calls_agree [OF r] choice_agree [OF r] unary_agree [OF r] tables_agree [OF r] atoms_agree(1-3) [OF r] modulo_agree [OF r]
    operation_agree [OF r] ternary_agree [OF r] library_agree [OF r] join_agree [OF r] split_agree [OF r shown_conditions(1)]
    compare_agree [OF r shown_conditions(2)] arithmetic_agree [OF r shown_conditions(3)] on_list_agree [OF r shown_conditions(4)]
    case_agree [OF r shown_conditions(5)] single_agree [OF r shown_conditions(6)] atoms_agree(4) [OF r shown_texts(1)]
    atoms_agree(5) [OF r shown_texts(2)] callreturn_agree [OF r shown_texts(3)] atoms_agree(6) [OF r shown_texts(4)] number
  have entry: "(ty, f) \<in> set std_values \<Longrightarrow> agree (f a) x tuple_as \<Longrightarrow> \<exists>f. (ty, f) \<in> set std_values \<and> agree (f a) x tuple_as" for ty f x
    by blast
  show ?thesis
    using assms(1,3) unfolding std_asts_def list.set insert_iff empty_iff
    by - (elim disjE Pair_inject FalseE; hypsubst; rule entry; (rule rules; simp only: simp_thms)?; simp add: std_values_def)
qed

lemma std_values_lookup:
  assumes "(ty, f) \<in> set std_values"
  shows "std_generators ty = Some f" and "std_is_value ty fs"
proof -
  have "distinct (map fst (std_values @ std_statements))" by (simp add: std_values_def std_statements_def)
  with assms show "std_generators ty = Some f" unfolding std_generators_def by (intro map_of_is_SomeI) auto
  have "''lists_getIndex'' \<notin> fst ` set std_values" by (simp add: std_values_def)
  with assms show "std_is_value ty fs" by (force simp: std_is_value_def)
qed

lemma related_tree:
  assumes "\<And>n t b. Input n t (Some b) \<in> set ins \<Longrightarrow> agree (std_blockToCode G True b) (std_block_ast mu b) block_as"
  shows "related \<lparr>gfields = fs, ginputs = map (std_inputToCode G) ins, gmutation = m, gcomments = c\<rparr>
    \<lparr>afields = fs, ainputs = map (std_input_ast mu) ins, amutation = m\<rparr>"
  unfolding related_def
proof (intro conjI allI)
  fix n
  show "case input_target \<lparr>gfields = fs, ginputs = map (std_inputToCode G) ins, gmutation = m, gcomments = c\<rparr> n of
      None \<Rightarrow> arg_opt \<lparr>afields = fs, ainputs = map (std_input_ast mu) ins, amutation = m\<rparr> n = gret None
    | Some x \<Rightarrow> agree x (arg_opt \<lparr>afields = fs, ainputs = map (std_input_ast mu) ins, amutation = m\<rparr> n) block_as"
    using assms
  proof (induction ins)
    case Nil
    show ?case by (simp add: input_target_def arg_opt_def)
  next
    case (Cons j js)
    obtain n' t tgt where j: "j = Input n' t tgt" by (cases j)
    show ?case
    proof (cases "n' = n")
      case True
      then show ?thesis using Cons.prems [of n t] by (cases tgt) (simp_all add: j input_target_def arg_opt_def)
    next
      case False
      then have "input_target \<lparr>gfields = fs, ginputs = map (std_inputToCode G) (j # js), gmutation = m, gcomments = c\<rparr> n =
          input_target \<lparr>gfields = fs, ginputs = map (std_inputToCode G) js, gmutation = m, gcomments = c\<rparr> n"
        "arg_opt \<lparr>afields = fs, ainputs = map (std_input_ast mu) (j # js), amutation = m\<rparr> n =
          arg_opt \<lparr>afields = fs, ainputs = map (std_input_ast mu) js, amutation = m\<rparr> n"
        by (cases tgt; simp add: j input_target_def arg_opt_def)+
      with Cons.IH Cons.prems show ?thesis by (metis list.set_intros(2))
    qed
  qed
qed simp_all

lemma blocks_agree:
  "shows_value b \<Longrightarrow> agree (std_blockToCode (std_luaGenerator wrap mu) True b) (std_block_ast mu b) block_as"
proof (induction b rule: block.induct
    [where ?P2.0 = "\<lambda>i. \<forall>b. itarget i = Some b \<longrightarrow> shows_value b \<longrightarrow>
       agree (std_blockToCode (std_luaGenerator wrap mu) True b) (std_block_ast mu b) block_as"])
  case (Block ty i en cm fs ins nx)
  let ?G = "std_luaGenerator wrap mu"
  from Block.prems have ok: "ty \<in> fst ` set std_asts" "fields_shown ty fs" "list_all input_shows ins" "nx = None" by auto
  define a where "a = \<lparr>gfields = fs, ginputs = map (std_inputToCode ?G) ins, gmutation = mu i, gcomments = ''''\<rparr>"
  define a' where "a' = \<lparr>afields = fs, ainputs = map (std_input_ast mu) ins, amutation = mu i\<rparr>"
  have r: "related a a'"
    unfolding a_def a'_def
  proof (rule related_tree)
    fix n t b assume "Input n t (Some b) \<in> set ins"
    with Block.hyps [OF this] ok(3) show "agree (std_blockToCode ?G True b) (std_block_ast mu b) block_as" by (auto simp: list_all_iff)
  qed
  from ok(1) obtain f' where f': "map_of std_asts ty = Some f'"
    by (cases "map_of std_asts ty") (auto simp: map_of_eq_None_iff)
  from generators_agree [OF map_of_SomeD [OF f'] r] ok(2) obtain f where f: "(ty, f) \<in> set std_values" "agree (f a) (f' a') tuple_as"
    by (auto simp: a_def)
  show ?case
  proof (cases en)
    case True
    have "std_blockToCode ?G True (Block ty i en cm fs ins nx) =
        gbind (f a) (\<lambda>c. case c of STuple s n \<Rightarrow> gret (STuple s n) | SStr s \<Rightarrow> gret (SStr s) | SNull \<Rightarrow> gret (SStr '''')
          | SUndefined \<Rightarrow> gthrow (SyntaxError ''Invalid code generated: undefined''))"
      using True ok(4) std_values_lookup [OF f(1)]
      by (simp add: std_luaGenerator_sel a_def cong: scode.case_cong)
    moreover have "std_block_ast mu (Block ty i en cm fs ins nx) = gbind (f' a') (\<lambda>e. gret (Some e))"
      using True f' by (simp add: a'_def)
    moreover have "agree (gbind (f a) (\<lambda>c. case c of STuple s n \<Rightarrow> gret (STuple s n) | SStr s \<Rightarrow> gret (SStr s) | SNull \<Rightarrow> gret (SStr '''')
          | SUndefined \<Rightarrow> gthrow (SyntaxError ''Invalid code generated: undefined''))) (gbind (f' a') (\<lambda>e. gret (Some e))) block_as"
      by (rule agree_gbind [OF f(2)]) (auto simp: tuple_as_def block_as_def intro!: agree_gret)
    ultimately show ?thesis by simp
  next
    case False
    with ok(4) show ?thesis by (simp add: agree_gret block_as_def)
  qed
next
  case (Input n t tgt)
  then show ?case by auto
qed

lemma state_ok_populate:
  assumes "state_ok \<lparr>nameDB = s, definitions = [], functionNames = Map.empty\<rparr>" and "''goto'' \<notin> set as"
  shows "state_ok \<lparr>nameDB = populate en_Msg t as s, definitions = [], functionNames = Map.empty\<rparr>"
  using assms
proof (induction as arbitrary: s)
  case (Cons a as)
  let ?g = "\<lparr>nameDB = s, definitions = [], functionNames = Map.empty\<rparr>"
  have "user_name (nameDB ?g) a t \<noteq> ''goto''"
    using Cons.prems by (auto simp: user_name_def state_ok_def no_goto_def split: option.split)
  from name_for_ok [OF Cons.prems(1) this] have "state_ok (?g\<lparr>nameDB := snd (getName en_Msg a t s)\<rparr>)"
    by (auto simp: name_for_def split: prod.splits)
  with Cons.IH Cons.prems(2) show ?case by (simp add: populate_def)
qed (simp add: populate_def)

lemma state_ok_init:
  assumes "''goto'' \<notin> ran vars" and "''goto'' \<notin> set ids" and "''goto'' \<notin> set procs"
    and "variablePrefix s = ''''" and "reservedWords s = RESERVED_WORDS"
  shows "state_ok (lua_init en_Msg vars ids procs s)"
proof -
  have "names_inv (lua_init en_Msg vars [] [] s)" by (rule names_inv_init [OF assms(4,5)])
  then have "state_ok \<lparr>nameDB = (reset s)\<lparr>variableMap := vars\<rparr>, definitions = [], functionNames = Map.empty\<rparr>"
    using assms(1) by (auto simp: state_ok_def no_goto_def lua_init_def populate_def reset_def ran_def)
  with assms(2,3) show ?thesis unfolding lua_init_def Let_def by (intro state_ok_populate)
qed

text \<open>
  C17. A formula means what its blocks show. Take any tree of the value blocks for which \<open>std_asts\<close> gives an expression, 40 types
  from logic, arithmetic, text, lists, colours, variables and procedure calls, with any blocks missing or disabled below
  the top. In every state of the generator in which nothing is called \<open>goto\<close> the tree has code, Lua reads the code as exactly the expression of the tree, with
  the defaults of the generators in empty inputs, and names and helper functions in the code are the ones the generator has
  registered. The states include the one that a run starts from, when no variable and no procedure is called \<open>goto\<close>, and each generated block leads to another.
\<close>

theorem standard_values_read_back:
  assumes "shows_value b" and "enabled b" and "''goto'' \<notin> ran vars" and "''goto'' \<notin> set ids" and "''goto'' \<notin> set procs"
  shows "state_ok (lua_init en_Msg vars ids procs (new_Names RESERVED_WORDS)) \<and>
    (\<forall>g. state_ok g \<longrightarrow>
       (\<exists>s k g' e n. std_blockToCode (std_luaGenerator wrap mu) True b g = Inr (STuple s k, g') \<and>
          std_block_ast mu b g = Inr (Some e, g') \<and> state_ok g' \<and> (\<forall>m \<ge> n. lua_parse m s = Some e)))"
proof (intro conjI allI impI)
  show "state_ok (lua_init en_Msg vars ids procs (new_Names RESERVED_WORDS))"
    by (rule state_ok_init [OF assms(3-5)]) (simp_all add: new_Names_def)
  fix g assume "state_ok g"
  with blocks_agree [OF assms(1), of wrap mu] obtain c r g' where
    c: "std_blockToCode (std_luaGenerator wrap mu) True b g = Inr (c, g')" "std_block_ast mu b g = Inr (r, g')" "state_ok g'" "block_as c r"
    unfolding agree_def by blast
  have "r \<noteq> None" using assms(1,2) c(2)
    by (cases b) (auto simp: gbind_def gret_def bind_result_def map_of_eq_None_iff split: option.splits sum.splits)
  with c(4) obtain e s k where e: "r = Some e" "c = STuple s k" "reads s k e" "k < 10" by (auto simp: block_as_def tuple_as_def)
  from reads_parse [OF e(3,4)] obtain n where "lua_parse n s = Some e" ..
  then have "\<forall>m \<ge> n. lua_parse m s = Some e" using lua_parse_mono by blast
  with c e show "\<exists>s k g' e n. std_blockToCode (std_luaGenerator wrap mu) True b g = Inr (STuple s k, g') \<and>
          std_block_ast mu b g = Inr (Some e, g') \<and> state_ok g' \<and> (\<forall>m \<ge> n. lua_parse m s = Some e)" by blast
qed

definition sample_formula :: block where
  \<comment> \<open>\<open>(0 - -2.5) ^ total\<close>\<close>
  "sample_formula =
    (let number = Block ''math_number'' ''n'' True None [(''NUM'', FNum (- 25))] [] None;
         difference = Block ''math_arithmetic'' ''d'' True None [(''OP'', FText ''MINUS'')]
           [Input ''A'' VALUE None, Input ''B'' VALUE (Some number)] None;
         total = Block ''variables_get'' ''g'' True None [(''VAR'', FText ''v'')] [] None
     in Block ''math_arithmetic'' ''p'' True None [(''OP'', FText ''POWER'')]
          [Input ''A'' VALUE (Some difference), Input ''B'' VALUE (Some total)] None)"

lemma sample_total:
  "name_for ''v'' VARIABLE_NAME (lua_init en_Msg [''v'' \<mapsto> ''total''] [''v''] [] (new_Names RESERVED_WORDS)) =
   Inr (''total'', lua_init en_Msg [''v'' \<mapsto> ''total''] [''v''] [] (new_Names RESERVED_WORDS))"
proof -
  have "lua_identifier ''total''" by (simp add: lua_identifier_def is_word_def is_digit_def)
  moreover have "''total'' \<notin> set RESERVED_WORDS" by (simp add: RESERVED_WORDS_def)
  moreover have "map lower ''total'' = ''total''" by (simp add: lower_def)
  ultimately show ?thesis
    by (simp add: name_for_def lua_init_def populate_def getName_def getDistinctName_def user_name_def reset_def new_Names_def
        name_prefix_def safeName_id Let_def del: list.map)
qed

theorem standard_values_read_back_witness:
  "\<exists>s k g' n. std_blockToCode (std_luaGenerator id no_mutation) True sample_formula
       (lua_init en_Msg [''v'' \<mapsto> ''total''] [''v''] [] (new_Names RESERVED_WORDS)) = Inr (STuple s k, g') \<and>
     lua_parse n s = Some (EBin ''^'' (EBin ''-'' E0 (EUn ''-'' (ENum ''2.5''))) (EVar ''total''))"
proof -
  let ?g = "lua_init en_Msg [''v'' \<mapsto> ''total''] [''v''] [] (new_Names RESERVED_WORDS)"
  have "shows_value sample_formula" "enabled sample_formula"
    by (simp_all add: sample_formula_def Let_def std_asts_def fields_shown_def options_ok_def std_options_def shown_options_def getFieldValue_def)
  moreover have "''goto'' \<notin> ran [''v'' \<mapsto> ''total'']" "''goto'' \<notin> set [''v'']" "''goto'' \<notin> set []" by simp_all
  ultimately obtain s k g' e n where r: "std_blockToCode (std_luaGenerator id no_mutation) True sample_formula ?g = Inr (STuple s k, g')"
    "std_block_ast no_mutation sample_formula ?g = Inr (Some e, g')" "\<forall>m \<ge> n. lua_parse m s = Some e"
    using standard_values_read_back [of sample_formula "[''v'' \<mapsto> ''total'']" "[''v'']" "[]" id no_mutation] by blast
  have "std_block_ast no_mutation sample_formula ?g = Inr (Some (EBin ''^'' (EBin ''-'' E0 (EUn ''-'' (ENum ''2.5''))) (EVar ''total'')), ?g)"
    using sample_total
    by (simp add: sample_formula_def Let_def std_asts_def ast_math_arithmetic_def ast_variables_get_def arg_or_def arg_opt_def exp_or_def
        afield_text_def afield_def getFieldValue_def field_number_def arithmetic_symbol_def gbind_assoc show_tenths_def show_nat.simps digit_simps
        gbind_def gret_def)
  with r show ?thesis by force
qed

section \<open>A missing pair of parentheses\<close>

definition sample_removal :: block where
  \<comment> \<open>\<open>remove from total the item 1 + 2 from the end\<close>\<close>
  "sample_removal =
    (let number = (\<lambda>k. Block ''math_number'' ''n'' True None [(''NUM'', FNum k)] [] None);
         sum = Block ''math_arithmetic'' ''s'' True None [(''OP'', FText ''ADD'')]
           [Input ''A'' VALUE (Some (number 10)), Input ''B'' VALUE (Some (number 20))] None;
         total = Block ''variables_get'' ''g'' True None [(''VAR'', FText ''v'')] [] None
     in Block ''lists_getIndex'' ''r'' True None [(''MODE'', FText ''GET_REMOVE''), (''WHERE'', FText ''FROM_END'')]
          [Input ''VALUE'' VALUE (Some total), Input ''AT'' VALUE (Some sum)] None)"

lemma removal_lacks_parentheses:
  \<comment> \<open>the place is generated without an order, so the sum has no parentheses after the minus: item \<open>#total + 2\<close> is removed
    instead of the third from the end\<close>
  "std_blockToCode (std_luaGenerator id no_mutation) True sample_removal (lua_init en_Msg [''v'' \<mapsto> ''total''] [''v''] [] (new_Names RESERVED_WORDS)) =
     Inr (STuple ''table.remove(total, #total + 1 - 1 + 2)'' 1, lua_init en_Msg [''v'' \<mapsto> ''total''] [''v''] [] (new_Names RESERVED_WORDS))"
  "lua_parse 30 ''#total + 1 - 1 + 2'' = Some (EBin ''+'' (EBin ''-'' (EBin ''+'' (EUn ''#'' (EVar ''total'')) E1) E1) (ENum ''2''))"
proof -
  show "std_blockToCode (std_luaGenerator id no_mutation) True sample_removal (lua_init en_Msg [''v'' \<mapsto> ''total''] [''v''] [] (new_Names RESERVED_WORDS)) =
     Inr (STuple ''table.remove(total, #total + 1 - 1 + 2)'' 1, lua_init en_Msg [''v'' \<mapsto> ''total''] [''v''] [] (new_Names RESERVED_WORDS))"
    using sample_total
    by (simp add: sample_removal_def Let_def std_luaGenerator_def std_generators_def std_values_def std_statements_def std_is_value_def
        gen_lists_getIndex_def gen_math_arithmetic_def gen_math_number_def gen_variables_get_def arithmetic_op_def val_or_def val_def input_target_def
        value_text_def needs_parens_def or_else_def field_or_def field_def field_text_def getFieldValue_def negative_field_def show_tenths_def show_nat.simps
        digit_simps getListIndex_def from_back_def is_name_def is_word_def gbind_def gret_def)
  show "lua_parse 30 ''#total + 1 - 1 + 2'' = Some (EBin ''+'' (EBin ''-'' (EBin ''+'' (EUn ''#'' (EVar ''total'')) E1) E1) (ENum ''2''))"
    by code_simp
qed

end
