(* ===== verification/Mqtt_Page.thy ===== *)
theory Mqtt_Page
  imports Prelude
begin

text \<open>
  The MQTT shell (script of \<open>admin-mqtt.html\<close>): the page opens a web socket, subscribes to a pattern and shows
  the messages in a feed. All sockets that the page has created are kept, by number, because events of a socket that
  was closed or replaced may still arrive; \<open>ws\<close> is the one the script holds. The browser's part follows the
  standard: a socket starts connecting, opens once, \<open>close\<close> makes it closing, messages
  arrive on open sockets only. The text of a row is computed by the browser and an input.
\<close>

section \<open>The page\<close>

datatype ready_state = CONNECTING | OPEN | CLOSING | CLOSED

datatype out_message = SubscribeMsg string | PublishMsg string string

record sock =
  readyState :: ready_state
  sent :: "out_message list"  \<comment> \<open>in order\<close>

datatype feed_row = MessageRow string | InfoRow string | ErrorRow string | DroppedRow nat | EmptyRow

datatype in_message =
    Message string bool nat  \<comment> \<open>the text of its row, whether its time is valid, the number of dropped messages\<close>
  | Info string
  | Error string
  | OtherType  \<comment> \<open>JSON of another type\<close>
  | NotJson

record mqtt_page =
  socks :: "sock list"
  ws :: "nat option"
  paused :: bool
  subscribed :: bool
  unsub_shown :: bool
  feed :: "feed_row list"
  status :: string

definition MAX_ROWS :: nat where "MAX_ROWS = 500"

definition append_row :: "feed_row list \<Rightarrow> mqtt_page \<Rightarrow> mqtt_page" where
  \<comment> \<open>the end of \<open>addRow\<close>: append, then remove the oldest rows\<close>
  "append_row rs p = (let f = feed p @ rs in p\<lparr>feed := drop (length f - MAX_ROWS) f\<rparr>)"

definition addRow :: "in_message \<Rightarrow> mqtt_page \<Rightarrow> mqtt_page" where
  \<comment> \<open>an invalid time throws before the row is appended\<close>
  "addRow m p =
     (case m of
        Message txt ts_ok dropped \<Rightarrow>
          if paused p \<or> \<not> ts_ok then p
          else append_row ((if dropped = 0 then [] else [DroppedRow dropped]) @ [MessageRow txt]) p
      | Info s \<Rightarrow> append_row [InfoRow s] p
      | Error s \<Rightarrow> append_row [ErrorRow s] p
      | OtherType \<Rightarrow> append_row [EmptyRow] p
      | NotJson \<Rightarrow> p)"

definition ws_state :: "mqtt_page \<Rightarrow> ready_state option" where
  "ws_state p = map_option (\<lambda>i. readyState (socks p ! i)) (ws p)"

definition set_sock :: "nat \<Rightarrow> (sock \<Rightarrow> sock) \<Rightarrow> mqtt_page \<Rightarrow> mqtt_page" where
  "set_sock i f p = p\<lparr>socks := (socks p)[i := f (socks p ! i)]\<rparr>"

definition ws_send :: "nat \<Rightarrow> out_message \<Rightarrow> mqtt_page \<Rightarrow> mqtt_page" where
  "ws_send i m = set_sock i (\<lambda>s. s\<lparr>sent := sent s @ [m]\<rparr>)"

definition connect :: "mqtt_page \<Rightarrow> mqtt_page" where
  "connect p =
     (if ws_state p = Some CONNECTING \<or> ws_state p = Some OPEN then p
      else p\<lparr>socks := socks p @ [\<lparr>readyState = CONNECTING, sent = []\<rparr>], ws := Some (length (socks p)),
             status := ''connecting...''\<rparr>)"

section \<open>Events of a socket\<close>

definition on_open :: "string \<Rightarrow> nat \<Rightarrow> mqtt_page \<Rightarrow> mqtt_page" where
  "on_open pat i p =
     (if ws p \<noteq> Some i then p else ws_send i (SubscribeMsg pat) (p\<lparr>status := ''connected''\<rparr>))"

definition on_message :: "in_message \<Rightarrow> nat \<Rightarrow> mqtt_page \<Rightarrow> mqtt_page" where
  "on_message m i p = (if ws p \<noteq> Some i then p else addRow m p)"

definition on_close :: "nat \<Rightarrow> nat \<Rightarrow> mqtt_page \<Rightarrow> mqtt_page" where
  "on_close code i p =
     (if ws p \<noteq> Some i then p
      else (let p = p\<lparr>ws := None\<rparr> in if code = 4000 then connect p else p\<lparr>status := ''disconnected''\<rparr>))"

definition on_error :: "nat \<Rightarrow> mqtt_page \<Rightarrow> mqtt_page" where
  "on_error i p = (if ws p \<noteq> Some i then p else p\<lparr>status := ''error''\<rparr>)"

section \<open>Buttons\<close>

definition updateSubUI :: "mqtt_page \<Rightarrow> mqtt_page" where
  "updateSubUI p = p\<lparr>unsub_shown := subscribed p\<rparr>"

definition click_subscribe :: "string \<Rightarrow> mqtt_page \<Rightarrow> mqtt_page" where
  "click_subscribe pat p =
     (case ws p of
        Some i \<Rightarrow>
          if readyState (socks p ! i) \<noteq> OPEN then connect p
          else updateSubUI ((ws_send i (SubscribeMsg pat) p)\<lparr>subscribed := True\<rparr>)
      | None \<Rightarrow> connect p)"

definition close_open :: "mqtt_page \<Rightarrow> mqtt_page" where
  \<comment> \<open>\<open>if (ws && ws.readyState === WebSocket.OPEN) { ws.close(); ws = null; }\<close>\<close>
  "close_open p =
     (case ws p of
        Some i \<Rightarrow>
          if readyState (socks p ! i) = OPEN then (set_sock i (\<lambda>s. s\<lparr>readyState := CLOSING\<rparr>) p)\<lparr>ws := None\<rparr> else p
      | None \<Rightarrow> p)"

definition click_unsubscribe :: "mqtt_page \<Rightarrow> mqtt_page" where
  "click_unsubscribe p =
     addRow (Info ''unsubscribed'') ((updateSubUI ((close_open p)\<lparr>subscribed := False\<rparr>))\<lparr>status := ''disconnected''\<rparr>)"

definition click_pause :: "mqtt_page \<Rightarrow> mqtt_page" where
  "click_pause p = p\<lparr>paused := \<not> paused p\<rparr>"

definition toggle_format :: "mqtt_page \<Rightarrow> mqtt_page" where
  "toggle_format p =
     (if \<not> subscribed p then p
      else connect (addRow (Info ''resubscribing for new format...'') (close_open (p\<lparr>feed := []\<rparr>))))"

definition click_clear :: "mqtt_page \<Rightarrow> mqtt_page" where
  "click_clear p = p\<lparr>feed := []\<rparr>"

definition doPublish :: "string \<Rightarrow> string \<Rightarrow> mqtt_page \<Rightarrow> mqtt_page" where
  "doPublish topic payload p =
     (case ws p of
        Some i \<Rightarrow>
          if readyState (socks p ! i) \<noteq> OPEN then addRow (Error ''not connected'') p
          else ws_send i (PublishMsg topic payload) p
      | None \<Rightarrow> addRow (Error ''not connected'') p)"

definition page_load :: mqtt_page where
  "page_load =
     updateSubUI ((connect \<lparr>socks = [], ws = None, paused = False, subscribed = False, unsub_shown = False, feed = [],
       status = ''disconnected''\<rparr>)\<lparr>subscribed := True\<rparr>)"

section \<open>The page as a state machine\<close>

inductive mqtt_step :: "mqtt_page \<Rightarrow> mqtt_page \<Rightarrow> bool" where
  opened: "i < length (socks p) \<Longrightarrow> readyState (socks p ! i) = CONNECTING \<Longrightarrow>
    mqtt_step p (on_open pat i (set_sock i (\<lambda>s. s\<lparr>readyState := OPEN\<rparr>) p))"
| message: "i < length (socks p) \<Longrightarrow> readyState (socks p ! i) = OPEN \<Longrightarrow> mqtt_step p (on_message m i p)"
| closed: "i < length (socks p) \<Longrightarrow> readyState (socks p ! i) \<noteq> CLOSED \<Longrightarrow>
    mqtt_step p (on_close code i (set_sock i (\<lambda>s. s\<lparr>readyState := CLOSED\<rparr>) p))"
| error: "i < length (socks p) \<Longrightarrow> mqtt_step p (on_error i p)"
| subscribe: "mqtt_step p (click_subscribe pat p)"
| unsubscribe: "unsub_shown p \<Longrightarrow> mqtt_step p (click_unsubscribe p)"
| pause: "mqtt_step p (click_pause p)"
| format: "mqtt_step p (toggle_format p)"
| clear: "mqtt_step p (click_clear p)"
| publish: "mqtt_step p (doPublish topic payload p)"

inductive mqtt_reachable :: "mqtt_page \<Rightarrow> bool" where
  load: "mqtt_reachable page_load"
| step: "mqtt_reachable p \<Longrightarrow> mqtt_step p p' \<Longrightarrow> mqtt_reachable p'"

definition live :: "sock \<Rightarrow> bool" where
  "live s \<longleftrightarrow> readyState s = CONNECTING \<or> readyState s = OPEN"

definition sock_ok :: "nat option \<Rightarrow> nat \<Rightarrow> sock \<Rightarrow> bool" where
  \<comment> \<open>only the current socket is connecting or open, and the first message that an open socket sent is a subscription\<close>
  "sock_ok w i s \<longleftrightarrow>
     (live s \<longrightarrow> w = Some i) \<and> (readyState s = CONNECTING \<longrightarrow> sent s = []) \<and>
     (readyState s = OPEN \<longrightarrow> (\<exists>pat ms. sent s = SubscribeMsg pat # ms))"

definition socks_ok :: "nat option \<Rightarrow> sock list \<Rightarrow> bool" where
  "socks_ok w ss \<longleftrightarrow>
     (case w of None \<Rightarrow> True | Some i \<Rightarrow> i < length ss) \<and> (\<forall>i < length ss. sock_ok w i (ss ! i))"

definition mqtt_inv :: "mqtt_page \<Rightarrow> bool" where
  "mqtt_inv p \<longleftrightarrow> socks_ok (ws p) (socks p) \<and> length (feed p) \<le> MAX_ROWS \<and> unsub_shown p = subscribed p"

lemma nth_update: "j < length ss \<Longrightarrow> ss[i := s] ! j = (if i = j then s else ss ! j)"
  by (cases "i = j") simp_all

lemma socks_ok_update:
  assumes "socks_ok w ss" and "sock_ok w i s"
  shows "socks_ok w (ss[i := s])"
  using assms by (auto simp: socks_ok_def nth_update split: option.split)

lemma sock_ok_dead: "\<not> live s \<Longrightarrow> sock_ok w i s"
  by (auto simp: sock_ok_def live_def)

lemma socks_ok_leave:
  \<comment> \<open>the script lets go of a socket that is not live any more\<close>
  assumes "socks_ok (Some i) ss" and "\<not> live s"
  shows "socks_ok None (ss[i := s])"
proof -
  have "sock_ok None j (ss ! j)" if "j < length ss" "j \<noteq> i" for j
  proof (rule sock_ok_dead)
    have "sock_ok (Some i) j (ss ! j)" using assms(1) that by (simp add: socks_ok_def)
    then show "\<not> live (ss ! j)" using that by (auto simp: sock_ok_def)
  qed
  then show ?thesis using assms(2) sock_ok_dead by (auto simp: socks_ok_def nth_update)
qed

lemma socks_ok_new:
  assumes "socks_ok w ss" and "\<And>i. w = Some i \<Longrightarrow> \<not> live (ss ! i)"
  shows "socks_ok (Some (length ss)) (ss @ [\<lparr>readyState = CONNECTING, sent = []\<rparr>])"
proof -
  have "sock_ok (Some (length ss)) j (ss ! j)" if "j < length ss" for j
  proof (rule sock_ok_dead)
    have "sock_ok w j (ss ! j)" using assms(1) that by (simp add: socks_ok_def)
    then show "\<not> live (ss ! j)" using assms(2) [of j] by (auto simp: sock_ok_def)
  qed
  then show ?thesis by (auto simp: socks_ok_def sock_ok_def live_def nth_append less_Suc_eq)
qed

lemma append_row_inv: "mqtt_inv p \<Longrightarrow> mqtt_inv (append_row rs p)"
proof -
  have "length (drop (length f - MAX_ROWS) f) \<le> MAX_ROWS" for f :: "feed_row list" by simp
  then show "mqtt_inv p \<Longrightarrow> ?thesis" by (simp only: mqtt_inv_def append_row_def Let_def) simp
qed

lemma addRow_inv: "mqtt_inv p \<Longrightarrow> mqtt_inv (addRow m p)"
  by (simp add: addRow_def append_row_inv split: in_message.split)

lemma connect_inv: "mqtt_inv p \<Longrightarrow> mqtt_inv (connect p)"
  using socks_ok_new [of "ws p" "socks p"]
  by (auto simp: mqtt_inv_def connect_def ws_state_def live_def)

lemma close_open_inv: "mqtt_inv p \<Longrightarrow> mqtt_inv (close_open p)"
  using socks_ok_leave
  by (auto simp: mqtt_inv_def close_open_def set_sock_def live_def split: option.split)

lemma ws_send_inv:
  assumes "mqtt_inv p" and "ws p = Some i" and "readyState (socks p ! i) = OPEN"
  shows "mqtt_inv (ws_send i m p)"
proof -
  have "sock_ok (ws p) i (socks p ! i)" using assms by (auto simp: mqtt_inv_def socks_ok_def)
  then have "sock_ok (ws p) i ((socks p ! i)\<lparr>sent := sent (socks p ! i) @ [m]\<rparr>)"
    using assms(3) by (auto simp: sock_ok_def live_def)
  with assms socks_ok_update show ?thesis by (simp add: mqtt_inv_def ws_send_def set_sock_def)
qed

lemma opened_inv:
  assumes "mqtt_inv p" and "i < length (socks p)" and "readyState (socks p ! i) = CONNECTING"
  shows "mqtt_inv (on_open pat i (set_sock i (\<lambda>s. s\<lparr>readyState := OPEN\<rparr>) p))"
proof -
  have ok: "sock_ok (ws p) i (socks p ! i)" using assms by (simp add: mqtt_inv_def socks_ok_def)
  then have w: "ws p = Some i" and "sent (socks p ! i) = []" using assms(3) by (auto simp: sock_ok_def live_def)
  then have "sock_ok (ws p) i ((socks p ! i)\<lparr>readyState := OPEN, sent := [SubscribeMsg pat]\<rparr>)"
    by (simp add: sock_ok_def)
  with assms(1) have "socks_ok (ws p) ((socks p)[i := (socks p ! i)\<lparr>readyState := OPEN, sent := [SubscribeMsg pat]\<rparr>])"
    by (simp add: mqtt_inv_def socks_ok_update)
  with assms w \<open>sent (socks p ! i) = []\<close> show ?thesis
    by (simp add: mqtt_inv_def on_open_def ws_send_def set_sock_def)
qed

lemma closed_inv:
  assumes "mqtt_inv p"
  shows "mqtt_inv (on_close code i (set_sock i (\<lambda>s. s\<lparr>readyState := CLOSED\<rparr>) p))"
proof -
  let ?s = "(socks p ! i)\<lparr>readyState := CLOSED\<rparr>"
  let ?p = "set_sock i (\<lambda>s. s\<lparr>readyState := CLOSED\<rparr>) p"
  have dead: "\<not> live ?s" by (simp add: live_def)
  show ?thesis
  proof (cases "ws p = Some i")
    case True
    with assms have "socks_ok None ((socks p)[i := ?s])" using socks_ok_leave dead by (simp add: mqtt_inv_def)
    then have "mqtt_inv (?p\<lparr>ws := None\<rparr>)" using assms by (simp add: mqtt_inv_def set_sock_def)
    with connect_inv [OF this] show ?thesis
      using True by (simp add: on_close_def set_sock_def Let_def) (simp add: mqtt_inv_def)
  next
    case False
    with assms socks_ok_update sock_ok_dead [OF dead] show ?thesis
      by (simp add: on_close_def mqtt_inv_def set_sock_def)
  qed
qed

lemma mqtt_step_inv: "mqtt_step p p' \<Longrightarrow> mqtt_inv p \<Longrightarrow> mqtt_inv p'"
proof (induction rule: mqtt_step.induct)
  case (subscribe p pat)
  have "mqtt_inv (updateSubUI ((ws_send i (SubscribeMsg pat) p)\<lparr>subscribed := True\<rparr>))"
    if "ws p = Some i" "readyState (socks p ! i) = OPEN" for i
    using ws_send_inv [OF subscribe that] by (simp add: mqtt_inv_def updateSubUI_def)
  with subscribe show ?case by (simp add: click_subscribe_def connect_inv split: option.split)
next
  case (unsubscribe p)
  have "mqtt_inv ((updateSubUI ((close_open p)\<lparr>subscribed := False\<rparr>))\<lparr>status := ''disconnected''\<rparr>)"
    using close_open_inv [OF unsubscribe(2)] by (simp add: mqtt_inv_def updateSubUI_def)
  then show ?case unfolding click_unsubscribe_def by (rule addRow_inv)
next
  case (format p)
  have "mqtt_inv (p\<lparr>feed := []\<rparr>)" using format by (simp add: mqtt_inv_def)
  then show ?case using format by (simp add: toggle_format_def connect_inv addRow_inv close_open_inv)
next
  case (publish p topic payload)
  then show ?case by (auto simp: doPublish_def addRow_inv ws_send_inv split: option.split)
qed (auto intro: opened_inv closed_inv addRow_inv simp: on_message_def,
    auto simp: on_error_def click_pause_def click_clear_def mqtt_inv_def)

lemma mqtt_inv_load: "mqtt_inv page_load"
  by (simp add: page_load_def mqtt_inv_def connect_def ws_state_def updateSubUI_def socks_ok_def sock_ok_def live_def)

lemma mqtt_inv_reachable: "mqtt_reachable p \<Longrightarrow> mqtt_inv p"
  by (induction rule: mqtt_reachable.induct) (auto intro: mqtt_inv_load mqtt_step_inv)

text \<open>
  C38. At every moment at most one web socket of the page is connecting or open, and it is the one that the
  script holds: reconnecting, resubscribing and unsubscribing leave no socket behind that still receives messages. A socket
  that is open has sent its subscription before anything else, and events of another socket change nothing of the page. The feed never has more than
  500 rows.
\<close>

theorem one_live_socket:
  assumes "mqtt_reachable p"
  shows "(\<forall>i < length (socks p). live (socks p ! i) \<longrightarrow> ws p = Some i) \<and>
    (\<forall>i < length (socks p). readyState (socks p ! i) = OPEN \<longrightarrow> (\<exists>pat ms. sent (socks p ! i) = SubscribeMsg pat # ms)) \<and>
    (\<forall>i. ws p \<noteq> Some i \<longrightarrow> on_open pat' i p = p \<and> on_message m i p = p \<and> on_close code i p = p \<and> on_error i p = p) \<and>
    length (feed p) \<le> 500"
proof -
  have inv: "mqtt_inv p" by (rule mqtt_inv_reachable [OF assms])
  then have "\<forall>i < length (socks p). sock_ok (ws p) i (socks p ! i)" by (simp add: mqtt_inv_def socks_ok_def)
  then have "\<forall>i < length (socks p). live (socks p ! i) \<longrightarrow> ws p = Some i"
    and "\<forall>i < length (socks p). readyState (socks p ! i) = OPEN \<longrightarrow> (\<exists>pat ms. sent (socks p ! i) = SubscribeMsg pat # ms)"
    unfolding sock_ok_def by blast+
  moreover have "length (feed p) \<le> 500" using inv by (simp add: mqtt_inv_def MAX_ROWS_def)
  ultimately show ?thesis by (simp add: on_open_def on_message_def on_close_def on_error_def)
qed

section \<open>Unsubscribing\<close>

definition opened_page :: mqtt_page where
  "opened_page = on_open ''a/#'' 0 (set_sock 0 (\<lambda>s. s\<lparr>readyState := OPEN\<rparr>) page_load)"

definition back_page :: mqtt_page where
  \<comment> \<open>connected, unsubscribed, subscribed again and connected\<close>
  "back_page = on_open ''a/#'' 1 (set_sock 1 (\<lambda>s. s\<lparr>readyState := OPEN\<rparr>)
     (click_subscribe ''a/#'' (click_unsubscribe opened_page)))"

definition early_page :: mqtt_page where
  \<comment> \<open>unsubscribed before the socket has opened\<close>
  "early_page = on_open ''a/#'' 0 (set_sock 0 (\<lambda>s. s\<lparr>readyState := OPEN\<rparr>) (click_unsubscribe page_load))"

lemmas mqtt_eval = page_load_def opened_page_def back_page_def early_page_def connect_def ws_state_def on_open_def
  ws_send_def set_sock_def click_subscribe_def click_unsubscribe_def close_open_def updateSubUI_def addRow_def append_row_def
  MAX_ROWS_def

lemma opened_page_reachable: "mqtt_reachable opened_page"
  unfolding opened_page_def
  by (rule mqtt_reachable.step [OF mqtt_reachable.load mqtt_step.opened]) (simp_all add: mqtt_eval)

lemma back_page_reachable: "mqtt_reachable back_page"
proof -
  have "mqtt_reachable (click_unsubscribe opened_page)"
    by (rule mqtt_reachable.step [OF opened_page_reachable mqtt_step.unsubscribe]) (simp add: mqtt_eval)
  then have "mqtt_reachable (click_subscribe ''a/#'' (click_unsubscribe opened_page))"
    by (rule mqtt_reachable.step [OF _ mqtt_step.subscribe])
  then show ?thesis
    unfolding back_page_def by (rule mqtt_reachable.step [OF _ mqtt_step.opened]) (simp_all add: mqtt_eval)
qed

lemma early_page_reachable: "mqtt_reachable early_page"
proof -
  have "mqtt_reachable (click_unsubscribe page_load)"
    by (rule mqtt_reachable.step [OF mqtt_reachable.load mqtt_step.unsubscribe]) (simp add: mqtt_eval)
  then show ?thesis
    unfolding early_page_def by (rule mqtt_reachable.step [OF _ mqtt_step.opened]) (simp_all add: mqtt_eval)
qed

theorem one_live_socket_witness:
  "length (socks back_page) = 2 \<and> live (socks back_page ! 1) \<and> ws back_page = Some 1 \<and>
   on_message (Info ''late'') 0 back_page = back_page \<and> length (feed back_page) \<le> 500"
proof -
  note one_live_socket [OF back_page_reachable, of "''''" "Info ''late''" 1000]
  moreover have s: "length (socks back_page) = 2 \<and> live (socks back_page ! 1)" by (simp add: mqtt_eval live_def)
  ultimately have "ws back_page = Some 1" by simp
  then have "ws back_page \<noteq> Some 0" by simp
  then have "on_message (Info ''late'') 0 back_page = back_page" "length (feed back_page) \<le> 500"
    using one_live_socket [OF back_page_reachable, of "''''" "Info ''late''" 1000] by blast+
  with s \<open>ws back_page = Some 1\<close> show ?thesis by simp
qed

text \<open>
  The button and the connection can disagree: after unsubscribing and subscribing again the page is connected and
  subscribed while the unsubscribe button stays hidden, and unsubscribing before the first connection is established is ignored:
  the socket opens all the same and subscribes, and the button is gone.
\<close>

theorem unsubscribe_button_lost:
  "mqtt_reachable back_page \<and> ws_state back_page = Some OPEN \<and> sent (socks back_page ! 1) = [SubscribeMsg ''a/#''] \<and>
   \<not> unsub_shown back_page \<and>
   mqtt_reachable early_page \<and> ws_state early_page = Some OPEN \<and> sent (socks early_page ! 0) = [SubscribeMsg ''a/#''] \<and>
   \<not> unsub_shown early_page"
  using back_page_reachable early_page_reachable by (simp add: mqtt_eval)

end
