(* ===== verification/Chart_Card.thy ===== *)
theory Chart_Card
  imports Prelude
begin

text \<open>
  The chart of a device (first script of \<open>device-detail.html\<close>): the card with the selectors of metric and range,
  which htmx may replace at any moment, the numbered requests for data, and the chart that the newest reply
  draws. The requests under way are kept with the metric and range they asked for, so that
  what is drawn can be compared with what was asked. How Chart.js paints a chart is not modelled: a chart is its
  canvas, the label of its first line and the request its data answers.
\<close>

section \<open>State\<close>

record chart_request =
  seq :: nat
  q_metric :: "string option"
  q_range :: string

record drawn =
  canvas_card :: nat  \<comment> \<open>the card that the canvas belongs to\<close>
  label :: string
  answers :: chart_request

record chart_page =
  currentMetric :: "string option"  \<comment> \<open>none: undefined\<close>
  currentRange :: string
  card :: "nat option"
  wired :: bool  \<comment> \<open>the card's selectors have their listeners\<close>
  active_ranges :: "string list"  \<comment> \<open>the ranges whose buttons are highlighted\<close>
  chart :: "drawn option"
  canvas_hidden :: bool
  latest :: nat
  pending_requests :: "chart_request list"
  prefs :: "(string option \<times> string) option"  \<comment> \<open>the stored choice\<close>

definition chart_start :: "(string option \<times> string) option \<Rightarrow> chart_page" where
  \<comment> \<open>an empty stored range counts as none\<close>
  "chart_start saved =
     \<lparr>currentMetric = (case saved of None \<Rightarrow> None | Some (m, r) \<Rightarrow> m),
      currentRange = (case saved of None \<Rightarrow> ''24h'' | Some (m, r) \<Rightarrow> if r = [] then ''24h'' else r),
      card = None, wired = False, active_ranges = [], chart = None, canvas_hidden = False, latest = 0,
      pending_requests = [], prefs = saved\<rparr>"

definition metric_text :: "string option \<Rightarrow> string" where
  "metric_text m = (case m of None \<Rightarrow> ''undefined'' | Some s \<Rightarrow> s)"

section \<open>Operations\<close>

definition savePrefs :: "bool \<Rightarrow> chart_page \<Rightarrow> chart_page" where
  \<comment> \<open>\<open>ok\<close>: the storage accepts the value\<close>
  "savePrefs ok p = (if ok then p\<lparr>prefs := Some (currentMetric p, currentRange p)\<rparr> else p)"

definition RANGES :: "string list" where
  \<comment> \<open>the buttons of a card\<close>
  "RANGES = [''1h'', ''6h'', ''24h'', ''7d'', ''30d'', ''90d'']"

definition setActiveRangeButton :: "chart_page \<Rightarrow> chart_page" where
  "setActiveRangeButton p = p\<lparr>active_ranges := filter (\<lambda>r. r = currentRange p) RANGES\<rparr>"

definition fetchAndRender :: "chart_page \<Rightarrow> chart_page" where
  "fetchAndRender p =
     (let n = Suc (latest p)
      in p\<lparr>latest := n,
           pending_requests := \<lparr>seq = n, q_metric = currentMetric p, q_range = currentRange p\<rparr> # pending_requests p\<rparr>)"

definition draw :: "bool \<Rightarrow> chart_request \<Rightarrow> chart_page \<Rightarrow> chart_page" where
  \<comment> \<open>the reply to the newest request; \<open>has_data\<close>: it has labels. A chart on the same canvas is updated in
    place and one on another canvas is destroyed, with the same result here\<close>
  "draw has_data q p =
     (case card p of
        None \<Rightarrow> p
      | Some c \<Rightarrow>
          if \<not> has_data then p\<lparr>canvas_hidden := True\<rparr>
          else p\<lparr>canvas_hidden := False,
                 chart := Some \<lparr>canvas_card = c, label = metric_text (currentMetric p) @ '' (avg)'', answers = q\<rparr>\<rparr>)"

definition got_data :: "bool option \<Rightarrow> chart_request \<Rightarrow> chart_page \<Rightarrow> chart_page" where
  \<comment> \<open>the end of a request: \<open>None\<close> is a failed one\<close>
  "got_data res q p =
     (let p = p\<lparr>pending_requests := remove1 q (pending_requests p)\<rparr>
      in case res of
           None \<Rightarrow> p
         | Some has_data \<Rightarrow> if seq q \<noteq> latest p then p else draw has_data q p)"

record select =
  options :: "string list"
  shown :: string

definition choose_metric :: "string option \<Rightarrow> select \<Rightarrow> string" where
  \<comment> \<open>the metric that the selector shows after the stored one was tried\<close>
  "choose_metric m s = (case m of Some x \<Rightarrow> if x \<noteq> [] \<and> x \<in> set (options s) then x else shown s | None \<Rightarrow> shown s)"

definition bindCard :: "(nat \<times> select option) option \<Rightarrow> chart_page \<Rightarrow> chart_page" where
  \<comment> \<open>the card in the document, if any, with its selector of metrics, if it has one\<close>
  "bindCard el p =
     (case el of
        None \<Rightarrow> p
      | Some (c, sel) \<Rightarrow>
          if card p = Some c then (if sel \<noteq> None then fetchAndRender p else p)
          else  \<comment> \<open>a new card comes from the template with its canvas shown and 24h highlighted\<close>
            (let p = p\<lparr>card := Some c, wired := False, latest := Suc (latest p), chart := None,
                       canvas_hidden := False, active_ranges := (if sel = None then [] else [''24h''])\<rparr>
             in case sel of
                  None \<Rightarrow> p
                | Some s \<Rightarrow>
                    fetchAndRender (setActiveRangeButton
                      (p\<lparr>currentMetric := Some (choose_metric (currentMetric p) s), wired := True\<rparr>))))"

definition change_metric :: "bool \<Rightarrow> string \<Rightarrow> chart_page \<Rightarrow> chart_page" where
  "change_metric ok m p =
     (if wired p then fetchAndRender (savePrefs ok (p\<lparr>currentMetric := Some m\<rparr>)) else p)"

definition click_range :: "bool \<Rightarrow> string \<Rightarrow> chart_page \<Rightarrow> chart_page" where
  "click_range ok r p =
     (if wired p \<and> r \<in> set RANGES
      then fetchAndRender (setActiveRangeButton (savePrefs ok (p\<lparr>currentRange := r\<rparr>))) else p)"

section \<open>The page as a state machine\<close>

inductive chart_reachable :: "chart_page \<Rightarrow> bool" where
  start: "chart_reachable (chart_start saved)"
| bind: "chart_reachable p \<Longrightarrow> chart_reachable (bindCard el p)"
| metric: "chart_reachable p \<Longrightarrow> chart_reachable (change_metric ok m p)"
| range: "chart_reachable p \<Longrightarrow> chart_reachable (click_range ok r p)"
| data: "chart_reachable p \<Longrightarrow> q \<in> set (pending_requests p) \<Longrightarrow> chart_reachable (got_data res q p)"

definition chart_ok :: "nat option \<Rightarrow> drawn option \<Rightarrow> bool" where
  "chart_ok c d \<longleftrightarrow>
     (case d of None \<Rightarrow> True
      | Some x \<Rightarrow> c = Some (canvas_card x) \<and> label x = metric_text (q_metric (answers x)) @ '' (avg)'')"

definition request_ok :: "chart_page \<Rightarrow> chart_request \<Rightarrow> bool" where
  "request_ok p q \<longleftrightarrow>
     seq q \<le> latest p \<and> (seq q = latest p \<longrightarrow> q_metric q = currentMetric p \<and> q_range q = currentRange p)"

definition chart_inv :: "chart_page \<Rightarrow> bool" where
  "chart_inv p \<longleftrightarrow>
     list_all (request_ok p) (pending_requests p) \<and> chart_ok (card p) (chart p) \<and>
     (wired p \<longrightarrow> active_ranges p = filter (\<lambda>r. r = currentRange p) RANGES)"

lemma fetch_inv:
  \<comment> \<open>the requests under way may have been sent for other values, as long as they are older\<close>
  assumes "list_all (\<lambda>q. seq q \<le> latest p) (pending_requests p)" and "chart_ok (card p) (chart p)"
    and "wired p \<longrightarrow> active_ranges p = filter (\<lambda>r. r = currentRange p) RANGES"
  shows "chart_inv (fetchAndRender p)"
proof -
  have "list_all (request_ok (fetchAndRender p)) (pending_requests p)"
    using assms(1) by (auto simp: list_all_iff request_ok_def fetchAndRender_def Let_def)
  with assms(2,3) show ?thesis
    by (simp add: chart_inv_def fetchAndRender_def Let_def) (simp add: request_ok_def)
qed

lemma request_bound: "chart_inv p \<Longrightarrow> latest p \<le> n \<Longrightarrow> list_all (\<lambda>q. seq q \<le> n) (pending_requests p)"
  by (auto simp: chart_inv_def list_all_iff request_ok_def)

lemma chart_ok_None [simp]: "chart_ok c None"
  by (simp add: chart_ok_def)

lemma new_card_inv:
  \<comment> \<open>a card without selectors: the requests under way are all older than the new number\<close>
  assumes "chart_inv p"
  shows "chart_inv (p\<lparr>card := c, wired := False, latest := Suc (latest p), chart := None,
                      canvas_hidden := h, active_ranges := a\<rparr>)"
  using assms by (auto simp: chart_inv_def list_all_iff request_ok_def)

lemma bindCard_inv:
  assumes "chart_inv p"
  shows "chart_inv (bindCard el p)"
proof (cases el)
  case (Some e)
  obtain c sel where e: "e = (c, sel)" by (cases e)
  have "chart_inv (fetchAndRender p)"
    by (rule fetch_inv [OF request_bound [OF assms order.refl]]) (use assms in \<open>simp_all add: chart_inv_def\<close>)
  moreover have "list_all (\<lambda>q. seq q \<le> Suc (latest p)) (pending_requests p)"
    using assms by (rule request_bound) simp
  ultimately show ?thesis
    using Some e assms
    by (auto simp: bindCard_def setActiveRangeButton_def Let_def new_card_inv split: option.split intro!: fetch_inv)
qed (simp add: assms bindCard_def)

lemma remove_request_inv: "chart_inv p \<Longrightarrow> chart_inv (p\<lparr>pending_requests := remove1 q (pending_requests p)\<rparr>)"
  using set_remove1_subset [of q "pending_requests p"] by (auto simp: chart_inv_def list_all_iff request_ok_def)

lemma draw_inv:
  \<comment> \<open>the label is that of the metric on display now, which the newest request asked for\<close>
  assumes "chart_inv p" and "q_metric q = currentMetric p"
  shows "chart_inv (draw has_data q p)"
  using assms by (auto simp: draw_def chart_inv_def request_ok_def chart_ok_def list_all_iff split: option.splits)

lemma got_data_inv:
  assumes "chart_inv p" and "q \<in> set (pending_requests p)"
  shows "chart_inv (got_data res q p)"
proof -
  have "seq q = latest p \<longrightarrow> q_metric q = currentMetric p"
    using assms by (auto simp: chart_inv_def list_all_iff request_ok_def)
  then show ?thesis
    using remove_request_inv [OF assms(1), of q]
    by (auto simp: got_data_def Let_def split: option.split intro: draw_inv)
qed

lemma chart_inv_reachable: "chart_reachable p \<Longrightarrow> chart_inv p"
proof (induction rule: chart_reachable.induct)
  case (start saved)
  show ?case by (simp add: chart_inv_def chart_start_def)
next
  case (bind p el)
  then show ?case by (intro bindCard_inv)
next
  case (metric p ok m)
  then show ?case
    unfolding change_metric_def savePrefs_def
    using request_bound [OF _ order.refl, of p] by (auto intro!: fetch_inv) (auto simp: chart_inv_def)
next
  case (range p ok r)
  then show ?case
    unfolding click_range_def savePrefs_def setActiveRangeButton_def
    using request_bound [OF _ order.refl, of p] by (auto intro!: fetch_inv) (auto simp: chart_inv_def)
next
  case (data p q res)
  then show ?case by (intro got_data_inv)
qed

section \<open>What is drawn\<close>

lemma stale_reply_draws_nothing:
  "res = None \<or> seq q \<noteq> latest p \<Longrightarrow>
   got_data res q p = p\<lparr>pending_requests := remove1 q (pending_requests p)\<rparr>"
  by (auto simp: got_data_def Let_def split: option.split)

text \<open>
  C40. Whatever cards htmx swaps in, whatever the user selects and in whatever order the replies arrive: when the
  reply to a request comes in, then either the reply is stale or failed and changes nothing that is shown, or it is the
  reply to a request for the metric and range that are selected at that moment; data is then drawn on the canvas of the
  current card under the name of that metric, and an empty reply hides the canvas and draws nothing.
  In between, the chart on display is on the current card and its label names the metric its data was asked for,
  and the highlighted buttons of a card with selectors are those of the current range.
\<close>

theorem newest_reply_draws:
  assumes "chart_reachable p" and "q \<in> set (pending_requests p)"
  shows "(res = None \<or> seq q \<noteq> latest p \<longrightarrow>
           (let p' = got_data res q p in chart p' = chart p \<and> canvas_hidden p' = canvas_hidden p)) \<and>
    (seq q = latest p \<longrightarrow> q_metric q = currentMetric p \<and> q_range q = currentRange p) \<and>
    (seq q = latest p \<and> card p = Some c \<longrightarrow>
           chart (got_data (Some True) q p) =
             Some \<lparr>canvas_card = c, label = metric_text (q_metric q) @ '' (avg)'', answers = q\<rparr>
           \<and> \<not> canvas_hidden (got_data (Some True) q p)
           \<and> chart (got_data (Some False) q p) = chart p \<and> canvas_hidden (got_data (Some False) q p)) \<and>
    (chart p = Some d \<longrightarrow>
           card p = Some (canvas_card d) \<and> label d = metric_text (q_metric (answers d)) @ '' (avg)'') \<and>
    (wired p \<longrightarrow> active_ranges p = filter (\<lambda>r. r = currentRange p) RANGES)"
    (is "?stale \<and> ?newest \<and> ?drawn \<and> ?label \<and> ?buttons")
proof -
  note inv = chart_inv_reachable [OF assms(1)]
  have stale: ?stale
    by (auto simp: Let_def stale_reply_draws_nothing)
  have newest: ?newest
    using inv assms(2) by (auto simp: chart_inv_def list_all_iff request_ok_def)
  then have drawn: ?drawn
    by (simp add: got_data_def draw_def Let_def)
  have "?label" "?buttons"
    using inv by (auto simp: chart_inv_def chart_ok_def)
  with stale newest drawn show ?thesis by blast
qed

definition two_requests :: chart_page where
  \<comment> \<open>a card is bound and the user picks another metric before the first reply\<close>
  "two_requests =
     change_metric True ''hum''
       (bindCard (Some (7, Some \<lparr>options = [''temp'', ''hum''], shown = ''temp''\<rparr>)) (chart_start None))"

lemma two_requests_reachable: "chart_reachable two_requests"
  unfolding two_requests_def by (intro chart_reachable.intros)

lemmas chart_simps = two_requests_def change_metric_def savePrefs_def bindCard_def choose_metric_def fetchAndRender_def
  setActiveRangeButton_def chart_start_def Let_def

theorem newest_reply_draws_witness:
  "chart (got_data (Some True) \<lparr>seq = 3, q_metric = Some ''hum'', q_range = ''24h''\<rparr> two_requests) =
     Some \<lparr>canvas_card = 7, label = ''hum (avg)'',
           answers = \<lparr>seq = 3, q_metric = Some ''hum'', q_range = ''24h''\<rparr>\<rparr>
   \<and> chart (got_data (Some True) \<lparr>seq = 2, q_metric = Some ''temp'', q_range = ''24h''\<rparr> two_requests) = None
   \<and> active_ranges two_requests = [''24h'']"
proof -
  let ?q = "\<lparr>seq = 3, q_metric = Some ''hum'', q_range = ''24h''\<rparr>"
  let ?o = "\<lparr>seq = 2, q_metric = Some ''temp'', q_range = ''24h''\<rparr>"
  have s: "latest two_requests = 3" "card two_requests = Some 7" "chart two_requests = None" "wired two_requests"
    "currentMetric two_requests = Some ''hum''" "currentRange two_requests = ''24h''" "?q \<in> set (pending_requests two_requests)"
    "?o \<in> set (pending_requests two_requests)"
    by (simp_all add: chart_simps)
  show ?thesis
    using newest_reply_draws [OF two_requests_reachable s(7), of None 7]
      newest_reply_draws [OF two_requests_reachable s(8), of "Some True"] s
    by (simp add: metric_text_def RANGES_def Let_def)
qed

end
