(* ===== verification/Devices_Table.thy ===== *)
theory Devices_Table
  imports Prelude "HOL-Library.Multiset"
begin

text \<open>
  The device tables (\<open>devices-table.js\<close>, and the bulk selection of \<open>admin-devices.html\<close>): column
  choice, filter, sorting and selection on the parts of the page that the scripts touch. A page
  holds its tables in document order with their headers, rows and cells as records, the
  column menus, filter boxes and counters by name, and the scripts' own variables.
  Texts are strings of code units below 256. Column and table names are those of the templates;
  none is a property of \<open>Object.prototype\<close>.
\<close>

section \<open>Texts\<close>

definition is_space :: "char \<Rightarrow> bool" where
  "is_space c \<longleftrightarrow> (of_char c :: nat) \<in> {9, 10, 11, 12, 13, 32, 160}"

definition trim :: "string \<Rightarrow> string" where
  "trim s = rev (dropWhile is_space (rev (dropWhile is_space s)))"

definition lower_char :: "char \<Rightarrow> char" where
  "lower_char c =
     (let n = (of_char c :: nat)
      in if (65 \<le> n \<and> n \<le> 90) \<or> (192 \<le> n \<and> n \<le> 222 \<and> n \<noteq> 215) then char_of (n + 32) else c)"

definition toLowerCase :: "string \<Rightarrow> string" where
  "toLowerCase s = map lower_char s"

definition is_integer :: "string \<Rightarrow> bool" where
  \<comment> \<open>matches \<open>/^-?\d+$/\<close>\<close>
  "is_integer s =
     (let d = (case s of c # cs \<Rightarrow> if c = CHR ''-'' then cs else s | [] \<Rightarrow> [])
      in d \<noteq> [] \<and> list_all is_digit d)"

definition integer_value :: "string \<Rightarrow> int" where
  \<comment> \<open>the whole number that such a text denotes\<close>
  "integer_value s =
     (case s of c # cs \<Rightarrow> if c = CHR ''-'' then - int (read_nat cs) else int (read_nat s) | [] \<Rightarrow> 0)"

text \<open>
  \<open>Number(s)\<close> is the double nearest to the denoted number, the one with an even significand when two are
  equally near, and infinite when it would need an exponent above 1023. A double that is a whole number is
  an integer here; plus and minus infinity, which are only compared, are \<open>2^1024\<close> and its negative.
\<close>

function excess_bits :: "int \<Rightarrow> nat" where
  \<comment> \<open>the bits of the number beyond the 53 of a significand\<close>
  "excess_bits n = (if n < 9007199254740992 then 0 else Suc (excess_bits (n div 2)))"
  by pat_completeness auto

termination
  by (relation "measure nat") auto

declare excess_bits.simps [simp del]

definition round_double :: "int \<Rightarrow> int" where
  "round_double n =
     (let e = excess_bits n; q = n div 2 ^ e; r = n mod 2 ^ e;
          up = (2 ^ e < 2 * r \<or> 2 * r = 2 ^ e \<and> odd q)
      in (if up then q + 1 else q) * 2 ^ e)"

definition magnitude :: "int \<Rightarrow> int" where
  "magnitude n = (let v = round_double n in if 971 < excess_bits v then 2 ^ 1024 else v)"

definition double_of :: "int \<Rightarrow> int" where
  "double_of x = sgn x * magnitude \<bar>x\<bar>"

definition key_Number :: "string \<Rightarrow> int" where
  "key_Number s = double_of (integer_value s)"

section \<open>Interface: sorting an array with a comparison function\<close>

text \<open>
  What \<open>Array.prototype.sort\<close> promises: the elements are kept, and when the comparison is consistent
  the result is in order and equal elements keep their order.
\<close>

definition consistent :: "('a \<Rightarrow> 'a \<Rightarrow> int) \<Rightarrow> 'a set \<Rightarrow> bool" where
  "consistent cmp A \<longleftrightarrow>
     (\<forall>x \<in> A. \<forall>y \<in> A. sgn (cmp y x) = - sgn (cmp x y)) \<and>
     (\<forall>x \<in> A. \<forall>y \<in> A. \<forall>z \<in> A. cmp x y \<le> 0 \<longrightarrow> cmp y z \<le> 0 \<longrightarrow> cmp x z \<le> 0)"

lemma consistentI:
  assumes "\<And>x y. x \<in> A \<Longrightarrow> y \<in> A \<Longrightarrow> sgn (cmp y x) = - sgn (cmp x y)"
    and "\<And>x y z. x \<in> A \<Longrightarrow> y \<in> A \<Longrightarrow> z \<in> A \<Longrightarrow> cmp x y \<le> 0 \<Longrightarrow> cmp y z \<le> 0 \<Longrightarrow> cmp x z \<le> 0"
  shows "consistent cmp A"
  unfolding consistent_def by (intro conjI ballI impI) (erule (1) assms(1), erule (4) assms(2))

lemma consistent_opposite:
  assumes "consistent cmp A" and "x \<in> A" and "y \<in> A"
  shows "sgn (cmp y x) = - sgn (cmp x y)"
  by (rule conjunct1 [OF assms(1) [unfolded consistent_def], THEN bspec, OF assms(2), THEN bspec, OF assms(3)])

lemma consistent_trans:
  assumes "consistent cmp A" and "cmp x y \<le> 0" and "cmp y z \<le> 0" and "x \<in> A" and "y \<in> A" and "z \<in> A"
  shows "cmp x z \<le> 0"
  by (rule conjunct2 [OF assms(1) [unfolded consistent_def], THEN bspec, OF assms(4), THEN bspec, OF assms(5),
        THEN bspec, OF assms(6), THEN mp, OF assms(2), THEN mp, OF assms(3)])

lemma consistent_subset:
  assumes c: "consistent cmp A" and sub: "B \<subseteq> A"
  shows "consistent cmp B"
proof (rule consistentI)
  show "sgn (cmp y x) = - sgn (cmp x y)" if "x \<in> B" "y \<in> B" for x y
    using consistent_opposite [OF c] that sub by blast
  show "cmp x z \<le> 0" if "x \<in> B" "y \<in> B" "z \<in> B" "cmp x y \<le> 0" "cmp y z \<le> 0" for x y z
    using consistent_trans [OF c that(4,5)] that sub by blast
qed

lemma consistent_flip:
  assumes "consistent cmp A" and "x \<in> A" and "y \<in> A" and "0 \<le> cmp x y"
  shows "cmp y x \<le> 0"
  using consistent_opposite [OF assms(1-3)] assms(4) by (auto simp: sgn_if split: if_splits)

locale array_sort =
  fixes sort :: "('a \<Rightarrow> 'a \<Rightarrow> int) \<Rightarrow> 'a list \<Rightarrow> 'a list"
  assumes keeps_elements: "mset (sort cmp xs) = mset xs"
    and in_order: "consistent cmp (set xs) \<Longrightarrow> sorted_wrt (\<lambda>x y. cmp x y \<le> 0) (sort cmp xs)"
    and stable: "consistent cmp (set xs) \<Longrightarrow> x \<in> set xs \<Longrightarrow>
      filter (\<lambda>y. cmp x y = 0) (sort cmp xs) = filter (\<lambda>y. cmp x y = 0) xs"
begin

lemma set_sort: "set (sort cmp xs) = set xs"
  by (metis keeps_elements set_mset_mset)

lemma length_sort: "length (sort cmp xs) = length xs"
  by (metis keeps_elements size_mset)

lemma blanks_last:
  \<comment> \<open>when the comparison puts the blank elements after the others, a sorted list ends with them\<close>
  assumes "consistent cmp (set xs)"
    and "\<And>x y. x \<in> set xs \<Longrightarrow> y \<in> set xs \<Longrightarrow> blank x \<Longrightarrow> \<not> blank y \<Longrightarrow> 0 < cmp x y"
  shows "\<exists>us vs. sort cmp xs = us @ vs \<and> list_all (\<lambda>x. \<not> blank x) us \<and> list_all blank vs"
proof (intro exI conjI)
  let ?ys = "sort cmp xs"
  show "?ys = takeWhile (\<lambda>x. \<not> blank x) ?ys @ dropWhile (\<lambda>x. \<not> blank x) ?ys" by simp
  show "list_all (\<lambda>x. \<not> blank x) (takeWhile (\<lambda>x. \<not> blank x) ?ys)"
    by (auto simp: list_all_iff dest: set_takeWhileD)
  show "list_all blank (dropWhile (\<lambda>x. \<not> blank x) ?ys)"
  proof (cases "dropWhile (\<lambda>x. \<not> blank x) ?ys")
    case (Cons y zs)
    have "blank y" using Cons by (metis hd_dropWhile list.distinct(1) list.sel(1))
    have mem: "set (y # zs) \<subseteq> set xs" using Cons set_sort by (metis set_dropWhileD subsetI)
    have "sorted_wrt (\<lambda>x y. cmp x y \<le> 0) (y # zs)"
      using in_order [OF assms(1)] Cons by (metis sorted_wrt_append takeWhile_dropWhile_id)
    then have "blank z" if "z \<in> set zs" for z
      using assms(2) [of y z] \<open>blank y\<close> mem that by fastforce
    with \<open>blank y\<close> show ?thesis by (simp add: Cons list_all_iff)
  qed (simp only: list.pred_inject)
qed

end

fun js_insert :: "('a \<Rightarrow> 'a \<Rightarrow> int) \<Rightarrow> 'a \<Rightarrow> 'a list \<Rightarrow> 'a list" where
  "js_insert cmp x [] = [x]"
| "js_insert cmp x (y # ys) = (if cmp x y \<le> 0 then x # y # ys else y # js_insert cmp x ys)"

definition js_sort :: "('a \<Rightarrow> 'a \<Rightarrow> int) \<Rightarrow> 'a list \<Rightarrow> 'a list" where
  \<comment> \<open>\<open>Array.prototype.sort\<close>; every stable sort gives this result when the comparison is consistent\<close>
  "js_sort cmp xs = foldr (js_insert cmp) xs []"

lemma mset_js_insert [simp]: "mset (js_insert cmp x ys) = add_mset x (mset ys)"
  by (induction ys) simp_all

lemma mset_js_sort [simp]: "mset (js_sort cmp xs) = mset xs"
  by (induction xs) (simp_all add: js_sort_def)

lemma set_js_insert [simp]: "set (js_insert cmp x ys) = insert x (set ys)"
  by (induction ys) auto

lemma js_insert_sorted:
  assumes "consistent cmp (insert x (set ys))" and "sorted_wrt (\<lambda>x y. cmp x y \<le> 0) ys"
  shows "sorted_wrt (\<lambda>x y. cmp x y \<le> 0) (js_insert cmp x ys)"
  using assms
proof (induction ys)
  case (Cons y ys)
  have c: "consistent cmp (insert x (set ys))" by (rule consistent_subset [OF Cons.prems(1)]) auto
  show ?case
  proof (cases "cmp x y \<le> 0")
    case True
    moreover from this have "cmp x z \<le> 0" if "z \<in> set ys" for z
      using consistent_trans [OF Cons.prems(1) True, of z] Cons.prems(2) that by simp
    ultimately show ?thesis using Cons.prems(2) by simp
  next
    case False
    have "cmp y x \<le> 0" using consistent_flip [OF Cons.prems(1), of x y] False by simp
    with Cons.IH [OF c] Cons.prems(2) False show ?thesis by simp
  qed
qed simp

lemma js_insert_filter:
  assumes "consistent cmp (insert z (insert x (set ys)))"
  shows "filter (\<lambda>y. cmp z y = 0) (js_insert cmp x ys) = filter (\<lambda>y. cmp z y = 0) (x # ys)"
  using assms
proof (induction ys)
  case (Cons y ys)
  have IH: "filter (\<lambda>y. cmp z y = 0) (js_insert cmp x ys) = filter (\<lambda>y. cmp z y = 0) (x # ys)"
    by (rule Cons.IH [OF consistent_subset [OF Cons.prems]]) auto
  show ?case
  proof (cases "cmp x y \<le> 0")
    case False
    have "\<not> (cmp z x = 0 \<and> cmp z y = 0)"
    proof
      assume a: "cmp z x = 0 \<and> cmp z y = 0"
      then have "cmp x z \<le> 0" using consistent_flip [OF Cons.prems, of z x] by simp
      from consistent_trans [OF Cons.prems this, of y] a False show False by simp
    qed
    with False IH show ?thesis by auto
  qed simp
qed simp

interpretation js: array_sort js_sort
proof
  fix cmp :: "'a \<Rightarrow> 'a \<Rightarrow> int" and xs x
  show "mset (js_sort cmp xs) = mset xs" by simp
  have set: "set (js_sort cmp zs) = set zs" for zs :: "'a list" by (metis mset_js_sort set_mset_mset)
  show "sorted_wrt (\<lambda>x y. cmp x y \<le> 0) (js_sort cmp xs)" if "consistent cmp (set xs)"
    using that
  proof (induction xs)
    case (Cons a xs)
    then have "consistent cmp (set xs)" using consistent_subset [OF Cons.prems, of "set xs"] by auto
    then show ?case using Cons js_insert_sorted [of cmp a "js_sort cmp xs"] set [of xs]
      by (simp add: js_sort_def)
  qed (simp add: js_sort_def)
  show "filter (\<lambda>y. cmp x y = 0) (js_sort cmp xs) = filter (\<lambda>y. cmp x y = 0) xs"
    if "consistent cmp (set xs)" "x \<in> set xs"
  proof -
    have "filter (\<lambda>y. cmp x y = 0) (js_sort cmp ys) = filter (\<lambda>y. cmp x y = 0) ys" if "set ys \<subseteq> set xs" for ys
      using that
    proof (induction ys)
      case (Cons a ys)
      have "consistent cmp (insert x (insert a (set (js_sort cmp ys))))"
        by (rule consistent_subset [OF \<open>consistent cmp (set xs)\<close>]) (use \<open>x \<in> set xs\<close> Cons.prems set [of ys] in auto)
      then show ?case using Cons js_insert_filter [of cmp x a "js_sort cmp ys"] by (simp add: js_sort_def)
    qed (simp add: js_sort_def)
    then show ?thesis by simp
  qed
qed

section \<open>The page\<close>

record cell =
  c_col :: "string option"  \<comment> \<open>\<open>data-col\<close>\<close>
  c_sort :: "string option"  \<comment> \<open>\<open>data-sort\<close>\<close>
  c_text :: string
  c_time :: "string option"  \<comment> \<open>\<open>datetime\<close> of a \<open>time\<close> element that is the content of the cell\<close>
  c_hidden :: bool

record bulk_box =
  checked :: bool
  b_tenant :: string
  b_device :: string

record row =
  filter_attr :: "string option"  \<comment> \<open>\<open>data-filter\<close>\<close>
  hidden :: bool
  box :: "bulk_box option"
  cells :: "cell list"

record head =
  h_col :: "string option"
  h_label :: "string option"  \<comment> \<open>\<open>data-label\<close>\<close>
  nosort :: bool
  h_text :: string
  h_button :: bool
  aria_sort :: "string option"
  h_hidden :: bool

record table =
  heads :: "head list"
  body :: "row list option"

record menu_item =
  toggle :: string  \<comment> \<open>\<open>data-col-toggle\<close>\<close>
  item_label :: string
  item_checked :: bool

datatype dir = Asc | Desc

datatype stored =
    Off "string list"  \<comment> \<open>an object with a truthy \<open>off\<close>\<close>
  | NoOff  \<comment> \<open>other JSON\<close>
  | NotJson
  | Empty  \<comment> \<open>the empty text\<close>

record storage =
  get_works :: bool
  set_works :: bool
  items :: "string \<Rightarrow> stored option"

record page =
  tables :: "(string \<times> table) list"
  menus :: "string \<Rightarrow> menu_item list option"
  filters :: "string \<Rightarrow> string option"
  counts :: "string \<Rightarrow> string option"
  tools_user :: "string \<Rightarrow> string option option"  \<comment> \<open>the tools element and its \<open>data-user\<close>\<close>
  selected :: string  \<comment> \<open>the text of \<open>bulk-count\<close>\<close>
  sortState :: "string \<Rightarrow> (string \<times> dir) option"
  memoryOff :: "string \<Rightarrow> string list option"
  local_storage :: storage

section \<open>Column choice\<close>

definition prefsKey :: "page \<Rightarrow> string \<Rightarrow> string" where
  "prefsKey p name =
     (let user = (case tools_user p name of Some (Some u) \<Rightarrow> u | _ \<Rightarrow> '''')
      in ''thesada.table.'' @ name @ ''.'' @ user)"

definition storedOff :: "page \<Rightarrow> string \<Rightarrow> string list option" where
  "storedOff p name =
     (case memoryOff p name of
        Some off \<Rightarrow> Some off
      | None \<Rightarrow>
          if \<not> get_works (local_storage p) then None
          else (case items (local_storage p) (prefsKey p name) of
                  None \<Rightarrow> None
                | Some Empty \<Rightarrow> None
                | Some NotJson \<Rightarrow> None
                | Some NoOff \<Rightarrow> Some []
                | Some (Off off) \<Rightarrow> Some off))"

definition saveOff :: "string \<Rightarrow> string list \<Rightarrow> page \<Rightarrow> page" where
  "saveOff name off p =
     (let p = p\<lparr>memoryOff := (memoryOff p)(name \<mapsto> off)\<rparr>;
          st = local_storage p
      in if set_works st
         then p\<lparr>local_storage := st\<lparr>items := (items st)(prefsKey p name \<mapsto> Off off)\<rparr>\<rparr>
         else p)"

definition tableOf :: "page \<Rightarrow> string \<Rightarrow> table option" where
  "tableOf p name = map_of (tables p) name"

fun set_first :: "string \<Rightarrow> 'a \<Rightarrow> (string \<times> 'a) list \<Rightarrow> (string \<times> 'a) list" where
  "set_first n t [] = []"
| "set_first n t ((m, u) # xs) = (if m = n then (m, t) # xs else (m, u) # set_first n t xs)"

definition hide_col :: "string list \<Rightarrow> string option \<Rightarrow> bool \<Rightarrow> bool" where
  \<comment> \<open>an element without \<open>data-col\<close> keeps its class\<close>
  "hide_col off c old = (case c of None \<Rightarrow> old | Some col \<Rightarrow> col \<in> set off)"

definition map_rows :: "(row \<Rightarrow> row) \<Rightarrow> table \<Rightarrow> table" where
  "map_rows f t = t\<lparr>body := map_option (map f) (body t)\<rparr>"

definition applyColumns :: "page \<Rightarrow> string \<Rightarrow> table \<Rightarrow> table" where
  "applyColumns p name t =
     (case storedOff p name of
        None \<Rightarrow> t
      | Some off \<Rightarrow>
          map_rows (\<lambda>r. r\<lparr>cells := map (\<lambda>c. c\<lparr>c_hidden := hide_col off (c_col c) (c_hidden c)\<rparr>) (cells r)\<rparr>)
            (t\<lparr>heads := map (\<lambda>h. h\<lparr>h_hidden := hide_col off (h_col h) (h_hidden h)\<rparr>) (heads t)\<rparr>))"

definition menu_entries :: "table \<Rightarrow> menu_item list" where
  "menu_entries t =
     concat (map (\<lambda>h. case h_col h of
         None \<Rightarrow> []
       | Some col \<Rightarrow>
           [\<lparr>toggle = col,
             item_label = (case h_label h of Some l \<Rightarrow> if l = '''' then col else l | None \<Rightarrow> col),
             item_checked = False\<rparr>]) (heads t))"

definition head_of :: "table \<Rightarrow> string \<Rightarrow> head option" where
  "head_of t col = find (\<lambda>h. h_col h = Some col) (heads t)"

definition syncMenu :: "table \<Rightarrow> menu_item list option \<Rightarrow> menu_item list option" where
  "syncMenu t menu =
     map_option (\<lambda>ms.
       let ms = (if ms = [] then menu_entries t else ms)
       in map (\<lambda>i. i\<lparr>item_checked :=
            \<not> (case head_of t (toggle i) of Some h \<Rightarrow> h_hidden h | None \<Rightarrow> False)\<rparr>) ms) menu"

section \<open>Filter and selection\<close>

definition uncheck :: "bulk_box option \<Rightarrow> bulk_box option" where
  "uncheck = map_option (\<lambda>b. b\<lparr>checked := False\<rparr>)"

definition is_checked :: "row \<Rightarrow> bool" where
  "is_checked r = (case box r of Some b \<Rightarrow> checked b | None \<Rightarrow> False)"

definition filter_out :: "string \<Rightarrow> row \<Rightarrow> bool" where
  \<comment> \<open>\<open>hide\<close>\<close>
  "filter_out q r =
     (case filter_attr r of
        None \<Rightarrow> False
      | Some a \<Rightarrow> length q > 0 \<and> \<not> js_includes q (toLowerCase a))"

definition filter_row :: "string \<Rightarrow> row \<Rightarrow> row" where
  "filter_row q r =
     (case filter_attr r of
        None \<Rightarrow> r
      | Some a \<Rightarrow>
          (let hide = filter_out q r;
               r = r\<lparr>hidden := hide\<rparr>
           in if hide \<and> is_checked r then r\<lparr>box := uncheck (box r)\<rparr> else r))"

definition all_rows :: "page \<Rightarrow> row list" where
  "all_rows p = concat (map (\<lambda>(n, t). case body t of Some rs \<Rightarrow> rs | None \<Rightarrow> []) (tables p))"

definition recount :: "page \<Rightarrow> page" where
  "recount p = p\<lparr>selected := show_nat (length (filter is_checked (all_rows p))) @ '' selected''\<rparr>"

definition table_rows :: "table \<Rightarrow> row list" where
  \<comment> \<open>\<open>tbody tr[data-filter]\<close>\<close>
  "table_rows t = (case body t of Some rs \<Rightarrow> filter (\<lambda>r. filter_attr r \<noteq> None) rs | None \<Rightarrow> [])"

definition filter_text :: "page \<Rightarrow> string \<Rightarrow> string" where
  "filter_text p name = (case filters p name of Some v \<Rightarrow> toLowerCase (trim v) | None \<Rightarrow> '''')"

definition set_table :: "string \<Rightarrow> table \<Rightarrow> page \<Rightarrow> page" where
  "set_table name t p = p\<lparr>tables := set_first name t (tables p)\<rparr>"

definition applyFilter :: "string \<Rightarrow> table \<Rightarrow> page \<Rightarrow> page" where
  \<comment> \<open>the box of a row that the filter hides is unchecked with a change event, on which the page
    counts the selection again\<close>
  "applyFilter name t p =
     (let q = filter_text p name;
          t' = map_rows (filter_row q) t;
          total = length (table_rows t);
          shown = length (filter (\<lambda>r. \<not> filter_out q r) (table_rows t));
          fired = list_ex (\<lambda>r. filter_out q r \<and> is_checked r) (table_rows t);
          p = set_table name t' p;
          p = (if fired then recount p else p)
      in case counts p name of
           None \<Rightarrow> p
         | Some c \<Rightarrow> p\<lparr>counts := (counts p)(name \<mapsto>
             (if q = '''' then '''' else show_nat shown @ '' of '' @ show_nat total))\<rparr>)"

section \<open>Sorting\<close>

definition cellKey :: "string \<Rightarrow> row \<Rightarrow> string" where
  "cellKey col r =
     (case find (\<lambda>c. c_col c = Some col) (cells r) of
        None \<Rightarrow> ''''
      | Some td \<Rightarrow> (case c_sort td of Some a \<Rightarrow> a | None \<Rightarrow> toLowerCase (trim (c_text td))))"

definition key_cmp :: "string \<Rightarrow> string \<Rightarrow> int" where
  "key_cmp av bv =
     (if is_integer av \<and> is_integer bv
      then (let an = key_Number av; bn = key_Number bv in if an < bn then -1 else if an > bn then 1 else 0)
      else (if str_less av bv then -1 else if str_less bv av then 1 else 0))"

definition compare_keys :: "dir \<Rightarrow> string \<Rightarrow> string \<Rightarrow> int" where
  "compare_keys d av bv =
     (if av = '''' \<and> bv = '''' then 0
      else if av = '''' then 1
      else if bv = '''' then -1
      else (if d = Desc then - key_cmp av bv else key_cmp av bv))"

definition sort_rows :: "string \<Rightarrow> dir \<Rightarrow> row list \<Rightarrow> row list" where
  \<comment> \<open>\<open>appendChild\<close> moves the sorted rows behind the rows without \<open>data-filter\<close>\<close>
  "sort_rows col d rs =
     filter (\<lambda>r. filter_attr r = None) rs @
     js_sort (\<lambda>a b. compare_keys d (cellKey col a) (cellKey col b)) (filter (\<lambda>r. filter_attr r \<noteq> None) rs)"

fun set_first_head :: "string \<Rightarrow> string \<Rightarrow> head list \<Rightarrow> head list" where
  "set_first_head col v [] = []"
| "set_first_head col v (h # hs) =
     (if h_col h = Some col then h\<lparr>aria_sort := Some v\<rparr> # hs else h # set_first_head col v hs)"

definition applySort :: "(string \<times> dir) option \<Rightarrow> table \<Rightarrow> table" where
  "applySort state t =
     (let t = t\<lparr>heads := map (\<lambda>h. if h_col h = None then h else h\<lparr>aria_sort := None\<rparr>) (heads t)\<rparr>
      in case state of
           None \<Rightarrow> t
         | Some (col, d) \<Rightarrow>
             (let t = t\<lparr>heads := set_first_head col (if d = Desc then ''descending'' else ''ascending'') (heads t)\<rparr>
              in t\<lparr>body := map_option (sort_rows col d) (body t)\<rparr>))"

definition localizeTimes :: "(string \<Rightarrow> string option) \<Rightarrow> table \<Rightarrow> table" where
  \<comment> \<open>\<open>loc\<close>: the local text of a valid date\<close>
  "localizeTimes loc t =
     map_rows (\<lambda>r. r\<lparr>cells := map (\<lambda>c.
       case c_time c of
         None \<Rightarrow> c
       | Some d \<Rightarrow> (case loc d of Some s \<Rightarrow> c\<lparr>c_text := s\<rparr> | None \<Rightarrow> c)) (cells r)\<rparr>) t"

definition ensureSortButtons :: "table \<Rightarrow> table" where
  "ensureSortButtons t =
     t\<lparr>heads := map (\<lambda>h.
        if h_col h = None \<or> nosort h \<or> h_button h then h
        else h\<lparr>h_button := True, h_text := trim (h_text h)\<rparr>) (heads t)\<rparr>"

section \<open>Events\<close>

definition update_table :: "(table \<Rightarrow> table) \<Rightarrow> string \<Rightarrow> page \<Rightarrow> page" where
  "update_table f name p = (case tableOf p name of None \<Rightarrow> p | Some t \<Rightarrow> set_table name (f t) p)"

definition apply_page :: "(string \<Rightarrow> string option) \<Rightarrow> string \<Rightarrow> page \<Rightarrow> page" where
  "apply_page loc name p =
     (case tableOf p name of
        None \<Rightarrow> p
      | Some t \<Rightarrow>
          (let t = applyColumns p name (ensureSortButtons t);
               p = p\<lparr>menus := (menus p)(name := syncMenu t (menus p name))\<rparr>;
               p = applyFilter name t p
           in update_table (localizeTimes loc \<circ> applySort (sortState p name)) name p))"

definition apply_all :: "(string \<Rightarrow> string option) \<Rightarrow> page \<Rightarrow> page" where
  \<comment> \<open>\<open>eachTable(apply)\<close>: at boot and on \<open>htmx:before:settle\<close>\<close>
  "apply_all loc p = fold (apply_page loc) (map fst (tables p)) p"

definition click :: "(string \<Rightarrow> string option) \<Rightarrow> string \<Rightarrow> head \<Rightarrow> page \<Rightarrow> page" where
  \<comment> \<open>a click in the header \<open>h\<close> of the table \<open>name\<close>\<close>
  "click loc name h p =
     (case h_col h of
        None \<Rightarrow> p
      | Some col \<Rightarrow>
          if nosort h then p
          else (let d = (if sortState p name = Some (col, Asc) then Desc else Asc)
                in apply_page loc name (p\<lparr>sortState := (sortState p)(name \<mapsto> (col, d))\<rparr>)))"

definition type_filter :: "(string \<Rightarrow> string option) \<Rightarrow> string \<Rightarrow> string \<Rightarrow> page \<Rightarrow> page" where
  \<comment> \<open>the user edits a filter box; the input event follows\<close>
  "type_filter loc name v p =
     (case filters p name of
        None \<Rightarrow> p
      | Some old \<Rightarrow> (let p = p\<lparr>filters := (filters p)(name \<mapsto> v)\<rparr> in if name = '''' then p else apply_page loc name p))"

definition toggle_column :: "(string \<Rightarrow> string option) \<Rightarrow> string \<Rightarrow> string \<Rightarrow> bool \<Rightarrow> page \<Rightarrow> page" where
  \<comment> \<open>the user checks or unchecks the boxes of a column in the menu \<open>name\<close>; the change event follows\<close>
  "toggle_column loc name col on p =
     (case menus p name of
        None \<Rightarrow> p
      | Some ms \<Rightarrow>
          (let ms = map (\<lambda>i. if toggle i = col then i\<lparr>item_checked := on\<rparr> else i) ms;
               p = p\<lparr>menus := (menus p)(name \<mapsto> ms)\<rparr>
           in if col = '''' then p
              else (case tableOf p name of
                      None \<Rightarrow> p
                    | Some t \<Rightarrow>
                        apply_page loc name
                          (saveOff name (map toggle (filter (\<lambda>i. \<not> item_checked i) ms)) p))))"

definition map_all_rows :: "(row \<Rightarrow> row) \<Rightarrow> page \<Rightarrow> page" where
  "map_all_rows f p = p\<lparr>tables := map (\<lambda>(n, t). (n, map_rows f t)) (tables p)\<rparr>"

definition check_all :: "bool \<Rightarrow> page \<Rightarrow> page" where
  \<comment> \<open>the select-all box of the bulk form\<close>
  "check_all on p =
     recount (map_all_rows (\<lambda>r. if hidden r then r
       else r\<lparr>box := map_option (\<lambda>b. b\<lparr>checked := on\<rparr>) (box r)\<rparr>) p)"

end
