(* ===== verification/Devices_Props.thy ===== *)
theory Devices_Props
  imports Devices_Table
begin

text \<open>
  Properties of the device tables: the bulk selection never reaches a row that the filter
  hides, sorting keeps the rows and orders them, the column choice is kept and shown.
\<close>

section \<open>Selection\<close>

definition row_ok :: "row \<Rightarrow> bool" where
  "row_ok r \<longleftrightarrow> (is_checked r \<longrightarrow> \<not> hidden r)"

definition table_ok :: "table \<Rightarrow> bool" where
  "table_ok t \<longleftrightarrow> (case body t of None \<Rightarrow> True | Some rs \<Rightarrow> list_all row_ok rs)"

definition visible_selection :: "page \<Rightarrow> bool" where
  "visible_selection p \<longleftrightarrow> list_all (\<lambda>(n, t). table_ok t) (tables p)"

lemma row_ok_cells [simp]: "row_ok (r\<lparr>cells := cs\<rparr>) = row_ok r"
  by (simp add: row_ok_def is_checked_def)

lemma filter_row_ok: "row_ok r \<Longrightarrow> row_ok (filter_row q r)"
  by (auto simp: row_ok_def filter_row_def is_checked_def uncheck_def Let_def split: option.splits)

lemma map_rows_ok: "(\<And>r. row_ok r \<Longrightarrow> row_ok (f r)) \<Longrightarrow> table_ok t \<Longrightarrow> table_ok (map_rows f t)"
  by (auto simp: table_ok_def map_rows_def list_all_iff split: option.splits)

lemma set_sort_rows [simp]: "set (sort_rows col d rs) = set rs"
  by (auto simp: sort_rows_def js.set_sort)

lemma table_ok_steps:
  assumes "table_ok t"
  shows "table_ok (ensureSortButtons t)" "table_ok (applyColumns p name t)"
    "table_ok (map_rows (filter_row q) t)" "table_ok (applySort st t)" "table_ok (localizeTimes loc t)"
proof -
  show "table_ok (ensureSortButtons t)" using assms by (simp add: table_ok_def ensureSortButtons_def)
  have h: "table_ok (t\<lparr>heads := hs\<rparr>)" for hs using assms by (simp add: table_ok_def)
  show "table_ok (applyColumns p name t)"
    using assms h by (auto simp: applyColumns_def intro: map_rows_ok split: option.split)
  show "table_ok (map_rows (filter_row q) t)" using assms by (intro map_rows_ok filter_row_ok)
  show "table_ok (localizeTimes loc t)" using assms unfolding localizeTimes_def by (intro map_rows_ok) simp_all
  show "table_ok (applySort st t)"
    using assms by (auto simp: applySort_def table_ok_def Let_def list_all_iff split: option.splits)
qed

lemma set_first_subset: "set (set_first n t xs) \<subseteq> insert (n, t) (set xs)"
  by (induction n t xs rule: set_first.induct) auto

lemma set_table_ok: "visible_selection p \<Longrightarrow> table_ok t \<Longrightarrow> visible_selection (set_table n t p)"
  using set_first_subset [of n t "tables p"]
  by (auto simp: visible_selection_def set_table_def list_all_iff)

lemma tableOf_ok: "visible_selection p \<Longrightarrow> tableOf p name = Some t \<Longrightarrow> table_ok t"
  by (auto simp: visible_selection_def tableOf_def list_all_iff dest: map_of_SomeD)

lemma visible_selection_frame [simp]:
  "visible_selection (p\<lparr>menus := x\<rparr>) = visible_selection p"
  "visible_selection (p\<lparr>counts := y\<rparr>) = visible_selection p"
  "visible_selection (p\<lparr>selected := z\<rparr>) = visible_selection p"
  "visible_selection (p\<lparr>filters := w\<rparr>) = visible_selection p"
  "visible_selection (p\<lparr>sortState := v\<rparr>) = visible_selection p"
  "visible_selection (p\<lparr>memoryOff := u\<rparr>) = visible_selection p"
  "visible_selection (p\<lparr>local_storage := l\<rparr>) = visible_selection p"
  by (simp_all add: visible_selection_def)

lemma applyFilter_ok:
  "visible_selection p \<Longrightarrow> table_ok t \<Longrightarrow> visible_selection (applyFilter name t p)"
  by (auto simp: applyFilter_def recount_def Let_def set_table_ok table_ok_steps split: option.split)

lemma update_table_ok:
  "visible_selection p \<Longrightarrow> (\<And>t. table_ok t \<Longrightarrow> table_ok (f t)) \<Longrightarrow> visible_selection (update_table f name p)"
  by (auto simp: update_table_def set_table_ok tableOf_ok split: option.split)

lemma apply_page_ok: "visible_selection p \<Longrightarrow> visible_selection (apply_page loc name p)"
  by (auto simp: apply_page_def Let_def table_ok_steps tableOf_ok
      intro!: update_table_ok applyFilter_ok split: option.split)

lemma apply_all_ok: "visible_selection p \<Longrightarrow> visible_selection (apply_all loc p)"
  unfolding apply_all_def by (rule fold_invariant_list) (auto intro: apply_page_ok)

lemma saveOff_ok: "visible_selection p \<Longrightarrow> visible_selection (saveOff name off p)"
  by (simp add: saveOff_def Let_def)

section \<open>The page as a state machine\<close>

definition check_row :: "string \<Rightarrow> nat \<Rightarrow> bool \<Rightarrow> page \<Rightarrow> page" where
  \<comment> \<open>the user toggles the box of a row: only a row on the screen can be reached\<close>
  "check_row name i on p =
     (case tableOf p name of
        None \<Rightarrow> p
      | Some t \<Rightarrow>
          (case body t of
             None \<Rightarrow> p
           | Some rs \<Rightarrow>
               if i < length rs \<and> \<not> hidden (rs ! i)
               then recount (set_table name (t\<lparr>body := Some (rs[i := (rs ! i)\<lparr>box :=
                      map_option (\<lambda>b. b\<lparr>checked := on\<rparr>) (box (rs ! i))\<rparr>])\<rparr>) p)
               else p))"

definition fresh :: "table \<Rightarrow> bool" where
  \<comment> \<open>as the server renders it: no row is hidden\<close>
  "fresh t \<longleftrightarrow> (case body t of None \<Rightarrow> True | Some rs \<Rightarrow> list_all (\<lambda>r. \<not> hidden r) rs)"

inductive page_step :: "(string \<Rightarrow> string option) \<Rightarrow> page \<Rightarrow> page \<Rightarrow> bool" for loc where
  click: "tableOf p name = Some t \<Longrightarrow> h \<in> set (heads t) \<Longrightarrow> page_step loc p (click loc name h p)"
| type: "page_step loc p (type_filter loc name v p)"
| column: "page_step loc p (toggle_column loc name col on p)"
| check: "page_step loc p (check_row name i on p)"
| all: "page_step loc p (check_all on p)"
| swap: "fresh t \<Longrightarrow> page_step loc p (apply_all loc (set_table name t p))"
    \<comment> \<open>htmx replaces a table; the settle handler follows\<close>

inductive page_reachable :: "(string \<Rightarrow> string option) \<Rightarrow> page \<Rightarrow> bool" for loc where
  boot: "list_all (\<lambda>(n, t). fresh t) (tables p) \<Longrightarrow> page_reachable loc (apply_all loc p)"
| step: "page_reachable loc p \<Longrightarrow> page_step loc p p' \<Longrightarrow> page_reachable loc p'"

lemma fresh_ok: "fresh t \<Longrightarrow> table_ok t"
  by (auto simp: fresh_def table_ok_def row_ok_def list_all_iff split: option.splits)

lemma check_row_ok: "visible_selection p \<Longrightarrow> visible_selection (check_row name i on p)"
proof -
  assume v: "visible_selection p"
  show ?thesis
  proof (cases "\<exists>t rs. tableOf p name = Some t \<and> body t = Some rs \<and> i < length rs \<and> \<not> hidden (rs ! i)")
    case True
    then obtain t rs where t: "tableOf p name = Some t" "body t = Some rs" "i < length rs" "\<not> hidden (rs ! i)"
      by blast
    let ?r = "(rs ! i)\<lparr>box := map_option (\<lambda>b. b\<lparr>checked := on\<rparr>) (box (rs ! i))\<rparr>"
    have "list_all row_ok rs" using tableOf_ok [OF v t(1)] t(2) by (simp add: table_ok_def)
    moreover have "row_ok ?r" using t(4) by (simp add: row_ok_def)
    ultimately have "list_all row_ok (rs[i := ?r])"
      using set_update_subset_insert [of rs i ?r] by (auto simp: list_all_iff)
    then have "table_ok (t\<lparr>body := Some (rs[i := ?r])\<rparr>)" by (simp add: table_ok_def)
    with v t show ?thesis by (simp add: check_row_def recount_def set_table_ok)
  qed (use v in \<open>auto simp: check_row_def split: option.splits\<close>)
qed

lemma check_all_ok: "visible_selection p \<Longrightarrow> visible_selection (check_all on p)"
proof -
  assume v: "visible_selection p"
  have "row_ok (if hidden r then r else r\<lparr>box := map_option (\<lambda>b. b\<lparr>checked := on\<rparr>) (box r)\<rparr>)"
    if "row_ok r" for r using that by (auto simp: row_ok_def)
  with v show ?thesis
    by (fastforce simp: check_all_def recount_def map_all_rows_def visible_selection_def list_all_iff
        intro: map_rows_ok)
qed

lemma page_step_ok: "page_step loc p p' \<Longrightarrow> visible_selection p \<Longrightarrow> visible_selection p'"
proof (induction rule: page_step.induct)
  case (click p name t h)
  then show ?case by (simp add: click_def Let_def apply_page_ok split: option.split)
next
  case (type p name v)
  then show ?case by (simp add: type_filter_def Let_def apply_page_ok split: option.split)
next
  case (column p name col on)
  then show ?case by (simp add: toggle_column_def Let_def apply_page_ok saveOff_ok split: option.split)
next
  case (check p name i on)
  then show ?case by (rule check_row_ok)
next
  case (all p on)
  then show ?case by (rule check_all_ok)
next
  case (swap t p name)
  then show ?case by (intro apply_all_ok set_table_ok fresh_ok)
qed

lemma reachable_ok: "page_reachable loc p \<Longrightarrow> visible_selection p"
proof (induction rule: page_reachable.induct)
  case (boot p)
  then have "visible_selection p" using fresh_ok by (auto simp: visible_selection_def list_all_iff)
  then show ?case by (rule apply_all_ok)
qed (rule page_step_ok)

definition submitted :: "page \<Rightarrow> row list" where
  \<comment> \<open>the rows that the bulk form acts on: \<open>input.bulk-row:checked\<close>\<close>
  "submitted p = filter is_checked (all_rows p)"

text \<open>
  C18. A bulk action never reaches a row that is not on the screen: in every state of the page,
  after any sequence of filtering, sorting, column changes, table refreshes, ticking single rows and
  select-all, every row that the form would submit is visible.
\<close>

theorem bulk_acts_on_visible_rows:
  assumes "page_reachable loc p" and "r \<in> set (submitted p)"
  shows "\<not> hidden r"
proof -
  from assms(2) obtain n t rs where "(n, t) \<in> set (tables p)" "body t = Some rs" "r \<in> set rs" "is_checked r"
    by (auto simp: submitted_def all_rows_def split: option.splits) metis
  with reachable_ok [OF assms(1)] show ?thesis
    by (auto simp: visible_selection_def table_ok_def row_ok_def list_all_iff)
qed

definition sample_row :: "string \<Rightarrow> string \<Rightarrow> row" where
  "sample_row dev up = \<lparr>filter_attr = Some dev, hidden = False,
     box = Some \<lparr>checked = False, b_tenant = ''t'', b_device = dev\<rparr>,
     cells = [\<lparr>c_col = Some ''uptime'', c_sort = Some up, c_text = up, c_time = None, c_hidden = False\<rparr>]\<rparr>"

definition sample_head :: head where
  "sample_head = \<lparr>h_col = Some ''uptime'', h_label = Some ''Uptime'', nosort = False, h_text = ''Uptime'',
     h_button = False, aria_sort = None, h_hidden = False\<rparr>"

definition sample_page :: page where
  "sample_page = \<lparr>tables = [(''devices'', \<lparr>heads = [sample_head],
       body = Some [sample_row ''pump'' ''9'', sample_row ''tank'' ''10'']\<rparr>)],
     menus = (\<lambda>n. Some []), filters = (\<lambda>n. Some ''''), counts = (\<lambda>n. Some ''''), tools_user = (\<lambda>n. None),
     selected = '''', sortState = (\<lambda>n. None), memoryOff = (\<lambda>n. None),
     local_storage = \<lparr>get_works = False, set_works = False, items = Map.empty\<rparr>\<rparr>"

definition filtered_page :: page where
  "filtered_page = type_filter (\<lambda>d. None) ''devices'' ''PUMP '' (check_all True (apply_all (\<lambda>d. None) sample_page))"

lemma filtered_page_reachable: "page_reachable (\<lambda>d. None) filtered_page"
  unfolding filtered_page_def
  by (rule page_reachable.step [OF page_reachable.step [OF page_reachable.boot page_step.all] page_step.type])
    (simp add: sample_page_def fresh_def sample_row_def)

lemma filtered_page_rows:
  "map (\<lambda>r. (filter_attr r, hidden r, is_checked r)) (all_rows filtered_page) =
   [(Some ''pump'', False, True), (Some ''tank'', True, False)]"
  by code_simp

theorem bulk_acts_on_visible_rows_witness:
  "map filter_attr (submitted filtered_page) = [Some ''pump''] \<and>
   list_all (\<lambda>r. \<not> hidden r) (submitted filtered_page)"
proof
  show "map filter_attr (submitted filtered_page) = [Some ''pump'']" by code_simp
  show "list_all (\<lambda>r. \<not> hidden r) (submitted filtered_page)"
    using bulk_acts_on_visible_rows [OF filtered_page_reachable] by (simp add: list_all_iff)
qed

section \<open>Sorting\<close>

definition sorted_part :: "row list \<Rightarrow> row list" where
  "sorted_part rs = filter (\<lambda>r. filter_attr r \<noteq> None) rs"

lemma sorted_part_sort:
  "sorted_part (sort_rows col d rs) =
   js_sort (\<lambda>a b. compare_keys d (cellKey col a) (cellKey col b)) (sorted_part rs)"
proof -
  let ?ys = "js_sort (\<lambda>a b. compare_keys d (cellKey col a) (cellKey col b)) (filter (\<lambda>r. filter_attr r \<noteq> None) rs)"
  have "filter (\<lambda>r. filter_attr r \<noteq> None) ?ys = ?ys"
    by (rule filter_True) (auto simp: js.set_sort)
  moreover have "filter (\<lambda>r. filter_attr r \<noteq> None) (filter (\<lambda>r. filter_attr r = None) rs) = []"
    by (rule filter_False) auto
  ultimately show ?thesis unfolding sorted_part_def sort_rows_def filter_append by (simp only: append_Nil)
qed

text \<open>
  Sorting loses and duplicates no row, whatever is in the cells and even where the comparison is not
  consistent: \<open>applySort\<close> rearranges the rows of the body, and the rows that are not part of the
  data come first, in their old order.
\<close>

theorem applySort_keeps_rows:
  "map_option mset (body (applySort st t)) = map_option mset (body t) \<and>
   map_option (filter (\<lambda>r. filter_attr r = None)) (body (applySort st t)) =
     map_option (filter (\<lambda>r. filter_attr r = None)) (body t)"
proof -
  have "mset (sort_rows col d rs) = mset rs" for col d rs
    by (simp add: sort_rows_def)
  moreover have "filter (\<lambda>r. filter_attr r = None) (sort_rows col d rs) = filter (\<lambda>r. filter_attr r = None) rs"
    for col d rs
    by (auto simp: sort_rows_def js.set_sort intro!: filter_False)
  ultimately show ?thesis
    by (cases "body t"; cases st) (auto simp: applySort_def Let_def)
qed

text \<open>Rounding to doubles keeps the order, and is exact up to \<open>2^53\<close>.\<close>

lemma excess_bits_bounds:
  "n < 2 ^ (53 + excess_bits n)" "0 < excess_bits n \<Longrightarrow> 2 ^ (52 + excess_bits n) \<le> n"
proof (induction n rule: excess_bits.induct)
  case (1 n)
  {
    case 1
    show ?case
    proof (cases "n < 9007199254740992")
      case False
      then have "n div 2 < 2 ^ (53 + excess_bits (n div 2))" by (rule "1.IH"(1))
      then have "n < 2 * 2 ^ (53 + excess_bits (n div 2))" by linarith
      moreover have "excess_bits n = Suc (excess_bits (n div 2))" using False by (subst excess_bits.simps) simp
      ultimately show ?thesis by (simp only: add_Suc_right power_Suc)
    qed (simp add: excess_bits.simps [of n])
  next
    case 2
    show ?case
    proof (cases "n < 9007199254740992")
      case False
      have "2 ^ (52 + excess_bits (n div 2)) \<le> n div 2"
        using False "1.IH"(2) by (cases "excess_bits (n div 2) = 0") auto
      then have "2 * 2 ^ (52 + excess_bits (n div 2)) \<le> n" by linarith
      moreover have "excess_bits n = Suc (excess_bits (n div 2))" using False by (subst excess_bits.simps) simp
      ultimately show ?thesis by (simp only: add_Suc_right power_Suc)
    qed (use 2 in \<open>simp add: excess_bits.simps [of n]\<close>)
  }
qed

lemma excess_bits_mono: "m \<le> n \<Longrightarrow> excess_bits m \<le> excess_bits n"
proof (rule ccontr)
  assume "m \<le> n" and "\<not> excess_bits m \<le> excess_bits n"
  then have "n < 2 ^ (53 + excess_bits n)" "2 ^ (52 + excess_bits m) \<le> m" "53 + excess_bits n \<le> 52 + excess_bits m"
    using excess_bits_bounds by auto
  moreover from this(3) have "(2 :: int) ^ (53 + excess_bits n) \<le> 2 ^ (52 + excess_bits m)"
    by (rule power_increasing) simp
  ultimately show False using \<open>m \<le> n\<close> by linarith
qed

lemma excess_bits_small: "excess_bits n = 0 \<longleftrightarrow> n < 9007199254740992"
  by (simp add: excess_bits.simps [of n])

lemma round_double_small: "n < 9007199254740992 \<Longrightarrow> round_double n = n"
  by (simp add: round_double_def excess_bits_small [THEN iffD2] Let_def)

lemma round_double_between:
  "n div 2 ^ excess_bits n * 2 ^ excess_bits n \<le> round_double n"
  "round_double n \<le> (n div 2 ^ excess_bits n + 1) * 2 ^ excess_bits n"
  by (simp_all add: round_double_def Let_def)

lemma round_double_bounds:
  "round_double n \<le> 2 ^ (53 + excess_bits n)" "0 < excess_bits n \<Longrightarrow> 2 ^ (52 + excess_bits n) \<le> round_double n"
proof -
  let ?e = "excess_bits n"
  have "n < 2 ^ 53 * 2 ^ ?e" using excess_bits_bounds(1) [of n] by (simp only: power_add)
  moreover have "n div 2 ^ ?e * 2 ^ ?e + n mod 2 ^ ?e = n" "0 \<le> n mod 2 ^ ?e"
    by (rule div_mult_mod_eq) simp
  ultimately have "n div 2 ^ ?e * 2 ^ ?e < 2 ^ 53 * 2 ^ ?e" by linarith
  then have "n div 2 ^ ?e + 1 \<le> 2 ^ 53" by (simp add: mult_less_cancel_right)
  then have "(n div 2 ^ ?e + 1) * 2 ^ ?e \<le> 2 ^ 53 * 2 ^ ?e" by (rule mult_right_mono) simp
  with round_double_between(2) [of n] show "round_double n \<le> 2 ^ (53 + ?e)"
    unfolding power_add by linarith
  assume "0 < ?e"
  then have "2 ^ 52 * 2 ^ ?e \<le> n" using excess_bits_bounds(2) [of n] by (simp only: power_add)
  then have "2 ^ 52 \<le> n div 2 ^ ?e" using zdiv_mono1 [of "2 ^ 52 * 2 ^ ?e" n "2 ^ ?e"] by simp
  then have "2 ^ 52 * 2 ^ ?e \<le> n div 2 ^ ?e * 2 ^ ?e" by (rule mult_right_mono) simp
  with round_double_between(1) [of n] show "2 ^ (52 + ?e) \<le> round_double n"
    unfolding power_add by linarith
qed

lemma round_double_mono:
  assumes "m \<le> n"
  shows "round_double m \<le> round_double n"
proof (cases "excess_bits m = excess_bits n")
  case True
  let ?e = "excess_bits n"
  have "m div 2 ^ ?e \<le> n div 2 ^ ?e" using assms by (rule zdiv_mono1) simp
  then consider "m div 2 ^ ?e + 1 \<le> n div 2 ^ ?e" | "m div 2 ^ ?e = n div 2 ^ ?e" by linarith
  then show ?thesis
  proof cases
    case 1
    then have "(m div 2 ^ ?e + 1) * 2 ^ ?e \<le> n div 2 ^ ?e * 2 ^ ?e" by (rule mult_right_mono) simp
    moreover have "round_double m \<le> (m div 2 ^ ?e + 1) * 2 ^ ?e"
      using round_double_between(2) [of m] unfolding True .
    ultimately show ?thesis using round_double_between(1) [of n] by linarith
  next
    case 2
    then have "m mod 2 ^ ?e \<le> n mod 2 ^ ?e"
      using assms by (metis add_le_cancel_left div_mult_mod_eq)
    with 2 True show ?thesis by (auto simp: round_double_def Let_def)
  qed
next
  case False
  then have lt: "excess_bits m < excess_bits n" using excess_bits_mono [OF assms] by simp
  then have "(2 :: int) ^ (53 + excess_bits m) \<le> 2 ^ (52 + excess_bits n)" by (intro power_increasing) auto
  with round_double_bounds(1) [of m] round_double_bounds(2) [of n] lt show ?thesis by linarith
qed

lemma magnitude_mono: "m \<le> n \<Longrightarrow> magnitude m \<le> magnitude n"
proof -
  assume "m \<le> n"
  then have v: "round_double m \<le> round_double n" by (rule round_double_mono)
  have "round_double m \<le> 2 ^ 1024" if "excess_bits (round_double m) \<le> 971"
  proof -
    have "round_double m < 2 ^ (53 + excess_bits (round_double m))" by (rule excess_bits_bounds)
    also have "(2 :: int) ^ (53 + excess_bits (round_double m)) \<le> 2 ^ 1024"
      using that by (intro power_increasing) auto
    finally show ?thesis by (rule less_imp_le)
  qed
  moreover have "excess_bits (round_double m) \<le> excess_bits (round_double n)" by (rule excess_bits_mono [OF v])
  ultimately show ?thesis using v by (simp add: magnitude_def Let_def del: power_numeral)
qed

lemma magnitude_small: "n < 9007199254740992 \<Longrightarrow> magnitude n = n"
  by (simp add: magnitude_def round_double_small excess_bits_small [THEN iffD2])

lemma magnitude_big: "9007199254740992 \<le> n \<Longrightarrow> 9007199254740992 \<le> magnitude n"
proof -
  assume "9007199254740992 \<le> n"
  then have "magnitude 9007199254740992 \<le> magnitude n" by (rule magnitude_mono)
  moreover have e: "excess_bits 9007199254740992 = 1"
    by (simp add: excess_bits.simps [of 9007199254740992] excess_bits_small)
  then have "round_double 9007199254740992 = 9007199254740992" by (simp add: round_double_def)
  then have "magnitude 9007199254740992 = 9007199254740992" using e by (simp add: magnitude_def)
  ultimately show ?thesis by simp
qed

lemma magnitude_nonneg: "0 \<le> n \<Longrightarrow> 0 \<le> magnitude n"
  using magnitude_mono [of 0 n] magnitude_small [of 0] by simp

lemma double_of_mono: "x \<le> y \<Longrightarrow> double_of x \<le> double_of y"
  using magnitude_mono [of "\<bar>x\<bar>" "\<bar>y\<bar>"] magnitude_mono [of "\<bar>y\<bar>" "\<bar>x\<bar>"]
    magnitude_nonneg [of "\<bar>x\<bar>"] magnitude_nonneg [of "\<bar>y\<bar>"]
  by (auto simp: double_of_def sgn_if)

lemma double_of_exact: "\<bar>x\<bar> < 9007199254740992 \<Longrightarrow> double_of x = x"
  by (simp add: double_of_def magnitude_small sgn_mult_abs)

lemma double_of_big: "9007199254740992 \<le> \<bar>x\<bar> \<Longrightarrow> 9007199254740992 \<le> \<bar>double_of x\<bar>"
  using magnitude_big [of "\<bar>x\<bar>"] by (auto simp: double_of_def sgn_if)

lemma double_of_le_imp:
  assumes "double_of x \<le> double_of y"
  shows "x \<le> y \<or> double_of x = double_of y \<and> 2 ^ 53 \<le> \<bar>x\<bar> \<and> 2 ^ 53 \<le> \<bar>y\<bar>"
proof (cases "x \<le> y")
  case False
  then have eq: "double_of x = double_of y" using assms double_of_mono [of y x] by simp
  have "\<bar>x\<bar> < 9007199254740992 \<longleftrightarrow> \<bar>y\<bar> < 9007199254740992"
    using eq double_of_exact [of x] double_of_exact [of y] double_of_big [of x] double_of_big [of y] by linarith
  with False eq double_of_exact [of x] double_of_exact [of y] show ?thesis by auto
qed simp

definition numeric_column :: "string set \<Rightarrow> bool" where
  "numeric_column K \<longleftrightarrow> (\<forall>k \<in> K. k = '''' \<or> is_integer k)"

definition text_column :: "string set \<Rightarrow> bool" where
  "text_column K \<longleftrightarrow> (\<forall>k \<in> K. \<not> is_integer k)"

lemma not_is_integer_Nil [simp]: "\<not> is_integer ''''"
  by (simp add: is_integer_def)

lemma compare_keys_blank [simp]:
  "compare_keys d '''' '''' = 0" "b \<noteq> '''' \<Longrightarrow> compare_keys d '''' b = 1" "a \<noteq> '''' \<Longrightarrow> compare_keys d a '''' = -1"
  by (simp_all add: compare_keys_def)

lemma numeric_compare:
  assumes "is_integer a" and "is_integer b"
  shows "compare_keys d a b =
    (if d = Desc then sgn (key_Number b - key_Number a) else sgn (key_Number a - key_Number b))"
  using assms by (auto simp: compare_keys_def key_cmp_def Let_def)

lemma numeric_consistent:
  assumes "numeric_column K"
  shows "consistent (compare_keys d) K"
proof (rule consistentI)
  have K: "k = '''' \<or> is_integer k" if "k \<in> K" for k using assms that by (simp add: numeric_column_def)
  have ne: "is_integer k \<Longrightarrow> k \<noteq> ''''" for k by auto
  show "sgn (compare_keys d b a) = - sgn (compare_keys d a b)" if "a \<in> K" "b \<in> K" for a b
    using K [OF that(1)] K [OF that(2)] by (elim disjE) (simp_all add: ne numeric_compare sgn_if)
  have le: "compare_keys d a b \<le> 0 \<longleftrightarrow> b = '''' \<or> (a \<noteq> '''' \<and>
      (if d = Desc then key_Number b \<le> key_Number a else key_Number a \<le> key_Number b))"
    if "a \<in> K" "b \<in> K" for a b
    using K [OF that(1)] K [OF that(2)] by (elim disjE) (simp_all add: ne numeric_compare sgn_if)
  show "compare_keys d a c \<le> 0"
    if "a \<in> K" "b \<in> K" "c \<in> K" "compare_keys d a b \<le> 0" "compare_keys d b c \<le> 0" for a b c
    using that(4,5) unfolding le [OF that(1,2)] le [OF that(2,3)] le [OF that(1,3)]
    by (auto split: if_splits)
qed

lemma text_consistent:
  assumes "text_column K"
  shows "consistent (compare_keys d) K"
proof -
  have opp: "sgn (compare_keys d b a) = - sgn (compare_keys d a b)" if "a \<in> K" "b \<in> K" for a b
    using assms that str_less_trans [of a b a] by (auto simp: text_column_def compare_keys_def key_cmp_def Let_def)
  have le: "compare_keys d a b \<le> 0 \<longleftrightarrow>
      b = '''' \<or> (a \<noteq> '''' \<and> (if d = Desc then \<not> str_less a b else \<not> str_less b a))" if "a \<in> K" "b \<in> K" for a b
    using assms that str_less_trans [of a b a] by (auto simp: text_column_def compare_keys_def key_cmp_def Let_def)
  have tr: "\<not> str_less b a \<Longrightarrow> \<not> str_less c b \<Longrightarrow> \<not> str_less c a" for a b c
    using str_less_total str_less_trans by metis
  have "compare_keys d a c \<le> 0"
    if "a \<in> K" "b \<in> K" "c \<in> K" "compare_keys d a b \<le> 0" "compare_keys d b c \<le> 0" for a b c
    using that(4,5) le [OF that(1,2)] le [OF that(2,3)] le [OF that(1,3)] tr [of b a c] tr [of b c a]
    by (auto split: if_splits)
  with opp show ?thesis by (rule consistentI)
qed

lemma consistent_image:
  assumes "consistent cmp (f ` A)"
  shows "consistent (\<lambda>a b. cmp (f a) (f b)) A"
  by (rule consistentI) (use consistent_opposite [OF assms] consistent_trans [OF assms] in blast)+

lemma sort_rows_order:
  assumes K: "consistent (compare_keys d) (cellKey col ` set (sorted_part rs))"
  shows "sorted_wrt (\<lambda>a b. compare_keys d (cellKey col a) (cellKey col b) \<le> 0) (sorted_part (sort_rows col d rs))"
    and "\<exists>us vs. sorted_part (sort_rows col d rs) = us @ vs \<and>
      list_all (\<lambda>r. cellKey col r \<noteq> '''') us \<and> list_all (\<lambda>r. cellKey col r = '''') vs"
    and "filter (\<lambda>r. cellKey col r = k) (sorted_part (sort_rows col d rs)) =
      filter (\<lambda>r. cellKey col r = k) (sorted_part rs)"
proof -
  let ?cmp = "\<lambda>a b. compare_keys d (cellKey col a) (cellKey col b)"
  note c = consistent_image [OF K]
  show "sorted_wrt (\<lambda>a b. ?cmp a b \<le> 0) (sorted_part (sort_rows col d rs))"
    unfolding sorted_part_sort by (rule js.in_order [OF c])
  show "\<exists>us vs. sorted_part (sort_rows col d rs) = us @ vs \<and>
      list_all (\<lambda>r. cellKey col r \<noteq> '''') us \<and> list_all (\<lambda>r. cellKey col r = '''') vs"
    unfolding sorted_part_sort by (rule js.blanks_last [OF c]) simp
  have eq: "filter (\<lambda>r. cellKey col r = k) (filter (\<lambda>r. ?cmp x r = 0) ys) = filter (\<lambda>r. cellKey col r = k) ys"
    if "cellKey col x = k" for x ys
  proof -
    have "compare_keys d k k = 0" by (simp add: compare_keys_def key_cmp_def Let_def)
    with that show ?thesis unfolding filter_filter by (intro filter_cong) auto
  qed
  show "filter (\<lambda>r. cellKey col r = k) (sorted_part (sort_rows col d rs)) =
      filter (\<lambda>r. cellKey col r = k) (sorted_part rs)"
  proof (cases "\<exists>x \<in> set (sorted_part rs). cellKey col x = k")
    case True
    then obtain x where x: "x \<in> set (sorted_part rs)" "cellKey col x = k" by blast
    have "filter (\<lambda>r. cellKey col r = k) (js_sort ?cmp (sorted_part rs)) =
        filter (\<lambda>r. cellKey col r = k) (filter (\<lambda>r. ?cmp x r = 0) (js_sort ?cmp (sorted_part rs)))"
      by (rule eq [OF x(2), symmetric])
    also have "\<dots> = filter (\<lambda>r. cellKey col r = k) (filter (\<lambda>r. ?cmp x r = 0) (sorted_part rs))"
      by (simp only: js.stable [OF c x(1)])
    also have "\<dots> = filter (\<lambda>r. cellKey col r = k) (sorted_part rs)" by (rule eq [OF x(2)])
    finally show ?thesis unfolding sorted_part_sort .
  next
    case False
    then show ?thesis unfolding sorted_part_sort by (simp add: filter_empty_conv js.set_sort)
  qed
qed

text \<open>
  C20. A column of whole numbers (uptime, last seen, heap, signal) is sorted by value, not by its text:
  with every key a whole number or blank, the rows come out in the chosen direction of their exact values,
  except that two numbers of at least \<open>2^53\<close> which \<open>Number\<close> rounds to the same double count as equal; the rows without a
  value are last in both directions, and rows with the same key keep their order.
\<close>

theorem numeric_column_sorted:
  assumes "numeric_column (cellKey col ` set (sorted_part rs))"
  shows "(\<exists>us vs. sorted_part (sort_rows col d rs) = us @ vs \<and>
      list_all (\<lambda>r. cellKey col r \<noteq> '''') us \<and> list_all (\<lambda>r. cellKey col r = '''') vs \<and>
      sorted_wrt (\<lambda>a b. let x = integer_value (cellKey col a); y = integer_value (cellKey col b)
        in (if d = Asc then x \<le> y else y \<le> x) \<or>
           double_of x = double_of y \<and> 2 ^ 53 \<le> \<bar>x\<bar> \<and> 2 ^ 53 \<le> \<bar>y\<bar>) us) \<and>
    filter (\<lambda>r. cellKey col r = k) (sorted_part (sort_rows col d rs)) =
      filter (\<lambda>r. cellKey col r = k) (sorted_part rs)"
proof -
  note order = sort_rows_order [OF numeric_consistent [OF assms, of d]]
  obtain us vs where u: "sorted_part (sort_rows col d rs) = us @ vs"
    "list_all (\<lambda>r. cellKey col r \<noteq> '''') us" "list_all (\<lambda>r. cellKey col r = '''') vs"
    using order(2) by blast
  have "set us \<subseteq> set (sorted_part rs)" using u(1) sorted_part_sort js.set_sort by (metis Un_iff set_append subsetI)
  then have int: "is_integer (cellKey col r)" if "r \<in> set us" for r
    using assms u(2) that by (auto simp: numeric_column_def list_all_iff)
  have "sorted_wrt (\<lambda>a b. compare_keys d (cellKey col a) (cellKey col b) \<le> 0) us"
    using order(1) u(1) by (simp add: sorted_wrt_append)
  then have "sorted_wrt (\<lambda>a b. if d = Asc then key_Number (cellKey col a) \<le> key_Number (cellKey col b)
      else key_Number (cellKey col b) \<le> key_Number (cellKey col a)) us"
    by (rule sorted_wrt_mono_rel [rotated]) (cases d, auto simp: int numeric_compare sgn_if split: if_splits)
  then have "sorted_wrt (\<lambda>a b. let x = integer_value (cellKey col a); y = integer_value (cellKey col b)
        in (if d = Asc then x \<le> y else y \<le> x) \<or>
           double_of x = double_of y \<and> 2 ^ 53 \<le> \<bar>x\<bar> \<and> 2 ^ 53 \<le> \<bar>y\<bar>) us"
    by (rule sorted_wrt_mono_rel [rotated])
      (use double_of_le_imp in \<open>fastforce simp: key_Number_def Let_def split: if_splits\<close>)
  with u order(3) show ?thesis by blast
qed

text \<open>
  The witness also shows two different keys that are the same double.
\<close>

theorem numeric_column_sorted_witness:
  "let rs = [sample_row ''a'' ''10'', sample_row ''b'' '''', sample_row ''c'' ''9'']
   in key_Number ''9007199254740993'' = 9007199254740992 \<and>
      map filter_attr (sort_rows ''uptime'' Desc rs) = [Some ''a'', Some ''c'', Some ''b''] \<and>
      (\<exists>us vs. sorted_part (sort_rows ''uptime'' Desc rs) = us @ vs \<and>
        list_all (\<lambda>r. cellKey ''uptime'' r \<noteq> '''') us \<and> list_all (\<lambda>r. cellKey ''uptime'' r = '''') vs \<and>
        sorted_wrt (\<lambda>a b. let x = integer_value (cellKey ''uptime'' a); y = integer_value (cellKey ''uptime'' b)
          in (if Desc = Asc then x \<le> y else y \<le> x) \<or>
             double_of x = double_of y \<and> 2 ^ 53 \<le> \<bar>x\<bar> \<and> 2 ^ 53 \<le> \<bar>y\<bar>) us)"
proof -
  let ?rs = "[sample_row ''a'' ''10'', sample_row ''b'' '''', sample_row ''c'' ''9'']"
  have num: "numeric_column (cellKey ''uptime'' ` set (sorted_part ?rs))"
    by (simp add: numeric_column_def sorted_part_def sample_row_def cellKey_def is_integer_def is_digit_def)
  have "excess_bits 9007199254740993 = 1" "excess_bits 9007199254740992 = 1"
    by (simp_all add: excess_bits.simps [of 9007199254740993] excess_bits.simps [of 9007199254740992] excess_bits_small)
  then have "key_Number ''9007199254740993'' = 9007199254740992"
    by (simp add: key_Number_def integer_value_def read_nat_def double_of_def magnitude_def round_double_def digit_val_def)
  moreover have "map filter_attr (sort_rows ''uptime'' Desc ?rs) = [Some ''a'', Some ''c'', Some ''b'']"
    by code_simp
  moreover note numeric_column_sorted [OF num, of Desc]
  ultimately show ?thesis unfolding Let_def [of ?rs] by blast
qed

text \<open>
  In a column that mixes whole numbers with other texts (device ids can) the comparison is
  not an order: 9 comes before 10 as a number, 10 before 5a and 5a before 9 as texts, so the result of
  the sort depends on the order the rows were in.
\<close>

theorem mixed_column_inconsistent:
  "compare_keys Asc ''9'' ''10'' < 0 \<and> compare_keys Asc ''10'' ''5a'' < 0 \<and> compare_keys Asc ''5a'' ''9'' < 0 \<and>
   \<not> consistent (compare_keys Asc) {''9'', ''10'', ''5a''} \<and>
   js_sort (compare_keys Asc) [''9'', ''10'', ''5a''] \<noteq> js_sort (compare_keys Asc) [''10'', ''5a'', ''9'']"
proof -
  have lt: "compare_keys Asc ''9'' ''10'' < 0" "compare_keys Asc ''10'' ''5a'' < 0" "compare_keys Asc ''5a'' ''9'' < 0"
    by code_simp+
  have "\<not> consistent (compare_keys Asc) {''9'', ''10'', ''5a''}"
  proof
    assume c: "consistent (compare_keys Asc) {''9'', ''10'', ''5a''}"
    have "compare_keys Asc ''9'' ''5a'' \<le> 0"
      by (rule consistent_trans [OF c, of _ "''10''"]) (use lt in simp_all)
    then show False by code_simp
  qed
  moreover have "js_sort (compare_keys Asc) [''9'', ''10'', ''5a''] \<noteq> js_sort (compare_keys Asc) [''10'', ''5a'', ''9'']"
    by code_simp
  ultimately show ?thesis using lt by blast
qed

section \<open>Columns\<close>

definition head_shown :: "string list \<Rightarrow> head \<Rightarrow> bool" where
  "head_shown off h = (case h_col h of None \<Rightarrow> True | Some c \<Rightarrow> h_hidden h \<longleftrightarrow> c \<in> set off)"

definition cell_shown :: "string list \<Rightarrow> cell \<Rightarrow> bool" where
  "cell_shown off c = (case c_col c of None \<Rightarrow> True | Some k \<Rightarrow> c_hidden c \<longleftrightarrow> k \<in> set off)"

definition columns_shown :: "string list \<Rightarrow> table \<Rightarrow> bool" where
  \<comment> \<open>exactly the columns \<open>off\<close> are hidden, in the header and in every row\<close>
  "columns_shown off t \<longleftrightarrow> list_all (head_shown off) (heads t) \<and>
     (case body t of None \<Rightarrow> True | Some rs \<Rightarrow> list_all (\<lambda>r. list_all (cell_shown off) (cells r)) rs)"

lemma columns_shown_map_rows:
  assumes "columns_shown off t"
    and "\<And>r. list_all (cell_shown off) (cells r) \<Longrightarrow> list_all (cell_shown off) (cells (f r))"
  shows "columns_shown off (map_rows f t)"
  using assms by (auto simp: columns_shown_def map_rows_def list_all_iff split: option.splits)

lemma cells_filter_row [simp]: "cells (filter_row q r) = cells r"
  by (simp add: filter_row_def Let_def split: option.split)

lemma applyColumns_shown:
  assumes "storedOff p name = Some off"
  shows "columns_shown off (applyColumns p name t)"
  using assms
  by (auto simp: columns_shown_def applyColumns_def map_rows_def hide_col_def head_shown_def cell_shown_def
      list_all_iff split: option.split)

lemma head_shown_aria [simp]: "head_shown off (h\<lparr>aria_sort := v\<rparr>) = head_shown off h"
  by (simp add: head_shown_def split: option.split)

lemma set_first_head_shown: "list_all (head_shown off) hs \<Longrightarrow> list_all (head_shown off) (set_first_head col v hs)"
  by (induction hs) auto

lemma applySort_shown:
  assumes "columns_shown off t"
  shows "columns_shown off (applySort st t)"
proof -
  have h: "list_all (head_shown off) (map (\<lambda>h. if h_col h = None then h else h\<lparr>aria_sort := None\<rparr>) (heads t))"
    using assms by (auto simp: columns_shown_def list_all_iff)
  show ?thesis
    using assms h set_first_head_shown [OF h]
    by (cases "body t"; cases st) (auto simp: columns_shown_def applySort_def Let_def list_all_iff)
qed

lemma localizeTimes_shown: "columns_shown off t \<Longrightarrow> columns_shown off (localizeTimes loc t)"
  unfolding localizeTimes_def
  by (rule columns_shown_map_rows) (auto simp: list_all_iff cell_shown_def split: option.splits)

lemma map_of_set_first: "map_of xs n \<noteq> None \<Longrightarrow> map_of (set_first n t xs) n = Some t"
  by (induction n t xs rule: set_first.induct) auto

lemma tableOf_set_table: "tableOf p name \<noteq> None \<Longrightarrow> tableOf (set_table name t p) name = Some t"
  unfolding tableOf_def set_table_def by (simp add: map_of_set_first)

lemma applyFilter_frame [simp]:
  "memoryOff (applyFilter name t p) = memoryOff p" "local_storage (applyFilter name t p) = local_storage p"
  "tools_user (applyFilter name t p) = tools_user p" "menus (applyFilter name t p) = menus p"
  "sortState (applyFilter name t p) = sortState p"
  by (simp_all add: applyFilter_def recount_def set_table_def Let_def split: option.split)

lemma tableOf_applyFilter:
  "tableOf p name \<noteq> None \<Longrightarrow>
   tableOf (applyFilter name t p) name = Some (map_rows (filter_row (filter_text p name)) t)"
  by (simp add: applyFilter_def recount_def Let_def tableOf_def set_table_def map_of_set_first split: option.split)

lemma apply_page_table:
  assumes "tableOf p name = Some t"
  shows "tableOf (apply_page loc name p) name = Some (localizeTimes loc (applySort (sortState p name)
      (map_rows (filter_row (filter_text p name)) (applyColumns p name (ensureSortButtons t)))))"
    and "menus (apply_page loc name p) name = syncMenu (applyColumns p name (ensureSortButtons t)) (menus p name)"
    and "memoryOff (apply_page loc name p) = memoryOff p"
    and "local_storage (apply_page loc name p) = local_storage p"
    and "tools_user (apply_page loc name p) = tools_user p"
proof -
  let ?t = "applyColumns p name (ensureSortButtons t)"
  let ?p = "p\<lparr>menus := (menus p)(name := syncMenu ?t (menus p name))\<rparr>"
  have q: "filter_text ?p name = filter_text p name" by (simp add: filter_text_def)
  have "tableOf ?p name \<noteq> None" using assms by (simp add: tableOf_def)
  note f = tableOf_applyFilter [OF this, of ?t, unfolded q]
  have eq: "apply_page loc name p = set_table name (localizeTimes loc (applySort (sortState p name)
      (map_rows (filter_row (filter_text p name)) ?t))) (applyFilter name ?t ?p)"
    using assms f by (simp add: apply_page_def update_table_def Let_def)
  show "tableOf (apply_page loc name p) name = Some (localizeTimes loc (applySort (sortState p name)
      (map_rows (filter_row (filter_text p name)) ?t)))"
    unfolding eq by (rule tableOf_set_table) (simp add: f)
  show "menus (apply_page loc name p) name = syncMenu ?t (menus p name)"
    "memoryOff (apply_page loc name p) = memoryOff p" "local_storage (apply_page loc name p) = local_storage p"
    "tools_user (apply_page loc name p) = tools_user p"
    unfolding eq by (simp_all add: set_table_def)
qed

lemma apply_page_shown:
  assumes "tableOf p name = Some t" and "storedOff p name = Some off"
  shows "\<exists>t'. tableOf (apply_page loc name p) name = Some t' \<and> columns_shown off t'"
proof -
  have "columns_shown off (map_rows (filter_row (filter_text p name)) (applyColumns p name (ensureSortButtons t)))"
    by (rule columns_shown_map_rows [OF applyColumns_shown [OF assms(2)]]) simp
  then show ?thesis
    using apply_page_table(1) [OF assms(1), of loc] localizeTimes_shown applySort_shown by blast
qed

lemma storedOff_saveOff [simp]: "storedOff (saveOff name off p) name = Some off"
  by (simp add: storedOff_def saveOff_def Let_def)

text \<open>
  C22. Changing a column box in the menu takes effect and is kept: the columns whose boxes
  are now off, and only those, are hidden in the header and in every row; the choice is what later
  re-renderings of this page use even when the browser's storage refuses to save it, and what the next
  page load of the same user uses when the storage works.
\<close>

theorem column_choice_kept:
  assumes "menus p name = Some ms" and "tableOf p name \<noteq> None" and "col \<noteq> ''''"
    and "off = map toggle (filter (\<lambda>i. \<not> item_checked i)
      (map (\<lambda>i. if toggle i = col then i\<lparr>item_checked := on\<rparr> else i) ms))"
    and "p' = toggle_column loc name col on p"
  shows "storedOff p' name = Some off \<and>
    (\<exists>t. tableOf p' name = Some t \<and> columns_shown off t) \<and>
    (set_works (local_storage p) \<and> get_works (local_storage p) \<longrightarrow>
      storedOff (p'\<lparr>memoryOff := Map.empty\<rparr>) name = Some off)"
proof -
  let ?ms = "map (\<lambda>i. if toggle i = col then i\<lparr>item_checked := on\<rparr> else i) ms"
  let ?q = "saveOff name off (p\<lparr>menus := (menus p)(name \<mapsto> ?ms)\<rparr>)"
  obtain t where t: "tableOf p name = Some t" using assms(2) by blast
  then have tq: "tableOf ?q name = Some t" by (simp add: tableOf_def saveOff_def Let_def)
  have eq: "p' = apply_page loc name ?q"
    using assms(1,3) t unfolding assms(4,5) by (simp add: toggle_column_def tableOf_def Let_def)
  note frame = apply_page_table(3-5) [OF tq, of loc, folded eq]
  have "memoryOff p' name = Some off" using frame(1) by (simp add: saveOff_def Let_def)
  then have "storedOff p' name = Some off" by (simp add: storedOff_def)
  moreover have "\<exists>t. tableOf p' name = Some t \<and> columns_shown off t"
    unfolding eq by (rule apply_page_shown [OF tq]) simp
  moreover have "storedOff (p'\<lparr>memoryOff := Map.empty\<rparr>) name = Some off"
    if "set_works (local_storage p) \<and> get_works (local_storage p)"
    using that frame(2,3) by (simp add: storedOff_def saveOff_def prefsKey_def Let_def)
  ultimately show ?thesis by blast
qed

definition choosing_page :: page where
  "choosing_page = apply_all (\<lambda>d. None) sample_page"

theorem column_choice_kept_witness:
  "storedOff (toggle_column (\<lambda>d. None) ''devices'' ''uptime'' False choosing_page) ''devices'' = Some [''uptime''] \<and>
   (\<exists>t. tableOf (toggle_column (\<lambda>d. None) ''devices'' ''uptime'' False choosing_page) ''devices'' = Some t \<and>
      columns_shown [''uptime''] t)"
proof -
  have ms: "menus choosing_page ''devices'' = Some [\<lparr>toggle = ''uptime'', item_label = ''Uptime'', item_checked = True\<rparr>]"
    by code_simp
  have "tableOf choosing_page ''devices'' \<noteq> None" by code_simp
  from column_choice_kept [OF ms this _ refl refl, of "''uptime''" "\<lambda>d. None" False]
  show ?thesis by simp
qed

definition head_view :: "table \<Rightarrow> (string option \<times> bool) list" where
  "head_view t = map (\<lambda>h. (h_col h, h_hidden h)) (heads t)"

lemma find_view:
  "map (\<lambda>h. (h_col h, h_hidden h)) hs = map (\<lambda>h. (h_col h, h_hidden h)) hs' \<Longrightarrow>
   map_option h_hidden (find (\<lambda>h. h_col h = Some c) hs) = map_option h_hidden (find (\<lambda>h. h_col h = Some c) hs')"
proof (induction hs arbitrary: hs')
  case (Cons h hs)
  then obtain h' hs'' where "hs' = h' # hs''" by (cases hs') simp_all
  with Cons show ?case by auto
qed simp

lemma head_of_view:
  "head_view t = head_view t' \<Longrightarrow> map_option h_hidden (head_of t c) = map_option h_hidden (head_of t' c)"
  unfolding head_view_def head_of_def by (rule find_view)

lemma cols_view:
  "concat (map (\<lambda>h. case h_col h of None \<Rightarrow> [] | Some c \<Rightarrow> [c]) (heads t)) =
   concat (map (\<lambda>(c, b). case c of None \<Rightarrow> [] | Some c \<Rightarrow> [c]) (head_view t))"
  by (simp add: head_view_def comp_def)

lemma set_first_head_view:
  "map (\<lambda>h. (h_col h, h_hidden h)) (set_first_head col v hs) = map (\<lambda>h. (h_col h, h_hidden h)) hs"
  by (induction hs) simp_all

lemma head_view_steps [simp]:
  "head_view (map_rows f t) = head_view t" "head_view (localizeTimes loc t) = head_view t"
  "head_view (applySort st t) = head_view t"
proof -
  show "head_view (map_rows f t) = head_view t" for f by (simp add: head_view_def map_rows_def)
  then show "head_view (localizeTimes loc t) = head_view t" by (simp add: localizeTimes_def)
  have "map (\<lambda>h. (h_col h, h_hidden h)) (map (\<lambda>h. if h_col h = None then h else h\<lparr>aria_sort := None\<rparr>) (heads t)) =
      map (\<lambda>h. (h_col h, h_hidden h)) (heads t)" by simp
  then show "head_view (applySort st t) = head_view t"
    by (auto simp: head_view_def applySort_def Let_def set_first_head_view split: option.split)
qed

lemma toggle_menu_entries:
  "map toggle (menu_entries t) = concat (map (\<lambda>h. case h_col h of None \<Rightarrow> [] | Some c \<Rightarrow> [c]) (heads t))"
proof -
  have "map toggle (concat (map f hs)) = concat (map (map toggle \<circ> f) hs)" for f :: "head \<Rightarrow> menu_item list" and hs
    by (simp add: map_concat)
  then show ?thesis
    unfolding menu_entries_def by (auto intro!: arg_cong [where f = concat] split: option.split)
qed

lemma case_head_hidden:
  "(case h of Some h \<Rightarrow> h_hidden h | None \<Rightarrow> False) = (map_option h_hidden h = Some True)"
  "(case h of Some h \<Rightarrow> \<not> h_hidden h | None \<Rightarrow> True) = (map_option h_hidden h \<noteq> Some True)"
  by (auto split: option.split)

text \<open>
  The column menu tells the truth: whenever a table is re-rendered, the box of every entry of
  its menu is ticked exactly when the table shows a header of that column or has none, and
  an empty menu has been filled with one entry per column of the header.
\<close>

theorem menu_shows_columns:
  assumes "tableOf p name = Some t" and "menus p name = Some ms"
  shows "\<exists>t' ms'. tableOf (apply_page loc name p) name = Some t' \<and> menus (apply_page loc name p) name = Some ms' \<and>
    list_all (\<lambda>i. item_checked i \<longleftrightarrow> (case head_of t' (toggle i) of Some h \<Rightarrow> \<not> h_hidden h | None \<Rightarrow> True)) ms' \<and>
    map toggle ms' = (if ms = [] then concat (map (\<lambda>h. case h_col h of None \<Rightarrow> [] | Some c \<Rightarrow> [c]) (heads t'))
      else map toggle ms)"
proof -
  let ?u = "applyColumns p name (ensureSortButtons t)"
  let ?t = "localizeTimes loc (applySort (sortState p name) (map_rows (filter_row (filter_text p name)) ?u))"
  let ?ms = "if ms = [] then menu_entries ?u else ms"
  let ?ms' = "map (\<lambda>i. i\<lparr>item_checked := (map_option h_hidden (head_of ?u (toggle i)) \<noteq> Some True)\<rparr>) ?ms"
  have view: "head_view ?t = head_view ?u" by simp
  have "menus (apply_page loc name p) name = Some ?ms'"
    using apply_page_table(2) [OF assms(1), of loc] assms(2) by (simp add: syncMenu_def case_head_hidden Let_def)
  moreover have "list_all (\<lambda>i. item_checked i \<longleftrightarrow>
      (case head_of ?t (toggle i) of Some h \<Rightarrow> \<not> h_hidden h | None \<Rightarrow> True)) ?ms'"
    unfolding case_head_hidden head_of_view [OF view] by (simp add: list_all_iff)
  moreover have "map toggle ?ms' = (if ms = []
      then concat (map (\<lambda>h. case h_col h of None \<Rightarrow> [] | Some c \<Rightarrow> [c]) (heads ?t)) else map toggle ms)"
    unfolding cols_view view by (simp add: comp_def toggle_menu_entries cols_view)
  ultimately show ?thesis using apply_page_table(1) [OF assms(1), of loc] by blast
qed

theorem menu_shows_columns_witness:
  "\<exists>t' ms'. tableOf (apply_page (\<lambda>d. None) ''devices'' sample_page) ''devices'' = Some t' \<and>
    menus (apply_page (\<lambda>d. None) ''devices'' sample_page) ''devices'' = Some ms' \<and>
    list_all (\<lambda>i. item_checked i \<longleftrightarrow> (case head_of t' (toggle i) of Some h \<Rightarrow> \<not> h_hidden h | None \<Rightarrow> True)) ms'"
proof -
  obtain t where t: "tableOf sample_page ''devices'' = Some t" by (simp add: tableOf_def sample_page_def)
  have "menus sample_page ''devices'' = Some []" by (simp add: sample_page_def)
  from menu_shows_columns [OF t this, of "\<lambda>d. None"] show ?thesis by blast
qed

end
