(* ===== verification/Service_Worker.thy ===== *)
theory Service_Worker
  imports Prelude
begin

text \<open>
  The service worker (\<open>sw.js\<close>): the cache storage as a list of named caches in the order of their
  creation, each a list of stored responses, and the handlers of the install, activate and fetch
  events. The network is a parameter of an event: the response to a request, or none when the
  fetch is rejected.
\<close>

section \<open>Requests, responses and caches\<close>

record url =
  origin :: string
  pathname :: string
  search :: string

record request =
  req_url :: url
  http_method :: string
  mode :: string

record response =
  status :: nat
  content :: string

type_synonym network = "request \<Rightarrow> response option"
type_synonym cache = "(url \<times> response) list"
type_synonym caches = "(string \<times> cache) list"

definition res_ok :: "response \<Rightarrow> bool" where
  "res_ok r \<longleftrightarrow> 200 \<le> status r \<and> status r \<le> 299"

definition CACHE :: string where
  "CACHE = ''thesada-shell-v2''"

definition SHELL :: "string list" where
  "SHELL =
     [''/static/css/app.css'',
      ''/static/js/htmx.min.js'',
      ''/static/js/chart.umd.min.js'',
      ''/static/offline.html'',
      ''/static/manifest.webmanifest'',
      ''/static/icons/icon-192.png'',
      ''/static/icons/icon-512.png'',
      ''/static/icons/apple-touch-icon.png'']"

definition shell_url :: "string \<Rightarrow> string \<Rightarrow> url" where
  \<comment> \<open>a path of the worker's own origin\<close>
  "shell_url self path = \<lparr>origin = self, pathname = path, search = ''''\<rparr>"

definition shell_request :: "string \<Rightarrow> string \<Rightarrow> request" where
  "shell_request self path = \<lparr>req_url = shell_url self path, http_method = ''GET'', mode = ''cors''\<rparr>"

definition cache_open :: "string \<Rightarrow> caches \<Rightarrow> caches" where
  \<comment> \<open>\<open>caches.open\<close> creates a missing cache\<close>
  "cache_open n cs = (if n \<in> fst ` set cs then cs else cs @ [(n, [])])"

definition update_cache :: "string \<Rightarrow> (cache \<Rightarrow> cache) \<Rightarrow> caches \<Rightarrow> caches" where
  "update_cache n f cs = map (\<lambda>(m, c). if m = n then (m, f c) else (m, c)) cs"

definition cache_put :: "url \<Rightarrow> response \<Rightarrow> cache \<Rightarrow> cache" where
  \<comment> \<open>a stored response of the same URL is replaced; a partial response (206) is refused\<close>
  "cache_put u r c = (if status r = 206 then c else filter (\<lambda>(v, s). v \<noteq> u) c @ [(u, r)])"

definition caches_match :: "url \<Rightarrow> caches \<Rightarrow> response option" where
  \<comment> \<open>the caches are searched in the order of their creation\<close>
  "caches_match u cs = map_of (concat (map snd cs)) u"

definition cache_addAll :: "string \<Rightarrow> network \<Rightarrow> string list \<Rightarrow> cache \<Rightarrow> cache option" where
  \<comment> \<open>all the paths or, when one cannot be had, none of them\<close>
  "cache_addAll self net paths c =
     (if list_all (\<lambda>p. case net (shell_request self p) of
           None \<Rightarrow> False | Some r \<Rightarrow> res_ok r \<and> status r \<noteq> 206) paths
      then Some (fold (\<lambda>p. case net (shell_request self p) of
             None \<Rightarrow> id | Some r \<Rightarrow> cache_put (shell_url self p) r) paths c)
      else None)"

section \<open>Event handlers\<close>

definition on_install :: "string \<Rightarrow> network \<Rightarrow> caches \<Rightarrow> caches \<times> bool" where
  \<comment> \<open>with whether the installation succeeds\<close>
  "on_install self net cs =
     (let cs = cache_open CACHE cs
      in case map_of cs CACHE of
           None \<Rightarrow> (cs, False)
         | Some c \<Rightarrow>
             (case cache_addAll self net SHELL c of
                None \<Rightarrow> (cs, False)
              | Some c' \<Rightarrow> (update_cache CACHE (\<lambda>_. c') cs, True)))"

definition on_activate :: "caches \<Rightarrow> caches" where
  "on_activate cs = filter (\<lambda>(n, c). n = CACHE) cs"

datatype answer =
    NotHandled  \<comment> \<open>the browser goes to the network itself\<close>
  | Respond "response option"  \<comment> \<open>no response is a network error\<close>

definition on_fetch :: "string \<Rightarrow> network \<Rightarrow> request \<Rightarrow> caches \<Rightarrow> answer \<times> caches" where
  \<comment> \<open>with the caches once the copy has been stored\<close>
  "on_fetch self net req cs =
     (let u = req_url req
      in if origin u \<noteq> self \<or> http_method req \<noteq> ''GET'' then (NotHandled, cs)
         else if pathname u \<in> set SHELL
         then (case net req of
                 Some res \<Rightarrow>
                   (Respond (Some res),
                    if res_ok res then update_cache CACHE (cache_put u res) (cache_open CACHE cs) else cs)
               | None \<Rightarrow> (Respond (caches_match u cs), cs))
         else if mode req = ''navigate''
         then (case net req of
                 Some res \<Rightarrow> (Respond (Some res), cs)
               | None \<Rightarrow> (Respond (caches_match (shell_url self ''/static/offline.html'') cs), cs))
         else (NotHandled, cs))"

section \<open>What the caches hold\<close>

inductive sw_step :: "string \<Rightarrow> caches \<Rightarrow> caches \<Rightarrow> bool" for self where
  install: "on_install self net cs = (cs', ok) \<Longrightarrow> sw_step self cs cs'"
| activate: "sw_step self cs (on_activate cs)"
| fetch: "on_fetch self net req cs = (a, cs') \<Longrightarrow> sw_step self cs cs'"

definition shell_entry :: "string \<Rightarrow> url \<times> response \<Rightarrow> bool" where
  "shell_entry self e \<longleftrightarrow> origin (fst e) = self \<and> pathname (fst e) \<in> set SHELL \<and> res_ok (snd e)"

definition only_shell :: "string \<Rightarrow> caches \<Rightarrow> bool" where
  "only_shell self cs \<longleftrightarrow> (\<forall>(n, c) \<in> set cs. n = CACHE \<longrightarrow> list_all (shell_entry self) c)"

lemma cache_put_shell:
  "list_all (shell_entry self) c \<Longrightarrow> shell_entry self (u, r) \<Longrightarrow> list_all (shell_entry self) (cache_put u r c)"
  by (auto simp: cache_put_def list_all_iff)

lemma cache_open_shell: "only_shell self cs \<Longrightarrow> only_shell self (cache_open n cs)"
  by (auto simp: only_shell_def cache_open_def)

lemma update_cache_shell:
  assumes "only_shell self cs"
    and "\<And>c. (CACHE, c) \<in> set cs \<Longrightarrow> list_all (shell_entry self) c \<Longrightarrow> list_all (shell_entry self) (f c)"
  shows "only_shell self (update_cache CACHE f cs)"
  using assms by (fastforce simp: only_shell_def update_cache_def split: if_splits)

lemma cache_addAll_shell:
  assumes "cache_addAll self net paths c = Some c'" and "set paths \<subseteq> set SHELL" and "list_all (shell_entry self) c"
  shows "list_all (shell_entry self) c'"
proof -
  have ok: "\<exists>r. net (shell_request self p) = Some r \<and> res_ok r" if "p \<in> set paths" for p
    using assms(1) that by (auto simp: cache_addAll_def list_all_iff split: if_splits option.splits)
  have "list_all (shell_entry self) (fold (\<lambda>p. case net (shell_request self p) of
      None \<Rightarrow> id | Some r \<Rightarrow> cache_put (shell_url self p) r) paths c)"
  proof (rule fold_invariant_list)
    fix p s assume "p \<in> set paths" "list_all (shell_entry self) s"
    with ok [of p] assms(2) show "list_all (shell_entry self) ((case net (shell_request self p) of
        None \<Rightarrow> id | Some r \<Rightarrow> cache_put (shell_url self p) r) s)"
      by (auto intro!: cache_put_shell simp: shell_entry_def shell_url_def subset_iff)
  qed (fact assms(3))
  with assms(1) show ?thesis by (auto simp: cache_addAll_def split: if_splits)
qed

lemma on_install_shell: "only_shell self cs \<Longrightarrow> on_install self net cs = (cs', ok) \<Longrightarrow> only_shell self cs'"
proof -
  assume o: "only_shell self cs" and i: "on_install self net cs = (cs', ok)"
  let ?cs = "cache_open CACHE cs"
  have o': "only_shell self ?cs" by (rule cache_open_shell [OF o])
  consider "cs' = ?cs" | c c' where "map_of ?cs CACHE = Some c" "cache_addAll self net SHELL c = Some c'"
    "cs' = update_cache CACHE (\<lambda>_. c') ?cs"
    using i by (auto simp: on_install_def Let_def split: option.splits)
  then show ?thesis
  proof cases
    case 2
    then have "list_all (shell_entry self) c" using o' by (auto simp: only_shell_def dest!: map_of_SomeD)
    with 2 cache_addAll_shell [OF 2(2)] show ?thesis by (auto intro: update_cache_shell [OF o'])
  qed (use o' in simp)
qed

lemma on_fetch_shell: "only_shell self cs \<Longrightarrow> on_fetch self net req cs = (a, cs') \<Longrightarrow> only_shell self cs'"
  by (auto simp: on_fetch_def Let_def split: if_splits option.splits
      intro!: update_cache_shell cache_open_shell cache_put_shell simp: shell_entry_def)

lemma sw_step_shell: "sw_step self cs cs' \<Longrightarrow> only_shell self cs \<Longrightarrow> only_shell self cs'"
proof (induction rule: sw_step.induct)
  case (activate cs)
  then show ?case by (auto simp: only_shell_def on_activate_def)
qed (auto intro: on_install_shell on_fetch_shell)

lemma sw_steps_shell: "(sw_step self)\<^sup>*\<^sup>* cs cs' \<Longrightarrow> only_shell self cs \<Longrightarrow> only_shell self cs'"
  by (induction rule: rtranclp_induct) (auto intro: sw_step_shell)

text \<open>
  C24. Only the app shell is ever stored: whatever the pages request and whatever the network answers, every
  entry of the worker's cache is a successful response for one of the eight shell paths on the app's own
  origin. Device pages and API responses are never in it.
\<close>

theorem cache_holds_shell_only:
  assumes "(sw_step self)\<^sup>*\<^sup>* cs cs'" and "CACHE \<notin> fst ` set cs"
    and "(CACHE, c) \<in> set cs'" and "(u, r) \<in> set c"
  shows "origin u = self \<and> pathname u \<in> set SHELL \<and> res_ok r"
proof -
  have "only_shell self cs" using assms(2) by (force simp: only_shell_def)
  with sw_steps_shell [OF assms(1)] have "only_shell self cs'" by blast
  with assms(3,4) have "shell_entry self (u, r)" by (fastforce simp: only_shell_def list_all_iff)
  then show ?thesis by (simp add: shell_entry_def)
qed

section \<open>Offline\<close>

definition complete :: "string \<Rightarrow> caches \<Rightarrow> bool" where
  "complete self cs \<longleftrightarrow> (\<exists>c. (CACHE, c) \<in> set cs \<and> shell_url self ` set SHELL \<subseteq> fst ` set c)"

lemma cache_put_keys: "fst ` set c \<subseteq> fst ` set (cache_put u r c)"
  by (auto simp: cache_put_def)

lemma cache_put_key: "status r \<noteq> 206 \<Longrightarrow> u \<in> fst ` set (cache_put u r c)"
  by (simp add: cache_put_def)

lemma cache_addAll_keys:
  assumes "cache_addAll self net paths c = Some c'"
  shows "fst ` set c \<subseteq> fst ` set c' \<and> shell_url self ` set paths \<subseteq> fst ` set c'"
proof -
  let ?f = "\<lambda>p. case net (shell_request self p) of None \<Rightarrow> id | Some r \<Rightarrow> cache_put (shell_url self p) r"
  have ok: "\<exists>r. net (shell_request self p) = Some r \<and> status r \<noteq> 206" if "p \<in> set paths" for p
    using assms that by (auto simp: cache_addAll_def list_all_iff split: if_splits option.splits)
  have mono: "fst ` set s \<subseteq> fst ` set (?f p s)" for p s
    using cache_put_keys by (auto split: option.split)
  have all: "fst ` set s \<subseteq> fst ` set (fold ?f ps s) \<and> shell_url self ` set ps \<subseteq> fst ` set (fold ?f ps s)"
    if "set ps \<subseteq> set paths" for ps s
    using that
  proof (induction ps arbitrary: s)
    case (Cons p ps)
    then obtain r where r: "net (shell_request self p) = Some r" "status r \<noteq> 206" using ok [of p] by auto
    have "shell_url self p \<in> fst ` set (?f p s)" using cache_put_key [OF r(2)] r(1) by simp
    with Cons.IH [of "?f p s"] Cons.prems mono [of s p] show ?case by auto
  qed simp
  have "c' = fold ?f paths c" using assms by (simp add: cache_addAll_def split: if_splits)
  with all [OF order_refl, of c] show ?thesis by simp
qed

lemma complete_update:
  assumes "complete self cs" and "\<And>c. (CACHE, c) \<in> set cs \<Longrightarrow> fst ` set c \<subseteq> fst ` set (f c)"
  shows "complete self (update_cache CACHE f cs)"
proof -
  from assms(1) obtain c where c: "(CACHE, c) \<in> set cs" "shell_url self ` set SHELL \<subseteq> fst ` set c"
    by (auto simp: complete_def)
  then have "(CACHE, f c) \<in> set (update_cache CACHE f cs)" by (force simp: update_cache_def)
  with c(2) assms(2) [OF c(1)] show ?thesis unfolding complete_def by (meson order_trans)
qed

lemma complete_open: "complete self cs \<Longrightarrow> complete self (cache_open n cs)"
  by (auto simp: complete_def cache_open_def)

lemma on_install_complete: "on_install self net cs = (cs', True) \<Longrightarrow> complete self cs'"
proof -
  assume "on_install self net cs = (cs', True)"
  then obtain c c' where c: "map_of (cache_open CACHE cs) CACHE = Some c" "cache_addAll self net SHELL c = Some c'"
    "cs' = update_cache CACHE (\<lambda>_. c') (cache_open CACHE cs)"
    by (auto simp: on_install_def Let_def split: option.splits)
  then have "(CACHE, c') \<in> set cs'"
    by (auto simp: update_cache_def dest!: map_of_SomeD intro!: image_eqI [where x = "(CACHE, c)"])
  with cache_addAll_keys [OF c(2)] show ?thesis by (auto simp: complete_def)
qed

lemma sw_step_complete:
  "sw_step self cs cs' \<Longrightarrow> complete self cs \<Longrightarrow> complete self cs'"
proof (induction rule: sw_step.induct)
  case (install net cs cs' ok)
  show ?case
  proof (cases ok)
    case True
    with install show ?thesis by (auto intro: on_install_complete)
  next
    case False
    with install.hyps have "cs' = cache_open CACHE cs"
      by (auto simp: on_install_def Let_def split: option.splits)
    with install.prems show ?thesis by (simp add: complete_open)
  qed
next
  case (activate cs)
  then show ?case by (auto simp: complete_def on_activate_def)
next
  case (fetch net req cs a cs')
  then show ?case
    by (auto simp: on_fetch_def Let_def split: if_splits option.splits
        intro!: complete_update complete_open cache_put_keys)
qed

lemma sw_steps_complete: "(sw_step self)\<^sup>*\<^sup>* cs cs' \<Longrightarrow> complete self cs \<Longrightarrow> complete self cs'"
  by (induction rule: rtranclp_induct) (auto intro: sw_step_complete)

lemma complete_match: "complete self cs \<Longrightarrow> p \<in> set SHELL \<Longrightarrow> \<exists>r. caches_match (shell_url self p) cs = Some r"
proof -
  assume c: "complete self cs" and p: "p \<in> set SHELL"
  then obtain c where "(CACHE, c) \<in> set cs" "shell_url self p \<in> fst ` set c"
    unfolding complete_def by blast
  then have "shell_url self p \<in> fst ` set (concat (map snd cs))" by force
  then show ?thesis unfolding caches_match_def by (meson map_of_eq_None_iff not_Some_eq)
qed

text \<open>
  Once the worker has been installed the shell is available offline: after a successful installation and any
  further events, a request for a shell path that the network does not answer gets the stored
  response, and a navigation to any other page of the app gets the stored offline page.
\<close>

theorem shell_available_offline:
  assumes "on_install self net cs = (cs1, True)" and "(sw_step self)\<^sup>*\<^sup>* cs1 cs2"
    and "origin (req_url req) = self" and "http_method req = ''GET''" and "down req = None"
    and "req_url req \<in> shell_url self ` set SHELL \<or> (pathname (req_url req) \<notin> set SHELL \<and> mode req = ''navigate'')"
  shows "\<exists>r. on_fetch self down req cs2 = (Respond (Some r), cs2) \<and>
    caches_match (if pathname (req_url req) \<in> set SHELL then req_url req else shell_url self ''/static/offline.html'') cs2
      = Some r"
proof -
  have c: "complete self cs2" by (rule sw_steps_complete [OF assms(2) on_install_complete [OF assms(1)]])
  have off: "''/static/offline.html'' \<in> set SHELL" by (simp add: SHELL_def)
  from assms(6) show ?thesis
  proof
    assume "req_url req \<in> shell_url self ` set SHELL"
    then obtain p where p: "p \<in> set SHELL" "req_url req = shell_url self p" by blast
    from complete_match [OF c p(1)] p assms(3-5) show ?thesis
      by (auto simp: on_fetch_def Let_def shell_url_def)
  next
    assume "pathname (req_url req) \<notin> set SHELL \<and> mode req = ''navigate''"
    with complete_match [OF c off] assms(3-5) show ?thesis by (auto simp: on_fetch_def Let_def)
  qed
qed

text \<open>
  C26. A stale page is never shown as current: for every request outside the shell the worker stores nothing, and
  what it answers, if it answers at all, is the response of the network or, when a navigation fails,
  the stored offline page.
\<close>

theorem pages_never_from_cache:
  assumes "on_fetch self net req cs = (a, cs')" and "pathname (req_url req) \<notin> set SHELL"
  shows "cs' = cs \<and> (a = NotHandled \<or> (\<exists>r. net req = Some r \<and> a = Respond (Some r)) \<or>
    (net req = None \<and> mode req = ''navigate'' \<and>
      a = Respond (caches_match (shell_url self ''/static/offline.html'') cs)))"
  using assms by (auto simp: on_fetch_def Let_def split: if_splits option.splits)

section \<open>Witnesses\<close>

definition up :: network where
  "up req = Some \<lparr>status = 200, content = pathname (req_url req)\<rparr>"

definition page_request :: request where
  "page_request = \<lparr>req_url = \<lparr>origin = ''https://app'', pathname = ''/devices'', search = ''''\<rparr>,
     http_method = ''GET'', mode = ''navigate''\<rparr>"

definition installed :: caches where
  "installed = fst (on_install ''https://app'' up [])"

lemma installed_ok: "on_install ''https://app'' up [] = (installed, True)"
  unfolding installed_def by code_simp

theorem cache_holds_shell_only_witness:
  "(\<exists>c u r. (CACHE, c) \<in> set installed \<and> (u, r) \<in> set c \<and>
     origin u = ''https://app'' \<and> pathname u \<in> set SHELL \<and> res_ok r)"
proof -
  have step: "(sw_step ''https://app'')\<^sup>*\<^sup>* [] installed"
    by (rule r_into_rtranclp) (rule sw_step.install [OF installed_ok])
  have "\<exists>c e. (CACHE, c) \<in> set installed \<and> e \<in> set c"
    by (intro exI [of _ "snd (hd installed)"] exI [of _ "hd (snd (hd installed))"]) code_simp
  then obtain c u r where "(CACHE, c) \<in> set installed" "(u, r) \<in> set c" by force
  with cache_holds_shell_only [OF step _ this] show ?thesis by auto
qed

theorem shell_available_offline_witness:
  "\<exists>r. on_fetch ''https://app'' (\<lambda>req. None) page_request installed = (Respond (Some r), installed) \<and>
    caches_match (if pathname (req_url page_request) \<in> set SHELL then req_url page_request
      else shell_url ''https://app'' ''/static/offline.html'') installed = Some r"
  by (rule shell_available_offline [OF installed_ok rtranclp.rtrancl_refl])
    (simp_all add: page_request_def SHELL_def)

theorem pages_never_from_cache_witness:
  "let (a, cs') = on_fetch ''https://app'' up page_request installed
   in cs' = installed \<and> a = Respond (Some \<lparr>status = 200, content = ''/devices''\<rparr>)"
  using pages_never_from_cache [of "''https://app''" up page_request installed
      "fst (on_fetch ''https://app'' up page_request installed)"
      "snd (on_fetch ''https://app'' up page_request installed)"]
  by (auto simp: on_fetch_def page_request_def SHELL_def up_def Let_def)

end
