(* ===== verification/Spec2Isabelle.thy ===== *)
theory Spec2Isabelle
  imports Rules_Meaning Mutators Rules_Page Conditions Block_Json List_Helpers Std_Meaning Mqtt_Page Chart_Card Devices_Props Service_Worker
begin

text \<open>
  Verification of the browser code of thesada-app, a fleet manager for sensor devices.

  \<^bold>\<open>The program.\<close> A server written in Go renders pages and answers a few JSON requests. The code that runs in the
  browser, which is what is verified here, has these parts:

  \<^item> the visual rules editor. An administrator composes rules from blocks
    (\<open>pkg/web/static/js/blockly-rules.js\<close>, on top of the bundled Blockly in \<open>pkg/web/static/js/blockly\<close>); the
    editor turns the blocks into a Lua file, and the page \<open>pkg/web/templates/admin-device-rules.html\<close> saves the
    workspace, pushes the file to a device and makes the device reload it. On the device the file runs against its
    sensor events, with the helper functions of a fixed preamble;
  \<^item> the tables of devices (\<open>pkg/web/static/js/devices-table.js\<close>), with sorting, filtering, a choice of
    columns, and the selection boxes of the bulk form (\<open>admin-devices.html\<close>);
  \<^item> the chart of a device (\<open>device-detail.html\<close>);
  \<^item> the MQTT shell (\<open>admin-mqtt.html\<close>), a web socket with a feed of messages;
  \<^item> the service worker (\<open>pkg/web/static/sw.js\<close>), which keeps the shell of the application for offline use.

  The parts meet in the rules editor: the block definitions and messages give shapes, the serializer builds
  blocks of these shapes, the generator turns them into text, the page sends the text, the device runs it. The other
  parts share only the page they are on.

  \<^bold>\<open>Theories.\<close> \<open>Prelude\<close> holds the shared vocabulary: decimal numerals, joining and trimming of texts,
  replacement of characters, the order of texts.

  \<^item> \<open>Lua_Strings\<close>: \<open>esc\<close> of blockly-rules.js and \<open>quote_\<close> of lua\_compressed.js, with a reader of Lua's
    short string literals as reference.
  \<^item> \<open>Blockly_Core\<close>: blocks as trees of fields, inputs and a next block, the connection checker, the field classes, and
    the traversal of the code generator (\<open>blockToCode\<close>, \<open>valueToCode\<close>, \<open>statementToCode\<close>, \<open>scrub_\<close>).
    The locale \<open>block_language\<close> states what a table of shapes and a table of generators promise each other, and shows
    that the generator is then total.
  \<^item> \<open>Logic_Blocks\<close>, \<open>Rules_Blocks\<close>: the logic blocks of the toolbox and the rule blocks, shape and generator
    each, the preamble, the seeded workspace and \<open>generateLua\<close>. The locale is interpreted on these tables (\<open>rules\<close>).
    C1: the editor always gets a file.
  \<^item> \<open>Rules_Static\<close>: the file without running it. C2: what a user types reaches Lua as a literal with that
    value; C4: rule blocks bind the variables their actions use; the logic block \<open>controls_if\<close> breaks this
    (\<open>controls_if_breaks_scope\<close>).
  \<^item> \<open>Lua_Syntax\<close>, \<open>Lua_Calls\<close>: the reference for the meaning of generated text, a lexer and a parser of Lua
    expressions with its table of priorities. \<open>reads\<close> says that a text generated with an order is read as an expression
    wherever its order lets it stand; the lemmas are one per form of expression.
  \<^item> \<open>Conditions\<close>: C3: the conditions that the rules editor can build are read by Lua as the expressions they show.
  \<^item> \<open>Alert_Json\<close>: the encoder of alerts in the preamble, with a reader of JSON as reference. C6, C7: the size bound
    and the round trip, cut between characters and never inside one. The locale \<open>body_encoder\<close> holds what \<open>alert_json\<close> needs of \<open>json_body\<close>.
  \<^item> \<open>Rules_Runtime\<close>, \<open>Rules_Alerts\<close>, \<open>Rules_Streak\<close>, \<open>Rules_Keys\<close>: the functions of the preamble on
    the tables of the file, and running conditions and handlers on events. The clock and the radio of the device are
    the parameter \<open>host\<close>. C8, C9: cooldown and delivery, where the cooldown starts only with an alert
    that Telegram accepted or that needed no Telegram; C10, C11: sustained rules alert after a streak and only then;
    C12 to C14: keys keep conditions apart, except that all battery conditions share one. The locale \<open>alert_gate\<close> covers both ways a condition is guarded.
  \<^item> \<open>Rules_Meaning\<close>: from blocks to rules. C15: the generated code is the printed form of the handlers that the tree
    stands for, which ties the file to its meaning; C16: which handlers cannot fail, and
    \<open>unsuited_handler_accepted\<close>: one that the editor accepts and that always fails.
  \<^item> \<open>Blockly_Serial\<close>: saving and loading workspaces and starting the editor. C27, C28: the round trip and that
    whatever is loaded from blocks of rule types is well-formed and generates. The locale \<open>block_registry\<close> is what loading needs of the block
    definitions. The page also registers all standard blocks: the registry and the generator of the page have what is registered beside the
    rule types as a parameter, and the lemmas \<open>load_page_rules\<close>, \<open>save_page_rules\<close> and \<open>page_lua_rules\<close> show
    that it makes no difference to rules.
  \<^item> \<open>Mutators\<close>: the dialogue in which the clauses of an if block are added, moved and deleted, as rounds of rearranging
    items, rebuilding the inputs and reconnecting the children. The abstract state is the list of clauses (\<open>clause_inputs\<close>). C39:
    every clause keeps its condition and statements, no block is lost, and the block stays well-formed. A round saves the
    connections after rebuilding, as the listener of the workspace does when the change arrives.
  \<^item> \<open>Rules_Page\<close>: the requests of the rules page as a state machine whose inputs are clicks and replies. C29 to C32:
    the lock of an unrestored page, one write at a time, the order of saving, pushing and reloading, and that the lock is
    released.
  \<^item> \<open>Msg_En\<close>: the messages of \<open>msg/en.js\<close>, all of them, with the copies and hues at the end of the file.
  \<^item> \<open>Interpolation\<close>: the scanner of messages (\<open>tokenizeInterpolation\<close>, \<open>replaceMessageReferences\<close>). The
    locale \<open>ranked_messages\<close> says when nested references end, \<open>flat_messages\<close> is the case that messages refer to
    plain ones only, a sublocale of the former and interpreted on the English messages. C33: the scanner
    ends; C34: it is the obvious replacement.
  \<^item> \<open>Block_Json\<close>: \<open>jsonInit\<close> and every block that blocks\_compressed.js defines in JSON. The mutator and the extensions of a
    definition are looked up in the table of registered ones and applied, with every error of that. C35: which messages are accepted, that no argument is
    lost, and that all definitions build; \<open>toolbox_shapes_from_json\<close>: the shapes used above are the ones that \<open>jsonInit\<close> builds.
  \<^item> \<open>Names_Db\<close>: the names of variables, procedures and helper functions in generated code (\<open>Names\<close>,
    \<open>provideFunction_\<close>, the Lua generator's \<open>init\<close>). C37: names never clash.
  \<^item> \<open>Text_Helpers\<close>, \<open>List_Helpers\<close>: the Lua functions that the standard blocks bring into a program, as functions on
    texts, lists and numbers. C21: the prime test; C23, C25: the list helpers and the search in texts agree with their
    reference definitions; C36: joining what was split. Their behaviour on empty texts is in \<open>text_helpers_boundary\<close>.
  \<^item> \<open>Helper_Code\<close>: the texts of these functions as the generator writes them.
  \<^item> \<open>Std_Gen\<close>, \<open>Std_Blocks\<close>: every generator of lua\_compressed.js, as a computation on the state of the generator (the
    name database, the definitions, the helper functions), with the traversal and \<open>workspaceToCode\<close>.
  \<^item> \<open>Std_Names\<close>: the locale \<open>gen_state\<close> holds a relation that the operations on this state respect and shows that every
    generator and the traversal then respect it; it is interpreted on the growth of the name database (\<open>std\<close>).
  \<^item> \<open>Std_Total\<close>: C5: generation does not fail on what the editor can build; C19: the names in the program are unique and every
    helper function is defined once, under the name that is called.
  \<^item> \<open>Std_Shown\<close>, \<open>Std_Meaning\<close>: the expressions that 40 types of value block show, and C17: the code of every tree
    of them is read by Lua as its expression.
  \<^item> \<open>Devices_Table\<close>, \<open>Devices_Props\<close>: every function and listener of devices-table.js on a document of tables, rows and
    cells. \<open>Array.prototype.sort\<close> is met through the locale \<open>array_sort\<close> (a stable permutation, sorted when the comparison
    is an order), interpreted on an insertion sort. C18: bulk actions; C20: sorting, with the rounding of \<open>Number\<close> to doubles; C22: the choice of columns.
  \<^item> \<open>Service_Worker\<close>: the three listeners on an explicit cache storage, with the network as a parameter. C24, C26: what is cached and
    what is answered from the cache.
  \<^item> \<open>Mqtt_Page\<close>: the MQTT shell with all its sockets, as a step relation. C38: one live socket.
  \<^item> \<open>Chart_Card\<close>: the chart with its numbered requests, as a step relation. C40: the newest reply draws.

  \<^bold>\<open>Conventions.\<close> Texts are lists of bytes. JavaScript objects are records, listeners are functions from state to
  state, errors are values. Asynchronous code is a set of tasks under way in the state; replies arrive in any order and may
  fail, and the properties hold for all orders. Numbers in number fields are integers of tenths, which is
  the precision of the fields of the rule blocks; of the numbers that the standard block \<open>math_number\<close> can hold, those with
  more than one decimal, exponents and infinities are left out. A text that is loaded into a number field is converted when it is a
  plain decimal. Changing the case of letters is modelled for ASCII letters only (in the tables for Latin-1). Values that the code takes from its environment (fresh ids, the clock, replies, localized
  dates) are arguments.

  \<^bold>\<open>Loops.\<close> Everything terminates in the logic except three parts. The loops of the text helpers are partial functions
  whose value None is a loop that does not end; C25 and C36 show that they return when the text looked for is not empty. The
  parser of Lua expressions takes fuel; C3 and C17 give the result for all fuel from some number on. The scanner of messages calls itself on the message of a
  reference and would not return on a message that refers to itself. Its fuel is the depth of nested calls; C33
  shows that two are enough for the English messages on any text, and that more give the same result. The numbering loop of
  \<open>getDistinctName\<close> is a function with a termination proof: the names in use are finite. The polling of a command
  ends when the server says so or at a deadline; C32 counts only the replies that are not polls of a running command.

  \<^bold>\<open>Findings.\<close> Each is a lemma of the theory of its component.
  \<open>controls_if_breaks_scope\<close>, \<open>unsuited_handler_accepted\<close>: the editor accepts rules whose code fails on the device.
  \<open>throwing_generator_keeps_lock\<close>, \<open>standard_block_throws\<close>: a template with a standard block that is not in the toolbox can make
  the generator throw, and then the page keeps its lock. C12: battery rules with different limits share a cooldown.
  \<open>mixed_column_inconsistent\<close>: the comparison of a column with numbers and texts is cyclic. C35: one tooltip has a misspelt
  reference. \<open>unsubscribe_button_lost\<close>: the unsubscribe button can get lost. \<open>goto_is_given_out\<close>: the keyword
  \<open>goto\<close> is missing from the reserved words. \<open>text_helpers_boundary\<close>: replacing and splitting at the empty text do
  not end. \<open>removal_lacks_parentheses\<close>: removing from the end of a list at a place that is a sum removes another item.

  \<^bold>\<open>Not modelled.\<close> The Go server, which is in another language. Chart.js and htmx, which the pages only call. Of
  Blockly: rendering, dragging, the flyout, events and undo, the keyboard, which have no effect on the text that is generated;
  the mutator dialogues of lists, texts and procedures, which the toolbox does not offer, whose outcome (the number of items, the arguments of a procedure) is an input of the
  generators, and the tooltips and validators that extensions set. C17 covers the value blocks that generate one expression of operators and calls; left out are those that choose between
  a helper and an index by the text of an operand (\<open>lists_getIndex\<close>, \<open>lists_getSublist\<close>, \<open>text_charAt\<close>,
  \<open>text_getSubstring\<close>), \<open>lists_sort\<close>, \<open>text_trim\<close>, prompts, constants and number properties, multi-line texts and random colours;
  C5 and C19 cover these too. Of the rules page: the status bar, the list and deletion of templates,
  the text of the preview, that the listeners are added twice when the preview of a restored workspace throws, and, in C29 to C32, saved
  states and templates with standard blocks outside the toolbox, which the page itself does not produce. The rounding of the device's floating-point numbers.
\<close>

end
